(* ===== verification/Mio_Prelude.thy ===== *)
theory Mio_Prelude
  imports Main "HOL-Library.Word" "HOL-Library.Signed_Division" "HOL-Library.Monad_Syntax"
begin

text \<open>
  Shared material of the development: how C values are represented, the generic list, option
  and string lemmas, and the decimal conversions of the C library that libMIO uses.

  A C string (\<open>const char *\<close>) that is known not to be NULL is a \<open>string\<close>; a pointer that may be
  NULL is a \<open>string option\<close> (\<open>None\<close> is NULL). A result of type \<open>'a option\<close> of a modelled
  \<^emph>\<open>operation\<close> uses \<open>None\<close> for undefined behaviour: the C code dereferences NULL, hands NULL to
  a \<open>str*\<close> function or indexes an array out of bounds. The do-notation of
  \<^theory_text>\<open>HOL-Library.Monad_Syntax\<close> threads it. A NULL-terminated linked list is a HOL list.
\<close>

named_theorems mio_defs "definitions of the model that proofs unfold"
named_theorems mio_frame "what an operation leaves unchanged"

section \<open>C pointers to strings\<close>

type_synonym cptr = "string option"

text \<open>The C idiom \<open>if (new != NULL) { free(old); old = strdup(new); }\<close>.\<close>

definition c_overwrite :: "'a option \<Rightarrow> 'a option \<Rightarrow> 'a option" where
  "c_overwrite old new = (case new of None \<Rightarrow> old | Some v \<Rightarrow> Some v)"

lemma c_overwrite_simps [simp]:
  "c_overwrite old None = old"
  "c_overwrite old (Some v) = Some v"
  "c_overwrite None new = new"
  by (auto simp: c_overwrite_def split: option.splits)

lemma c_overwrite_idem [simp]: "c_overwrite (c_overwrite old new) new = c_overwrite old new"
  by (auto simp: c_overwrite_def split: option.splits)

lemma c_overwrite_assoc: "c_overwrite (c_overwrite a b) c = c_overwrite a (c_overwrite b c)"
  by (auto simp: c_overwrite_def split: option.splits)

text \<open>\<open>strcmp(a, b) == 0\<close>: undefined when either pointer is NULL.\<close>

definition c_streq :: "cptr \<Rightarrow> cptr \<Rightarrow> bool option" where
  "c_streq p q = do { a \<leftarrow> p; b \<leftarrow> q; Some (a = b) }"

lemma c_streq_simps [simp]:
  "c_streq (Some a) (Some b) = Some (a = b)"
  "c_streq None q = None"
  "c_streq p None = None"
  by (auto simp: c_streq_def split: Option.bind_splits)

section \<open>Linked lists\<close>

text \<open>
  The tail loop every list type of libMIO has:
  \<open>tail = NULL; while (p != NULL) { tail = p; p = p->next; } return tail;\<close>
\<close>

fun c_tail_loop :: "'a option \<Rightarrow> 'a list \<Rightarrow> 'a option" where
  "c_tail_loop tail [] = tail"
| "c_tail_loop tail (p # next) = c_tail_loop (Some p) next"

definition c_tail_get :: "'a list \<Rightarrow> 'a option" where
  "c_tail_get p = c_tail_loop None p"

lemma c_tail_loop_conv: "c_tail_loop t xs = (if xs = [] then t else Some (last xs))"
  by (induction xs arbitrary: t) auto

lemma c_tail_get_conv: "c_tail_get xs = (if xs = [] then None else Some (last xs))"
  by (simp add: c_tail_get_def c_tail_loop_conv)

text \<open>
  Writing through the tail pointer of a list: \<open>f\<close> is applied to the last element.
\<close>

definition c_update_last :: "('a \<Rightarrow> 'a) \<Rightarrow> 'a list \<Rightarrow> 'a list" where
  "c_update_last f xs = (if xs = [] then [] else butlast xs @ [f (last xs)])"

lemma c_update_last_snoc [simp]: "c_update_last f (xs @ [x]) = xs @ [f x]"
  by (simp add: c_update_last_def)

lemma c_update_last_single [simp]: "c_update_last f [x] = [f x]"
  using c_update_last_snoc [of f "[]" x] by simp

lemma c_update_last_Nil [simp]: "c_update_last f [] = []"
  by (simp add: c_update_last_def)

lemma length_c_update_last [simp]: "length (c_update_last f xs) = length xs"
  by (cases xs rule: rev_cases) auto

lemma sum_list_update_Suc:
  "i < length xs \<Longrightarrow> xs ! i = Suc m \<Longrightarrow> sum_list xs = Suc (sum_list (xs[i := m]))"
  by (induction xs arbitrary: i) (auto split: nat.splits)

lemma sum_list_update_to_Suc:
  "i < length xs \<Longrightarrow> sum_list (xs[i := Suc (xs ! i)]) = Suc (sum_list xs)"
  by (induction xs arbitrary: i) (auto split: nat.splits)

section \<open>Attribute lists\<close>

lemma map_of_filter_neq: "map_of (filter (\<lambda>p. fst p \<noteq> k) xs) k' = (if k' = k then None else map_of xs k')"
  by (induction xs) auto

lemma distinct_filter_fst: "distinct (map fst xs) \<Longrightarrow> distinct (map fst (filter P xs))"
  by (induction xs) auto

lemma filter_neq_notin: "k \<notin> fst ` set xs \<Longrightarrow> filter (\<lambda>p. fst p \<noteq> k) xs = xs"
  by (induction xs) auto

section \<open>Decimal conversions of the C library\<close>

text \<open>\<open>printf("%u")\<close> of a number and the digit loop of \<open>scanf\<close> and \<open>atoi\<close>.\<close>

definition c_digit :: "nat \<Rightarrow> char" where
  "c_digit n = char_of (48 + n)"

fun c_dec :: "nat \<Rightarrow> string" where
  "c_dec n = (if n < 10 then [c_digit n] else c_dec (n div 10) @ [c_digit (n mod 10)])"

declare c_dec.simps [simp del]

definition c_isdigit :: "char \<Rightarrow> bool" where
  "c_isdigit c \<longleftrightarrow> 48 \<le> (of_char c :: nat) \<and> (of_char c :: nat) \<le> 57"

fun c_scan_digits :: "nat \<Rightarrow> string \<Rightarrow> nat" where
  "c_scan_digits acc [] = acc"
| "c_scan_digits acc (c # cs) =
     (if c_isdigit c then c_scan_digits (10 * acc + (of_char c - 48)) cs else acc)"

definition c_isspace :: "char \<Rightarrow> bool" where
  "c_isspace c \<longleftrightarrow> (let n = of_char c :: nat in n = 32 \<or> (9 \<le> n \<and> n \<le> 13))"

lemma of_char_c_digit [simp]: "n < 10 \<Longrightarrow> of_char (c_digit n) = 48 + n"
  by (simp add: c_digit_def)

lemma c_isdigit_c_digit [simp]: "n < 10 \<Longrightarrow> c_isdigit (c_digit n)"
  by (simp add: c_isdigit_def)

lemma c_scan_digits_append:
  "\<forall>c \<in> set xs. c_isdigit c \<Longrightarrow> c_scan_digits acc (xs @ ys) = c_scan_digits (c_scan_digits acc xs) ys"
  by (induction xs arbitrary: acc) auto

lemma c_dec_digits: "\<forall>c \<in> set (c_dec n). c_isdigit c"
proof (induction n rule: c_dec.induct)
  case (1 n)
  then show ?case by (cases "n < 10") (auto simp: c_dec.simps [of n])
qed

lemma c_dec_not_Nil [simp]: "c_dec n \<noteq> []"
  by (subst c_dec.simps) simp

lemma c_scan_digits_c_dec: "c_scan_digits 0 (c_dec n) = n"
proof (induction n rule: c_dec.induct)
  case (1 n)
  show ?case
  proof (cases "n < 10")
    case True
    then show ?thesis by (simp add: c_dec.simps [of n])
  next
    case False
    with 1 have "c_scan_digits 0 (c_dec (n div 10)) = n div 10" by simp
    with False show ?thesis
      by (simp add: c_dec.simps [of n] c_scan_digits_append [OF c_dec_digits])
  qed
qed

lemma length_c_dec: "n < 10 ^ Suc k \<Longrightarrow> length (c_dec n) \<le> Suc k"
proof (induction k arbitrary: n)
  case 0
  then show ?case by (simp add: c_dec.simps [of n])
next
  case (Suc k)
  have "n div 10 < 10 ^ Suc k" using Suc.prems by (simp add: less_mult_imp_div_less)
  then have "length (c_dec (n div 10)) \<le> Suc k" by (rule Suc.IH)
  then show ?case by (simp add: c_dec.simps [of n])
qed

lemma hd_c_dec_digit: "c_isdigit (hd (c_dec n))"
  using c_dec_digits [of n] by (cases "c_dec n") auto

text \<open>
  \<open>sscanf(s, "%u", &x)\<close>: white space is skipped, an optional sign is read, then the digits.
  Without a digit \<open>x\<close> keeps its value. The library reads at 64 bits (saturating) and stores the
  low 32 bits into the \<open>int\<close> object the pointer names.
\<close>

definition c_to_int32 :: "int \<Rightarrow> int" where
  "c_to_int32 n = sint (word_of_int n :: 32 word)"

definition c_scan_u :: "string \<Rightarrow> int \<Rightarrow> int" where
  "c_scan_u s old =
     (let t = dropWhile c_isspace s;
          (neg, u) = (case t of [] \<Rightarrow> (False, [])
                      | c # cs \<Rightarrow> if c = CHR ''-'' then (True, cs)
                                  else if c = CHR ''+'' then (False, cs) else (False, t))
      in case u of [] \<Rightarrow> old
         | c # cs \<Rightarrow> if \<not> c_isdigit c then old
             else let n = int (min (c_scan_digits 0 u) (2 ^ 64 - 1))
                  in c_to_int32 (if neg then - n else n))"

text \<open>
  \<open>atoi(s)\<close> is \<open>(int) strtol(s, NULL, 10)\<close>: 0 without a digit, saturating at 64 bits, then
  the low 32 bits.
\<close>

definition c_atoi :: "string \<Rightarrow> int" where
  "c_atoi s =
     (let t = dropWhile c_isspace s;
          (neg, u) = (case t of [] \<Rightarrow> (False, [])
                      | c # cs \<Rightarrow> if c = CHR ''-'' then (True, cs)
                                  else if c = CHR ''+'' then (False, cs) else (False, t));
          n = int (c_scan_digits 0 u)
      in c_to_int32 (if neg then max (- n) (- (2 ^ 63)) else min n (2 ^ 63 - 1)))"

text \<open>\<open>snprintf(buf, size, "%u", x)\<close> for an \<open>int\<close> argument: its unsigned value, cut to the buffer.\<close>

definition c_snprintf_u :: "nat \<Rightarrow> int \<Rightarrow> string" where
  "c_snprintf_u sz x = take (sz - 1) (c_dec (nat (x mod 2 ^ 32)))"

lemma c_to_int32_small: "0 \<le> n \<Longrightarrow> n < 2 ^ 31 \<Longrightarrow> c_to_int32 n = n"
  by (simp add: c_to_int32_def int_word_sint)

lemma dec_head_cases:
  obtains c cs where "c_dec n = c # cs" "c_isdigit c" "\<not> c_isspace c" "c \<noteq> CHR ''-''" "c \<noteq> CHR ''+''"
proof -
  obtain c cs where eq: "c_dec n = c # cs" by (cases "c_dec n") auto
  then have d: "c_isdigit c" using hd_c_dec_digit [of n] by simp
  moreover have "\<not> c_isspace c" using d by (auto simp: c_isdigit_def c_isspace_def Let_def)
  moreover have "c \<noteq> CHR ''-''" "c \<noteq> CHR ''+''" using d by (auto simp: c_isdigit_def)
  ultimately show thesis using eq that by blast
qed

lemma c_scan_u_c_dec:
  assumes "n < 2 ^ 31"
  shows "c_scan_u (c_dec n) old = int n"
proof -
  obtain c cs where c: "c_dec n = c # cs" "c_isdigit c" "\<not> c_isspace c" "c \<noteq> CHR ''-''" "c \<noteq> CHR ''+''"
    by (rule dec_head_cases)
  have "c_scan_digits 0 (c # cs) = n" using c_scan_digits_c_dec [of n] c(1) by simp
  then have "c_scan_u (c_dec n) old = c_to_int32 (int (min n (2 ^ 64 - 1)))"
    using c by (simp add: c_scan_u_def Let_def del: c_scan_digits.simps)
  then show ?thesis using assms by (simp add: c_to_int32_small)
qed

text \<open>An \<open>int\<close> below ten million survives \<open>snprintf(id, 8, "%u")\<close> followed by \<open>sscanf("%u")\<close>.\<close>

lemma c_scan_u_snprintf:
  assumes "0 \<le> x" "x < 10 ^ 7"
  shows "c_scan_u (c_snprintf_u 8 x) old = x"
proof -
  have m: "x mod 2 ^ 32 = x" using assms by simp
  have "length (c_dec (nat x)) \<le> 7"
    using length_c_dec [of "nat x" 6] assms by (simp add: nat_less_iff)
  with m have "c_snprintf_u 8 x = c_dec (nat x)" by (simp add: c_snprintf_u_def)
  moreover have "nat x < 2 ^ 31" using assms by (simp add: nat_less_iff)
  ultimately show ?thesis using assms by (simp add: c_scan_u_c_dec)
qed

section \<open>ASCII strings\<close>

definition c_ascii :: "string \<Rightarrow> bool" where
  "c_ascii s \<longleftrightarrow> list_all (\<lambda>c. (of_char c :: nat) < 128) s"

end
