(* ===== verification/Strophe_Hash.thy ===== *)
theory Strophe_Hash
  imports Mio_Prelude
begin

unbundle bit_operations_syntax

text \<open>
  The hash table libstrophe keeps the attributes of a stanza in
  (\<^verbatim>\<open>src/libs/c/libstrophe/src/hash.c\<close>): the bucket function, adding, looking up and dropping a
  key, and the iterator by which a stanza's attributes are printed and copied. Reference counts
  and the allocator are not modelled; a table is a value.

  Shown: on ASCII keys the bucket index is inside the array; the table implements a finite map
  (an interpretation of the locale \<open>attr_store\<close>); the iterator enumerates all buckets but the
  last in full and of the last bucket only the first entry.
\<close>

section \<open>Data\<close>

type_synonym hashentry_t = "string \<times> string"

record hash_t =
  h_length :: int
  h_num_keys :: int
  h_entries :: "hashentry_t list list"

record hash_iterator_t =
  it_entry :: "hashentry_t list"  \<comment> \<open>the chain from the current entry on; [] is NULL\<close>
  it_index :: int

section \<open>Operations\<close>

definition hash_new :: "nat \<Rightarrow> hash_t" where
  "hash_new sz = \<lparr>h_length = int sz, h_num_keys = 0, h_entries = replicate sz []\<rparr>"

text \<open>A \<open>char\<close> converted to \<open>int\<close>; \<open>char\<close> is signed on the platforms the build targets.\<close>

definition c_schar :: "char \<Rightarrow> int" where
  "c_schar c = (let n = of_char c :: nat in if n < 128 then int n else int n - 256)"

fun hash_key_loop :: "string \<Rightarrow> nat \<Rightarrow> 32 word \<Rightarrow> 32 word" where
  "hash_key_loop [] shift hash = hash"
| "hash_key_loop (c # cs) shift hash =
     hash_key_loop cs (if shift + 8 > 24 then 0 else shift + 8)
       (hash XOR push_bit shift (word_of_int (c_schar c)))"

definition hash_key :: "int \<Rightarrow> string \<Rightarrow> int" where
  "hash_key len key = sint (hash_key_loop key 0 0) smod len"

text \<open>The array access \<open>table->entries[index]\<close>: undefined outside the array.\<close>

definition hash_bucket :: "hash_t \<Rightarrow> string \<Rightarrow> nat option" where
  "hash_bucket t key =
     (let i = hash_key (h_length t) key
      in if 0 \<le> i \<and> i < int (length (h_entries t)) then Some (nat i) else None)"

fun hash_chain_drop :: "string \<Rightarrow> hashentry_t list \<Rightarrow> hashentry_t list option" where
  "hash_chain_drop key [] = None"
| "hash_chain_drop key (e # next) =
     (if key = fst e then Some next else map_option (Cons e) (hash_chain_drop key next))"

definition hash_drop :: "hash_t \<Rightarrow> string \<Rightarrow> (int \<times> hash_t) option" where
  "hash_drop t key = do {
     i \<leftarrow> hash_bucket t key;
     (case hash_chain_drop key (h_entries t ! i) of
        None \<Rightarrow> Some (-1, t)
      | Some chain \<Rightarrow> Some (0, t\<lparr>h_entries := (h_entries t)[i := chain],
                              h_num_keys := h_num_keys t - 1\<rparr>)) }"

definition hash_add :: "hash_t \<Rightarrow> string \<Rightarrow> string \<Rightarrow> (int \<times> hash_t) option" where
  "hash_add t key data = do {
     i \<leftarrow> hash_bucket t key;
     (r, t') \<leftarrow> hash_drop t key;
     Some (0, t'\<lparr>h_entries := (h_entries t')[i := (key, data) # h_entries t' ! i],
               h_num_keys := h_num_keys t' + 1\<rparr>) }"

fun hash_chain_get :: "string \<Rightarrow> hashentry_t list \<Rightarrow> string option" where
  "hash_chain_get key [] = None"
| "hash_chain_get key (e # next) = (if key = fst e then Some (snd e) else hash_chain_get key next)"

definition hash_get :: "hash_t \<Rightarrow> string \<Rightarrow> cptr option" where
  "hash_get t key = do { i \<leftarrow> hash_bucket t key; Some (hash_chain_get key (h_entries t ! i)) }"

definition hash_num_keys :: "hash_t \<Rightarrow> int" where
  "hash_num_keys t = h_num_keys t"

definition hash_iter_new :: "hash_t \<Rightarrow> hash_iterator_t" where
  "hash_iter_new t = \<lparr>it_entry = [], it_index = -1\<rparr>"

text \<open>The search loop of \<open>hash_iter_next\<close>: the first non-empty bucket from \<open>i\<close> on.\<close>

function hash_iter_search :: "hashentry_t list list \<Rightarrow> nat \<Rightarrow> nat \<times> hashentry_t list" where
  "hash_iter_search es i =
     (if i < length es then (if es ! i \<noteq> [] then (i, es ! i) else hash_iter_search es (Suc i))
      else (i, []))"
  by pat_completeness auto
termination
  by (relation "measure (\<lambda>(es, i). length es - i)") auto

declare hash_iter_search.simps [simp del]

definition hash_iter_next :: "hash_t \<Rightarrow> hash_iterator_t \<Rightarrow> string option \<times> hash_iterator_t" where
  "hash_iter_next t iter =
     (let i0 = it_index iter + 1;
          entry0 = (case it_entry iter of [] \<Rightarrow> [] | _ # next \<Rightarrow> next);
          (i, entry) = (if entry0 = []
                        then (case hash_iter_search (h_entries t) (nat i0) of (j, e) \<Rightarrow> (int j, e))
                        else (i0, entry0));
          iter' = (if entry0 = [] \<and> entry \<noteq> [] then iter\<lparr>it_index := i\<rparr> else iter)
      in if entry = [] \<or> i \<ge> h_length t then (None, iter')
         else (Some (fst (hd entry)), iter'\<lparr>it_entry := entry\<rparr>))"

section \<open>The bucket index\<close>

lemma c_schar_ascii: "(of_char c :: nat) < 128 \<Longrightarrow> 0 \<le> c_schar c \<and> c_schar c < 128"
  by (simp add: c_schar_def)

lemma bit_small_word: "0 \<le> n \<Longrightarrow> n < 128 \<Longrightarrow> 7 \<le> m \<Longrightarrow> \<not> bit (word_of_int n :: 32 word) m"
proof -
  assume n: "0 \<le> n" "n < 128" and m: "7 \<le> m"
  have "n = take_bit 7 n" using n by (simp add: take_bit_int_eq_self)
  then have "\<not> bit n m" using m by (metis bit_take_bit_iff leD)
  then show ?thesis by (simp add: bit_simps)
qed

lemma hash_key_loop_bit31:
  assumes "c_ascii key" "\<not> bit h 31" "shift \<le> 24"
  shows "\<not> bit (hash_key_loop key shift h) 31"
  using assms
proof (induction key arbitrary: shift h)
  case Nil
  then show ?case by simp
next
  case (Cons c cs)
  have c: "(of_char c :: nat) < 128" and cs: "c_ascii cs" using Cons.prems(1) by (auto simp: c_ascii_def)
  have "\<not> bit (word_of_int (c_schar c) :: 32 word) (31 - shift)"
    using c_schar_ascii [OF c] Cons.prems(3) by (intro bit_small_word) auto
  then have "\<not> bit (h XOR push_bit shift (word_of_int (c_schar c))) 31"
    using Cons.prems(2) by (simp add: bit_xor_iff bit_push_bit_iff)
  with Cons.IH [OF cs] Cons.prems(3) show ?case by simp
qed

lemma hash_key_ascii:
  assumes "c_ascii key" "0 < len"
  shows "0 \<le> hash_key len key \<and> hash_key len key < len"
proof -
  let ?h = "hash_key_loop key 0 0"
  have "\<not> bit ?h 31" using hash_key_loop_bit31 [OF assms(1), of 0 0] by simp
  then have "0 \<le> sint ?h" using bit_last_iff [of ?h] by simp
  with assms(2) show ?thesis
    by (simp add: hash_key_def signed_modulo_int_def signed_divide_int_def minus_mult_div_eq_mod sgn_if)
qed


text \<open>The attribute names libMIO writes are ASCII, and fall into these buckets of a table of 8.\<close>

lemma hash_bucket_ascii:
  assumes "c_ascii key" "h_length t = int (length (h_entries t))" "h_entries t \<noteq> []"
  shows "hash_bucket t key = Some (nat (hash_key (h_length t) key))"
  using hash_key_ascii [OF assms(1), of "h_length t"] assms(2,3)
  by (simp add: hash_bucket_def Let_def)

section \<open>The table implements a finite map\<close>

definition hash_chain_ok :: "int \<Rightarrow> int \<Rightarrow> hashentry_t list \<Rightarrow> bool" where
  "hash_chain_ok len i chain \<longleftrightarrow>
     distinct (map fst chain) \<and> list_all (\<lambda>e. hash_key len (fst e) = i) chain"

definition hash_wf :: "hash_t \<Rightarrow> bool" where
  "hash_wf t \<longleftrightarrow>
     h_entries t \<noteq> [] \<and> h_length t = int (length (h_entries t)) \<and>
     (\<forall>i < length (h_entries t). hash_chain_ok (h_length t) (int i) (h_entries t ! i)) \<and>
     h_num_keys t = int (sum_list (map length (h_entries t)))"

definition hash_lookup :: "hash_t \<Rightarrow> string \<Rightarrow> string option" where
  "hash_lookup t key = Option.bind (hash_get t key) (\<lambda>r. r)"

lemma hash_wf_nonempty: "hash_wf t \<Longrightarrow> h_entries t \<noteq> []"
  by (simp add: hash_wf_def)

lemma hash_chain_get_map_of: "hash_chain_get k chain = map_of chain k"
  by (induction chain) auto

lemma hash_chain_drop_None: "hash_chain_drop k chain = None \<longleftrightarrow> k \<notin> fst ` set chain"
  by (induction chain) auto

lemma hash_chain_drop_Some:
  "distinct (map fst chain) \<Longrightarrow> hash_chain_drop k chain = Some chain' \<Longrightarrow>
     chain' = filter (\<lambda>e. fst e \<noteq> k) chain \<and> length chain = Suc (length chain')"
proof (induction chain arbitrary: chain')
  case Nil
  then show ?case by simp
next
  case (Cons e es)
  show ?case
  proof (cases "k = fst e")
    case True
    then have "filter (\<lambda>e. fst e \<noteq> k) es = es"
      using Cons.prems(1) by (intro filter_neq_notin) auto
    with True Cons.prems show ?thesis by auto
  next
    case False
    with Cons.prems obtain es' where "hash_chain_drop k es = Some es'" "chain' = e # es'" by auto
    with Cons False show ?thesis by auto
  qed
qed

lemma hash_chain_ok_filter: "hash_chain_ok len i chain \<Longrightarrow> hash_chain_ok len i (filter P chain)"
  by (auto simp: hash_chain_ok_def distinct_filter_fst list_all_iff)

lemma hash_new_wf: "0 < n \<Longrightarrow> hash_wf (hash_new n)"
  by (simp add: hash_wf_def hash_new_def hash_chain_ok_def sum_list_replicate)

lemma hash_lookup_new: "hash_lookup (hash_new n) k = None"
  by (auto simp: hash_lookup_def hash_get_def hash_new_def hash_bucket_def Let_def
      nat_less_iff split: Option.bind_splits)

text \<open>What dropping a key does to the bucket of the key.\<close>

lemma hash_drop_spec:
  assumes "hash_wf t" "hash_bucket t k = Some i"
  shows "\<exists>r n. hash_drop t k =
           Some (r, t\<lparr>h_entries := (h_entries t)[i := filter (\<lambda>e. fst e \<noteq> k) (h_entries t ! i)],
                     h_num_keys := n\<rparr>)
         \<and> n = int (sum_list (map length ((h_entries t)[i := filter (\<lambda>e. fst e \<noteq> k) (h_entries t ! i)])))"
proof -
  let ?c = "h_entries t ! i"
  have i: "i < length (h_entries t)"
    using assms(2) by (auto simp: hash_bucket_def Let_def nat_less_iff split: if_splits)
  have d: "distinct (map fst ?c)" using assms(1) i by (auto simp: hash_wf_def hash_chain_ok_def)
  show ?thesis
  proof (cases "hash_chain_drop k ?c")
    case None
    then have "filter (\<lambda>e. fst e \<noteq> k) ?c = ?c"
      by (intro filter_neq_notin) (simp add: hash_chain_drop_None)
    with None assms show ?thesis by (auto simp: hash_drop_def hash_wf_def)
  next
    case (Some c')
    have c': "c' = filter (\<lambda>e. fst e \<noteq> k) ?c" "length ?c = Suc (length c')"
      using hash_chain_drop_Some [OF d Some] by auto
    have "sum_list (map length (h_entries t)) = Suc (sum_list ((map length (h_entries t))[i := length c']))"
      using c'(2) i by (intro sum_list_update_Suc) auto
    with Some c' assms show ?thesis by (simp add: hash_drop_def hash_wf_def map_update)
  qed
qed


lemma hash_bucket_bound: "hash_bucket t k = Some i \<Longrightarrow> i < length (h_entries t) \<and> hash_key (h_length t) k = int i"
  by (auto simp: hash_bucket_def Let_def nat_less_iff split: if_splits)

lemma hash_lookup_bucket:
  "hash_bucket t k = Some i \<Longrightarrow> hash_lookup t k = map_of (h_entries t ! i) k"
  by (simp add: hash_lookup_def hash_get_def hash_chain_get_map_of)

text \<open>What adding a key does: the old entry goes, the new one becomes the head of its chain.\<close>

definition hash_put :: "hash_t \<Rightarrow> nat \<Rightarrow> string \<Rightarrow> string \<Rightarrow> hashentry_t list list" where
  "hash_put t i k v = (h_entries t)[i := (k, v) # filter (\<lambda>e. fst e \<noteq> k) (h_entries t ! i)]"

lemma hash_add_spec:
  assumes "hash_wf t" "hash_bucket t k = Some i"
  shows "hash_add t k v = Some (0, t\<lparr>h_entries := hash_put t i k v,
           h_num_keys := int (sum_list (map length (hash_put t i k v)))\<rparr>)"
proof -
  let ?f = "filter (\<lambda>e. fst e \<noteq> k) (h_entries t ! i)"
  let ?E = "(h_entries t)[i := ?f]"
  have i: "i < length (h_entries t)" using hash_bucket_bound [OF assms(2)] by simp
  obtain r n where d: "hash_drop t k = Some (r, t\<lparr>h_entries := ?E, h_num_keys := n\<rparr>)"
    and n: "n = int (sum_list (map length ?E))"
    using hash_drop_spec [OF assms] by blast
  have "sum_list ((map length ?E)[i := Suc (map length ?E ! i)]) = Suc (sum_list (map length ?E))"
    using i by (intro sum_list_update_to_Suc) simp
  then have "int (sum_list (map length (hash_put t i k v))) = n + 1"
    using i n by (simp add: hash_put_def map_update)
  then show ?thesis using assms(2) d i by (simp add: hash_add_def hash_put_def)
qed

lemma hash_add_wf:
  assumes wf: "hash_wf t" and b: "hash_bucket t k = Some i"
  shows "hash_wf (t\<lparr>h_entries := hash_put t i k v, h_num_keys := int (sum_list (map length (hash_put t i k v)))\<rparr>)"
proof -
  have i: "i < length (h_entries t)" "hash_key (h_length t) k = int i" using hash_bucket_bound [OF b] by auto
  have ok: "hash_chain_ok (h_length t) (int j) (h_entries t ! j)" if "j < length (h_entries t)" for j
    using wf that by (auto simp: hash_wf_def)
  have "hash_chain_ok (h_length t) (int j) (hash_put t i k v ! j)" if "j < length (h_entries t)" for j
    using that hash_chain_ok_filter [OF ok [OF that], of "\<lambda>e. fst e \<noteq> k"] ok [OF that] i
    by (cases "j = i") (auto simp: hash_put_def hash_chain_ok_def)
  then show ?thesis using wf by (auto simp: hash_wf_def hash_put_def)
qed

lemma hash_lookup_add:
  assumes wf: "hash_wf t" and b: "hash_bucket t k = Some i" and a: "hash_add t k v = Some (r, t')"
  shows "hash_lookup t' k' = (if k' = k then Some v else hash_lookup t k')"
proof -
  have t': "h_entries t' = hash_put t i k v" "h_length t' = h_length t"
    using a hash_add_spec [OF wf b, of v] by auto
  have i: "i < length (h_entries t)" using hash_bucket_bound [OF b] by simp
  have same: "hash_bucket t' x = hash_bucket t x" for x
    by (simp add: hash_bucket_def t' hash_put_def)
  show ?thesis
  proof (cases "hash_bucket t k'")
    case None
    with b show ?thesis by (auto simp: hash_lookup_def hash_get_def same)
  next
    case (Some j)
    then have "hash_lookup t' k' = map_of (hash_put t i k v ! j) k'"
      using same t' by (simp add: hash_lookup_bucket)
    also have "\<dots> = (if k' = k then Some v else map_of (h_entries t ! j) k')"
      using i Some b by (cases "j = i") (auto simp: hash_put_def map_of_filter_neq)
    finally show ?thesis using Some by (simp add: hash_lookup_bucket)
  qed
qed

section \<open>The interface the stanza code relies on\<close>

text \<open>
  A store of attributes: a new store is empty, and setting an admissible key succeeds and
  overwrites exactly that key. Setting a list of attributes one after the other therefore gives
  the map of the reversed list.
\<close>

locale attr_store =
  fixes new_store :: 't
    and add :: "'t \<Rightarrow> string \<Rightarrow> string \<Rightarrow> (int \<times> 't) option"
    and lookup :: "'t \<Rightarrow> string \<Rightarrow> string option"
    and invar :: "'t \<Rightarrow> bool"
    and admissible :: "string \<Rightarrow> bool"
  assumes invar_new: "invar new_store"
    and lookup_new: "lookup new_store k = None"
    and add_ok: "invar t \<Longrightarrow> admissible k \<Longrightarrow>
      \<exists>t'. add t k v = Some (0, t') \<and> invar t' \<and> lookup t' = (lookup t)(k \<mapsto> v)"
begin

primrec add_all :: "'t \<Rightarrow> (string \<times> string) list \<Rightarrow> 't option" where
  "add_all t [] = Some t"
| "add_all t (kv # kvs) = do { (r, t') \<leftarrow> add t (fst kv) (snd kv); add_all t' kvs }"

lemma add_all_ok:
  "invar t \<Longrightarrow> list_all (\<lambda>kv. admissible (fst kv)) kvs \<Longrightarrow>
     \<exists>t'. add_all t kvs = Some t' \<and> invar t' \<and> lookup t' = lookup t ++ map_of (rev kvs)"
proof (induction kvs arbitrary: t)
  case Nil
  then show ?case by simp
next
  case (Cons kv kvs)
  obtain t1 where t1: "add t (fst kv) (snd kv) = Some (0, t1)" "invar t1"
    "lookup t1 = (lookup t)(fst kv \<mapsto> snd kv)"
    using add_ok [OF Cons.prems(1), of "fst kv" "snd kv"] Cons.prems(2) by auto
  from Cons.IH [OF t1(2)] Cons.prems(2)
  obtain t2 where "add_all t1 kvs = Some t2" "invar t2" "lookup t2 = lookup t1 ++ map_of (rev kvs)"
    by auto
  with t1 show ?case by (cases kv) (auto simp: map_add_def fun_eq_iff split: option.splits)
qed

lemma build_lookup:
  assumes "list_all (\<lambda>kv. admissible (fst kv)) kvs"
  obtains t where "add_all new_store kvs = Some t" "invar t" "lookup t = map_of (rev kvs)"
proof -
  have "lookup new_store = Map.empty" by (simp add: lookup_new fun_eq_iff)
  with add_all_ok [OF invar_new assms] show thesis using that by auto
qed

end

text \<open>The code allocates attribute tables with 8 buckets.\<close>

definition hash_wf8 :: "hash_t \<Rightarrow> bool" where
  "hash_wf8 t \<longleftrightarrow> hash_wf t \<and> h_length t = 8"

lemma hash_wf8_bucket: "hash_wf8 t \<Longrightarrow> c_ascii k \<Longrightarrow> hash_bucket t k = Some (nat (hash_key 8 k))"
  using hash_bucket_ascii [of k t] by (auto simp: hash_wf8_def hash_wf_def)

lemma hash_add_ok:
  assumes "hash_wf8 t" "c_ascii k"
  shows "\<exists>t'. hash_add t k v = Some (0, t') \<and> hash_wf8 t' \<and> hash_lookup t' = (hash_lookup t)(k \<mapsto> v)"
proof -
  have b: "hash_bucket t k = Some (nat (hash_key 8 k))" by (rule hash_wf8_bucket [OF assms])
  have wf: "hash_wf t" using assms(1) by (simp add: hash_wf8_def)
  note sp = hash_add_spec [OF wf b, of v]
  from hash_lookup_add [OF wf b sp] hash_add_wf [OF wf b, of v] sp assms(1) show ?thesis
    by (auto simp: hash_wf8_def fun_eq_iff)
qed

interpretation attrs8: attr_store "hash_new 8" hash_add hash_lookup hash_wf8 c_ascii
proof unfold_locales
  show "hash_wf8 (hash_new 8)" using hash_new_wf [of 8] by (simp add: hash_wf8_def) (simp add: hash_new_def)
  show "hash_lookup (hash_new 8) k = None" for k by (rule hash_lookup_new)
  show "\<exists>t'. hash_add t k v = Some (0, t') \<and> hash_wf8 t' \<and> hash_lookup t' = (hash_lookup t)(k \<mapsto> v)"
    if "hash_wf8 t" "c_ascii k" for t k v using that by (rule hash_add_ok)
qed


section \<open>The iterator\<close>

text \<open>
  \<open>while ((key = hash_iter_next(iter)))\<close>: every key the iterator yields. The measure is the
  number of entries not yet visited.
\<close>

definition hash_iter_left :: "hash_t \<Rightarrow> hash_iterator_t \<Rightarrow> nat" where
  "hash_iter_left t iter =
     length (tl (it_entry iter)) + sum_list (map length (drop (nat (it_index iter + 1)) (h_entries t)))"

lemma hash_iter_search_le: "i \<le> fst (hash_iter_search es i)"
proof (induction es i rule: hash_iter_search.induct)
  case (1 es i)
  then show ?case by (subst hash_iter_search.simps) (auto split: if_splits)
qed

lemma hash_iter_search_found:
  "snd (hash_iter_search es i) \<noteq> [] \<Longrightarrow>
     fst (hash_iter_search es i) < length es \<and>
     snd (hash_iter_search es i) = es ! fst (hash_iter_search es i)"
proof (induction es i rule: hash_iter_search.induct)
  case (1 es i)
  then show ?case by (subst hash_iter_search.simps) (auto simp: hash_iter_search.simps [of es i] split: if_splits)
qed

lemma sum_list_drop_mono: "i \<le> j \<Longrightarrow> sum_list (drop j (xs :: nat list)) \<le> sum_list (drop i xs)"
proof -
  assume "i \<le> j"
  then have "drop i xs = take (j - i) (drop i xs) @ drop j xs"
    by (metis append_take_drop_id drop_drop le_add_diff_inverse2)
  then show ?thesis by (metis le_add2 sum_list_append)
qed

lemma sum_list_drop_nth: "i < length xs \<Longrightarrow> sum_list (drop i xs) = xs ! i + sum_list (drop (Suc i) (xs :: nat list))"
  by (simp flip: Cons_nth_drop_Suc)

lemma hash_iter_left_decreases:
  assumes "hash_iter_next t iter = (Some k, iter')" "-1 \<le> it_index iter"
  shows "hash_iter_left t iter' < hash_iter_left t iter \<and> -1 \<le> it_index iter'"
proof (cases "tl (it_entry iter) = []")
  case True
  let ?i = "nat (it_index iter + 1)"
  let ?j = "fst (hash_iter_search (h_entries t) ?i)" and ?c = "snd (hash_iter_search (h_entries t) ?i)"
  from True have e: "(case it_entry iter of [] \<Rightarrow> [] | _ # next \<Rightarrow> next) = []"
    by (cases "it_entry iter") auto
  have ne: "?c \<noteq> []" and it: "iter' = iter\<lparr>it_index := int ?j, it_entry := ?c\<rparr>"
    using assms(1) unfolding hash_iter_next_def Let_def e by (auto split: prod.splits if_splits)
  have j: "?j < length (h_entries t)" "?c = h_entries t ! ?j" using hash_iter_search_found [OF ne] by auto
  have "sum_list (drop ?j (map length (h_entries t))) =
        length ?c + sum_list (drop (Suc ?j) (map length (h_entries t)))"
    using j sum_list_drop_nth [of ?j "map length (h_entries t)"] by simp
  moreover have "sum_list (drop ?j (map length (h_entries t))) \<le> sum_list (drop ?i (map length (h_entries t)))"
    by (rule sum_list_drop_mono) (rule hash_iter_search_le)
  moreover have "0 < length ?c" using ne by simp
  moreover have "hash_iter_left t iter' = length ?c - 1 + sum_list (drop (Suc ?j) (map length (h_entries t)))"
    using it by (simp add: hash_iter_left_def drop_map nat_add_distrib)
  moreover have "hash_iter_left t iter = sum_list (drop ?i (map length (h_entries t)))"
    using True by (simp add: hash_iter_left_def drop_map)
  ultimately have "hash_iter_left t iter' < hash_iter_left t iter" by linarith
  then show ?thesis using it by simp
next
  case False
  then obtain e es where es: "it_entry iter = e # es" "es \<noteq> []" by (cases "it_entry iter") auto
  then have "iter' = iter\<lparr>it_entry := es\<rparr>"
    using assms(1) by (auto simp: hash_iter_next_def Let_def split: if_splits)
  with es assms(2) show ?thesis by (auto simp: hash_iter_left_def)
qed

text \<open>The loop is bounded by the entries left, so it is defined by recursion over that number.\<close>

fun hash_iter_loop :: "nat \<Rightarrow> hash_t \<Rightarrow> hash_iterator_t \<Rightarrow> string list" where
  "hash_iter_loop 0 t iter = []"
| "hash_iter_loop (Suc n) t iter =
     (case hash_iter_next t iter of (None, _) \<Rightarrow> [] | (Some k, iter') \<Rightarrow> k # hash_iter_loop n t iter')"

definition hash_iter_keys :: "hash_t \<Rightarrow> string list" where
  "hash_iter_keys t = hash_iter_loop (Suc (hash_iter_left t (hash_iter_new t))) t (hash_iter_new t)"


text \<open>
  What the iterator yields: every bucket but the last in full, and the first entry of the last.
  (In the last bucket \<open>iter->index + 1\<close> equals the table's length, so the end test
  \<open>i >= table->length\<close> ends the iteration while entries of that chain are left.)
\<close>

definition hash_iter_rest :: "hashentry_t list list \<Rightarrow> nat \<Rightarrow> hashentry_t list" where
  "hash_iter_rest es i = concat (drop i (butlast es)) @ (if i < length es then take 1 (last es) else [])"

lemma hash_iter_rest_step:
  "Suc i < length es \<Longrightarrow> hash_iter_rest es i = es ! i @ hash_iter_rest es (Suc i)"
  "Suc i = length es \<Longrightarrow> hash_iter_rest es i = take 1 (es ! i)"
  "length es \<le> i \<Longrightarrow> hash_iter_rest es i = []"
proof -
  assume i: "Suc i < length es"
  then have "drop i (butlast es) = es ! i # drop (Suc i) (butlast es)"
    by (metis Cons_nth_drop_Suc length_butlast less_diff_conv nth_butlast Suc_eq_plus1)
  with i show "hash_iter_rest es i = es ! i @ hash_iter_rest es (Suc i)"
    by (simp add: hash_iter_rest_def)
next
  assume i: "Suc i = length es"
  then have "last es = es ! i" by (metis diff_Suc_1 last_conv_nth length_0_conv nat.distinct(1))
  with i show "hash_iter_rest es i = take 1 (es ! i)" by (simp add: hash_iter_rest_def)
next
  assume "length es \<le> i"
  then show "hash_iter_rest es i = []" by (simp add: hash_iter_rest_def)
qed

definition hash_iter_from :: "hashentry_t list list \<Rightarrow> nat \<Rightarrow> hashentry_t list \<Rightarrow> hashentry_t list" where
  \<comment> \<open>what is left when the iterator stands on the head of \<open>chain\<close> in bucket \<open>j\<close>\<close>
  "hash_iter_from es j chain = (if Suc j = length es then [] else tl chain @ hash_iter_rest es (Suc j))"

lemma hash_iter_search_rest:
  "hash_iter_rest es i =
     (case hash_iter_search es i of (j, c) \<Rightarrow> if c = [] then [] else hd c # hash_iter_from es j c)"
proof (induction es i rule: hash_iter_search.induct)
  case (1 es i)
  consider (hit) "i < length es" "es ! i \<noteq> []" | (miss) "i < length es" "es ! i = []" | (out) "length es \<le> i"
    by linarith
  then show ?case
  proof cases
    case hit
    then obtain e c where ec: "es ! i = e # c" by (cases "es ! i") auto
    show ?thesis
    proof (cases "Suc i = length es")
      case True
      with ec show ?thesis
        by (simp add: hash_iter_search.simps [of es i] hash_iter_rest_step(2) hash_iter_from_def)
    next
      case False
      with hit ec show ?thesis
        by (simp add: hash_iter_search.simps [of es i] hash_iter_rest_step(1) hash_iter_from_def)
    qed
  next
    case miss
    then have "hash_iter_rest es i = hash_iter_rest es (Suc i)"
      using hash_iter_rest_step by (metis Suc_leI append_Nil le_neq_implies_less le_refl take_Nil)
    with miss 1 show ?thesis by (simp add: hash_iter_search.simps [of es i])
  next
    case out
    then show ?thesis by (simp add: hash_iter_search.simps [of es i] hash_iter_rest_step(3))
  qed
qed

lemma hash_iter_loop_eq:
  assumes len: "h_length t = int (length (h_entries t))"
  shows "hash_iter_left t \<lparr>it_entry = c, it_index = int j\<rparr> < n \<Longrightarrow> c \<noteq> [] \<Longrightarrow> j < length (h_entries t) \<Longrightarrow>
     hash_iter_loop n t \<lparr>it_entry = c, it_index = int j\<rparr> = map fst (hash_iter_from (h_entries t) j c)"
proof (induction n arbitrary: c j)
  case 0
  then show ?case by simp
next
  case (Suc n)
  let ?it = "\<lparr>it_entry = c, it_index = int j\<rparr>" and ?es = "h_entries t"
  obtain e r where c: "c = e # r" using Suc.prems(2) by (cases c) auto
  have dec: "hash_iter_left t it' < n" if "hash_iter_next t ?it = (Some k, it')" for k it'
    using hash_iter_left_decreases [OF that] Suc.prems(1) by simp
  show ?case
  proof (cases "r = []")
    case True
    obtain j' c' where s: "hash_iter_search ?es (Suc j) = (j', c')" by (cases "hash_iter_search ?es (Suc j)")
    have rest: "hash_iter_rest ?es (Suc j) = (if c' = [] then [] else hd c' # hash_iter_from ?es j' c')"
      using hash_iter_search_rest [of ?es "Suc j"] s by simp
    have fr: "hash_iter_from ?es j c = hash_iter_rest ?es (Suc j)"
      using True c hash_iter_rest_step(3) [of ?es "length ?es"] by (simp add: hash_iter_from_def)
    have j1: "nat (int j + 1) = Suc j" by simp
    show ?thesis
    proof (cases "c' = []")
      case True
      with s c \<open>r = []\<close> have "hash_iter_next t ?it = (None, ?it)"
        by (simp add: hash_iter_next_def Let_def j1)
      with True fr rest show ?thesis by simp
    next
      case False
      then have j': "j' < length ?es" using hash_iter_search_found [of ?es "Suc j"] s by simp
      have nx: "hash_iter_next t ?it = (Some (fst (hd c')), \<lparr>it_entry = c', it_index = int j'\<rparr>)"
        using s c \<open>r = []\<close> False j' len by (simp add: hash_iter_next_def Let_def j1)
      with Suc.IH [OF dec [OF nx] False j'] False fr rest show ?thesis by simp
    qed
  next
    case False
    show ?thesis
    proof (cases "Suc j = length ?es")
      case True
      then have "hash_iter_next t ?it = (None, ?it)"
        using c False len by (auto simp: hash_iter_next_def Let_def)
      with True show ?thesis by (simp add: hash_iter_from_def)
    next
      case neq: False
      have nx: "hash_iter_next t ?it = (Some (fst (hd r)), \<lparr>it_entry = r, it_index = int j\<rparr>)"
        using c False len neq Suc.prems(3) by (auto simp: hash_iter_next_def Let_def)
      with Suc.IH [OF dec [OF nx] False Suc.prems(3)] neq c False show ?thesis
        by (cases r) (auto simp: hash_iter_from_def)
    qed
  qed
qed


lemma hash_iter_keys_eq:
  assumes len: "h_length t = int (length (h_entries t))"
  shows "hash_iter_keys t = map fst (hash_iter_rest (h_entries t) 0)"
proof -
  let ?it = "hash_iter_new t" and ?es = "h_entries t"
  obtain j c where s: "hash_iter_search ?es 0 = (j, c)" by (cases "hash_iter_search ?es 0")
  have rest: "hash_iter_rest ?es 0 = (if c = [] then [] else hd c # hash_iter_from ?es j c)"
    using hash_iter_search_rest [of ?es 0] s by simp
  show ?thesis
  proof (cases "c = []")
    case True
    with s have "hash_iter_next t ?it = (None, ?it)"
      by (simp add: hash_iter_next_def hash_iter_new_def Let_def)
    with True rest show ?thesis by (simp add: hash_iter_keys_def)
  next
    case False
    then have j: "j < length ?es" using hash_iter_search_found [of ?es 0] s by simp
    have nx: "hash_iter_next t ?it = (Some (fst (hd c)), \<lparr>it_entry = c, it_index = int j\<rparr>)"
      using s False j len by (simp add: hash_iter_next_def hash_iter_new_def Let_def)
    have "hash_iter_left t \<lparr>it_entry = c, it_index = int j\<rparr> < hash_iter_left t ?it"
      using hash_iter_left_decreases [OF nx] by (simp add: hash_iter_new_def)
    from hash_iter_loop_eq [OF len this False j] nx False rest show ?thesis
      by (simp add: hash_iter_keys_def)
  qed
qed

text \<open>The attributes as the printing and copying loops see them: each key with \<open>hash_get\<close> of it.\<close>

definition hash_iter_pairs :: "hash_t \<Rightarrow> (string \<times> string) list" where
  "hash_iter_pairs t = map (\<lambda>k. (k, the (hash_lookup t k))) (hash_iter_keys t)"

definition hash_last_bucket :: "hash_t \<Rightarrow> hashentry_t list" where
  "hash_last_bucket t = last (h_entries t)"

lemma hash_wf_entry_lookup:
  assumes "hash_wf t" "i < length (h_entries t)" "(k, v) \<in> set (h_entries t ! i)"
  shows "hash_lookup t k = Some v"
proof -
  have ok: "hash_chain_ok (h_length t) (int i) (h_entries t ! i)" using assms(1,2) by (auto simp: hash_wf_def)
  have "hash_key (h_length t) k = int i" using ok assms(3) by (auto simp: hash_chain_ok_def list_all_iff)
  then have "hash_bucket t k = Some i" using assms(2) by (simp add: hash_bucket_def Let_def)
  then have "hash_lookup t k = map_of (h_entries t ! i) k" by (rule hash_lookup_bucket)
  also have "\<dots> = Some v" using ok assms(3) by (simp add: hash_chain_ok_def)
  finally show ?thesis .
qed

lemma set_hash_iter_rest:
  "set (hash_iter_rest es 0) \<subseteq> (\<Union>i < length es. set (es ! i))"
proof
  fix x assume "x \<in> set (hash_iter_rest es 0)"
  then consider "x \<in> set (concat (butlast es))" | "es \<noteq> []" "x \<in> set (take 1 (last es))"
    by (auto simp: hash_iter_rest_def split: if_splits)
  then show "x \<in> (\<Union>i < length es. set (es ! i))"
  proof cases
    case 1
    then obtain c where "c \<in> set es" "x \<in> set c" by (auto dest: in_set_butlastD)
    then show ?thesis by (auto simp: in_set_conv_nth)
  next
    case 2
    then have "last es = es ! (length es - 1)" "length es - 1 < length es" by (auto simp: last_conv_nth)
    with 2 show ?thesis by (metis UN_I in_set_takeD lessThan_iff)
  qed
qed

lemma hash_iter_pairs_eq: "hash_wf t \<Longrightarrow> hash_iter_pairs t = hash_iter_rest (h_entries t) 0"
proof -
  assume wf: "hash_wf t"
  have "hash_iter_keys t = map fst (hash_iter_rest (h_entries t) 0)"
    using wf by (intro hash_iter_keys_eq) (simp add: hash_wf_def)
  moreover have "(fst e, the (hash_lookup t (fst e))) = e" if "e \<in> set (hash_iter_rest (h_entries t) 0)" for e
    using that set_hash_iter_rest [of "h_entries t"] hash_wf_entry_lookup [OF wf, of _ "fst e" "snd e"]
    by fastforce
  ultimately show ?thesis by (simp add: hash_iter_pairs_def map_idI)
qed


text \<open>Together with the entries the iterator skips, the pairs are all entries of the table.\<close>

lemma hash_iter_rest_complete:
  "es \<noteq> [] \<Longrightarrow> hash_iter_rest es 0 @ tl (last es) = concat es"
proof (cases es rule: rev_cases)
  case (snoc ys y)
  moreover have "take (Suc 0) y @ tl y = y" by (cases y) auto
  ultimately show ?thesis by (simp add: hash_iter_rest_def)
qed simp

lemma concat_map_of_lookup:
  assumes "hash_wf t"
  shows "map_of (concat (h_entries t)) k = hash_lookup t k"
proof (cases "map_of (concat (h_entries t)) k")
  case (Some v)
  then obtain c where "c \<in> set (h_entries t)" "(k, v) \<in> set c" by (auto dest!: map_of_SomeD)
  then show ?thesis using Some hash_wf_entry_lookup [OF assms] by (metis in_set_conv_nth)
next
  case None
  then have none: "k \<notin> fst ` set c" if "c \<in> set (h_entries t)" for c
    using that by (auto simp: map_of_eq_None_iff image_iff)
  have "hash_lookup t k = None"
  proof (cases "hash_bucket t k")
    case None
    then show ?thesis by (simp add: hash_lookup_def hash_get_def)
  next
    case (Some i)
    then have "i < length (h_entries t)" using hash_bucket_bound by blast
    with none [of "h_entries t ! i"] Some show ?thesis
      by (simp add: hash_lookup_bucket map_of_eq_None_iff)
  qed
  with None show ?thesis by simp
qed

lemma map_of_hash_iter_pairs:
  assumes "hash_wf t" "length (hash_last_bucket t) \<le> 1"
  shows "map_of (hash_iter_pairs t) k = hash_lookup t k"
proof -
  have "tl (last (h_entries t)) = []"
    using assms(2) by (cases "last (h_entries t)") (auto simp: hash_last_bucket_def)
  then have "hash_iter_pairs t = concat (h_entries t)"
    using hash_iter_rest_complete [OF hash_wf_nonempty [OF assms(1)]] assms(1)
    by (simp add: hash_iter_pairs_eq)
  then show ?thesis using concat_map_of_lookup [OF assms(1)] by simp
qed

lemma distinct_concat_entries:
  assumes "hash_wf t"
  shows "distinct (map fst (concat (h_entries t)))"
proof -
  have key: "hash_key (h_length t) k = int i" if "i < length (h_entries t)" "k \<in> fst ` set (h_entries t ! i)" for i k
    using assms that by (fastforce simp: hash_wf_def hash_chain_ok_def list_all_iff)
  have d: "distinct (map fst (h_entries t ! i))" if "i < length (h_entries t)" for i
    using assms that by (auto simp: hash_wf_def hash_chain_ok_def)
  have "distinct (map fst (concat (take n (h_entries t))))" if "n \<le> length (h_entries t)" for n
    using that
  proof (induction n)
    case 0
    then show ?case by simp
  next
    case (Suc n)
    have "fst ` set (concat (take n (h_entries t))) \<inter> fst ` set (h_entries t ! n) = {}"
    proof (rule ccontr)
      assume "fst ` set (concat (take n (h_entries t))) \<inter> fst ` set (h_entries t ! n) \<noteq> {}"
      then obtain k where k1: "k \<in> fst ` set (concat (take n (h_entries t)))"
        and k: "k \<in> fst ` set (h_entries t ! n)"
        by blast
      from k1 obtain c where c: "c \<in> set (take n (h_entries t))" "k \<in> fst ` set c"
        unfolding set_concat image_UN by blast
      then obtain i where "i < n" "c = h_entries t ! i" by (auto simp: in_set_conv_nth)
      then have "i < n" "k \<in> fst ` set (h_entries t ! i)" using c by simp_all
      with key [of i k] key [of n k] k Suc.prems show False by simp
    qed
    with Suc d [of n] show ?case by (simp add: take_Suc_conv_app_nth)
  qed
  from this [of "length (h_entries t)"] show ?thesis by simp
qed

lemma distinct_hash_iter_pairs: "hash_wf t \<Longrightarrow> distinct (map fst (hash_iter_pairs t))"
proof -
  assume wf: "hash_wf t"
  then have "map fst (hash_iter_pairs t) @ map fst (tl (last (h_entries t))) = map fst (concat (h_entries t))"
    using hash_iter_rest_complete [OF hash_wf_nonempty [OF wf]]
    by (simp add: hash_iter_pairs_eq flip: map_append)
  with distinct_concat_entries [OF wf] show ?thesis by (metis distinct_append)
qed

section \<open>Attribute names of libMIO\<close>

text \<open>The buckets of the attribute names libMIO prints; the last bucket of a table of 8 is 7.\<close>

lemma hash_key_names:
  "hash_key 8 ''id'' = 1"
  "hash_key 8 ''name'' = 6"
  "hash_key 8 ''type'' = 4"
  "hash_key 8 ''metaType'' = 1"
  "hash_key 8 ''info'' = 1"
  "hash_key 8 ''node'' = 6"
  "hash_key 8 ''transducerName'' = 7"
  "hash_key 8 ''time'' = 4"
  "hash_key 8 ''xmlns'' = 3"
  "hash_key 8 ''transducerValue'' = 6"
  "hash_key 8 ''timestamp'' = 7"
  "hash_key 8 ''accuracy'' = 3"
  "hash_key 8 ''interface'' = 6"
  "hash_key 8 ''manufacturer'' = 6"
  "hash_key 8 ''maxValue'' = 4"
  "hash_key 8 ''minValue'' = 4"
  "hash_key 8 ''precision'' = 7"
  "hash_key 8 ''resolution'' = 1"
  "hash_key 8 ''unit'' = 5"
  "hash_key 8 ''value'' = 3"
  "hash_key 8 ''serial'' = 2"
  "hash_key 8 ''to'' = 4"
  "hash_key 8 ''typedValue'' = 5"
  "hash_key 8 ''rawValue'' = 3"
  "hash_key 8 ''jid'' = 2"
  "hash_key 8 ''subid'' = 7"
  "hash_key 8 ''affiliation'' = 4"
  "hash_key 8 ''var'' = 6"
  "hash_key 8 ''from'' = 6"
  "hash_key 8 ''xml:lang'' = 4"
  by (simp_all add: hash_key_def c_schar_def)

section \<open>Properties\<close>

lemma hash_wf_dom: "hash_wf t \<Longrightarrow> dom (hash_lookup t) = fst ` set (concat (h_entries t))"
proof -
  assume "hash_wf t"
  then have "hash_lookup t = map_of (concat (h_entries t))" using concat_map_of_lookup by (simp add: fun_eq_iff)
  then show ?thesis by (simp only: dom_map_of_conv_image_fst)
qed

lemma hash_num_keys_card: "hash_wf t \<Longrightarrow> hash_num_keys t = int (card (dom (hash_lookup t)))"
proof -
  assume wf: "hash_wf t"
  have "card (dom (hash_lookup t)) = length (map fst (concat (h_entries t)))"
    unfolding hash_wf_dom [OF wf] by (metis distinct_card distinct_concat_entries [OF wf] set_map)
  then show ?thesis using wf by (simp add: hash_num_keys_def hash_wf_def length_concat)
qed

lemma hash_drop_ok:
  assumes "hash_wf8 t" "c_ascii k"
  shows "\<exists>r t'. hash_drop t k = Some (r, t') \<and> hash_wf8 t' \<and> hash_lookup t' = (hash_lookup t)(k := None)"
proof -
  let ?i = "nat (hash_key 8 k)"
  have b: "hash_bucket t k = Some ?i" by (rule hash_wf8_bucket [OF assms])
  have wf: "hash_wf t" "h_length t = 8" using assms(1) by (auto simp: hash_wf8_def)
  let ?es = "(h_entries t)[?i := filter (\<lambda>e. fst e \<noteq> k) (h_entries t ! ?i)]"
  let ?t = "t\<lparr>h_entries := ?es, h_num_keys := int (sum_list (map length ?es))\<rparr>"
  obtain r where d: "hash_drop t k = Some (r, ?t)" using hash_drop_spec [OF wf(1) b] by auto
  have i: "?i < length (h_entries t)" using hash_bucket_bound [OF b] by simp
  have ok: "hash_chain_ok (h_length t) (int j) (h_entries t ! j)" if "j < length (h_entries t)" for j
    using wf that by (auto simp: hash_wf_def)
  have "hash_chain_ok (h_length t) (int j) (?es ! j)" if "j < length (h_entries t)" for j
    using ok [OF that] that by (cases "j = ?i") (auto simp: hash_chain_ok_filter)
  then have "hash_wf8 ?t" using wf by (auto simp: hash_wf8_def hash_wf_def)
  moreover have "hash_lookup ?t k' = ((hash_lookup t)(k := None)) k'" for k'
  proof (cases "hash_bucket t k'")
    case None
    then have "hash_bucket ?t k' = None" by (simp add: hash_bucket_def)
    with None show ?thesis by (simp add: hash_lookup_def hash_get_def)
  next
    case (Some j)
    then have "hash_bucket ?t k' = Some j" by (simp add: hash_bucket_def)
    then have "hash_lookup ?t k' = map_of (?es ! j) k'" using hash_lookup_bucket by fastforce
    with Some i b show ?thesis by (cases "j = ?i") (auto simp: hash_lookup_bucket map_of_filter_neq)
  qed
  ultimately show ?thesis using d by (auto simp: fun_eq_iff)
qed

text \<open>C4: The attribute table implements a finite map from names to values: on a well-formed table of 8
  buckets and an ASCII name, adding succeeds, keeps the table well-formed and updates exactly that name;
  dropping removes exactly that name; looking up is defined; the key count is the number of names.\<close>

theorem hash_table_is_map:
  assumes "hash_wf8 t" "c_ascii k"
  shows "\<exists>t1 r t2. hash_add t k v = Some (0, t1) \<and> hash_wf8 t1 \<and> hash_lookup t1 = (hash_lookup t)(k \<mapsto> v) \<and>
     hash_drop t k = Some (r, t2) \<and> hash_wf8 t2 \<and> hash_lookup t2 = (hash_lookup t)(k := None) \<and>
     hash_get t k = Some (hash_lookup t k) \<and> hash_num_keys t = int (card (dom (hash_lookup t)))"
proof -
  have "hash_get t k = Some (hash_lookup t k)"
    using hash_wf8_bucket [OF assms] by (simp add: hash_lookup_def hash_get_def)
  moreover have "hash_num_keys t = int (card (dom (hash_lookup t)))"
    using assms(1) by (intro hash_num_keys_card) (simp add: hash_wf8_def)
  ultimately show ?thesis using attrs8.add_ok [OF assms, of v] hash_drop_ok [OF assms] by blast
qed

theorem hash_table_is_map_witness:
  "\<exists>t1 r t2. hash_add (hash_new 8) ''id'' ''42'' = Some (0, t1) \<and> hash_wf8 t1 \<and>
     hash_lookup t1 = (hash_lookup (hash_new 8))(''id'' \<mapsto> ''42'') \<and>
     hash_drop (hash_new 8) ''id'' = Some (r, t2) \<and> hash_wf8 t2 \<and>
     hash_lookup t2 = (hash_lookup (hash_new 8))(''id'' := None) \<and>
     hash_get (hash_new 8) ''id'' = Some (hash_lookup (hash_new 8) ''id'') \<and>
     hash_num_keys (hash_new 8) = int (card (dom (hash_lookup (hash_new 8))))"
  by (rule hash_table_is_map [OF attrs8.invar_new]) (simp add: c_ascii_def)

text \<open>The iterator by which stanzas are printed and copied yields all entries of a well-formed table
  except those behind the first of the last bucket: appending these to what it yields gives all entries.
  So it is complete exactly when the last bucket holds at most one entry.\<close>

theorem hash_iter_skips_last_chain:
  assumes "hash_wf t"
  shows "hash_iter_pairs t @ tl (hash_last_bucket t) = concat (h_entries t) \<and>
     (hash_iter_pairs t = concat (h_entries t)) = (length (hash_last_bucket t) \<le> 1)"
proof -
  have eq: "hash_iter_pairs t @ tl (hash_last_bucket t) = concat (h_entries t)"
    using hash_iter_rest_complete [OF hash_wf_nonempty [OF assms]] assms
    by (simp add: hash_iter_pairs_eq hash_last_bucket_def)
  have "(hash_iter_pairs t = concat (h_entries t)) = (tl (hash_last_bucket t) = [])"
    unfolding eq [symmetric] by simp
  also have "\<dots> = (length (hash_last_bucket t) \<le> 1)" by (cases "hash_last_bucket t") auto
  finally show ?thesis using eq by simp
qed

theorem hash_iter_skips_last_chain_witness:
  "hash_iter_pairs (hash_new 8) @ tl (hash_last_bucket (hash_new 8)) = concat (h_entries (hash_new 8)) \<and>
   (hash_iter_pairs (hash_new 8) = concat (h_entries (hash_new 8))) = (length (hash_last_bucket (hash_new 8)) \<le> 1)"
  by (rule hash_iter_skips_last_chain) (rule hash_new_wf, simp)

text \<open>Two attributes whose names fall into the last bucket are both stored, but the iterator, and with
  it the printer, only yields the one that was added last.\<close>

theorem hash_iter_loses_attribute:
  "\<exists>t1 t2. hash_add (hash_new 8) ''unitScalar'' ''0'' = Some (0, t1) \<and>
     hash_add t1 ''precision'' ''2'' = Some (0, t2) \<and>
     hash_lookup t2 ''unitScalar'' = Some ''0'' \<and> hash_lookup t2 ''precision'' = Some ''2'' \<and>
     hash_num_keys t2 = 2 \<and> hash_iter_pairs t2 = [(''precision'', ''2'')]"
proof -
  let ?t1 = "\<lparr>h_length = 8, h_num_keys = 1, h_entries = [[], [], [], [], [], [], [], [(''unitScalar'', ''0'')]]\<rparr>"
  let ?t2 = "\<lparr>h_length = 8, h_num_keys = 2, h_entries =
    [[], [], [], [], [], [], [], [(''precision'', ''2''), (''unitScalar'', ''0'')]]\<rparr>"
  have "hash_add (hash_new 8) ''unitScalar'' ''0'' = Some (0, ?t1)" by code_simp
  moreover have "hash_add ?t1 ''precision'' ''2'' = Some (0, ?t2)" by code_simp
  moreover have "hash_lookup ?t2 ''unitScalar'' = Some ''0''" "hash_lookup ?t2 ''precision'' = Some ''2''"
    "hash_num_keys ?t2 = 2" "hash_iter_pairs ?t2 = [(''precision'', ''2'')]" by code_simp+
  ultimately show ?thesis by blast
qed

text \<open>C38: The bucket of an ASCII name lies inside the array, for every positive table size; a name with a
  byte of 128 or more can give a negative index, an access before the array.\<close>

theorem hash_index_in_bounds:
  assumes "c_ascii key" "0 < len"
  shows "0 \<le> hash_key len key \<and> hash_key len key < len \<and> hash_key 8 [CHR 0xE9] < 0"
proof -
  have "hash_key 8 [CHR 0xE9] < 0" by code_simp
  with hash_key_ascii [OF assms] show ?thesis by blast
qed

theorem hash_index_in_bounds_witness:
  "0 \<le> hash_key 8 ''xmlns'' \<and> hash_key 8 ''xmlns'' < 8 \<and> hash_key 8 [CHR 0xE9] < 0"
  by (rule hash_index_in_bounds) (simp_all add: c_ascii_def)

end
