(* ===== verification/Strophe_Stanza.thy ===== *)
theory Strophe_Stanza
  imports Strophe_Hash
begin

text \<open>
  XML stanzas of libstrophe (\<^verbatim>\<open>src/libs/c/libstrophe/src/stanza.c\<close>), the tree every request and
  every item of libMIO is built from. A stanza is a value: a type, its name or text, its attribute
  table and its children in order (\<open>children\<close> and the \<open>next\<close> links of the code). Parent links and
  reference counts are not part of the value, and allocation never fails; a text is shorter than
  \<open>2 ^ 31\<close> bytes, the range of the \<open>int\<close> the printer counts in.

  Shown: which setter is refused on which type, that setting an attribute on a tag changes exactly
  that attribute, and that the printer, which renders into a buffer of 1024 bytes and retries with
  a buffer of the size the first pass reports, returns the whole text of the stanza.
\<close>

section \<open>Data\<close>

datatype xmpp_stanza_type = XMPP_STANZA_UNKNOWN | XMPP_STANZA_TEXT | XMPP_STANZA_TAG

datatype xmpp_stanza =
  Stanza (st_type: xmpp_stanza_type) (st_data: cptr) (st_attributes: "hash_t option")
         (st_children: "xmpp_stanza list")

definition XMPP_EOK :: int where "XMPP_EOK = 0"
definition XMPP_EMEM :: int where "XMPP_EMEM = -1"
definition XMPP_EINVOP :: int where "XMPP_EINVOP = -2"

section \<open>Construction\<close>

definition xmpp_stanza_new :: xmpp_stanza where
  "xmpp_stanza_new = Stanza XMPP_STANZA_UNKNOWN None None []"

definition xmpp_stanza_set_name :: "xmpp_stanza \<Rightarrow> string \<Rightarrow> int \<times> xmpp_stanza" where
  "xmpp_stanza_set_name s name =
     (if st_type s = XMPP_STANZA_TEXT then (XMPP_EINVOP, s)
      else (XMPP_EOK, Stanza XMPP_STANZA_TAG (Some name) (st_attributes s) (st_children s)))"

definition xmpp_stanza_get_name :: "xmpp_stanza \<Rightarrow> cptr" where
  "xmpp_stanza_get_name s = (if st_type s = XMPP_STANZA_TEXT then None else st_data s)"

definition xmpp_stanza_is_text :: "xmpp_stanza option \<Rightarrow> bool" where
  "xmpp_stanza_is_text p = (case p of None \<Rightarrow> False | Some s \<Rightarrow> st_type s = XMPP_STANZA_TEXT)"

definition xmpp_stanza_is_tag :: "xmpp_stanza option \<Rightarrow> bool" where
  "xmpp_stanza_is_tag p = (case p of None \<Rightarrow> False | Some s \<Rightarrow> st_type s = XMPP_STANZA_TAG)"

text \<open>\<open>strdup\<close> of a NULL value is undefined.\<close>

definition xmpp_stanza_set_attribute :: "xmpp_stanza \<Rightarrow> string \<Rightarrow> cptr \<Rightarrow> (int \<times> xmpp_stanza) option" where
  "xmpp_stanza_set_attribute s key value =
     (if st_type s \<noteq> XMPP_STANZA_TAG then Some (XMPP_EINVOP, s)
      else do {
        let t = (case st_attributes s of None \<Rightarrow> hash_new 8 | Some t \<Rightarrow> t);
        val \<leftarrow> value;
        (r, t') \<leftarrow> hash_add t key val;
        Some (XMPP_EOK, Stanza XMPP_STANZA_TAG (st_data s) (Some t') (st_children s)) })"

definition xmpp_stanza_set_ns :: "xmpp_stanza \<Rightarrow> cptr \<Rightarrow> (int \<times> xmpp_stanza) option" where
  "xmpp_stanza_set_ns s ns = xmpp_stanza_set_attribute s ''xmlns'' ns"

definition xmpp_stanza_set_id :: "xmpp_stanza \<Rightarrow> cptr \<Rightarrow> (int \<times> xmpp_stanza) option" where
  "xmpp_stanza_set_id s i = xmpp_stanza_set_attribute s ''id'' i"

definition xmpp_stanza_set_type :: "xmpp_stanza \<Rightarrow> cptr \<Rightarrow> (int \<times> xmpp_stanza) option" where
  "xmpp_stanza_set_type s ty = xmpp_stanza_set_attribute s ''type'' ty"

definition xmpp_stanza_add_child :: "xmpp_stanza \<Rightarrow> xmpp_stanza \<Rightarrow> xmpp_stanza" where
  "xmpp_stanza_add_child s child = Stanza (st_type s) (st_data s) (st_attributes s) (st_children s @ [child])"

definition xmpp_stanza_set_text :: "xmpp_stanza \<Rightarrow> cptr \<Rightarrow> (int \<times> xmpp_stanza) option" where
  "xmpp_stanza_set_text s txt =
     (if st_type s = XMPP_STANZA_TAG then Some (XMPP_EINVOP, s)
      else do { t \<leftarrow> txt; Some (XMPP_EOK, Stanza XMPP_STANZA_TEXT (Some t) (st_attributes s) (st_children s)) })"

text \<open>
  \<open>memcpy(data, text, size)\<close> with a terminating 0: as a C string, the prefix up to a NUL. Reading
  past the end of the text is undefined.
\<close>

definition xmpp_stanza_set_text_with_size :: "xmpp_stanza \<Rightarrow> string \<Rightarrow> nat \<Rightarrow> (int \<times> xmpp_stanza) option" where
  "xmpp_stanza_set_text_with_size s txt sz =
     (if st_type s = XMPP_STANZA_TAG then Some (XMPP_EINVOP, s)
      else if length txt < sz then None
      else Some (XMPP_EOK, Stanza XMPP_STANZA_TEXT
                   (Some (takeWhile (\<lambda>c. c \<noteq> CHR 0x00) (take sz txt)))
                   (st_attributes s) (st_children s)))"

section \<open>Reading\<close>

definition xmpp_stanza_get_attribute :: "xmpp_stanza \<Rightarrow> string \<Rightarrow> cptr option" where
  "xmpp_stanza_get_attribute s name =
     (if st_type s \<noteq> XMPP_STANZA_TAG then Some None
      else case st_attributes s of None \<Rightarrow> Some None | Some t \<Rightarrow> hash_get t name)"

definition xmpp_stanza_get_id :: "xmpp_stanza \<Rightarrow> cptr option" where
  "xmpp_stanza_get_id s =
     (if st_type s \<noteq> XMPP_STANZA_TAG then Some None
      else case st_attributes s of None \<Rightarrow> Some None | Some t \<Rightarrow> hash_get t ''id'')"

definition xmpp_stanza_get_ns :: "xmpp_stanza \<Rightarrow> cptr option" where
  "xmpp_stanza_get_ns s =
     (if st_type s \<noteq> XMPP_STANZA_TAG then Some None
      else case st_attributes s of None \<Rightarrow> Some None | Some t \<Rightarrow> hash_get t ''xmlns'')"

definition xmpp_stanza_get_type :: "xmpp_stanza \<Rightarrow> cptr option" where
  "xmpp_stanza_get_type s =
     (if st_type s \<noteq> XMPP_STANZA_TAG then Some None
      else case st_attributes s of None \<Rightarrow> Some None | Some t \<Rightarrow> hash_get t ''type'')"

definition xmpp_stanza_get_attribute_count :: "xmpp_stanza \<Rightarrow> int" where
  "xmpp_stanza_get_attribute_count s =
     (case st_attributes s of None \<Rightarrow> 0 | Some t \<Rightarrow> hash_num_keys t)"

text \<open>The array the caller passes receives keys and values alternately, \<open>attrlen\<close> of them at most.\<close>

definition xmpp_stanza_get_attributes :: "xmpp_stanza \<Rightarrow> nat \<Rightarrow> string list" where
  "xmpp_stanza_get_attributes s attrlen =
     (case st_attributes s of None \<Rightarrow> []
      | Some t \<Rightarrow> take attrlen (concat (map (\<lambda>(k, v). [k, v]) (hash_iter_pairs t))))"

definition xmpp_stanza_get_children :: "xmpp_stanza \<Rightarrow> xmpp_stanza list" where
  "xmpp_stanza_get_children s = st_children s"

fun child_by_name_loop :: "string \<Rightarrow> xmpp_stanza list \<Rightarrow> xmpp_stanza option option" where
  "child_by_name_loop name [] = Some None"
| "child_by_name_loop name (child # next) =
     (if st_type child = XMPP_STANZA_TAG then do {
        eq \<leftarrow> c_streq (Some name) (xmpp_stanza_get_name child);
        if eq then Some (Some child) else child_by_name_loop name next }
      else child_by_name_loop name next)"

definition xmpp_stanza_get_child_by_name :: "xmpp_stanza \<Rightarrow> string \<Rightarrow> xmpp_stanza option option" where
  "xmpp_stanza_get_child_by_name s name = child_by_name_loop name (st_children s)"

fun child_by_ns_loop :: "string \<Rightarrow> xmpp_stanza list \<Rightarrow> xmpp_stanza option option" where
  "child_by_ns_loop ns [] = Some None"
| "child_by_ns_loop ns (child # next) = do {
     n \<leftarrow> xmpp_stanza_get_ns child;
     if n = Some ns then Some (Some child) else child_by_ns_loop ns next }"

definition xmpp_stanza_get_child_by_ns :: "xmpp_stanza \<Rightarrow> string \<Rightarrow> xmpp_stanza option option" where
  "xmpp_stanza_get_child_by_ns s ns = child_by_ns_loop ns (st_children s)"

fun children_text :: "xmpp_stanza list \<Rightarrow> string option" where
  "children_text [] = Some []"
| "children_text (child # next) =
     (if st_type child = XMPP_STANZA_TEXT
      then do { d \<leftarrow> st_data child; r \<leftarrow> children_text next; Some (d @ r) }
      else children_text next)"

definition xmpp_stanza_get_text :: "xmpp_stanza \<Rightarrow> cptr option" where
  "xmpp_stanza_get_text s =
     (if st_type s = XMPP_STANZA_TEXT then Some (st_data s)
      else do { t \<leftarrow> children_text (st_children s); Some (if length t = 0 then None else Some t) })"

definition xmpp_stanza_get_text_ptr :: "xmpp_stanza \<Rightarrow> cptr" where
  "xmpp_stanza_get_text_ptr s = (if st_type s = XMPP_STANZA_TEXT then st_data s else None)"

section \<open>Copying\<close>

fun copy_attributes :: "hash_t \<Rightarrow> (string \<times> string) list \<Rightarrow> hash_t option" where
  "copy_attributes t [] = Some t"
| "copy_attributes t ((key, val) # kvs) = do { (r, t') \<leftarrow> hash_add t key val; copy_attributes t' kvs }"

fun xmpp_stanza_copy :: "xmpp_stanza \<Rightarrow> xmpp_stanza option" where
  "xmpp_stanza_copy (Stanza ty d a cs) = do {
     a' \<leftarrow> (case a of None \<Rightarrow> Some None
            | Some t \<Rightarrow> map_option Some (copy_attributes (hash_new 8) (hash_iter_pairs t)));
     cs' \<leftarrow> those (map xmpp_stanza_copy cs);
     Some (Stanza ty d a' cs') }"

section \<open>Printing\<close>

definition escape_char :: "char \<Rightarrow> string" where
  "escape_char c =
     (if c = CHR ''<'' then ''&lt;'' else if c = CHR ''>'' then ''&gt;''
      else if c = CHR ''&'' then ''&amp;'' else if c = CHR 0x22 then ''&quot;'' else [c])"

text \<open>The first loop sizes the buffer, the second fills it.\<close>

fun escape_len :: "nat \<Rightarrow> string \<Rightarrow> nat" where
  "escape_len len [] = len"
| "escape_len len (c # src) =
     escape_len (if c = CHR ''<'' \<or> c = CHR ''>'' then len + 4
                 else if c = CHR ''&'' then len + 5
                 else if c = CHR 0x22 then len + 6 else len + 1) src"

fun escape_fill :: "string \<Rightarrow> string \<Rightarrow> string" where
  "escape_fill dst [] = dst"
| "escape_fill dst (c # src) = escape_fill (dst @ escape_char c) src"

text \<open>Filling past the allocated \<open>len + 1\<close> bytes is undefined.\<close>

definition escape_xml :: "string \<Rightarrow> string option" where
  "escape_xml txt = (let buf = escape_fill [] txt in if length buf \<le> escape_len 0 txt then Some buf else None)"

definition render_update :: "nat \<Rightarrow> nat \<Rightarrow> nat \<times> nat \<Rightarrow> nat \<times> nat" where
  "render_update len lastwrite = (\<lambda>(written, left).
     if written + lastwrite > len then (written + lastwrite, 0)
     else (written + lastwrite, left - lastwrite))"

text \<open>
  \<open>ret = snprintf(ptr, left, "%s", s); _render_update(&written, buflen, ret, &left, &ptr)\<close>: the state
  is the bytes counted, the room left and the characters stored so far.
\<close>

type_synonym render_state = "(nat \<times> nat) \<times> string"

definition render_emit :: "nat \<Rightarrow> string \<Rightarrow> render_state \<Rightarrow> render_state" where
  "render_emit len s = (\<lambda>(wl, out). (render_update len (length s) wl, out @ take (snd wl - 1) s))"

fun render_attributes :: "nat \<Rightarrow> (string \<times> string) list \<Rightarrow> render_state \<Rightarrow> int + render_state" where
  "render_attributes len [] r = Inr r"
| "render_attributes len ((key, val) # kvs) r =
     (case escape_xml val of None \<Rightarrow> Inl XMPP_EMEM
      | Some tmp \<Rightarrow> render_attributes len kvs
          (render_emit len ('' '' @ key @ ''='' @ [CHR 0x22] @ tmp @ [CHR 0x22]) r))"

fun render_stanza :: "xmpp_stanza \<Rightarrow> nat \<Rightarrow> int + nat \<times> string"
and render_children :: "nat \<Rightarrow> xmpp_stanza list \<Rightarrow> render_state \<Rightarrow> int + render_state" where
  "render_stanza (Stanza ty d a cs) buflen =
     (case (ty, d) of
        (XMPP_STANZA_UNKNOWN, _) \<Rightarrow> Inl XMPP_EINVOP
      | (_, None) \<Rightarrow> Inl XMPP_EINVOP
      | (XMPP_STANZA_TEXT, Some txt) \<Rightarrow>
          (case escape_xml txt of None \<Rightarrow> Inl XMPP_EMEM
           | Some tmp \<Rightarrow> (case render_emit buflen tmp ((0, buflen), []) of ((w, l), out) \<Rightarrow> Inr (w, out)))
      | (XMPP_STANZA_TAG, Some name) \<Rightarrow>
          (let r0 = render_emit buflen (''<'' @ name) ((0, buflen), []) in
           case (case a of None \<Rightarrow> Inr r0
                 | Some t \<Rightarrow> if hash_num_keys t > 0 then render_attributes buflen (hash_iter_pairs t) r0 else Inr r0)
           of Inl e \<Rightarrow> Inl e
            | Inr r1 \<Rightarrow>
               (if cs = [] then (case render_emit buflen ''/>'' r1 of ((w, l), out) \<Rightarrow> Inr (w, out))
                else case render_children buflen cs (render_emit buflen ''>'' r1) of
                       Inl e \<Rightarrow> Inl e
                     | Inr r2 \<Rightarrow> (case render_emit buflen (''</'' @ name @ ''>'') r2 of ((w, l), out) \<Rightarrow> Inr (w, out)))))"
| "render_children buflen [] r = Inr r"
| "render_children buflen (c # cs) r =
     (case r of (wl, out) \<Rightarrow>
        (case render_stanza c (snd wl) of
           Inl e \<Rightarrow> Inl e
         | Inr (ret, s) \<Rightarrow> render_children buflen cs (render_update buflen ret wl, out @ s)))"

text \<open>
  The caller's loop: 1024 bytes first, then exactly what the first pass counted plus one.
\<close>

definition xmpp_stanza_to_text :: "xmpp_stanza \<Rightarrow> int + string" where
  "xmpp_stanza_to_text s =
     (case render_stanza s 1024 of
        Inl e \<Rightarrow> Inl e
      | Inr (ret, out) \<Rightarrow>
          if ret > 1024 - 1 then
            (case render_stanza s (ret + 1) of
               Inl e \<Rightarrow> Inl XMPP_EMEM  \<comment> \<open>a negative \<open>ret\<close> compares as a large \<open>size_t\<close>\<close>
             | Inr (ret', out') \<Rightarrow> if ret' > ret + 1 - 1 then Inl XMPP_EMEM else Inr out')
          else Inr out)"

section \<open>What the printer produces\<close>

definition stanza_esc :: "string \<Rightarrow> string" where
  "stanza_esc txt = concat (map escape_char txt)"

lemma escape_fill_eq: "escape_fill dst s = dst @ stanza_esc s"
  by (induction s arbitrary: dst) (auto simp: stanza_esc_def)

lemma escape_len_eq: "escape_len n s = n + length (stanza_esc s)"
  by (induction s arbitrary: n) (auto simp: stanza_esc_def escape_char_def)

lemma escape_xml_eq [simp]: "escape_xml txt = Some (stanza_esc txt)"
  by (simp add: escape_xml_def escape_fill_eq escape_len_eq)

text \<open>The text of a stanza, without buffers: \<open>None\<close> for a tree with an untyped or nameless node.\<close>

definition attr_text :: "string \<times> string \<Rightarrow> string" where
  "attr_text = (\<lambda>(key, val). '' '' @ key @ ''='' @ [CHR 0x22] @ stanza_esc val @ [CHR 0x22])"

definition attrs_text :: "hash_t option \<Rightarrow> string" where
  "attrs_text a = (case a of None \<Rightarrow> []
     | Some t \<Rightarrow> if hash_num_keys t > 0 then concat (map attr_text (hash_iter_pairs t)) else [])"

fun stanza_text :: "xmpp_stanza \<Rightarrow> string option" where
  "stanza_text (Stanza ty d a cs) =
     (case (ty, d) of
        (XMPP_STANZA_UNKNOWN, _) \<Rightarrow> None
      | (_, None) \<Rightarrow> None
      | (XMPP_STANZA_TEXT, Some txt) \<Rightarrow> Some (stanza_esc txt)
      | (XMPP_STANZA_TAG, Some name) \<Rightarrow> do {
          ts \<leftarrow> those (map stanza_text cs);
          Some (''<'' @ name @ attrs_text a @
                (if cs = [] then ''/>'' else ''>'' @ concat ts @ ''</'' @ name @ ''>'')) })"

text \<open>The printer's state after the text \<open>f\<close> with a buffer of \<open>len\<close> bytes.\<close>

definition render_at :: "nat \<Rightarrow> string \<Rightarrow> render_state" where
  "render_at len f = ((length f, len - length f), take (len - 1) f)"

lemma render_at_Nil: "((0, len), []) = render_at len []"
  by (simp add: render_at_def)

lemma render_emit_at [simp]: "render_emit len s (render_at len f) = render_at len (f @ s)"
  by (auto simp: render_emit_def render_at_def render_update_def)

lemma render_update_at:
  "(render_update len (length s) (length f, len - length f), take (len - 1) f @ take (len - length f - 1) s)
     = render_at len (f @ s)"
  by (auto simp: render_at_def render_update_def)

lemma render_attributes_at [simp]:
  "render_attributes len kvs (render_at len f) = Inr (render_at len (f @ concat (map attr_text kvs)))"
  by (induction kvs arbitrary: f) (auto simp: attr_text_def)

lemma render_attrs_opt:
  "(case a of None \<Rightarrow> Inr (render_at len f)
    | Some t \<Rightarrow> if hash_num_keys t > 0 then render_attributes len (hash_iter_pairs t) (render_at len f)
               else Inr (render_at len f)) = Inr (render_at len (f @ attrs_text a))"
  by (cases a) (auto simp: attrs_text_def)

definition render_result :: "string option \<Rightarrow> nat \<Rightarrow> int + nat \<times> string" where
  "render_result t len = (case t of None \<Rightarrow> Inl XMPP_EINVOP | Some t \<Rightarrow> Inr (length t, take (len - 1) t))"

lemma render_children_at:
  "(\<And>c n. c \<in> set cs \<Longrightarrow> render_stanza c n = render_result (stanza_text c) n) \<Longrightarrow>
   render_children len cs (render_at len f) =
     (case those (map stanza_text cs) of None \<Rightarrow> Inl XMPP_EINVOP
      | Some ts \<Rightarrow> Inr (render_at len (f @ concat ts)))"
proof (induction cs arbitrary: f)
  case Nil
  then show ?case by simp
next
  case (Cons c cs)
  have c: "render_stanza c n = render_result (stanza_text c) n" for n using Cons.prems by simp
  show ?case
  proof (cases "stanza_text c")
    case None
    with c show ?thesis by (simp add: render_at_def render_result_def)
  next
    case (Some t)
    have "render_children len (c # cs) (render_at len f) = render_children len cs (render_at len (f @ t))"
      using c Some render_update_at [of len t f] by (simp add: render_at_def render_result_def)
    with Cons Some show ?thesis by (auto split: option.splits)
  qed
qed

lemma render_stanza_eq: "render_stanza s len = render_result (stanza_text s) len"
proof (induction s arbitrary: len)
  case (Stanza ty d a cs)
  note ch = render_children_at [OF Stanza.IH]
  have out: "(case render_at len f of ((w, l), out) \<Rightarrow> Inr (w, out)) = render_result (Some f) len" for f
    by (simp add: render_at_def render_result_def)
  show ?case
  proof (cases "ty = XMPP_STANZA_TAG \<and> d \<noteq> None")
    case False
    then show ?thesis
      by (cases ty; cases d) (simp_all add: render_at_Nil out, simp_all add: render_result_def)
  next
    case True
    then obtain name where [simp]: "ty = XMPP_STANZA_TAG" "d = Some name" by auto
    show ?thesis
      by (cases "those (map stanza_text cs)")
        (auto simp: render_at_Nil render_attrs_opt ch out Let_def render_result_def)
  qed
qed

lemma xmpp_stanza_to_text_eq:
  "xmpp_stanza_to_text s = (case stanza_text s of None \<Rightarrow> Inl XMPP_EINVOP | Some t \<Rightarrow> Inr t)"
  by (auto simp: xmpp_stanza_to_text_def render_stanza_eq render_result_def split: option.splits)

section \<open>Building stanzas\<close>

text \<open>
  The calls as libMIO makes them: the return code of a setter is not looked at. \<open>set_attr_opt\<close> is the
  idiom \<open>if (v != NULL) xmpp_stanza_set_attribute(s, k, v);\<close>.
\<close>

definition stanza_named :: "string \<Rightarrow> xmpp_stanza" where
  "stanza_named name = snd (xmpp_stanza_set_name xmpp_stanza_new name)"

definition stanza_txt :: "cptr \<Rightarrow> xmpp_stanza option" where
  "stanza_txt v = map_option snd (xmpp_stanza_set_text xmpp_stanza_new v)"

definition set_attr :: "xmpp_stanza \<Rightarrow> string \<Rightarrow> cptr \<Rightarrow> xmpp_stanza option" where
  "set_attr s k v = map_option snd (xmpp_stanza_set_attribute s k v)"

definition set_attr_opt :: "xmpp_stanza \<Rightarrow> string \<Rightarrow> cptr \<Rightarrow> xmpp_stanza option" where
  "set_attr_opt s k v = (if v \<noteq> None then set_attr s k v else Some s)"

definition stanza_attr :: "xmpp_stanza \<Rightarrow> string \<Rightarrow> cptr" where
  "stanza_attr s k = (case st_attributes s of None \<Rightarrow> None | Some t \<Rightarrow> hash_lookup t k)"

definition tag_wf :: "xmpp_stanza \<Rightarrow> bool" where
  "tag_wf s \<longleftrightarrow> st_type s = XMPP_STANZA_TAG \<and> st_data s \<noteq> None \<and>
     (case st_attributes s of None \<Rightarrow> True | Some t \<Rightarrow> hash_wf8 t)"

text \<open>The stanza after setting an attribute, and after setting it if the value is not NULL.\<close>

definition put_attr :: "xmpp_stanza \<Rightarrow> string \<Rightarrow> cptr \<Rightarrow> xmpp_stanza" where
  "put_attr s k v = (if v \<noteq> None then the (set_attr s k v) else s)"

lemma c_ascii_simps [simp]:
  "c_ascii []"
  "c_ascii (c # cs) \<longleftrightarrow> (of_char c :: nat) < 128 \<and> c_ascii cs"
  "c_ascii (s @ t) \<longleftrightarrow> c_ascii s \<and> c_ascii t"
  by (auto simp: c_ascii_def)

lemma set_attribute_tag:
  assumes "tag_wf s" "c_ascii k"
  shows "\<exists>s'. xmpp_stanza_set_attribute s k (Some v) = Some (XMPP_EOK, s') \<and> tag_wf s' \<and>
     stanza_attr s' = (stanza_attr s)(k \<mapsto> v) \<and> st_data s' = st_data s \<and> st_children s' = st_children s"
proof -
  let ?t = "case st_attributes s of None \<Rightarrow> hash_new 8 | Some t \<Rightarrow> t"
  have wf: "hash_wf8 ?t" using assms(1) attrs8.invar_new by (auto simp: tag_wf_def split: option.splits)
  have lk: "hash_lookup ?t = stanza_attr s"
    by (auto simp: stanza_attr_def hash_lookup_new fun_eq_iff split: option.splits)
  obtain t' where "hash_add ?t k v = Some (0, t')" "hash_wf8 t'" "hash_lookup t' = (hash_lookup ?t)(k \<mapsto> v)"
    using attrs8.add_ok [OF wf assms(2)] by blast
  with lk assms(1) show ?thesis
    by (auto simp: xmpp_stanza_set_attribute_def tag_wf_def stanza_attr_def [abs_def] fun_eq_iff)
qed

lemma set_attr_tag:
  assumes "tag_wf s" "c_ascii k"
  shows "set_attr s k (Some v) = Some (put_attr s k (Some v))"
  using set_attribute_tag [OF assms, of v] by (auto simp: set_attr_def put_attr_def)

lemma set_attr_opt_tag: "tag_wf s \<Longrightarrow> c_ascii k \<Longrightarrow> set_attr_opt s k v = Some (put_attr s k v)"
  by (cases v) (simp add: set_attr_opt_def put_attr_def, simp add: set_attr_opt_def set_attr_tag)

lemma put_attr_tag:
  assumes "tag_wf s" "c_ascii k"
  shows "tag_wf (put_attr s k v)"
    and "stanza_attr (put_attr s k v) = (case v of None \<Rightarrow> stanza_attr s | Some x \<Rightarrow> (stanza_attr s)(k \<mapsto> x))"
    and "st_data (put_attr s k v) = st_data s"
    and "st_children (put_attr s k v) = st_children s"
proof -
  obtain s' where s': "v \<noteq> None \<Longrightarrow> xmpp_stanza_set_attribute s k v = Some (XMPP_EOK, s')" "tag_wf s'"
    "stanza_attr s' = (stanza_attr s)(k \<mapsto> the v)" "st_data s' = st_data s" "st_children s' = st_children s"
    using set_attribute_tag [OF assms, of "the v"] by (metis option.collapse)
  then have p: "put_attr s k v = (if v = None then s else s')" by (simp add: put_attr_def set_attr_def)
  show "tag_wf (put_attr s k v)" using p s' assms(1) by simp
  show "stanza_attr (put_attr s k v) = (case v of None \<Rightarrow> stanza_attr s | Some x \<Rightarrow> (stanza_attr s)(k \<mapsto> x))"
    using p s'(3) by (cases v) simp_all
  show "st_data (put_attr s k v) = st_data s" "st_children (put_attr s k v) = st_children s"
    using p s' by simp_all
qed

lemma set_attr_NULL [simp]: "tag_wf s \<Longrightarrow> set_attr s k None = None"
  by (simp add: set_attr_def xmpp_stanza_set_attribute_def tag_wf_def)

lemma set_attr_defined:
  "tag_wf s \<Longrightarrow> c_ascii k \<Longrightarrow> set_attr s k v = (if v = None then None else Some (put_attr s k v))"
  by (cases v) (auto simp: set_attr_tag)

lemma stanza_named_simps [simp]:
  "tag_wf (stanza_named name)" "stanza_attr (stanza_named name) = Map.empty"
  "st_data (stanza_named name) = Some name" "st_children (stanza_named name) = []"
  by (auto simp: stanza_named_def xmpp_stanza_set_name_def xmpp_stanza_new_def tag_wf_def stanza_attr_def fun_eq_iff)

lemma add_child_simps [simp]:
  "tag_wf (xmpp_stanza_add_child s c) = tag_wf s"
  "stanza_attr (xmpp_stanza_add_child s c) = stanza_attr s"
  "st_data (xmpp_stanza_add_child s c) = st_data s"
  "st_children (xmpp_stanza_add_child s c) = st_children s @ [c]"
  "st_type (xmpp_stanza_add_child s c) = st_type s"
  "st_attributes (xmpp_stanza_add_child s c) = st_attributes s"
  by (auto simp: xmpp_stanza_add_child_def tag_wf_def stanza_attr_def [abs_def])

lemma stanza_txt_simps [simp]:
  "stanza_txt None = None"
  "stanza_txt (Some v) = Some (Stanza XMPP_STANZA_TEXT (Some v) None [])"
  by (auto simp: stanza_txt_def xmpp_stanza_set_text_def xmpp_stanza_new_def)

lemmas stanza_build = set_attr_opt_tag set_attr_defined put_attr_tag

lemma get_attribute_attr:
  assumes "tag_wf s" "c_ascii k"
  shows "xmpp_stanza_get_attribute s k = Some (stanza_attr s k)"
proof (cases "st_attributes s")
  case None
  with assms show ?thesis by (simp add: xmpp_stanza_get_attribute_def tag_wf_def stanza_attr_def)
next
  case (Some t)
  with assms have "hash_bucket t k \<noteq> None" using hash_wf8_bucket by (auto simp: tag_wf_def)
  with assms Some show ?thesis
    by (auto simp: xmpp_stanza_get_attribute_def tag_wf_def stanza_attr_def hash_lookup_def hash_get_def)
qed

section \<open>The attributes an XML parser sees\<close>

text \<open>The attributes of the printed start tag, in the printer's order.\<close>

definition stanza_pairs :: "xmpp_stanza \<Rightarrow> (string \<times> string) list" where
  "stanza_pairs s = (case st_attributes s of None \<Rightarrow> []
     | Some t \<Rightarrow> if hash_num_keys t > 0 then hash_iter_pairs t else [])"

text \<open>
  The iterator reaches every attribute when at most one key is in the last bucket, as is the case
  when at most one of the names used hashes there.
\<close>

definition iter_complete :: "xmpp_stanza \<Rightarrow> bool" where
  "iter_complete s \<longleftrightarrow> (case st_attributes s of None \<Rightarrow> True | Some t \<Rightarrow> length (hash_last_bucket t) \<le> 1)"

lemma length_distinct_le1: "distinct xs \<Longrightarrow> set xs \<subseteq> {x} \<Longrightarrow> length xs \<le> 1"
  using card_mono [of "{x}" "set xs"] by (simp add: distinct_card)

lemma hash_last_chain_ok: "hash_wf8 t \<Longrightarrow> hash_last_bucket t = h_entries t ! 7 \<and> hash_chain_ok 8 7 (hash_last_bucket t)"
proof -
  assume "hash_wf8 t"
  then have l: "length (h_entries t) = 8" "hash_wf t" "h_length t = 8" by (auto simp: hash_wf8_def hash_wf_def)
  then have "h_entries t \<noteq> []" by auto
  then have b: "hash_last_bucket t = h_entries t ! 7" using l by (simp add: hash_last_bucket_def last_conv_nth)
  have "\<forall>i < length (h_entries t). hash_chain_ok (h_length t) (int i) (h_entries t ! i)"
    using l by (simp add: hash_wf_def)
  from this [rule_format, of 7] l b show ?thesis by simp
qed

lemma hash_last_bucket_lookup:
  assumes "hash_wf8 t" "e \<in> set (hash_last_bucket t)"
  shows "hash_key 8 (fst e) = 7" "hash_lookup t (fst e) = Some (snd e)"
  using hash_last_chain_ok [OF assms(1)] assms hash_wf_entry_lookup [of t 7 "fst e" "snd e"]
  by (auto simp: hash_chain_ok_def list_all_iff hash_wf8_def hash_wf_def)

lemma iter_completeI:
  assumes "tag_wf s" "dom (stanza_attr s) \<subseteq> K" "\<And>k. k \<in> K \<Longrightarrow> hash_key 8 k = 7 \<Longrightarrow> k = lastkey"
  shows "iter_complete s"
proof (cases "st_attributes s")
  case None
  then show ?thesis by (simp add: iter_complete_def)
next
  case (Some t)
  with assms(1) have t: "hash_wf8 t" by (simp add: tag_wf_def)
  let ?b = "hash_last_bucket t"
  have k0: "fst e = lastkey" if "e \<in> set ?b" for e
    using hash_last_bucket_lookup [OF t that] assms(2,3) Some by (force simp: stanza_attr_def)
  have "distinct (map fst ?b)" using hash_last_chain_ok [OF t] unfolding hash_chain_ok_def by blast
  then have "length (map fst ?b) \<le> 1" by (rule length_distinct_le1 [where x = lastkey]) (auto dest: k0)
  then show ?thesis using Some by (simp add: iter_complete_def)
qed

lemma hash_empty_pairs: "hash_wf t \<Longrightarrow> h_num_keys t = 0 \<Longrightarrow> hash_iter_pairs t = []"
proof -
  assume wf: "hash_wf t" and n: "h_num_keys t = 0"
  then have "\<forall>c \<in> set (h_entries t). c = []" by (auto simp: hash_wf_def)
  then have "concat (h_entries t) = []" by simp
  then have "hash_iter_rest (h_entries t) 0 @ tl (last (h_entries t)) = []"
    using hash_iter_rest_complete [OF hash_wf_nonempty [OF wf]] by metis
  then show ?thesis using wf by (simp add: hash_iter_pairs_eq)
qed

lemma stanza_pairs_Some:
  "tag_wf s \<Longrightarrow> st_attributes s = Some t \<Longrightarrow> stanza_pairs s = hash_iter_pairs t"
proof -
  assume s: "tag_wf s" "st_attributes s = Some t"
  then have wf: "hash_wf t" by (simp add: tag_wf_def hash_wf8_def)
  then have "0 \<le> h_num_keys t" by (simp add: hash_wf_def)
  with hash_empty_pairs [OF wf] s show ?thesis
    by (cases "h_num_keys t = 0") (auto simp: stanza_pairs_def hash_num_keys_def)
qed

lemma map_of_stanza_pairs: "tag_wf s \<Longrightarrow> iter_complete s \<Longrightarrow> map_of (stanza_pairs s) = stanza_attr s"
proof (cases "st_attributes s")
  case None
  then show ?thesis by (simp add: stanza_pairs_def stanza_attr_def fun_eq_iff)
next
  case (Some t)
  assume "tag_wf s" "iter_complete s"
  with Some map_of_hash_iter_pairs [of t] show ?thesis
    by (auto simp: stanza_pairs_Some stanza_attr_def fun_eq_iff tag_wf_def hash_wf8_def iter_complete_def)
qed

lemma distinct_stanza_pairs: "tag_wf s \<Longrightarrow> distinct (map fst (stanza_pairs s))"
  using distinct_hash_iter_pairs
  by (cases "st_attributes s") (auto simp: stanza_pairs_def tag_wf_def hash_wf8_def)

section \<open>Copying keeps a stanza\<close>

lemma copy_attributes_ok:
  "hash_wf8 t \<Longrightarrow> list_all (\<lambda>kv. c_ascii (fst kv)) kvs \<Longrightarrow>
     \<exists>t'. copy_attributes t kvs = Some t' \<and> hash_wf8 t' \<and> hash_lookup t' = hash_lookup t ++ map_of (rev kvs)"
proof -
  have "copy_attributes t kvs = attrs8.add_all t kvs" for t kvs
    by (induction kvs arbitrary: t) (auto split: Option.bind_splits)
  then show "hash_wf8 t \<Longrightarrow> list_all (\<lambda>kv. c_ascii (fst kv)) kvs \<Longrightarrow> ?thesis"
    using attrs8.add_all_ok by metis
qed

lemma map_of_rev_distinct: "distinct (map fst xs) \<Longrightarrow> map_of (rev xs) = map_of xs"
  by (rule map_of_inject_set [THEN iffD2]) (auto simp: rev_map [symmetric])

section \<open>Properties\<close>


text \<open>Rendering never writes outside the buffer it is given: with a buffer of \<open>len\<close> bytes it stores at
  most \<open>len - 1\<close> characters (and the terminating NUL), namely the beginning of the text, and it
  reports the length of the whole text, also when it does not fit.\<close>

theorem render_within_buffer:
  "render_stanza s len = (case stanza_text s of None \<Rightarrow> Inl XMPP_EINVOP
     | Some t \<Rightarrow> Inr (length t, take (len - 1) t))"
  by (simp add: render_stanza_eq render_result_def)

text \<open>C39: Escaping is exact and safe: the buffer sized by the first loop is filled exactly, the escaped text
  contains no \<open><\<close>, \<open>>\<close> or double quote, and different texts have different escapes.\<close>

theorem escape_is_safe:
  "\<exists>buf. escape_xml s = Some buf \<and> length buf = escape_len 0 s \<and>
     set buf \<inter> {CHR ''<'', CHR ''>'', CHR 0x22} = {} \<and> (escape_xml s' = Some buf) = (s' = s)"
proof -
  have safe: "set (stanza_esc s) \<inter> {CHR ''<'', CHR ''>'', CHR 0x22} = {}"
    by (induction s) (auto simp: stanza_esc_def escape_char_def split: if_splits)
  have pre: "escape_char c @ xs = escape_char d @ ys \<Longrightarrow> c = d \<and> xs = ys" for c d xs ys
    by (auto simp: escape_char_def split: if_splits)
  have inj: "stanza_esc s' = stanza_esc s \<longleftrightarrow> s' = s" for s'
  proof (induction s arbitrary: s')
    case Nil
    then show ?case by (cases s') (auto simp: stanza_esc_def escape_char_def)
  next
    case (Cons c s)
    show ?case
    proof (cases s')
      case Nil
      then show ?thesis by (auto simp: stanza_esc_def escape_char_def)
    next
      case (Cons d r)
      with Cons.IH [of r] pre [of d "stanza_esc r" c "stanza_esc s"] show ?thesis
        by (auto simp: stanza_esc_def)
    qed
  qed
  show ?thesis using safe inj by (simp add: escape_len_eq)
qed

text \<open>Setting an attribute on a well-formed tag succeeds and changes exactly that attribute; on a text or
  an untyped stanza it is refused with XMPP_EINVOP and changes nothing; a NULL value on a tag is undefined.\<close>

theorem set_attribute_effect:
  assumes "c_ascii k"
  shows "(tag_wf s \<longrightarrow> (\<exists>s'. xmpp_stanza_set_attribute s k (Some v) = Some (XMPP_EOK, s') \<and> tag_wf s' \<and>
            (\<forall>k'. c_ascii k' \<longrightarrow> xmpp_stanza_get_attribute s' k' =
               (if k' = k then Some (Some v) else xmpp_stanza_get_attribute s k')) \<and>
            xmpp_stanza_get_name s' = xmpp_stanza_get_name s \<and> st_children s' = st_children s)) \<and>
         (tag_wf s \<longrightarrow> xmpp_stanza_set_attribute s k None = None) \<and>
         (st_type s \<noteq> XMPP_STANZA_TAG \<longrightarrow> xmpp_stanza_set_attribute s k w = Some (XMPP_EINVOP, s))"
proof -
  have "\<exists>s'. xmpp_stanza_set_attribute s k (Some v) = Some (XMPP_EOK, s') \<and> tag_wf s' \<and>
      (\<forall>k'. c_ascii k' \<longrightarrow> xmpp_stanza_get_attribute s' k' =
         (if k' = k then Some (Some v) else xmpp_stanza_get_attribute s k')) \<and>
      xmpp_stanza_get_name s' = xmpp_stanza_get_name s \<and> st_children s' = st_children s" if wf: "tag_wf s"
  proof -
    obtain s' where s': "xmpp_stanza_set_attribute s k (Some v) = Some (XMPP_EOK, s')" "tag_wf s'"
      "stanza_attr s' = (stanza_attr s)(k \<mapsto> v)" "st_data s' = st_data s" "st_children s' = st_children s"
      using set_attribute_tag [OF wf assms] by blast
    then have "xmpp_stanza_get_attribute s' k' = (if k' = k then Some (Some v) else xmpp_stanza_get_attribute s k')"
      if "c_ascii k'" for k'
      using that get_attribute_attr [OF s'(2) that] get_attribute_attr [OF wf that] by simp
    moreover have "xmpp_stanza_get_name s' = xmpp_stanza_get_name s"
      using wf s'(2,4) by (simp add: xmpp_stanza_get_name_def tag_wf_def)
    ultimately show ?thesis using s' by blast
  qed
  then show ?thesis by (auto simp: xmpp_stanza_set_attribute_def tag_wf_def)
qed

theorem set_attribute_effect_witness:
  "(\<exists>s'. xmpp_stanza_set_attribute (stanza_named ''iq'') ''type'' (Some ''get'') = Some (XMPP_EOK, s') \<and>
      xmpp_stanza_get_attribute s' ''type'' = Some (Some ''get'')) \<and>
   xmpp_stanza_set_attribute (stanza_named ''iq'') ''type'' None = None \<and>
   xmpp_stanza_set_attribute xmpp_stanza_new ''type'' (Some ''get'') = Some (XMPP_EINVOP, xmpp_stanza_new)"
proof -
  have k: "c_ascii ''type''" by simp
  have "st_type xmpp_stanza_new \<noteq> XMPP_STANZA_TAG" by (simp add: xmpp_stanza_new_def)
  with set_attribute_effect [OF k, of "stanza_named ''iq''" "''get''" None] k
    set_attribute_effect [OF k, of xmpp_stanza_new "''get''" "Some ''get''"] show ?thesis by auto
qed

text \<open>Copying a tag whose attribute names are ASCII and whose last bucket holds at most one attribute gives
  a tag with the same name, the same attributes and the copied children.\<close>

theorem copy_keeps_attributes:
  assumes "tag_wf s" "iter_complete s" "list_all (\<lambda>kv. c_ascii (fst kv)) (stanza_pairs s)"
    and "those (map xmpp_stanza_copy (st_children s)) = Some cs"
  shows "\<exists>s'. xmpp_stanza_copy s = Some s' \<and> tag_wf s' \<and> st_data s' = st_data s \<and>
     stanza_attr s' = stanza_attr s \<and> st_children s' = cs"
proof -
  obtain ty d a ch where s: "s = Stanza ty d a ch" by (cases s)
  show ?thesis
  proof (cases a)
    case None
    with s assms show ?thesis by (auto simp: tag_wf_def stanza_attr_def [abs_def])
  next
    case (Some t)
    then have t: "hash_wf8 t" using assms(1) s by (simp add: tag_wf_def)
    have pairs: "stanza_pairs s = hash_iter_pairs t" using stanza_pairs_Some [OF assms(1)] s Some by simp
    obtain t' where t': "copy_attributes (hash_new 8) (hash_iter_pairs t) = Some t'" "hash_wf8 t'"
      "hash_lookup t' = map_of (rev (hash_iter_pairs t))"
      using copy_attributes_ok [OF attrs8.invar_new, of "hash_iter_pairs t"] assms(3) pairs
      by (auto simp: hash_lookup_new [abs_def] map_add_def fun_eq_iff split: option.splits)
    have "hash_lookup t' = stanza_attr s"
      using t'(3) map_of_rev_distinct [OF distinct_stanza_pairs [OF assms(1)]]
        map_of_stanza_pairs [OF assms(1,2)] pairs by simp
    with Some s assms t' show ?thesis by (auto simp: tag_wf_def stanza_attr_def [abs_def])
  qed
qed

theorem copy_keeps_attributes_witness:
  "\<exists>s'. xmpp_stanza_copy (stanza_named ''iq'') = Some s' \<and> tag_wf s' \<and> st_data s' = st_data (stanza_named ''iq'') \<and>
     stanza_attr s' = stanza_attr (stanza_named ''iq'') \<and> st_children s' = []"
  by (rule copy_keeps_attributes)
    (simp_all add: stanza_named_def xmpp_stanza_set_name_def xmpp_stanza_new_def iter_complete_def stanza_pairs_def tag_wf_def)

end
