(* ===== verification/Mio_Types.thy ===== *)
theory Mio_Types
  imports Strophe_Stanza
begin

text \<open>
  The data of libMIO (\<^verbatim>\<open>src/libs/c/libMIO/mio.h\<close>): return codes, enumerations, and the structures that
  describe what a node of the system publishes. Every list type of the header is a NULL-terminated
  linked list and becomes a HOL list of records without the \<open>next\<close> field. A \<open>double\<close> behind a pointer
  is its 64-bit pattern. The payload of a packet, a \<open>void *\<close> whose type the packet's \<open>type\<close> field
  tells, is a datatype with one constructor per structure the code stores there.
\<close>

section \<open>Return codes\<close>

definition MIO_HANDLER_KEEP :: int where "MIO_HANDLER_KEEP = 2"
definition MIO_HANDLER_REMOVE :: int where "MIO_HANDLER_REMOVE = 3"

definition MIO_OK :: int where "MIO_OK = 1"
definition MIO_ERROR_DISCONNECTED :: int where "MIO_ERROR_DISCONNECTED = -3"
definition MIO_ERROR_REQUEST_NOT_FOUND :: int where "MIO_ERROR_REQUEST_NOT_FOUND = -4"
definition MIO_ERROR_TOO_MANY_OPEN_REQUESTS :: int where "MIO_ERROR_TOO_MANY_OPEN_REQUESTS = -7"
definition MIO_ERROR_PREDICATE :: int where "MIO_ERROR_PREDICATE = -8"
definition MIO_ERROR_XML_NULL_STANZA :: int where "MIO_ERROR_XML_NULL_STANZA = -10"
definition MIO_ERROR_XML_PARSING :: int where "MIO_ERROR_XML_PARSING = -12"
definition MIO_ERROR_UNKNOWN_PACKET_TYPE :: int where "MIO_ERROR_UNKNOWN_PACKET_TYPE = -14"
definition MIO_ERROR_UNKNOWN_AFFILIATION_TYPE :: int where "MIO_ERROR_UNKNOWN_AFFILIATION_TYPE = -15"
definition MIO_ERROR_TIMEOUT :: int where "MIO_ERROR_TIMEOUT = -17"
definition MIO_ERROR_NULL_STANZA :: int where "MIO_ERROR_NULL_STANZA = -18"
definition MIO_ERROR_ALREADY_SUBSCRIBED :: int where "MIO_ERROR_ALREADY_SUBSCRIBED = -19"
definition MIO_ERROR_NO_RESPONSE :: int where "MIO_ERROR_NO_RESPONSE = -23"
definition MIO_ERROR_DUPLICATE_ENTRY :: int where "MIO_ERROR_DUPLICATE_ENTRY = -24"
definition MIO_ERROR_UNEXPECTED_RESPONSE :: int where "MIO_ERROR_UNEXPECTED_RESPONSE = -26"
definition MIO_ERROR_UNEXPECTED_PAYLOAD :: int where "MIO_ERROR_UNEXPECTED_PAYLOAD = -27"
definition MIO_ERROR_INCOMPLETE_ENUMERATION :: int where "MIO_ERROR_INCOMPLETE_ENUMERATION = -28"
definition MIO_ERROR_REFERENCE_LOOP :: int where "MIO_ERROR_REFERENCE_LOOP = -29"
definition MIO_ERROR_UNKNOWN_META_TYPE :: int where "MIO_ERROR_UNKNOWN_META_TYPE = -30"
definition MIO_ERROR_PARSER :: int where "MIO_ERROR_PARSER = -31"

section \<open>Enumerations\<close>

datatype mio_presence_status = MIO_PRESENCE_UNKNOWN | MIO_PRESENCE_PRESENT | MIO_PRESENCE_UNAVAILABLE

datatype mio_handler_type = MIO_HANDLER | MIO_HANDLER_ID | MIO_HANDLER_TIMED

datatype mio_response_type =
  MIO_RESPONSE_UNKNOWN | MIO_RESPONSE_OK | MIO_RESPONSE_ERROR | MIO_RESPONSE_PACKET

datatype mio_transducer_value_type = MIO_TRANSDUCER_VALUE | MIO_TRANSDUCER_SET_VALUE

datatype mio_packet_type =
  MIO_PACKET_UNKNOWN | MIO_PACKET_DATA | MIO_PACKET_META | MIO_PACKET_SUBSCRIPTIONS
| MIO_PACKET_AFFILIATIONS | MIO_PACKET_COLLECTIONS | MIO_PACKET_NODE_TYPE | MIO_PACKET_SCHEDULE
| MIO_PACKET_REFERENCES

datatype mio_affiliation_type =
  MIO_AFFILIATION_NONE | MIO_AFFILIATION_OWNER | MIO_AFFILIATION_MEMBER | MIO_AFFILIATION_PUBLISHER
| MIO_AFFILIATION_PUBLISH_ONLY | MIO_AFFILIATION_OUTCAST | MIO_AFFILIATION_UNKOWN

datatype mio_node_type =
  MIO_NODE_TYPE_UNKNOWN | MIO_NODE_TYPE_LEAF | MIO_NODE_TYPE_COLLECTION | MIO_NODE_TYPE_EVENT

datatype mio_reference_type = MIO_REFERENCE_UNKOWN | MIO_REFERENCE_CHILD | MIO_REFERENCE_PARENT

datatype mio_meta_type = MIO_META_TYPE_UKNOWN | MIO_META_TYPE_DEVICE | MIO_META_TYPE_LOCATION

section \<open>Structures\<close>

text \<open>The error structure is allocated without being cleared: \<open>None\<close> is a number never written.\<close>

record mio_response_error =
  err_num :: "int option"
  err_description :: cptr

record mio_reference =
  ref_type :: mio_reference_type
  ref_node :: cptr
  ref_name :: cptr
  ref_meta_type :: mio_meta_type

record mio_transducer_value =
  tv_type :: mio_transducer_value_type
  tv_id :: int
  tv_name :: cptr
  tv_typed_value :: cptr
  tv_raw_value :: cptr
  tv_timestamp :: cptr

type_synonym c_double = "64 word"

record mio_geoloc =
  geo_accuracy :: "c_double option"
  geo_alt :: "c_double option"
  geo_area :: cptr
  geo_bearing :: "c_double option"
  geo_building :: cptr
  geo_country :: cptr
  geo_country_code :: cptr
  geo_datum :: cptr
  geo_description :: cptr
  geo_floor :: cptr
  geo_lat :: "c_double option"
  geo_locality :: cptr
  geo_lon :: "c_double option"
  geo_postal_code :: cptr
  geo_region :: cptr
  geo_room :: cptr
  geo_speed :: "c_double option"
  geo_street :: cptr
  geo_text :: cptr
  geo_timestamp :: cptr
  geo_tzo :: cptr
  geo_uri :: cptr

record mio_enum_map_meta =
  em_name :: cptr
  em_value :: cptr

record mio_property_meta =
  pm_name :: cptr
  pm_value :: cptr

record mio_transducer_meta =
  tm_name :: cptr
  tm_type :: cptr
  tm_interface :: cptr
  tm_manufacturer :: cptr
  tm_serial :: cptr
  tm_info :: cptr
  tm_unit :: cptr
  tm_min_value :: cptr
  tm_max_value :: cptr
  tm_resolution :: cptr
  tm_precision :: cptr
  tm_accuracy :: cptr
  tm_enumeration :: "mio_enum_map_meta list"
  tm_geoloc :: "mio_geoloc option"
  tm_properties :: "mio_property_meta list"

record mio_meta =
  mt_name :: cptr
  mt_timestamp :: cptr
  mt_info :: cptr
  mt_meta_type :: mio_meta_type
  mt_geoloc :: "mio_geoloc option"
  mt_transducers :: "mio_transducer_meta list"
  mt_properties :: "mio_property_meta list"

record mio_data =
  dt_event :: cptr
  dt_num_transducers :: int
  dt_transducers :: "mio_transducer_value list"

record mio_subscription =
  sub_subscription :: cptr
  sub_sub_id :: cptr

record mio_affiliation =
  aff_affiliation :: cptr
  aff_type :: mio_affiliation_type

record mio_collection =
  coll_node :: cptr
  coll_name :: cptr

record mio_recurrence =
  rec_freq :: cptr
  rec_interval :: cptr
  rec_count :: cptr
  rec_until :: cptr
  rec_bymonth :: cptr
  rec_byday :: cptr
  rec_exdate :: cptr

record mio_event =
  ev_id :: int
  ev_tranducer_name :: cptr
  ev_transducer_value :: cptr
  ev_time :: cptr
  ev_info :: cptr
  ev_recurrence :: "mio_recurrence option"

text \<open>The structures a packet's \<open>payload\<close> may point to; \<open>PNull\<close> is the NULL pointer.\<close>

datatype mio_payload =
  PNull
| PData mio_data
| PMeta mio_meta
| PSubscriptions "mio_subscription list"
| PAffiliations "mio_affiliation list"
| PCollections "mio_collection list"
| PNodeType mio_node_type
| PSchedule "mio_event list"
| PReferences "mio_reference list"

record mio_packet =
  pkt_id :: cptr
  pkt_type :: mio_packet_type
  pkt_num_payloads :: int
  pkt_payload :: mio_payload

text \<open>What \<open>response->response\<close> points to: nothing, an error, or a packet.\<close>

datatype mio_response_body = RNull | RError mio_response_error | RPacket mio_packet

record mio_response =
  rsp_id :: string
  rsp_ns :: cptr
  rsp_name :: cptr
  rsp_type :: cptr
  rsp_response :: mio_response_body
  rsp_response_type :: mio_response_type
  rsp_stanza :: "xmpp_stanza option"

section \<open>Constructors: zeroed memory\<close>

definition mio_response_new :: mio_response where
  "mio_response_new = \<lparr>rsp_id = [], rsp_ns = None, rsp_name = None, rsp_type = None, rsp_response = RNull,
     rsp_response_type = MIO_RESPONSE_UNKNOWN, rsp_stanza = None\<rparr>"

definition mio_response_error_new :: mio_response_error where
  "mio_response_error_new = \<lparr>err_num = None, err_description = None\<rparr>"

definition mio_packet_new :: mio_packet where
  "mio_packet_new = \<lparr>pkt_id = None, pkt_type = MIO_PACKET_UNKNOWN, pkt_num_payloads = 0, pkt_payload = PNull\<rparr>"

definition mio_data_new :: mio_data where
  "mio_data_new = \<lparr>dt_event = None, dt_num_transducers = 0, dt_transducers = []\<rparr>"

definition mio_geoloc_new :: mio_geoloc where
  "mio_geoloc_new = \<lparr>geo_accuracy = None, geo_alt = None, geo_area = None, geo_bearing = None,
     geo_building = None, geo_country = None, geo_country_code = None, geo_datum = None,
     geo_description = None, geo_floor = None, geo_lat = None, geo_locality = None, geo_lon = None,
     geo_postal_code = None, geo_region = None, geo_room = None, geo_speed = None, geo_street = None,
     geo_text = None, geo_timestamp = None, geo_tzo = None, geo_uri = None\<rparr>"

definition mio_enum_map_meta_new :: mio_enum_map_meta where
  "mio_enum_map_meta_new = \<lparr>em_name = None, em_value = None\<rparr>"

definition mio_property_meta_new :: mio_property_meta where
  "mio_property_meta_new = \<lparr>pm_name = None, pm_value = None\<rparr>"

definition mio_transducer_meta_new :: mio_transducer_meta where
  "mio_transducer_meta_new = \<lparr>tm_name = None, tm_type = None, tm_interface = None, tm_manufacturer = None,
     tm_serial = None, tm_info = None, tm_unit = None, tm_min_value = None, tm_max_value = None,
     tm_resolution = None, tm_precision = None, tm_accuracy = None, tm_enumeration = [],
     tm_geoloc = None, tm_properties = []\<rparr>"

definition mio_meta_new :: mio_meta where
  "mio_meta_new = \<lparr>mt_name = None, mt_timestamp = None, mt_info = None, mt_meta_type = MIO_META_TYPE_UKNOWN,
     mt_geoloc = None, mt_transducers = [], mt_properties = []\<rparr>"

definition mio_transducer_value_new :: mio_transducer_value where
  "mio_transducer_value_new = \<lparr>tv_type = MIO_TRANSDUCER_VALUE, tv_id = 0, tv_name = None,
     tv_typed_value = None, tv_raw_value = None, tv_timestamp = None\<rparr>"

definition mio_subscription_new :: mio_subscription where
  "mio_subscription_new = \<lparr>sub_subscription = None, sub_sub_id = None\<rparr>"

definition mio_affiliation_new :: mio_affiliation where
  "mio_affiliation_new = \<lparr>aff_affiliation = None, aff_type = MIO_AFFILIATION_NONE\<rparr>"

definition mio_collection_new :: mio_collection where
  "mio_collection_new = \<lparr>coll_node = None, coll_name = None\<rparr>"

definition mio_recurrence_new :: mio_recurrence where
  "mio_recurrence_new = \<lparr>rec_freq = None, rec_interval = None, rec_count = None, rec_until = None,
     rec_bymonth = None, rec_byday = None, rec_exdate = None\<rparr>"

definition mio_event_new :: mio_event where
  "mio_event_new = \<lparr>ev_id = -1, ev_tranducer_name = None, ev_transducer_value = None, ev_time = None,
     ev_info = None, ev_recurrence = None\<rparr>"

definition mio_reference_new :: mio_reference where
  "mio_reference_new = \<lparr>ref_type = MIO_REFERENCE_UNKOWN, ref_node = None, ref_name = None,
     ref_meta_type = MIO_META_TYPE_UKNOWN\<rparr>"

end
