(* ===== verification/Mio_Packets.thy ===== *)
theory Mio_Packets
  imports Mio_Types
begin

text \<open>
  The packets a reply is collected in (\<^verbatim>\<open>mio.c\<close>): appending a subscription, affiliation or collection
  to the payload list of a packet, a transducer value to a data structure, and the constructor of the
  payload. A payload of another type than the code casts it to is undefined (\<open>None\<close>).

  Shown: each append puts exactly one element, with the given fields, behind the list, and keeps
  \<open>num_payloads\<close> (\<open>num_transducers\<close>) equal to the length.
\<close>

definition mio_packet_payload_add :: "mio_packet \<Rightarrow> mio_payload \<Rightarrow> mio_packet_type \<Rightarrow> mio_packet" where
  "mio_packet_payload_add packet payload type = packet\<lparr>pkt_type := type, pkt_payload := payload\<rparr>"

text \<open>Reading the payload pointer as a list of the expected type; NULL is the empty list.\<close>

definition as_subscriptions :: "mio_payload \<Rightarrow> mio_subscription list option" where
  "as_subscriptions p = (case p of PNull \<Rightarrow> Some [] | PSubscriptions xs \<Rightarrow> Some xs | _ \<Rightarrow> None)"

definition as_affiliations :: "mio_payload \<Rightarrow> mio_affiliation list option" where
  "as_affiliations p = (case p of PNull \<Rightarrow> Some [] | PAffiliations xs \<Rightarrow> Some xs | _ \<Rightarrow> None)"

definition as_collections :: "mio_payload \<Rightarrow> mio_collection list option" where
  "as_collections p = (case p of PNull \<Rightarrow> Some [] | PCollections xs \<Rightarrow> Some xs | _ \<Rightarrow> None)"

definition as_events :: "mio_payload \<Rightarrow> mio_event list option" where
  "as_events p = (case p of PNull \<Rightarrow> Some [] | PSchedule xs \<Rightarrow> Some xs | _ \<Rightarrow> None)"

definition as_references :: "mio_payload \<Rightarrow> mio_reference list option" where
  "as_references p = (case p of PNull \<Rightarrow> Some [] | PReferences xs \<Rightarrow> Some xs | _ \<Rightarrow> None)"

definition as_meta :: "mio_payload \<Rightarrow> mio_meta option option" where
  "as_meta p = (case p of PNull \<Rightarrow> Some None | PMeta m \<Rightarrow> Some (Some m) | _ \<Rightarrow> None)"

definition as_data :: "mio_payload \<Rightarrow> mio_data option option" where
  "as_data p = (case p of PNull \<Rightarrow> Some None | PData d \<Rightarrow> Some (Some d) | _ \<Rightarrow> None)"

definition mio_subscription_tail_get :: "mio_subscription list \<Rightarrow> mio_subscription option" where
  "mio_subscription_tail_get sub = c_tail_get sub"

definition mio_affiliation_tail_get :: "mio_affiliation list \<Rightarrow> mio_affiliation option" where
  "mio_affiliation_tail_get aff = c_tail_get aff"

definition mio_collection_tail_get :: "mio_collection list \<Rightarrow> mio_collection option" where
  "mio_collection_tail_get coll = c_tail_get coll"

definition mio_transducer_value_tail_get :: "mio_transducer_value list \<Rightarrow> mio_transducer_value option" where
  "mio_transducer_value_tail_get t_value = c_tail_get t_value"

text \<open>
  A new element becomes the payload of an empty packet (which also gets the packet type) or the
  successor of the tail; then its fields are written through the pointer.
\<close>

definition mio_subscription_add :: "mio_packet \<Rightarrow> cptr \<Rightarrow> cptr \<Rightarrow> mio_packet option" where
  "mio_subscription_add pkt subscription sub_id = do {
     subs \<leftarrow> as_subscriptions (pkt_payload pkt);
     let p = (case mio_subscription_tail_get subs of
                None \<Rightarrow> mio_packet_payload_add pkt (PSubscriptions [mio_subscription_new]) MIO_PACKET_SUBSCRIPTIONS
              | Some _ \<Rightarrow> pkt\<lparr>pkt_payload := PSubscriptions (subs @ [mio_subscription_new])\<rparr>);
     s \<leftarrow> subscription;
     subs' \<leftarrow> as_subscriptions (pkt_payload p);
     Some (p\<lparr>pkt_payload := PSubscriptions (c_update_last (\<lambda>x. x\<lparr>sub_subscription := Some s,
               sub_sub_id := Some (case sub_id of None \<Rightarrow> '''' | Some i \<Rightarrow> i)\<rparr>) subs'),
             pkt_num_payloads := pkt_num_payloads p + 1\<rparr>) }"

definition mio_affiliation_add :: "mio_packet \<Rightarrow> cptr \<Rightarrow> mio_affiliation_type \<Rightarrow> mio_packet option" where
  "mio_affiliation_add pkt affiliation type = do {
     affs \<leftarrow> as_affiliations (pkt_payload pkt);
     let p = (case mio_affiliation_tail_get affs of
                None \<Rightarrow> mio_packet_payload_add pkt (PAffiliations [mio_affiliation_new]) MIO_PACKET_AFFILIATIONS
              | Some _ \<Rightarrow> pkt\<lparr>pkt_payload := PAffiliations (affs @ [mio_affiliation_new])\<rparr>);
     a \<leftarrow> affiliation;
     affs' \<leftarrow> as_affiliations (pkt_payload p);
     Some (p\<lparr>pkt_payload := PAffiliations (c_update_last (\<lambda>x. x\<lparr>aff_affiliation := Some a, aff_type := type\<rparr>) affs'),
             pkt_num_payloads := pkt_num_payloads p + 1\<rparr>) }"

definition mio_collection_add :: "mio_packet \<Rightarrow> cptr \<Rightarrow> cptr \<Rightarrow> mio_packet option" where
  "mio_collection_add pkt node name = do {
     colls \<leftarrow> as_collections (pkt_payload pkt);
     let p = (case mio_collection_tail_get colls of
                None \<Rightarrow> mio_packet_payload_add pkt (PCollections [mio_collection_new]) MIO_PACKET_COLLECTIONS
              | Some _ \<Rightarrow> pkt\<lparr>pkt_payload := PCollections (colls @ [mio_collection_new])\<rparr>);
     colls' \<leftarrow> as_collections (pkt_payload p);
     Some (p\<lparr>pkt_payload := PCollections (c_update_last (\<lambda>x. x\<lparr>coll_name := c_overwrite (coll_name x) name,
               coll_node := c_overwrite (coll_node x) node\<rparr>) colls'),
             pkt_num_payloads := pkt_num_payloads p + 1\<rparr>) }"

definition mio_data_transducer_value_add ::
  "mio_data \<Rightarrow> mio_transducer_value_type \<Rightarrow> int \<Rightarrow> cptr \<Rightarrow> cptr \<Rightarrow> cptr \<Rightarrow> cptr \<Rightarrow> mio_data" where
  "mio_data_transducer_value_add data type i name typed_value raw_value timestamp =
     (let ts = (if dt_transducers data = [] then [mio_transducer_value_new]
                else case mio_transducer_value_tail_get (dt_transducers data) of
                       None \<Rightarrow> dt_transducers data
                     | Some _ \<Rightarrow> dt_transducers data @ [mio_transducer_value_new])
      in data\<lparr>dt_transducers := c_update_last (\<lambda>t. t\<lparr>tv_id := i, tv_type := type,
                tv_name := c_overwrite (tv_name t) name,
                tv_typed_value := c_overwrite (tv_typed_value t) typed_value,
                tv_raw_value := c_overwrite (tv_raw_value t) raw_value,
                tv_timestamp := c_overwrite (tv_timestamp t) timestamp\<rparr>) ts,
              dt_num_transducers := dt_num_transducers data + 1\<rparr>)"

section \<open>Lemmas\<close>

lemma mio_subscription_add_eq:
  assumes "as_subscriptions (pkt_payload pkt) = Some subs"
  shows "mio_subscription_add pkt (Some s) sub_id =
     Some (pkt\<lparr>pkt_type := (if subs = [] then MIO_PACKET_SUBSCRIPTIONS else pkt_type pkt),
       pkt_payload := PSubscriptions (subs @ [\<lparr>sub_subscription = Some s,
         sub_sub_id = Some (case sub_id of None \<Rightarrow> '''' | Some i \<Rightarrow> i)\<rparr>]),
       pkt_num_payloads := pkt_num_payloads pkt + 1\<rparr>)"
  using assms
  by (cases "subs = []")
    (simp_all add: mio_subscription_add_def mio_subscription_tail_get_def c_tail_get_conv
      mio_packet_payload_add_def as_subscriptions_def mio_subscription_new_def Let_def)

lemma mio_affiliation_add_eq:
  assumes "as_affiliations (pkt_payload pkt) = Some affs"
  shows "mio_affiliation_add pkt (Some a) ty =
     Some (pkt\<lparr>pkt_type := (if affs = [] then MIO_PACKET_AFFILIATIONS else pkt_type pkt),
       pkt_payload := PAffiliations (affs @ [\<lparr>aff_affiliation = Some a, aff_type = ty\<rparr>]),
       pkt_num_payloads := pkt_num_payloads pkt + 1\<rparr>)"
  using assms
  by (cases "affs = []")
    (simp_all add: mio_affiliation_add_def mio_affiliation_tail_get_def c_tail_get_conv
      mio_packet_payload_add_def as_affiliations_def mio_affiliation_new_def Let_def)

lemma mio_collection_add_eq:
  assumes "as_collections (pkt_payload pkt) = Some colls"
  shows "mio_collection_add pkt node name =
     Some (pkt\<lparr>pkt_type := (if colls = [] then MIO_PACKET_COLLECTIONS else pkt_type pkt),
       pkt_payload := PCollections (colls @ [\<lparr>coll_node = node, coll_name = name\<rparr>]),
       pkt_num_payloads := pkt_num_payloads pkt + 1\<rparr>)"
  using assms
  by (cases "colls = []")
    (simp_all add: mio_collection_add_def mio_collection_tail_get_def c_tail_get_conv
      mio_packet_payload_add_def as_collections_def mio_collection_new_def Let_def)

lemma mio_data_transducer_value_add_eq:
  "mio_data_transducer_value_add data ty i name tv rv ts =
     data\<lparr>dt_transducers := dt_transducers data @ [\<lparr>tv_type = ty, tv_id = i, tv_name = name,
            tv_typed_value = tv, tv_raw_value = rv, tv_timestamp = ts\<rparr>],
          dt_num_transducers := dt_num_transducers data + 1\<rparr>"
  by (cases "dt_transducers data = []")
    (simp_all add: mio_data_transducer_value_add_def mio_transducer_value_tail_get_def c_tail_get_conv
      mio_transducer_value_new_def Let_def)

section \<open>Properties\<close>

text \<open>The count of a packet agrees with its payload list.\<close>

definition packet_counted :: "mio_packet \<Rightarrow> bool" where
  "packet_counted p \<longleftrightarrow> pkt_num_payloads p = (case pkt_payload p of
     PSubscriptions xs \<Rightarrow> int (length xs) | PAffiliations xs \<Rightarrow> int (length xs) | PCollections xs \<Rightarrow> int (length xs)
   | _ \<Rightarrow> 0)"

text \<open>Adding a subscription to a packet of subscriptions (or an empty one) appends exactly one element with
  the given names (a missing subscription id becomes the empty text) and keeps the count equal to the length;
  a missing subscription name is undefined. Likewise for affiliations and collections, where a missing name of
  a collection stays NULL.\<close>

theorem packet_appends:
  assumes "packet_counted p"
  shows "(\<forall>subs. as_subscriptions (pkt_payload p) = Some subs \<longrightarrow> (\<exists>q. mio_subscription_add p (Some s) i = Some q \<and>
            packet_counted q \<and> pkt_payload q = PSubscriptions (subs @ [\<lparr>sub_subscription = Some s,
              sub_sub_id = Some (case i of None \<Rightarrow> '''' | Some x \<Rightarrow> x)\<rparr>]))) \<and>
     mio_subscription_add p None i = None \<and>
     (\<forall>affs. as_affiliations (pkt_payload p) = Some affs \<longrightarrow> (\<exists>q. mio_affiliation_add p (Some s) ty = Some q \<and>
            packet_counted q \<and> pkt_payload q = PAffiliations (affs @ [\<lparr>aff_affiliation = Some s, aff_type = ty\<rparr>]))) \<and>
     (\<forall>colls. as_collections (pkt_payload p) = Some colls \<longrightarrow> (\<exists>q. mio_collection_add p i nm = Some q \<and>
            packet_counted q \<and> pkt_payload q = PCollections (colls @ [\<lparr>coll_node = i, coll_name = nm\<rparr>])))"
proof -
  have "\<exists>q. mio_subscription_add p (Some s) i = Some q \<and> packet_counted q \<and>
      pkt_payload q = PSubscriptions (subs @ [\<lparr>sub_subscription = Some s, sub_sub_id = Some (case i of None \<Rightarrow> '''' | Some x \<Rightarrow> x)\<rparr>])"
    if "as_subscriptions (pkt_payload p) = Some subs" for subs
    using that assms by (auto simp: mio_subscription_add_eq [OF that] packet_counted_def as_subscriptions_def split: mio_payload.splits)
  moreover have "\<exists>q. mio_affiliation_add p (Some s) ty = Some q \<and> packet_counted q \<and>
      pkt_payload q = PAffiliations (affs @ [\<lparr>aff_affiliation = Some s, aff_type = ty\<rparr>])"
    if "as_affiliations (pkt_payload p) = Some affs" for affs
    using that assms by (auto simp: mio_affiliation_add_eq [OF that] packet_counted_def as_affiliations_def split: mio_payload.splits)
  moreover have "\<exists>q. mio_collection_add p i nm = Some q \<and> packet_counted q \<and>
      pkt_payload q = PCollections (colls @ [\<lparr>coll_node = i, coll_name = nm\<rparr>])"
    if "as_collections (pkt_payload p) = Some colls" for colls
    using that assms by (auto simp: mio_collection_add_eq [OF that] packet_counted_def as_collections_def split: mio_payload.splits)
  moreover have "mio_subscription_add p None i = None"
    by (auto simp: mio_subscription_add_def split: Option.bind_splits)
  ultimately show ?thesis by blast
qed

theorem packet_appends_witness:
  "(\<exists>q. mio_subscription_add mio_packet_new (Some ''lamp'') None = Some q \<and> packet_counted q \<and>
      pkt_payload q = PSubscriptions [\<lparr>sub_subscription = Some ''lamp'', sub_sub_id = Some ''''\<rparr>]) \<and>
   mio_subscription_add mio_packet_new None None = None"
proof -
  have "packet_counted mio_packet_new" "as_subscriptions (pkt_payload mio_packet_new) = Some []"
    by (simp_all add: packet_counted_def mio_packet_new_def as_subscriptions_def)
  with packet_appends [of mio_packet_new "''lamp''" None] show ?thesis by auto
qed

text \<open>Adding a transducer value appends exactly one value with the given type and texts behind the ones
  collected so far and counts it.\<close>

theorem transducer_value_append:
  "dt_transducers (mio_data_transducer_value_add d ty i nm tv rv ts) =
     dt_transducers d @ [\<lparr>tv_type = ty, tv_id = i, tv_name = nm, tv_typed_value = tv, tv_raw_value = rv, tv_timestamp = ts\<rparr>] \<and>
   dt_num_transducers (mio_data_transducer_value_add d ty i nm tv rv ts) = dt_num_transducers d + 1 \<and>
   dt_event (mio_data_transducer_value_add d ty i nm tv rv ts) = dt_event d"
  by (simp add: mio_data_transducer_value_add_eq)

end
