(* ===== verification/Mio_Geoloc.thy ===== *)
theory Mio_Geoloc
  imports Mio_Types
begin

text \<open>
  Geographic locations (\<^verbatim>\<open>mio.c\<close>: \<open>mio_geoloc_merge\<close>, \<open>mio_geoloc_to_stanza\<close> and their helpers), and
  the conversions \<open>%lf\<close> of the C library between a \<open>double\<close> and its decimal text.

  Shown: merging overwrites exactly the fields the second location gives and is idempotent and
  associative; the stanza has one child per field that is set, in the order of the code.
\<close>

section \<open>Printing and reading a double\<close>

text \<open>The fields of an IEEE 754 binary64 value.\<close>

definition dbl_neg :: "c_double \<Rightarrow> bool" where "dbl_neg d \<longleftrightarrow> 2 ^ 63 \<le> unat d"
definition dbl_exp :: "c_double \<Rightarrow> nat" where "dbl_exp d = (unat d div 2 ^ 52) mod 2 ^ 11"
definition dbl_frac :: "c_double \<Rightarrow> nat" where "dbl_frac d = unat d mod 2 ^ 52"

text \<open>The magnitude is \<open>dbl_mant d * 2 ^ (dbl_scale d) / 2 ^ 1074\<close> for a finite value.\<close>

definition dbl_mant :: "c_double \<Rightarrow> nat" where
  "dbl_mant d = (if dbl_exp d = 0 then dbl_frac d else 2 ^ 52 + dbl_frac d)"

definition dbl_scale :: "c_double \<Rightarrow> nat" where
  "dbl_scale d = (if dbl_exp d = 0 then 0 else dbl_exp d - 1)"

text \<open>\<open>n / d\<close> rounded to the nearest integer, ties to even.\<close>

definition round_half_even :: "nat \<Rightarrow> nat \<Rightarrow> nat" where
  "round_half_even n d =
     (let q = n div d; r = n mod d
      in if 2 * r < d then q else if 2 * r > d then q + 1 else if even q then q else q + 1)"

fun dec_pad :: "nat \<Rightarrow> nat \<Rightarrow> string" where
  "dec_pad 0 n = []"
| "dec_pad (Suc k) n = dec_pad k (n div 10) @ [c_digit (n mod 10)]"

text \<open>\<open>snprintf(text, size, "%lf", d)\<close>\<close>

definition c_fmt_lf :: "c_double \<Rightarrow> string" where
  "c_fmt_lf d =
     (if dbl_neg d then ''-'' else '''') @
     (if dbl_exp d = 2047 then (if dbl_frac d = 0 then ''inf'' else ''nan'')
      else let n = round_half_even (dbl_mant d * 2 ^ dbl_scale d * 10 ^ 6) (2 ^ 1074)
           in c_dec (n div 10 ^ 6) @ ''.'' @ dec_pad 6 (n mod 10 ^ 6))"

text \<open>
  The double nearest to \<open>n / d\<close>: the least exponent whose rounded mantissa fits 53 bits, found by
  bisection (the rounded mantissa decreases as the exponent grows).
\<close>

definition dbl_round_at :: "nat \<Rightarrow> nat \<Rightarrow> nat \<Rightarrow> nat" where
  "dbl_round_at n d e = round_half_even (n * 2 ^ 1074) (d * 2 ^ (e - 1))"

fun dbl_bisect :: "nat \<Rightarrow> nat \<Rightarrow> nat \<Rightarrow> nat \<Rightarrow> nat \<Rightarrow> nat" where
  "dbl_bisect 0 n d lo hi = hi"
| "dbl_bisect (Suc f) n d lo hi =
     (if hi \<le> lo then hi
      else let mid = (lo + hi) div 2
           in if dbl_round_at n d mid < 2 ^ 53 then dbl_bisect f n d lo mid else dbl_bisect f n d (mid + 1) hi)"

definition dbl_of_ratio :: "bool \<Rightarrow> nat \<Rightarrow> nat \<Rightarrow> c_double" where
  "dbl_of_ratio neg n d =
     (let e = dbl_bisect 12 n d 1 2047;
          bits = (if e = 2047 then 2047 * 2 ^ 52 else (e - 1) * 2 ^ 52 + dbl_round_at n d e)
      in word_of_nat (bits + (if neg then 2 ^ 63 else 0)))"

text \<open>
  \<open>sscanf(s, "%<len>lf", &d)\<close> on decimal notation: white space, a sign, digits with an optional
  point, an optional exponent. \<open>None\<close> if there is no number to convert. (The notations \<open>inf\<close>, \<open>nan\<close> and
  hexadecimal, which the conversion also accepts, are left out: they count as no number.)
\<close>

definition scan_sign :: "string \<Rightarrow> bool \<times> string" where
  "scan_sign s = (case s of [] \<Rightarrow> (False, [])
     | c # cs \<Rightarrow> if c = CHR ''-'' then (True, cs) else if c = CHR ''+'' then (False, cs) else (False, s))"

definition scan_exp :: "string \<Rightarrow> int" where
  "scan_exp s = (case s of
     c # cs \<Rightarrow> (if c = CHR ''e'' \<or> c = CHR ''E'' then
        (case scan_sign cs of (neg, ds) \<Rightarrow>
           let n = int (c_scan_digits 0 (takeWhile c_isdigit ds)) in if neg then - n else n) else 0)
   | [] \<Rightarrow> 0)"

definition c_scan_lf :: "string \<Rightarrow> c_double option" where
  "c_scan_lf s =
     (let (neg, t) = scan_sign (dropWhile c_isspace s);
          ip = takeWhile c_isdigit t;
          u = dropWhile c_isdigit t;
          fp = (case u of c # cs \<Rightarrow> if c = CHR ''.'' then takeWhile c_isdigit cs else [] | [] \<Rightarrow> []);
          v = (case u of c # cs \<Rightarrow> if c = CHR ''.'' then dropWhile c_isdigit cs else u | [] \<Rightarrow> []);
          e = scan_exp v - int (length fp);
          m = c_scan_digits 0 (ip @ fp)
      in if ip = [] \<and> fp = [] then None
         else Some (if 0 \<le> e then dbl_of_ratio neg (m * 10 ^ nat e) 1 else dbl_of_ratio neg m (10 ^ nat (- e))))"

section \<open>Merging\<close>

definition mio_geoloc_merge :: "mio_geoloc \<Rightarrow> mio_geoloc \<Rightarrow> mio_geoloc" where
  "mio_geoloc_merge geoloc_to_update geoloc =
     \<lparr>geo_accuracy = c_overwrite (geo_accuracy geoloc_to_update) (geo_accuracy geoloc),
      geo_alt = c_overwrite (geo_alt geoloc_to_update) (geo_alt geoloc),
      geo_area = c_overwrite (geo_area geoloc_to_update) (geo_area geoloc),
      geo_bearing = c_overwrite (geo_bearing geoloc_to_update) (geo_bearing geoloc),
      geo_building = c_overwrite (geo_building geoloc_to_update) (geo_building geoloc),
      geo_country = c_overwrite (geo_country geoloc_to_update) (geo_country geoloc),
      geo_country_code = c_overwrite (geo_country_code geoloc_to_update) (geo_country_code geoloc),
      geo_datum = c_overwrite (geo_datum geoloc_to_update) (geo_datum geoloc),
      geo_description = c_overwrite (geo_description geoloc_to_update) (geo_description geoloc),
      geo_floor = c_overwrite (geo_floor geoloc_to_update) (geo_floor geoloc),
      geo_lat = c_overwrite (geo_lat geoloc_to_update) (geo_lat geoloc),
      geo_locality = c_overwrite (geo_locality geoloc_to_update) (geo_locality geoloc),
      geo_lon = c_overwrite (geo_lon geoloc_to_update) (geo_lon geoloc),
      geo_postal_code = c_overwrite (geo_postal_code geoloc_to_update) (geo_postal_code geoloc),
      geo_region = c_overwrite (geo_region geoloc_to_update) (geo_region geoloc),
      geo_room = c_overwrite (geo_room geoloc_to_update) (geo_room geoloc),
      geo_speed = c_overwrite (geo_speed geoloc_to_update) (geo_speed geoloc),
      geo_street = c_overwrite (geo_street geoloc_to_update) (geo_street geoloc),
      geo_text = c_overwrite (geo_text geoloc_to_update) (geo_text geoloc),
      geo_timestamp = c_overwrite (geo_timestamp geoloc_to_update) (geo_timestamp geoloc),
      geo_tzo = c_overwrite (geo_tzo geoloc_to_update) (geo_tzo geoloc),
      geo_uri = c_overwrite (geo_uri geoloc_to_update) (geo_uri geoloc)\<rparr>"

section \<open>Printing\<close>

definition mio_geoloc_element_add_string :: "xmpp_stanza \<Rightarrow> string \<Rightarrow> cptr \<Rightarrow> xmpp_stanza option" where
  "mio_geoloc_element_add_string geoloc_stanza element_name element_text = do {
     t \<leftarrow> stanza_txt element_text;
     Some (xmpp_stanza_add_child geoloc_stanza (xmpp_stanza_add_child (stanza_named element_name) t)) }"

text \<open>Dereferencing a NULL \<open>double *\<close> is undefined; the buffer has 128 bytes.\<close>

definition mio_geoloc_element_add_double :: "xmpp_stanza \<Rightarrow> string \<Rightarrow> c_double option \<Rightarrow> xmpp_stanza option" where
  "mio_geoloc_element_add_double geoloc_stanza element_name element_value = do {
     v \<leftarrow> element_value;
     t \<leftarrow> stanza_txt (Some (take 127 (c_fmt_lf v)));
     Some (xmpp_stanza_add_child geoloc_stanza (xmpp_stanza_add_child (stanza_named element_name) t)) }"

text \<open>\<open>if (field != NULL) _mio_geoloc_element_add_...(conn, geoloc_stanza, name, value);\<close>\<close>

definition geo_string :: "string \<Rightarrow> cptr \<Rightarrow> xmpp_stanza \<Rightarrow> xmpp_stanza option" where
  "geo_string name v s = (if v \<noteq> None then mio_geoloc_element_add_string s name v else Some s)"

definition geo_double :: "string \<Rightarrow> c_double option \<Rightarrow> c_double option \<Rightarrow> xmpp_stanza \<Rightarrow> xmpp_stanza option" where
  "geo_double name guard v s = (if guard \<noteq> None then mio_geoloc_element_add_double s name v else Some s)"

text \<open>The element \<open>alt\<close> is given the value of \<open>accuracy\<close>.\<close>

definition mio_geoloc_to_stanza :: "mio_geoloc \<Rightarrow> xmpp_stanza option" where
  "mio_geoloc_to_stanza geoloc = do {
     s \<leftarrow> set_attr (stanza_named ''geoloc'') ''xmlns'' (Some ''http://jabber.org/protocol/geoloc'');
     s \<leftarrow> set_attr s ''xml:lang'' (Some ''en'');
     s \<leftarrow> geo_double ''accuracy'' (geo_accuracy geoloc) (geo_accuracy geoloc) s;
     s \<leftarrow> geo_double ''alt'' (geo_alt geoloc) (geo_accuracy geoloc) s;
     s \<leftarrow> geo_string ''area'' (geo_area geoloc) s;
     s \<leftarrow> geo_double ''bearing'' (geo_bearing geoloc) (geo_bearing geoloc) s;
     s \<leftarrow> geo_string ''building'' (geo_building geoloc) s;
     s \<leftarrow> geo_string ''country'' (geo_country geoloc) s;
     s \<leftarrow> geo_string ''countrycode'' (geo_country_code geoloc) s;
     s \<leftarrow> geo_string ''datum'' (geo_datum geoloc) s;
     s \<leftarrow> geo_string ''description'' (geo_description geoloc) s;
     s \<leftarrow> geo_string ''floor'' (geo_floor geoloc) s;
     s \<leftarrow> geo_double ''lat'' (geo_lat geoloc) (geo_lat geoloc) s;
     s \<leftarrow> geo_string ''locality'' (geo_locality geoloc) s;
     s \<leftarrow> geo_double ''lon'' (geo_lon geoloc) (geo_lon geoloc) s;
     s \<leftarrow> geo_string ''postalcode'' (geo_postal_code geoloc) s;
     s \<leftarrow> geo_string ''region'' (geo_region geoloc) s;
     s \<leftarrow> geo_string ''room'' (geo_room geoloc) s;
     s \<leftarrow> geo_double ''speed'' (geo_speed geoloc) (geo_speed geoloc) s;
     s \<leftarrow> geo_string ''street'' (geo_street geoloc) s;
     s \<leftarrow> geo_string ''text'' (geo_text geoloc) s;
     s \<leftarrow> geo_string ''timestamp'' (geo_timestamp geoloc) s;
     s \<leftarrow> geo_string ''tzo'' (geo_tzo geoloc) s;
     geo_string ''uri'' (geo_uri geoloc) s }"

section \<open>Lemmas\<close>

text \<open>An element with a text child.\<close>

definition text_element :: "string \<Rightarrow> string \<Rightarrow> xmpp_stanza" where
  "text_element name v = xmpp_stanza_add_child (stanza_named name) (Stanza XMPP_STANZA_TEXT (Some v) None [])"

definition opt_child :: "string \<Rightarrow> cptr \<Rightarrow> xmpp_stanza list" where
  "opt_child name v = (case v of None \<Rightarrow> [] | Some t \<Rightarrow> [text_element name t])"

definition add_children :: "xmpp_stanza \<Rightarrow> xmpp_stanza list \<Rightarrow> xmpp_stanza" where
  "add_children s cs = foldl xmpp_stanza_add_child s cs"

lemma add_children_simps [simp]:
  "add_children s [] = s"
  "add_children (add_children s cs) ds = add_children s (cs @ ds)"
  "add_children s [c] = xmpp_stanza_add_child s c"
  by (auto simp: add_children_def)

lemma add_children_frame [simp]:
  "tag_wf (add_children s cs) = tag_wf s" "stanza_attr (add_children s cs) = stanza_attr s"
  "st_data (add_children s cs) = st_data s" "st_children (add_children s cs) = st_children s @ cs"
  "st_type (add_children s cs) = st_type s" "st_attributes (add_children s cs) = st_attributes s"
  unfolding add_children_def by (induction cs arbitrary: s) auto

lemma geo_string_eq: "geo_string name v s = Some (add_children s (opt_child name v))"
  by (cases v) (auto simp: geo_string_def mio_geoloc_element_add_string_def opt_child_def text_element_def)

definition fmt_opt :: "c_double option \<Rightarrow> cptr" where
  "fmt_opt v = map_option (\<lambda>d. take 127 (c_fmt_lf d)) v"

lemma geo_double_eq:
  "geo_double name v v s = Some (add_children s (opt_child name (fmt_opt v)))"
  by (cases v) (auto simp: geo_double_def mio_geoloc_element_add_double_def opt_child_def text_element_def fmt_opt_def)

text \<open>The children of the stanza of a location without an altitude.\<close>

definition geoloc_children :: "mio_geoloc \<Rightarrow> xmpp_stanza list" where
  "geoloc_children g =
     opt_child ''accuracy'' (fmt_opt (geo_accuracy g)) @ opt_child ''area'' (geo_area g) @
     opt_child ''bearing'' (fmt_opt (geo_bearing g)) @ opt_child ''building'' (geo_building g) @
     opt_child ''country'' (geo_country g) @ opt_child ''countrycode'' (geo_country_code g) @
     opt_child ''datum'' (geo_datum g) @ opt_child ''description'' (geo_description g) @
     opt_child ''floor'' (geo_floor g) @ opt_child ''lat'' (fmt_opt (geo_lat g)) @
     opt_child ''locality'' (geo_locality g) @ opt_child ''lon'' (fmt_opt (geo_lon g)) @
     opt_child ''postalcode'' (geo_postal_code g) @ opt_child ''region'' (geo_region g) @
     opt_child ''room'' (geo_room g) @ opt_child ''speed'' (fmt_opt (geo_speed g)) @
     opt_child ''street'' (geo_street g) @ opt_child ''text'' (geo_text g) @
     opt_child ''timestamp'' (geo_timestamp g) @ opt_child ''tzo'' (geo_tzo g) @
     opt_child ''uri'' (geo_uri g)"

definition geoloc_tag :: xmpp_stanza where
  "geoloc_tag = put_attr (put_attr (stanza_named ''geoloc'') ''xmlns'' (Some ''http://jabber.org/protocol/geoloc''))
     ''xml:lang'' (Some ''en'')"

lemma mio_geoloc_to_stanza_no_alt:
  assumes "geo_alt g = None"
  shows "mio_geoloc_to_stanza g = Some (add_children geoloc_tag (geoloc_children g))"
proof -
  have alt: "geo_double ''alt'' (geo_alt g) v s = Some s" for v s using assms by (simp add: geo_double_def)
  show ?thesis
    unfolding mio_geoloc_to_stanza_def alt
    by (simp add: stanza_build geo_string_eq geo_double_eq geoloc_tag_def geoloc_children_def)
qed

section \<open>Properties\<close>

text \<open>Merging a location is an overwrite of exactly the fields that are given: merging into an empty
  location copies it, merging an empty one changes nothing, merging twice is merging once, and merging two
  locations one after the other is merging their merge.\<close>

theorem geoloc_merge_laws:
  "mio_geoloc_merge mio_geoloc_new g = g \<and> mio_geoloc_merge g mio_geoloc_new = g \<and>
   mio_geoloc_merge (mio_geoloc_merge h g) g = mio_geoloc_merge h g \<and>
   mio_geoloc_merge (mio_geoloc_merge h g) k = mio_geoloc_merge h (mio_geoloc_merge g k)"
  by (simp add: mio_geoloc_merge_def mio_geoloc_new_def c_overwrite_assoc)

text \<open>The stanza of a location without an altitude is the tag \<open>geoloc\<close> with one text child for each field
  that is set, in the order of the code; a location with an altitude but no accuracy is undefined, because
  the element \<open>alt\<close> is given the accuracy's value.\<close>

theorem geoloc_stanza_children:
  assumes "geo_alt g = None"
  shows "mio_geoloc_to_stanza g = Some (add_children geoloc_tag (geoloc_children g)) \<and>
     mio_geoloc_to_stanza (g\<lparr>geo_alt := Some a, geo_accuracy := None\<rparr>) = None"
proof -
  have "mio_geoloc_to_stanza (g\<lparr>geo_alt := Some a, geo_accuracy := None\<rparr>) = None"
    by (simp add: mio_geoloc_to_stanza_def stanza_build geo_double_def [of "''alt''"] geo_double_def [of "''accuracy''"]
        mio_geoloc_element_add_double_def)
  with mio_geoloc_to_stanza_no_alt [OF assms] show ?thesis by blast
qed

theorem geoloc_stanza_children_witness:
  "mio_geoloc_to_stanza (mio_geoloc_new\<lparr>geo_room := Some ''B12''\<rparr>) =
     Some (add_children geoloc_tag (geoloc_children (mio_geoloc_new\<lparr>geo_room := Some ''B12''\<rparr>))) \<and>
   mio_geoloc_to_stanza (mio_geoloc_new\<lparr>geo_room := Some ''B12'', geo_alt := Some 0, geo_accuracy := None\<rparr>) = None"
proof -
  have "geo_alt (mio_geoloc_new\<lparr>geo_room := Some ''B12''\<rparr>) = None" by (simp add: mio_geoloc_new_def)
  from geoloc_stanza_children [OF this, of 0] show ?thesis by simp
qed

end
