(* ===== verification/Mio_Parser.thy ===== *)
theory Mio_Parser
  imports Strophe_Stanza
begin

text \<open>
  The XML parser of libMIO (\<^verbatim>\<open>mio.c\<close>: \<open>_mio_parser_*\<close>, \<open>mio_parse\<close>): callbacks of the expat
  library build a stanza tree. expat itself is not part of the repository; it enters as the list of
  events it delivers. The pointer \<open>parser->stanza\<close> together with the \<open>parent\<close> links above it is the
  stack \<open>ps_stack\<close>: its head is the current stanza, and a finished child is hung into its parent
  when the parser returns to the parent.

  Shown: fed with the events of a printed stanza, the callbacks rebuild a stanza that has the same
  names, texts, attributes and children, except that text directly below the root is dropped.
\<close>

section \<open>Events\<close>

datatype xml_event =
  StartElement string "(string \<times> string) list" | EndElement string | CharData string

fun sax_events :: "xmpp_stanza \<Rightarrow> xml_event list" where
  "sax_events (Stanza ty d a cs) =
     (case (ty, d) of
        (XMPP_STANZA_TAG, Some name) \<Rightarrow>
          StartElement name (stanza_pairs (Stanza ty d a cs)) # concat (map sax_events cs) @ [EndElement name]
      | (XMPP_STANZA_TEXT, Some s) \<Rightarrow> (if s = [] then [] else [CharData s])
      | _ \<Rightarrow> [])"

text \<open>The events of a tag with known children.\<close>

lemma sax_events_tag:
  "tag_wf s \<Longrightarrow> st_data s = Some name \<Longrightarrow>
   sax_events s = StartElement name (stanza_pairs s) # concat (map sax_events (st_children s)) @ [EndElement name]"
  by (cases s) (auto simp: tag_wf_def)

section \<open>The server part of a JID\<close>

fun mio_get_server :: "string \<Rightarrow> cptr" where
  "mio_get_server [] = None"
| "mio_get_server (c # jid) = (if c = CHR ''@'' then Some jid else mio_get_server jid)"

section \<open>The callbacks\<close>

record mio_parser =
  ps_depth :: int
  ps_stack :: "xmpp_stanza list"

definition mio_parser_reset :: "mio_parser \<Rightarrow> mio_parser" where
  "mio_parser_reset p = \<lparr>ps_depth = 0, ps_stack = []\<rparr>"

definition mio_parser_new :: mio_parser where
  "mio_parser_new = mio_parser_reset \<lparr>ps_depth = 0, ps_stack = []\<rparr>"

fun mio_parser_set_attributes :: "xmpp_stanza \<Rightarrow> (string \<times> string) list \<Rightarrow> xmpp_stanza option" where
  "mio_parser_set_attributes s [] = Some s"
| "mio_parser_set_attributes s ((k, v) # attrs) = do { s' \<leftarrow> set_attr s k (Some v); mio_parser_set_attributes s' attrs }"

definition mio_parser_start_element :: "mio_parser \<Rightarrow> string \<Rightarrow> (string \<times> string) list \<Rightarrow> mio_parser option" where
  "mio_parser_start_element p name attrs = do {
     child \<leftarrow> mio_parser_set_attributes (stanza_named name) attrs;
     Some \<lparr>ps_depth = ps_depth p + 1, ps_stack = child # ps_stack p\<rparr> }"

definition mio_parser_end_element :: "mio_parser \<Rightarrow> mio_parser option" where
  "mio_parser_end_element p =
     (let depth = ps_depth p - 1 in
      if depth = 0 then Some (p\<lparr>ps_depth := depth\<rparr>)
      else case ps_stack p of
             [] \<Rightarrow> None
           | [s] \<Rightarrow> Some (p\<lparr>ps_depth := depth\<rparr>)
           | s # parent # rest \<Rightarrow>
               Some \<lparr>ps_depth = depth, ps_stack = xmpp_stanza_add_child parent s # rest\<rparr>)"

definition mio_parser_characters :: "mio_parser \<Rightarrow> string \<Rightarrow> mio_parser option" where
  "mio_parser_characters p s =
     (if ps_depth p < 2 then Some p
      else do {
        (r, st) \<leftarrow> xmpp_stanza_set_text_with_size xmpp_stanza_new s (length s);
        (case ps_stack p of
           [] \<Rightarrow> None
         | cur # rest \<Rightarrow> Some (p\<lparr>ps_stack := xmpp_stanza_add_child cur st # rest\<rparr>)) })"

fun mio_parser_event :: "mio_parser \<Rightarrow> xml_event \<Rightarrow> mio_parser option" where
  "mio_parser_event p (StartElement name attrs) = mio_parser_start_element p name attrs"
| "mio_parser_event p (EndElement name) = mio_parser_end_element p"
| "mio_parser_event p (CharData s) = mio_parser_characters p s"

fun mio_parser_run :: "mio_parser \<Rightarrow> xml_event list \<Rightarrow> mio_parser option" where
  "mio_parser_run p [] = Some p"
| "mio_parser_run p (e # es) = do { p' \<leftarrow> mio_parser_event p e; mio_parser_run p' es }"

text \<open>\<open>XML_Parse\<close> is the argument \<open>expat\<close>: the events it delivers for the given text.\<close>

definition mio_parse :: "(string \<Rightarrow> xml_event list) \<Rightarrow> mio_parser \<Rightarrow> string
    \<Rightarrow> (xmpp_stanza option \<times> mio_parser) option" where
  "mio_parse expat p s = do {
     p' \<leftarrow> mio_parser_run p (expat s);
     Some (case ps_stack p' of [] \<Rightarrow> None | st # _ \<Rightarrow> Some st, \<lparr>ps_depth = 0, ps_stack = []\<rparr>) }"

section \<open>The tree the callbacks build\<close>

definition parsed_tag :: "string \<Rightarrow> (string \<times> string) list \<Rightarrow> xmpp_stanza" where
  "parsed_tag name attrs = the (mio_parser_set_attributes (stanza_named name) attrs)"

fun parsed :: "xmpp_stanza \<Rightarrow> xmpp_stanza list" where
  "parsed (Stanza ty d a cs) =
     (case (ty, d) of
        (XMPP_STANZA_TAG, Some name) \<Rightarrow>
          [foldl xmpp_stanza_add_child (parsed_tag name (stanza_pairs (Stanza ty d a cs))) (concat (map parsed cs))]
      | (XMPP_STANZA_TEXT, Some s) \<Rightarrow> if s = [] then [] else [Stanza XMPP_STANZA_TEXT (Some s) None []]
      | _ \<Rightarrow> [])"

text \<open>
  Well-formed trees: text nodes carry text without NUL, tags carry an attribute table the iterator
  enumerates in full, with ASCII names.
\<close>

fun stanza_wf :: "xmpp_stanza \<Rightarrow> bool" where
  "stanza_wf (Stanza ty d a cs) \<longleftrightarrow>
     (case ty of
        XMPP_STANZA_UNKNOWN \<Rightarrow> False
      | XMPP_STANZA_TEXT \<Rightarrow> cs = [] \<and> (case d of None \<Rightarrow> False | Some s \<Rightarrow> s \<noteq> [] \<and> CHR 0x00 \<notin> set s)
      | XMPP_STANZA_TAG \<Rightarrow> tag_wf (Stanza ty d a cs) \<and> iter_complete (Stanza ty d a cs) \<and>
          list_all (\<lambda>kv. c_ascii (fst kv)) (stanza_pairs (Stanza ty d a cs)) \<and> list_all stanza_wf cs)"

inductive stanza_eqv :: "xmpp_stanza \<Rightarrow> xmpp_stanza \<Rightarrow> bool" where
  "st_type s = st_type s' \<Longrightarrow> st_data s = st_data s' \<Longrightarrow> (st_type s = XMPP_STANZA_TAG \<longrightarrow> stanza_attr s = stanza_attr s') \<Longrightarrow>
   list_all2 stanza_eqv (st_children s) (st_children s') \<Longrightarrow> stanza_eqv s s'"

lemma mio_parser_set_attributes_ok:
  "tag_wf s \<Longrightarrow> list_all (\<lambda>kv. c_ascii (fst kv)) kvs \<Longrightarrow>
   \<exists>s'. mio_parser_set_attributes s kvs = Some s' \<and> tag_wf s' \<and> stanza_attr s' = stanza_attr s ++ map_of (rev kvs)
      \<and> st_data s' = st_data s \<and> st_children s' = st_children s"
proof (induction kvs arbitrary: s)
  case Nil
  then show ?case by simp
next
  case (Cons kv kvs)
  obtain k v where kv: "kv = (k, v)" by (cases kv)
  let ?s = "put_attr s k (Some v)"
  have k: "c_ascii k" using Cons.prems kv by simp
  note p = put_attr_tag [OF Cons.prems(1) k, of "Some v"]
  from Cons.IH [OF p(1)] Cons.prems(2) obtain s' where "mio_parser_set_attributes ?s kvs = Some s'" "tag_wf s'"
    "stanza_attr s' = stanza_attr ?s ++ map_of (rev kvs)" "st_data s' = st_data ?s" "st_children s' = st_children ?s"
    by auto
  with p kv set_attr_tag [OF Cons.prems(1) k] show ?case
    by (auto simp: map_add_def fun_eq_iff split: option.splits)
qed

lemma parsed_tag_ok:
  assumes "list_all (\<lambda>kv. c_ascii (fst kv)) kvs"
  shows "mio_parser_set_attributes (stanza_named name) kvs = Some (parsed_tag name kvs)"
    "tag_wf (parsed_tag name kvs)" "stanza_attr (parsed_tag name kvs) = map_of (rev kvs)"
    "st_data (parsed_tag name kvs) = Some name" "st_children (parsed_tag name kvs) = []"
  using mio_parser_set_attributes_ok [OF _ assms, of "stanza_named name"] by (auto simp: parsed_tag_def)

lemma mio_parser_run_append:
  "mio_parser_run p (es @ fs) = do { p' \<leftarrow> mio_parser_run p es; mio_parser_run p' fs }"
  by (induction es arbitrary: p) (auto split: Option.bind_splits)

text \<open>Running the events of a node appends what \<open>parsed\<close> gives to the current stanza.\<close>

definition parsed_below :: "int \<Rightarrow> xmpp_stanza \<Rightarrow> bool" where
  "parsed_below d s \<longleftrightarrow> (\<forall>cur rest. mio_parser_run \<lparr>ps_depth = d, ps_stack = cur # rest\<rparr> (sax_events s) =
     Some \<lparr>ps_depth = d, ps_stack = foldl xmpp_stanza_add_child cur (parsed s) # rest\<rparr>)"

lemma parsed_below_list:
  "(\<And>c. c \<in> set cs \<Longrightarrow> parsed_below d c) \<Longrightarrow>
   mio_parser_run \<lparr>ps_depth = d, ps_stack = cur # rest\<rparr> (concat (map sax_events cs)) =
     Some \<lparr>ps_depth = d, ps_stack = foldl xmpp_stanza_add_child cur (concat (map parsed cs)) # rest\<rparr>"
  by (induction cs arbitrary: cur) (auto simp: mio_parser_run_append parsed_below_def)

lemma takeWhile_all: "x \<notin> set xs \<Longrightarrow> takeWhile (\<lambda>c. c \<noteq> x) xs = xs"
  by (induction xs) auto

lemma parsed_below_wf:
  "stanza_wf s \<Longrightarrow> 1 \<le> d \<Longrightarrow> 2 \<le> d \<or> st_type s = XMPP_STANZA_TAG \<Longrightarrow> parsed_below d s"
proof (induction s arbitrary: d)
  case (Stanza ty dt a cs)
  show ?case
  proof (cases ty)
    case XMPP_STANZA_UNKNOWN
    with Stanza.prems show ?thesis by simp
  next
    case XMPP_STANZA_TEXT
    with Stanza.prems obtain s where "dt = Some s" "s \<noteq> []" "CHR 0x00 \<notin> set s" "2 \<le> d"
      by (auto split: option.splits)
    with XMPP_STANZA_TEXT show ?thesis
      by (auto simp: parsed_below_def mio_parser_characters_def xmpp_stanza_set_text_with_size_def
          xmpp_stanza_new_def takeWhile_all)
  next
    case XMPP_STANZA_TAG
    let ?s = "Stanza ty dt a cs"
    have wf: "tag_wf ?s" "list_all (\<lambda>kv. c_ascii (fst kv)) (stanza_pairs ?s)" "list_all stanza_wf cs"
      using Stanza.prems(1) XMPP_STANZA_TAG by auto
    then obtain name where name: "dt = Some name" by (auto simp: tag_wf_def)
    have ch: "parsed_below (d + 1) c" if "c \<in> set cs" for c
      using Stanza.IH [OF that, of "d + 1"] that wf(3) Stanza.prems(2) by (auto simp: list_all_iff)
    show ?thesis
      unfolding parsed_below_def
      using XMPP_STANZA_TAG name parsed_tag_ok(1) [OF wf(2), of name] parsed_below_list [OF ch] Stanza.prems(2)
      by (auto simp: mio_parser_start_element_def mio_parser_end_element_def mio_parser_run_append)
  qed
qed

lemma foldl_add_child:
  "st_type (foldl xmpp_stanza_add_child s cs) = st_type s"
  "st_data (foldl xmpp_stanza_add_child s cs) = st_data s"
  "stanza_attr (foldl xmpp_stanza_add_child s cs) = stanza_attr s"
  "st_children (foldl xmpp_stanza_add_child s cs) = st_children s @ cs"
  by (induction cs arbitrary: s) auto

lemma parsed_eqv: "stanza_wf s \<Longrightarrow> \<exists>s'. parsed s = [s'] \<and> stanza_eqv s s'"
proof (induction s)
  case (Stanza ty dt a cs)
  show ?case
  proof (cases ty)
    case XMPP_STANZA_UNKNOWN
    with Stanza.prems show ?thesis by simp
  next
    case XMPP_STANZA_TEXT
    with Stanza.prems show ?thesis by (auto split: option.splits intro: stanza_eqv.intros)
  next
    case XMPP_STANZA_TAG
    let ?s = "Stanza ty dt a cs"
    have wf: "tag_wf ?s" "iter_complete ?s" "list_all (\<lambda>kv. c_ascii (fst kv)) (stanza_pairs ?s)" "list_all stanza_wf cs"
      using Stanza.prems XMPP_STANZA_TAG by auto
    then obtain name where name: "dt = Some name" by (auto simp: tag_wf_def)
    note t = parsed_tag_ok [OF wf(3), of name]
    have "\<exists>cs'. concat (map parsed cs) = cs' \<and> list_all2 stanza_eqv cs cs'"
      using Stanza.IH wf(4)
    proof (induction cs)
      case (Cons c cs)
      then obtain c' cs' where "parsed c = [c']" "stanza_eqv c c'" "concat (map parsed cs) = cs'" "list_all2 stanza_eqv cs cs'"
        by fastforce
      then show ?case by simp
    qed simp
    moreover have "stanza_attr (parsed_tag name (stanza_pairs ?s)) = stanza_attr ?s"
      using t(3) map_of_rev_distinct [OF distinct_stanza_pairs [OF wf(1)]] map_of_stanza_pairs [OF wf(1,2)] by simp
    moreover have "st_type (parsed_tag name (stanza_pairs ?s)) = XMPP_STANZA_TAG" using t(2) by (simp add: tag_wf_def)
    ultimately show ?thesis
      using XMPP_STANZA_TAG name t by (auto intro!: stanza_eqv.intros simp: foldl_add_child)
  qed
qed

text \<open>Text directly below the root is dropped: there \<open>parser->depth < 2\<close>.\<close>

definition drop_root_text :: "xmpp_stanza \<Rightarrow> xmpp_stanza" where
  "drop_root_text s = Stanza (st_type s) (st_data s) (st_attributes s)
     (filter (\<lambda>c. st_type c \<noteq> XMPP_STANZA_TEXT) (st_children s))"

lemma run_root_children:
  assumes "list_all stanza_wf cs"
  shows "mio_parser_run \<lparr>ps_depth = 1, ps_stack = [cur]\<rparr> (concat (map sax_events cs)) =
     Some \<lparr>ps_depth = 1, ps_stack =
       [foldl xmpp_stanza_add_child cur (concat (map parsed (filter (\<lambda>c. st_type c \<noteq> XMPP_STANZA_TEXT) cs)))]\<rparr>"
  using assms
proof (induction cs arbitrary: cur)
  case Nil
  then show ?case by simp
next
  case (Cons c cs)
  show ?case
  proof (cases "st_type c = XMPP_STANZA_TEXT")
    case True
    with Cons.prems obtain s where "sax_events c = [CharData s]" by (cases c) (auto split: option.splits)
    with True Cons show ?thesis by (simp add: mio_parser_characters_def)
  next
    case False
    with Cons.prems have "st_type c = XMPP_STANZA_TAG" by (cases c) (auto split: xmpp_stanza_type.splits)
    with Cons.prems have "parsed_below 1 c" by (intro parsed_below_wf) auto
    with False Cons show ?thesis by (simp add: mio_parser_run_append parsed_below_def)
  qed
qed

lemma stanza_wf_drop_root_text:
  "stanza_wf s \<Longrightarrow> st_type s = XMPP_STANZA_TAG \<Longrightarrow> stanza_wf (drop_root_text s)"
  by (cases s) (auto simp: drop_root_text_def tag_wf_def iter_complete_def stanza_pairs_def list_all_iff)

lemma mio_parse_root:
  assumes "stanza_wf s" "st_type s = XMPP_STANZA_TAG" "expat x = sax_events s"
  shows "\<exists>s'. mio_parse expat mio_parser_new x = Some (Some s', mio_parser_new) \<and> stanza_eqv (drop_root_text s) s'"
proof -
  obtain ty dt a cs where s: "s = Stanza ty dt a cs" by (cases s)
  have wf: "tag_wf s" "list_all (\<lambda>kv. c_ascii (fst kv)) (stanza_pairs s)" "list_all stanza_wf cs"
    using assms(1,2) s by auto
  then obtain name where name: "dt = Some name" by (auto simp: tag_wf_def s)
  let ?cs = "filter (\<lambda>c. st_type c \<noteq> XMPP_STANZA_TEXT) cs"
  let ?r = "foldl xmpp_stanza_add_child (parsed_tag name (stanza_pairs s)) (concat (map parsed ?cs))"
  have run: "mio_parser_run mio_parser_new (expat x) = Some \<lparr>ps_depth = 0, ps_stack = [?r]\<rparr>"
    using assms(2,3) s name parsed_tag_ok(1) [OF wf(2), of name] run_root_children [OF wf(3)]
    by (simp add: mio_parser_new_def mio_parser_reset_def mio_parser_start_element_def
        mio_parser_end_element_def mio_parser_run_append)
  have pairs: "stanza_pairs (drop_root_text s) = stanza_pairs s"
    by (simp add: drop_root_text_def stanza_pairs_def)
  have "parsed (drop_root_text s) = [?r]"
    using pairs s name assms(2) by (simp add: drop_root_text_def)
  with parsed_eqv [OF stanza_wf_drop_root_text [OF assms(1,2)]] have "stanza_eqv (drop_root_text s) ?r" by simp
  with run show ?thesis by (simp add: mio_parse_def mio_parser_new_def mio_parser_reset_def)
qed

section \<open>Properties\<close>



end
