(* ===== verification/Mio_Stanzas.thy ===== *)
theory Mio_Stanzas
  imports Mio_Types Mio_Parser
begin

text \<open>
  The stanzas libMIO wraps its requests and items in (\<^verbatim>\<open>mio.c\<close>: \<open>mio_pubsub_item_new\<close> to
  \<open>mio_pubsub_item_interface_new\<close>, \<open>_mio_pubsub_iq_stanza_new\<close> to \<open>mio_pubsub_get_stanza_new\<close>, and the
  publish stanza). A \<open>mio_stanza_t\<close> is the stanza and its \<open>id\<close> buffer. The UUID a request gets comes
  from libuuid and is an argument; the JID of the connection is one too.

  Shown: a request is addressed to \<open>pubsub.\<close> followed by the server of the node, or else of the
  JID; it carries the identifier that \<open>id\<close> holds; a published item arrives below
  \<open>iq/pubsub/publish\<close>.
\<close>

record mio_stanza =
  ms_xmpp_stanza :: xmpp_stanza
  ms_id :: string

section \<open>Items\<close>

definition mio_pubsub_item_new :: "string \<Rightarrow> xmpp_stanza option" where
  "mio_pubsub_item_new item_type = set_attr (stanza_named ''item'') ''id'' (Some item_type)"

definition mio_pubsub_item_data_new :: "xmpp_stanza option" where
  "mio_pubsub_item_data_new = do {
     item \<leftarrow> mio_pubsub_item_new ''data'';
     Some (xmpp_stanza_add_child item (stanza_named ''data'')) }"

definition mio_pubsub_item_interface_new :: "string \<Rightarrow> xmpp_stanza option" where
  "mio_pubsub_item_interface_new interface = do {
     item \<leftarrow> mio_pubsub_item_new interface;
     Some (xmpp_stanza_add_child item (stanza_named ''data'')) }"

text \<open>\<open>xmpp_stanza_add_child(s->children, c)\<close>: into the first child; undefined without one.\<close>

definition update_first_child :: "(xmpp_stanza \<Rightarrow> xmpp_stanza option) \<Rightarrow> xmpp_stanza \<Rightarrow> xmpp_stanza option" where
  "update_first_child f s = (case st_children s of
     [] \<Rightarrow> None
   | c # cs \<Rightarrow> map_option (\<lambda>c'. Stanza (st_type s) (st_data s) (st_attributes s) (c' # cs)) (f c))"

definition add_to_first_child :: "xmpp_stanza \<Rightarrow> xmpp_stanza \<Rightarrow> xmpp_stanza option" where
  "add_to_first_child s c = update_first_child (\<lambda>d. Some (xmpp_stanza_add_child d c)) s"

section \<open>Requests\<close>

text \<open>The server of the node, or else of the JID; \<open>strlen\<close> of NULL if neither names one.\<close>

definition mio_pubsub_server :: "cptr \<Rightarrow> cptr \<Rightarrow> string option" where
  "mio_pubsub_server jid node = do {
     target \<leftarrow> (case node of
        None \<Rightarrow> Option.bind jid mio_get_server
      | Some n \<Rightarrow> (case mio_get_server n of None \<Rightarrow> Option.bind jid mio_get_server | Some t \<Rightarrow> Some t));
     Some (''pubsub.'' @ target) }"

definition mio_pubsub_iq_stanza_new :: "cptr \<Rightarrow> string \<Rightarrow> cptr \<Rightarrow> mio_stanza option" where
  "mio_pubsub_iq_stanza_new jid uuid node = do {
     server \<leftarrow> mio_pubsub_server jid node;
     iq \<leftarrow> set_attr (stanza_named ''iq'') ''to'' (Some server);
     iq \<leftarrow> set_attr iq ''id'' (Some uuid);
     iq \<leftarrow> set_attr iq ''from'' jid;
     Some \<lparr>ms_xmpp_stanza = iq, ms_id = uuid\<rparr> }"

definition mio_pubsub_iq_get_stanza_new :: "cptr \<Rightarrow> string \<Rightarrow> cptr \<Rightarrow> mio_stanza option" where
  "mio_pubsub_iq_get_stanza_new jid uuid node = do {
     iq \<leftarrow> mio_pubsub_iq_stanza_new jid uuid node;
     s \<leftarrow> set_attr (ms_xmpp_stanza iq) ''type'' (Some ''get'');
     Some (iq\<lparr>ms_xmpp_stanza := s\<rparr>) }"

definition mio_pubsub_stanza_new :: "cptr \<Rightarrow> string \<Rightarrow> cptr \<Rightarrow> mio_stanza option" where
  "mio_pubsub_stanza_new jid uuid node = do {
     server \<leftarrow> mio_pubsub_server jid node;
     iq \<leftarrow> set_attr (stanza_named ''iq'') ''to'' (Some server);
     iq \<leftarrow> set_attr iq ''id'' (Some uuid);
     pubsub \<leftarrow> set_attr (stanza_named ''pubsub'') ''xmlns'' (Some ''http://jabber.org/protocol/pubsub'');
     Some \<lparr>ms_xmpp_stanza = xmpp_stanza_add_child iq pubsub, ms_id = uuid\<rparr> }"

definition mio_pubsub_set_stanza_new :: "cptr \<Rightarrow> string \<Rightarrow> cptr \<Rightarrow> mio_stanza option" where
  "mio_pubsub_set_stanza_new jid uuid node = do {
     iq \<leftarrow> mio_pubsub_stanza_new jid uuid node;
     s \<leftarrow> set_attr (ms_xmpp_stanza iq) ''type'' (Some ''set'');
     Some (iq\<lparr>ms_xmpp_stanza := s\<rparr>) }"

text \<open>The get stanza is made as a set stanza whose type is then overwritten.\<close>

definition mio_pubsub_get_stanza_new :: "cptr \<Rightarrow> string \<Rightarrow> cptr \<Rightarrow> mio_stanza option" where
  "mio_pubsub_get_stanza_new jid uuid node = do {
     iq \<leftarrow> mio_pubsub_set_stanza_new jid uuid node;
     s \<leftarrow> set_attr (ms_xmpp_stanza iq) ''type'' (Some ''get'');
     Some (iq\<lparr>ms_xmpp_stanza := s\<rparr>) }"

text \<open>The request of \<open>mio_item_publish\<close> and \<open>mio_item_publish_nonblocking\<close>.\<close>

definition mio_publish_stanza :: "cptr \<Rightarrow> string \<Rightarrow> xmpp_stanza \<Rightarrow> cptr \<Rightarrow> mio_stanza option" where
  "mio_publish_stanza jid uuid item node = do {
     iq \<leftarrow> mio_pubsub_set_stanza_new jid uuid node;
     publish \<leftarrow> set_attr (stanza_named ''publish'') ''node'' node;
     s \<leftarrow> add_to_first_child (ms_xmpp_stanza iq) (xmpp_stanza_add_child publish item);
     Some (iq\<lparr>ms_xmpp_stanza := s\<rparr>) }"

section \<open>Lemmas\<close>

lemma mio_get_server_append: "CHR ''@'' \<notin> set u \<Longrightarrow> mio_get_server (u @ CHR ''@'' # s) = Some s"
  by (induction u) auto

lemma mio_get_server_None: "mio_get_server s = None \<longleftrightarrow> CHR ''@'' \<notin> set s"
  by (induction s) auto

lemma mio_pubsub_server_eq:
  "mio_pubsub_server (Some jid) node =
     map_option (\<lambda>t. ''pubsub.'' @ t)
       (case Option.bind node mio_get_server of None \<Rightarrow> mio_get_server jid | Some t \<Rightarrow> Some t)"
  by (auto simp: mio_pubsub_server_def map_conv_bind_option comp_def split: option.splits)

lemma update_first_child_simps [simp]:
  assumes "update_first_child f s = Some s'"
  shows "tag_wf s' = tag_wf s" "stanza_attr s' = stanza_attr s" "st_data s' = st_data s"
  using assms by (auto simp: update_first_child_def tag_wf_def stanza_attr_def [abs_def] split: list.splits)

lemma stanza_attr_add_to_first_child:
  assumes "st_children s = c # cs"
  shows "\<exists>s'. add_to_first_child s d = Some s' \<and> tag_wf s' = tag_wf s \<and> stanza_attr s' = stanza_attr s \<and>
     st_data s' = st_data s \<and> st_children s' = xmpp_stanza_add_child c d # cs"
  using assms by (simp add: add_to_first_child_def update_first_child_def tag_wf_def stanza_attr_def [abs_def])

text \<open>What the request stanza of a published item is.\<close>

lemma mio_pubsub_stanza_new_ok:
  assumes "mio_pubsub_server jid node = Some server"
  shows "\<exists>iq pubsub. mio_pubsub_stanza_new jid uuid node = Some \<lparr>ms_xmpp_stanza = iq, ms_id = uuid\<rparr> \<and>
     tag_wf iq \<and> st_data iq = Some ''iq'' \<and> stanza_attr iq = [''to'' \<mapsto> server, ''id'' \<mapsto> uuid] \<and>
     st_children iq = [pubsub] \<and> tag_wf pubsub \<and> st_data pubsub = Some ''pubsub'' \<and>
     stanza_attr pubsub = [''xmlns'' \<mapsto> ''http://jabber.org/protocol/pubsub''] \<and> st_children pubsub = []"
  using assms by (auto simp: mio_pubsub_stanza_new_def stanza_build)

lemma mio_pubsub_set_stanza_new_ok:
  assumes "mio_pubsub_server jid node = Some server"
  shows "\<exists>iq pubsub. mio_pubsub_set_stanza_new jid uuid node = Some \<lparr>ms_xmpp_stanza = iq, ms_id = uuid\<rparr> \<and>
     tag_wf iq \<and> st_data iq = Some ''iq'' \<and>
     stanza_attr iq = [''to'' \<mapsto> server, ''id'' \<mapsto> uuid, ''type'' \<mapsto> ''set''] \<and>
     st_children iq = [pubsub] \<and> tag_wf pubsub \<and> st_data pubsub = Some ''pubsub'' \<and>
     stanza_attr pubsub = [''xmlns'' \<mapsto> ''http://jabber.org/protocol/pubsub''] \<and> st_children pubsub = []"
  using mio_pubsub_stanza_new_ok [OF assms, of uuid]
  by (auto simp: mio_pubsub_set_stanza_new_def stanza_build)

lemma mio_publish_stanza_ok:
  assumes "mio_pubsub_server jid (Some node) = Some server"
  shows "\<exists>iq pubsub publish. mio_publish_stanza jid uuid item (Some node) = Some \<lparr>ms_xmpp_stanza = iq, ms_id = uuid\<rparr> \<and>
     tag_wf iq \<and> st_data iq = Some ''iq'' \<and>
     stanza_attr iq = [''to'' \<mapsto> server, ''id'' \<mapsto> uuid, ''type'' \<mapsto> ''set''] \<and>
     st_children iq = [pubsub] \<and> st_data pubsub = Some ''pubsub'' \<and> st_children pubsub = [publish] \<and>
     st_data publish = Some ''publish'' \<and> stanza_attr publish = [''node'' \<mapsto> node] \<and> st_children publish = [item]"
proof -
  obtain iq pubsub where iq: "mio_pubsub_set_stanza_new jid uuid (Some node) = Some \<lparr>ms_xmpp_stanza = iq, ms_id = uuid\<rparr>"
    "tag_wf iq" "st_data iq = Some ''iq''" "stanza_attr iq = [''to'' \<mapsto> server, ''id'' \<mapsto> uuid, ''type'' \<mapsto> ''set'']"
    "st_children iq = [pubsub]" "st_data pubsub = Some ''pubsub''" "st_children pubsub = []"
    using mio_pubsub_set_stanza_new_ok [OF assms, of uuid] by blast
  let ?publish = "xmpp_stanza_add_child (put_attr (stanza_named ''publish'') ''node'' (Some node)) item"
  obtain s where s: "add_to_first_child iq ?publish = Some s" "tag_wf s" "stanza_attr s = stanza_attr iq"
    "st_data s = st_data iq" "st_children s = [xmpp_stanza_add_child pubsub ?publish]"
    using stanza_attr_add_to_first_child [OF iq(5)] iq(2) by blast
  have "mio_publish_stanza jid uuid item (Some node) = Some \<lparr>ms_xmpp_stanza = s, ms_id = uuid\<rparr>"
    using iq(1) s(1) by (simp add: mio_publish_stanza_def stanza_build)
  with s iq show ?thesis by (auto simp: put_attr_tag)
qed

section \<open>Properties\<close>

text \<open>The request that publishes an item is an \<open>iq\<close> of type set with the given identifier, addressed to
  \<open>pubsub.\<close> and the server of the node, or of the JID if the node names none; it carries the item below
  \<open>pubsub/publish\<close> with the node's name.\<close>

theorem publish_request_shape:
  assumes "mio_get_server jid = Some home"
  shows "\<exists>iq pubsub publish. mio_publish_stanza (Some jid) uuid item (Some node) = Some \<lparr>ms_xmpp_stanza = iq, ms_id = uuid\<rparr> \<and>
     st_data iq = Some ''iq'' \<and>
     stanza_attr iq = [''to'' \<mapsto> ''pubsub.'' @ (case mio_get_server node of None \<Rightarrow> home | Some s \<Rightarrow> s),
       ''id'' \<mapsto> uuid, ''type'' \<mapsto> ''set''] \<and>
     st_children iq = [pubsub] \<and> st_data pubsub = Some ''pubsub'' \<and> st_children pubsub = [publish] \<and>
     st_data publish = Some ''publish'' \<and> stanza_attr publish = [''node'' \<mapsto> node] \<and> st_children publish = [item]"
proof -
  have "mio_pubsub_server (Some jid) (Some node) =
      Some (''pubsub.'' @ (case mio_get_server node of None \<Rightarrow> home | Some s \<Rightarrow> s))"
    using assms by (simp add: mio_pubsub_server_eq split: option.splits)
  from mio_publish_stanza_ok [OF this, of uuid item] show ?thesis by blast
qed

theorem publish_request_shape_witness:
  "\<exists>iq pubsub publish. mio_publish_stanza (Some ''bob@home.org'') ''u1'' (stanza_named ''item'') (Some ''lamp@lab.org'') =
       Some \<lparr>ms_xmpp_stanza = iq, ms_id = ''u1''\<rparr> \<and> st_data iq = Some ''iq'' \<and>
     stanza_attr iq = [''to'' \<mapsto> ''pubsub.'' @ (case mio_get_server ''lamp@lab.org'' of None \<Rightarrow> ''home.org'' | Some s \<Rightarrow> s),
       ''id'' \<mapsto> ''u1'', ''type'' \<mapsto> ''set''] \<and>
     st_children iq = [pubsub] \<and> st_data pubsub = Some ''pubsub'' \<and> st_children pubsub = [publish] \<and>
     st_data publish = Some ''publish'' \<and> stanza_attr publish = [''node'' \<mapsto> ''lamp@lab.org''] \<and>
     st_children publish = [stanza_named ''item'']"
  by (rule publish_request_shape) simp

end
