(* ===== verification/Mio_Meta.thy ===== *)
theory Mio_Meta
  imports Mio_Geoloc Mio_Stanzas
begin

text \<open>
  Meta information of a node (\<^verbatim>\<open>mio.c\<close>): what a device or location is, its transducers with their
  enumerations, locations and properties. Here are the operations on the structures in memory (adding,
  merging, removing) and \<open>mio_meta_to_item\<close>, which prints them as an item stanza.

  Shown: the overwrite-if-given rule of every merge, what is found and appended when transducers and
  properties are merged by name, and what the removals leave.
\<close>

section \<open>Enumerations and properties\<close>

definition mio_enum_map_meta_tail_get :: "mio_enum_map_meta list \<Rightarrow> mio_enum_map_meta option" where
  "mio_enum_map_meta_tail_get e_meta = c_tail_get e_meta"

definition mio_property_meta_tail_get :: "mio_property_meta list \<Rightarrow> mio_property_meta option" where
  "mio_property_meta_tail_get p_meta = c_tail_get p_meta"

definition mio_transducer_meta_tail_get :: "mio_transducer_meta list \<Rightarrow> mio_transducer_meta option" where
  "mio_transducer_meta_tail_get t_meta = c_tail_get t_meta"

text \<open>
  The loop of \<open>mio_enum_map_meta_clone\<close>: \<open>copy\<close> is the list cloned so far, its last element blank and
  about to be filled. NULL (the empty list) is returned when a name or value is missing.
\<close>

fun enum_clone_loop :: "mio_enum_map_meta list \<Rightarrow> mio_enum_map_meta list \<Rightarrow> mio_enum_map_meta list" where
  "enum_clone_loop copy [] = copy"
| "enum_clone_loop copy (e # es) =
     (if em_name e = None then []
      else if em_value e = None then []
      else let copy' = c_update_last (\<lambda>_. e) copy
           in if es = [] then copy' else enum_clone_loop (copy' @ [mio_enum_map_meta_new]) es)"

definition mio_enum_map_meta_clone :: "mio_enum_map_meta list \<Rightarrow> mio_enum_map_meta list" where
  "mio_enum_map_meta_clone e_meta = enum_clone_loop [mio_enum_map_meta_new] e_meta"

definition mio_enum_map_meta_add :: "mio_transducer_meta \<Rightarrow> mio_enum_map_meta list \<Rightarrow> mio_transducer_meta" where
  "mio_enum_map_meta_add t_meta e_meta =
     (case mio_enum_map_meta_tail_get (tm_enumeration t_meta) of
        None \<Rightarrow> t_meta\<lparr>tm_enumeration := e_meta\<rparr>
      | Some _ \<Rightarrow> t_meta\<lparr>tm_enumeration := tm_enumeration t_meta @ e_meta\<rparr>)"

definition mio_property_meta_add :: "mio_meta \<Rightarrow> mio_property_meta list \<Rightarrow> mio_meta" where
  "mio_property_meta_add meta p_meta =
     (case mio_property_meta_tail_get (mt_properties meta) of
        None \<Rightarrow> meta\<lparr>mt_properties := p_meta\<rparr>
      | Some _ \<Rightarrow> meta\<lparr>mt_properties := mt_properties meta @ p_meta\<rparr>)"

definition mio_transducer_meta_add :: "mio_meta \<Rightarrow> mio_transducer_meta list \<Rightarrow> mio_meta" where
  "mio_transducer_meta_add meta t_meta =
     (case mio_transducer_meta_tail_get (mt_transducers meta) of
        None \<Rightarrow> meta\<lparr>mt_transducers := t_meta\<rparr>
      | Some _ \<Rightarrow> meta\<lparr>mt_transducers := mt_transducers meta @ t_meta\<rparr>)"

section \<open>Merging\<close>

definition mio_meta_property_merge :: "mio_property_meta \<Rightarrow> mio_property_meta \<Rightarrow> mio_property_meta" where
  "mio_meta_property_merge property_to_update property =
     \<lparr>pm_name = c_overwrite (pm_name property_to_update) (pm_name property),
      pm_value = c_overwrite (pm_value property_to_update) (pm_value property)\<rparr>"

definition geoloc_merge_opt :: "mio_geoloc option \<Rightarrow> mio_geoloc option \<Rightarrow> mio_geoloc option" where
  "geoloc_merge_opt to_update new = (case new of None \<Rightarrow> to_update
     | Some g \<Rightarrow> Some (mio_geoloc_merge (case to_update of None \<Rightarrow> mio_geoloc_new | Some u \<Rightarrow> u) g))"

text \<open>
  Only the heads of the two property lists are merged; \<open>strdup(meta->timestamp)\<close> is unguarded.
\<close>

definition mio_meta_merge :: "mio_meta \<Rightarrow> mio_meta \<Rightarrow> mio_meta option" where
  "mio_meta_merge meta_to_update meta = do {
     ts \<leftarrow> mt_timestamp meta;
     Some \<lparr>mt_name = c_overwrite (mt_name meta_to_update) (mt_name meta),
       mt_timestamp = Some ts,
       mt_info = c_overwrite (mt_info meta_to_update) (mt_info meta),
       mt_meta_type = (if mt_meta_type meta \<noteq> MIO_META_TYPE_UKNOWN then mt_meta_type meta
                       else mt_meta_type meta_to_update),
       mt_geoloc = geoloc_merge_opt (mt_geoloc meta_to_update) (mt_geoloc meta),
       mt_transducers = mt_transducers meta_to_update,
       mt_properties = (case mt_properties meta of [] \<Rightarrow> mt_properties meta_to_update
          | p # _ \<Rightarrow> (case mt_properties meta_to_update of
               [] \<Rightarrow> [mio_meta_property_merge mio_property_meta_new p]
             | q # qs \<Rightarrow> mio_meta_property_merge q p # qs))\<rparr> }"

text \<open>
  The inner loop over \<open>transducer_to_update->properties\<close> updates every property of the same name;
  the flag says whether there was one. \<open>strcmp\<close> of a NULL name is undefined.
\<close>

fun properties_update :: "mio_property_meta list \<Rightarrow> mio_property_meta \<Rightarrow> (mio_property_meta list \<times> bool) option" where
  "properties_update [] property = Some ([], False)"
| "properties_update (p # ps) property = do {
     eq \<leftarrow> c_streq (pm_name p) (pm_name property);
     (ps', flag) \<leftarrow> properties_update ps property;
     Some (if eq then (mio_meta_property_merge p property # ps', True) else (p # ps', flag)) }"

definition property_merge_step :: "mio_property_meta list \<Rightarrow> mio_property_meta \<Rightarrow> mio_property_meta list option" where
  "property_merge_step ps property = do {
     (ps', updated_flag) \<leftarrow> properties_update ps property;
     Some (if \<not> updated_flag then ps' @ [mio_meta_property_merge mio_property_meta_new property] else ps') }"

fun property_merge_loop :: "mio_property_meta list \<Rightarrow> mio_property_meta list \<Rightarrow> mio_property_meta list option" where
  "property_merge_loop ps [] = Some ps"
| "property_merge_loop ps (property # next) = do { ps' \<leftarrow> property_merge_step ps property; property_merge_loop ps' next }"

definition mio_meta_transducer_merge :: "mio_transducer_meta \<Rightarrow> mio_transducer_meta \<Rightarrow> mio_transducer_meta option" where
  "mio_meta_transducer_merge transducer_to_update transducer = do {
     ps \<leftarrow> property_merge_loop (tm_properties transducer_to_update) (tm_properties transducer);
     Some \<lparr>tm_name = c_overwrite (tm_name transducer_to_update) (tm_name transducer),
       tm_type = c_overwrite (tm_type transducer_to_update) (tm_type transducer),
       tm_interface = c_overwrite (tm_interface transducer_to_update) (tm_interface transducer),
       tm_manufacturer = c_overwrite (tm_manufacturer transducer_to_update) (tm_manufacturer transducer),
       tm_serial = c_overwrite (tm_serial transducer_to_update) (tm_serial transducer),
       tm_info = c_overwrite (tm_info transducer_to_update) (tm_info transducer),
       tm_unit = c_overwrite (tm_unit transducer_to_update) (tm_unit transducer),
       tm_min_value = c_overwrite (tm_min_value transducer_to_update) (tm_min_value transducer),
       tm_max_value = c_overwrite (tm_max_value transducer_to_update) (tm_max_value transducer),
       tm_resolution = c_overwrite (tm_resolution transducer_to_update) (tm_resolution transducer),
       tm_precision = c_overwrite (tm_precision transducer_to_update) (tm_precision transducer),
       tm_accuracy = c_overwrite (tm_accuracy transducer_to_update) (tm_accuracy transducer),
       tm_enumeration = (if tm_enumeration transducer \<noteq> []
          then mio_enum_map_meta_clone (tm_enumeration transducer) else tm_enumeration transducer_to_update),
       tm_geoloc = geoloc_merge_opt (tm_geoloc transducer_to_update) (tm_geoloc transducer),
       tm_properties = ps\<rparr> }"

text \<open>
  The merge of \<open>mio_meta_merge_publish\<close> by name: the first element with a name equal to the new one's
  is the target; without one, the tail is the target if it has no name, and else a new element behind it.
\<close>

fun find_by_name :: "('a \<Rightarrow> cptr) \<Rightarrow> cptr \<Rightarrow> 'a list \<Rightarrow> nat option option" where
  "find_by_name nm name [] = Some None"
| "find_by_name nm name (q # next) =
     (if nm q \<noteq> None then do {
        eq \<leftarrow> c_streq (nm q) name;
        if eq then Some (Some 0) else map_option (map_option Suc) (find_by_name nm name next) }
      else map_option (map_option Suc) (find_by_name nm name next))"

definition merge_by_name ::
  "('a \<Rightarrow> cptr) \<Rightarrow> 'a \<Rightarrow> ('a \<Rightarrow> 'a \<Rightarrow> 'a option) \<Rightarrow> 'a list \<Rightarrow> 'a \<Rightarrow> 'a list option" where
  "merge_by_name nm blank merge qs new = do {
     pos \<leftarrow> find_by_name nm (nm new) qs;
     (case pos of
        Some k \<Rightarrow> do { q \<leftarrow> merge (qs ! k) new; Some (qs[k := q]) }
      | None \<Rightarrow> do {
          tail \<leftarrow> c_tail_get qs;
          if nm tail \<noteq> None then do { q \<leftarrow> merge blank new; Some (qs @ [q]) }
          else do { q \<leftarrow> merge tail new; Some (butlast qs @ [q]) } }) }"

fun merge_all_by_name ::
  "('a \<Rightarrow> cptr) \<Rightarrow> 'a \<Rightarrow> ('a \<Rightarrow> 'a \<Rightarrow> 'a option) \<Rightarrow> 'a list \<Rightarrow> 'a list \<Rightarrow> 'a list option" where
  "merge_all_by_name nm blank merge qs [] = Some qs"
| "merge_all_by_name nm blank merge qs (new # next) = do {
     qs' \<leftarrow> merge_by_name nm blank merge qs new;
     merge_all_by_name nm blank merge qs' next }"

definition meta_transducers_merge :: "mio_meta \<Rightarrow> mio_transducer_meta list \<Rightarrow> mio_meta option" where
  "meta_transducers_merge query_meta transducers = do {
     let qs = (if transducers \<noteq> [] \<and> mt_transducers query_meta = [] then [mio_transducer_meta_new]
               else mt_transducers query_meta);
     qs' \<leftarrow> merge_all_by_name tm_name mio_transducer_meta_new mio_meta_transducer_merge qs transducers;
     Some (query_meta\<lparr>mt_transducers := qs'\<rparr>) }"

definition meta_properties_merge :: "mio_meta \<Rightarrow> mio_property_meta list \<Rightarrow> mio_meta option" where
  "meta_properties_merge query_meta properties = do {
     let qs = (if properties \<noteq> [] \<and> mt_properties query_meta = [] then [mio_property_meta_new]
               else mt_properties query_meta);
     qs' \<leftarrow> merge_all_by_name pm_name mio_property_meta_new (\<lambda>q p. Some (mio_meta_property_merge q p)) qs properties;
     Some (query_meta\<lparr>mt_properties := qs'\<rparr>) }"

section \<open>Removing\<close>

text \<open>
  The removal loops with a \<open>prev\<close> pointer (\<open>prev\<close> holds the elements passed); every \<open>strcmp\<close> needs a
  name.
\<close>

fun transducer_remove_loop :: "mio_transducer_meta list \<Rightarrow> mio_transducer_meta list \<Rightarrow> string \<Rightarrow> mio_transducer_meta list option" where
  "transducer_remove_loop prev [] name = Some prev"
| "transducer_remove_loop prev (cur # next) name = do {
     eq \<leftarrow> c_streq (tm_name cur) (Some name);
     if eq then (if prev = [] then Some next else Some (prev @ next))
     else transducer_remove_loop (prev @ [cur]) next name }"

definition mio_meta_transducer_remove :: "mio_transducer_meta list \<Rightarrow> string \<Rightarrow> mio_transducer_meta list option" where
  "mio_meta_transducer_remove transducers transducer_name = transducer_remove_loop [] transducers transducer_name"

fun property_remove_loop :: "mio_property_meta list \<Rightarrow> mio_property_meta list \<Rightarrow> string \<Rightarrow> mio_property_meta list option" where
  "property_remove_loop prev [] name = Some prev"
| "property_remove_loop prev (cur # next) name = do {
     eq \<leftarrow> c_streq (pm_name cur) (Some name);
     if eq then (if prev = [] then Some next else Some (prev @ next))
     else property_remove_loop (prev @ [cur]) next name }"

definition mio_meta_property_remove :: "mio_property_meta list \<Rightarrow> string \<Rightarrow> mio_property_meta list option" where
  "mio_meta_property_remove properties property_name = property_remove_loop [] properties property_name"

text \<open>\<open>mio_geoloc_free\<close> reads the fields of the location it frees: a missing location is undefined.\<close>

fun transducer_geoloc_remove :: "mio_transducer_meta list \<Rightarrow> string \<Rightarrow> mio_transducer_meta list option" where
  "transducer_geoloc_remove [] name = Some []"
| "transducer_geoloc_remove (cur # next) name = do {
     eq \<leftarrow> c_streq (tm_name cur) (Some name);
     if eq then do { g \<leftarrow> tm_geoloc cur; Some (cur\<lparr>tm_geoloc := None\<rparr> # next) }
     else map_option (Cons cur) (transducer_geoloc_remove next name) }"

definition mio_meta_geoloc_remove :: "mio_meta option \<Rightarrow> mio_transducer_meta list \<Rightarrow> cptr
    \<Rightarrow> (mio_meta option \<times> mio_transducer_meta list) option" where
  "mio_meta_geoloc_remove meta transducers transducer_name = do {
     m \<leftarrow> (case meta of None \<Rightarrow> Some None
           | Some m \<Rightarrow> do { g \<leftarrow> mt_geoloc m; Some (Some (m\<lparr>mt_geoloc := None\<rparr>)) });
     ts \<leftarrow> (case transducer_name of None \<Rightarrow> Some transducers
            | Some name \<Rightarrow> (if transducers = [] then Some [] else transducer_geoloc_remove transducers name));
     Some (m, ts) }"

section \<open>Printing\<close>

definition map_stanza :: "mio_enum_map_meta \<Rightarrow> xmpp_stanza option" where
  "map_stanza e = do {
     s \<leftarrow> set_attr_opt (stanza_named ''map'') ''name'' (em_name e);
     set_attr_opt s ''value'' (em_value e) }"

definition t_property_stanza :: "mio_property_meta \<Rightarrow> xmpp_stanza option" where
  "t_property_stanza p = do {
     s \<leftarrow> set_attr_opt (stanza_named ''property'') ''name'' (pm_name p);
     set_attr_opt s ''value'' (pm_value p) }"

fun add_each :: "('a \<Rightarrow> xmpp_stanza option) \<Rightarrow> 'a list \<Rightarrow> xmpp_stanza \<Rightarrow> xmpp_stanza option" where
  "add_each f [] s = Some s"
| "add_each f (x # xs) s = do { c \<leftarrow> f x; add_each f xs (xmpp_stanza_add_child s c) }"

definition add_geoloc :: "mio_geoloc option \<Rightarrow> xmpp_stanza \<Rightarrow> xmpp_stanza option" where
  "add_geoloc g s = (case g of None \<Rightarrow> Some s
     | Some g \<Rightarrow> do { c \<leftarrow> mio_geoloc_to_stanza g; Some (xmpp_stanza_add_child s c) })"

text \<open>The attribute \<open>manufacturer\<close> is first set to the interface and then overwritten.\<close>

definition transducer_stanza :: "mio_transducer_meta \<Rightarrow> xmpp_stanza option" where
  "transducer_stanza t = do {
     s \<leftarrow> set_attr_opt (stanza_named ''transducer'') ''accuracy'' (tm_accuracy t);
     s \<leftarrow> add_geoloc (tm_geoloc t) s;
     s \<leftarrow> set_attr_opt s ''interface'' (tm_interface t);
     s \<leftarrow> (if tm_manufacturer t \<noteq> None then set_attr s ''manufacturer'' (tm_interface t) else Some s);
     s \<leftarrow> set_attr_opt s ''manufacturer'' (tm_manufacturer t);
     s \<leftarrow> set_attr_opt s ''maxValue'' (tm_max_value t);
     s \<leftarrow> set_attr_opt s ''minValue'' (tm_min_value t);
     s \<leftarrow> set_attr_opt s ''name'' (tm_name t);
     s \<leftarrow> set_attr_opt s ''precision'' (tm_precision t);
     s \<leftarrow> set_attr_opt s ''resolution'' (tm_resolution t);
     s \<leftarrow> set_attr_opt s ''serial'' (tm_serial t);
     s \<leftarrow> set_attr_opt s ''type'' (tm_type t);
     s \<leftarrow> set_attr_opt s ''unit'' (tm_unit t);
     s \<leftarrow> add_each map_stanza (tm_enumeration t) s;
     add_each t_property_stanza (tm_properties t) s }"

fun property_stanzas :: "mio_property_meta list \<Rightarrow> xmpp_stanza \<Rightarrow> xmpp_stanza option" where
  "property_stanzas [] s = Some s"
| "property_stanzas (p # ps) s =
     (if pm_name p \<noteq> None \<and> pm_value p \<noteq> None then do {
        c \<leftarrow> set_attr (stanza_named ''property'') ''name'' (pm_name p);
        c \<leftarrow> set_attr c ''value'' (pm_value p);
        property_stanzas ps (xmpp_stanza_add_child s c) }
      else property_stanzas ps s)"

text \<open>\<open>Some None\<close> is the NULL the function returns for an unknown meta type.\<close>

definition mio_meta_to_item :: "mio_meta \<Rightarrow> xmpp_stanza option option" where
  "mio_meta_to_item meta = do {
     item \<leftarrow> mio_pubsub_item_new ''meta'';
     s \<leftarrow> set_attr (stanza_named ''meta'') ''xmlns'' (Some ''http://jabber.org/protocol/mio'');
     (case mt_meta_type meta of
        MIO_META_TYPE_UKNOWN \<Rightarrow> Some None
      | ty \<Rightarrow> do {
          s \<leftarrow> set_attr s ''type'' (Some (if ty = MIO_META_TYPE_DEVICE then ''device'' else ''location''));
          s \<leftarrow> set_attr_opt s ''timestamp'' (mt_timestamp meta);
          s \<leftarrow> set_attr_opt s ''info'' (mt_info meta);
          s \<leftarrow> add_geoloc (mt_geoloc meta) s;
          s \<leftarrow> set_attr_opt s ''name'' (mt_name meta);
          s \<leftarrow> add_each transducer_stanza (mt_transducers meta) s;
          s \<leftarrow> property_stanzas (mt_properties meta) s;
          Some (Some (xmpp_stanza_add_child item s)) }) }"

section \<open>Lemmas on the lists\<close>

lemma mio_enum_map_meta_add_eq: "tm_enumeration (mio_enum_map_meta_add t es) = tm_enumeration t @ es"
  by (simp add: mio_enum_map_meta_add_def mio_enum_map_meta_tail_get_def c_tail_get_conv)

lemma mio_property_meta_add_eq: "mt_properties (mio_property_meta_add m ps) = mt_properties m @ ps"
  by (simp add: mio_property_meta_add_def mio_property_meta_tail_get_def c_tail_get_conv)

lemma mio_transducer_meta_add_eq [simp]:
  "mio_transducer_meta_add m ts = m\<lparr>mt_transducers := mt_transducers m @ ts\<rparr>"
  by (simp add: mio_transducer_meta_add_def mio_transducer_meta_tail_get_def c_tail_get_conv)

definition enum_complete :: "mio_enum_map_meta \<Rightarrow> bool" where
  "enum_complete e \<longleftrightarrow> em_name e \<noteq> None \<and> em_value e \<noteq> None"

lemma enum_clone_loop_eq:
  "es \<noteq> [] \<Longrightarrow> enum_clone_loop (copy @ [b]) es = (if list_all enum_complete es then copy @ es else [])"
proof (induction es arbitrary: copy b)
  case (Cons e es)
  show ?case
  proof (cases "es = []")
    case True
    then show ?thesis by (auto simp: enum_complete_def Let_def)
  next
    case False
    then show ?thesis
      using Cons.IH [OF False, of "copy @ [e]" mio_enum_map_meta_new] by (auto simp: enum_complete_def Let_def)
  qed
qed simp

lemma mio_enum_map_meta_clone_eq:
  "mio_enum_map_meta_clone es =
     (if es = [] then [mio_enum_map_meta_new] else if list_all enum_complete es then es else [])"
  using enum_clone_loop_eq [of es "[]" mio_enum_map_meta_new] by (simp add: mio_enum_map_meta_clone_def)

lemma transducer_remove_loop_eq:
  "list_all (\<lambda>t. tm_name t \<noteq> None) ts \<Longrightarrow>
   transducer_remove_loop prev ts name =
     Some (prev @ takeWhile (\<lambda>t. tm_name t \<noteq> Some name) ts @ tl (dropWhile (\<lambda>t. tm_name t \<noteq> Some name) ts))"
  by (induction prev ts name rule: transducer_remove_loop.induct) auto

lemma property_remove_loop_eq:
  "list_all (\<lambda>t. pm_name t \<noteq> None) ts \<Longrightarrow>
   property_remove_loop prev ts name =
     Some (prev @ takeWhile (\<lambda>t. pm_name t \<noteq> Some name) ts @ tl (dropWhile (\<lambda>t. pm_name t \<noteq> Some name) ts))"
  by (induction prev ts name rule: property_remove_loop.induct) auto

section \<open>Merging by name\<close>

lemma find_by_name_hit:
  "\<forall>x \<in> set a. nm x \<noteq> Some n \<Longrightarrow> nm q = Some n \<Longrightarrow> find_by_name nm (Some n) (a @ q # b) = Some (Some (length a))"
  by (induction a) auto

lemma find_by_name_miss:
  "\<forall>x \<in> set a. nm x \<noteq> Some n \<Longrightarrow> find_by_name nm (Some n) a = Some None"
  by (induction a) auto

lemma properties_update_miss:
  "\<forall>q \<in> set ps. pm_name q \<noteq> None \<and> pm_name q \<noteq> Some n \<Longrightarrow> pm_name p = Some n \<Longrightarrow>
   properties_update ps p = Some (ps, False)"
  by (induction ps) auto

lemma property_merge_new: "mio_meta_property_merge mio_property_meta_new p = p"
  by (simp add: mio_meta_property_merge_def mio_property_meta_new_def)

definition named_props :: "mio_property_meta list \<Rightarrow> bool" where
  "named_props ps \<longleftrightarrow> distinct (map pm_name ps) \<and> None \<notin> pm_name ` set ps"

lemma property_merge_loop_new:
  "named_props (qs @ ps) \<Longrightarrow> property_merge_loop qs ps = Some (qs @ ps)"
proof (induction ps arbitrary: qs)
  case (Cons p ps)
  then obtain n where n: "pm_name p = Some n" by (cases "pm_name p") (auto simp: named_props_def)
  have "\<forall>q \<in> set qs. pm_name q \<noteq> None \<and> pm_name q \<noteq> Some n"
  proof
    fix q assume "q \<in> set qs"
    then have "pm_name q \<in> pm_name ` set qs" by simp
    moreover have "None \<notin> pm_name ` set qs" "Some n \<notin> pm_name ` set qs"
      using Cons.prems n by (auto simp: named_props_def)
    ultimately show "pm_name q \<noteq> None \<and> pm_name q \<noteq> Some n" by metis
  qed
  from properties_update_miss [OF this n] have "property_merge_step qs p = Some (qs @ [p])"
    by (simp add: property_merge_step_def property_merge_new)
  with Cons.IH [of "qs @ [p]"] Cons.prems show ?case by simp
qed simp

lemma geoloc_merge_opt_None: "geoloc_merge_opt None g = g"
  by (cases g) (simp_all add: geoloc_merge_opt_def mio_geoloc_merge_def mio_geoloc_new_def)

section \<open>Properties\<close>

text \<open>When transducers (or properties) are merged into a list whose elements all have names, a new one is
  merged into the first element of the same name and leaves the others and the order alone; without such an
  element it is merged into a blank element behind the list.\<close>

theorem merge_by_name_spec:
  assumes "qs \<noteq> []" "\<forall>x \<in> set qs. nm x \<noteq> None" "nm new = Some n"
  shows "(\<forall>a q b. qs = a @ q # b \<longrightarrow> nm q = Some n \<longrightarrow> (\<forall>x \<in> set a. nm x \<noteq> Some n) \<longrightarrow>
            merge_by_name nm blank mrg qs new = map_option (\<lambda>q'. a @ q' # b) (mrg q new)) \<and>
         ((\<forall>x \<in> set qs. nm x \<noteq> Some n) \<longrightarrow>
            merge_by_name nm blank mrg qs new = map_option (\<lambda>q'. qs @ [q']) (mrg blank new))"
proof -
  have "merge_by_name nm blank mrg qs new = map_option (\<lambda>q'. a @ q' # b) (mrg q new)"
    if "qs = a @ q # b" "nm q = Some n" "\<forall>x \<in> set a. nm x \<noteq> Some n" for a q b
    using that assms(3) find_by_name_hit [OF that(3,2)]
    by (auto simp: merge_by_name_def map_conv_bind_option comp_def)
  moreover have "merge_by_name nm blank mrg qs new = map_option (\<lambda>q'. qs @ [q']) (mrg blank new)"
    if "\<forall>x \<in> set qs. nm x \<noteq> Some n"
    using assms find_by_name_miss [OF that] last_in_set [OF assms(1)]
    by (auto simp: merge_by_name_def c_tail_get_conv map_conv_bind_option comp_def)
  ultimately show ?thesis by blast
qed

theorem merge_by_name_spec_witness:
  "merge_by_name pm_name mio_property_meta_new (\<lambda>q p. Some (mio_meta_property_merge q p))
      [\<lparr>pm_name = Some ''a'', pm_value = Some ''1''\<rparr>] \<lparr>pm_name = Some ''b'', pm_value = Some ''2''\<rparr> =
    Some [\<lparr>pm_name = Some ''a'', pm_value = Some ''1''\<rparr>, \<lparr>pm_name = Some ''b'', pm_value = Some ''2''\<rparr>]"
proof -
  have "merge_by_name pm_name mio_property_meta_new (\<lambda>q p. Some (mio_meta_property_merge q p))
      [\<lparr>pm_name = Some ''a'', pm_value = Some ''1''\<rparr>] \<lparr>pm_name = Some ''b'', pm_value = Some ''2''\<rparr> =
    map_option (\<lambda>q'. [\<lparr>pm_name = Some ''a'', pm_value = Some ''1''\<rparr>] @ [q'])
      (Some (mio_meta_property_merge mio_property_meta_new \<lparr>pm_name = Some ''b'', pm_value = Some ''2''\<rparr>))"
    by (rule merge_by_name_spec [THEN conjunct2, rule_format]) auto
  then show ?thesis by (simp add: property_merge_new)
qed

text \<open>Adding a transducer to a node that has none of its name stores it as it is given, provided its
  enumeration entries all have a name and a value and its properties have distinct names; an incomplete
  enumeration is dropped.\<close>

theorem transducer_added_unchanged:
  assumes "named_props (tm_properties t)"
  shows "(list_all enum_complete (tm_enumeration t) \<longrightarrow>
            mio_meta_transducer_merge mio_transducer_meta_new t = Some t) \<and>
         (\<not> list_all enum_complete (tm_enumeration t) \<longrightarrow>
            mio_meta_transducer_merge mio_transducer_meta_new t = Some (t\<lparr>tm_enumeration := []\<rparr>))"
proof -
  have "property_merge_loop [] (tm_properties t) = Some (tm_properties t)"
    using property_merge_loop_new [of "[]"] assms by simp
  then have "mio_meta_transducer_merge mio_transducer_meta_new t =
      Some (t\<lparr>tm_enumeration := (if list_all enum_complete (tm_enumeration t) then tm_enumeration t else [])\<rparr>)"
    by (auto simp: mio_meta_transducer_merge_def mio_transducer_meta_new_def geoloc_merge_opt_None
        mio_enum_map_meta_clone_eq)
  then show ?thesis by simp
qed

definition example_transducer :: mio_transducer_meta where
  "example_transducer = mio_transducer_meta_new\<lparr>tm_name := Some ''temp'', tm_unit := Some ''K'', tm_interface := Some ''i2c'',
     tm_enumeration := [\<lparr>em_name = Some ''low'', em_value = Some ''0''\<rparr>],
     tm_properties := [\<lparr>pm_name = Some ''room'', pm_value = Some ''B12''\<rparr>]\<rparr>"

theorem transducer_added_unchanged_witness:
  "mio_meta_transducer_merge mio_transducer_meta_new example_transducer = Some example_transducer"
proof -
  have "named_props (tm_properties example_transducer)" "list_all enum_complete (tm_enumeration example_transducer)"
    by (simp_all add: named_props_def example_transducer_def enum_complete_def)
  with transducer_added_unchanged show ?thesis by blast
qed

text \<open>Merging meta information overwrites the fields that are given, but of the properties only the first is
  merged, into the first property of the node: of the given properties all others are lost. Meta information
  without a timestamp is undefined.\<close>

theorem meta_merge_loses_properties:
  "(\<exists>m. mio_meta_merge mio_meta_new (mio_meta_new\<lparr>mt_timestamp := Some ts, mt_properties := p # ps\<rparr>) = Some m \<and>
      mt_properties m = [p] \<and> mt_timestamp m = Some ts) \<and>
   mio_meta_merge m0 (mio_meta_new\<lparr>mt_properties := p # ps\<rparr>) = None"
  by (simp add: mio_meta_merge_def mio_meta_new_def property_merge_new)

text \<open>Removing a transducer or a property by name deletes the first of that name and keeps the others in
  their order; a name that does not occur changes nothing.\<close>

theorem meta_remove_spec:
  assumes "\<forall>t \<in> set a \<union> set b. tm_name t \<noteq> None" "\<forall>t \<in> set a. tm_name t \<noteq> Some n" "tm_name t0 = Some n"
    and "\<forall>p \<in> set c \<union> set d. pm_name p \<noteq> None" "\<forall>p \<in> set c. pm_name p \<noteq> Some n" "pm_name p0 = Some n"
  shows "mio_meta_transducer_remove (a @ t0 # b) n = Some (a @ b) \<and> mio_meta_transducer_remove a n = Some a \<and>
     mio_meta_property_remove (c @ p0 # d) n = Some (c @ d) \<and> mio_meta_property_remove c n = Some c"
proof -
  have l: "list_all (\<lambda>t. tm_name t \<noteq> None) (a @ t0 # b)" "list_all (\<lambda>t. tm_name t \<noteq> None) a"
    "list_all (\<lambda>t. pm_name t \<noteq> None) (c @ p0 # d)" "list_all (\<lambda>t. pm_name t \<noteq> None) c"
    using assms by (auto simp: list_all_iff)
  have "takeWhile (\<lambda>t. tm_name t \<noteq> Some n) (a @ t0 # b) = a" "dropWhile (\<lambda>t. tm_name t \<noteq> Some n) (a @ t0 # b) = t0 # b"
    "takeWhile (\<lambda>t. tm_name t \<noteq> Some n) a = a" "dropWhile (\<lambda>t. tm_name t \<noteq> Some n) a = []"
    using assms(2,3) by (auto simp: takeWhile_append2 dropWhile_append2)
  moreover have "takeWhile (\<lambda>t. pm_name t \<noteq> Some n) (c @ p0 # d) = c" "dropWhile (\<lambda>t. pm_name t \<noteq> Some n) (c @ p0 # d) = p0 # d"
    "takeWhile (\<lambda>t. pm_name t \<noteq> Some n) c = c" "dropWhile (\<lambda>t. pm_name t \<noteq> Some n) c = []"
    using assms(5,6) by (auto simp: takeWhile_append2 dropWhile_append2)
  ultimately show ?thesis
    using transducer_remove_loop_eq [OF l(1), of "[]" n] transducer_remove_loop_eq [OF l(2), of "[]" n]
      property_remove_loop_eq [OF l(3), of "[]" n] property_remove_loop_eq [OF l(4), of "[]" n]
    unfolding mio_meta_transducer_remove_def mio_meta_property_remove_def by (simp only: append_Nil list.sel append_Nil2)
qed

theorem meta_remove_spec_witness:
  "mio_meta_transducer_remove ([] @ example_transducer # []) ''temp'' = Some ([] @ []) \<and>
   mio_meta_transducer_remove [] ''temp'' = Some [] \<and>
   mio_meta_property_remove ([\<lparr>pm_name = Some ''x'', pm_value = None\<rparr>] @ \<lparr>pm_name = Some ''temp'', pm_value = None\<rparr> # []) ''temp'' =
     Some ([\<lparr>pm_name = Some ''x'', pm_value = None\<rparr>] @ []) \<and>
   mio_meta_property_remove [\<lparr>pm_name = Some ''x'', pm_value = None\<rparr>] ''temp'' = Some [\<lparr>pm_name = Some ''x'', pm_value = None\<rparr>]"
  by (rule meta_remove_spec) (simp_all add: example_transducer_def)

end
