(* ===== verification/Mio_Schedule.thy ===== *)
theory Mio_Schedule
  imports Mio_Stanzas
begin

text \<open>
  Schedules (\<^verbatim>\<open>mio.c\<close>, \<open>mio_recurrence_new\<close> to \<open>mio_schedule_event_merge\<close>): a list of events with
  optional recurrence rules. A schedule is edited by merging events into it or removing one by its
  number; afterwards the events are numbered from 0. It is published as an item stanza.

  Shown: removing deletes the first event of that number and keeps the order of the others; the
  numbers are a permutation-free count from 0 after every edit; merging touches no event whose number
  is not merged in and is governed by the overwrite-if-given rule on every field.
\<close>

section \<open>Recurrence\<close>

definition mio_recurrence_element_add :: "xmpp_stanza \<Rightarrow> string \<Rightarrow> cptr \<Rightarrow> xmpp_stanza option" where
  "mio_recurrence_element_add parent name txt = do {
     child_text \<leftarrow> stanza_txt txt;
     Some (xmpp_stanza_add_child parent (xmpp_stanza_add_child (stanza_named name) child_text)) }"

definition mio_recurrence_merge :: "mio_recurrence \<Rightarrow> mio_recurrence \<Rightarrow> mio_recurrence" where
  "mio_recurrence_merge rec_to_update rec =
     \<lparr>rec_freq = c_overwrite (rec_freq rec_to_update) (rec_freq rec),
      rec_interval = c_overwrite (rec_interval rec_to_update) (rec_interval rec),
      rec_count = c_overwrite (rec_count rec_to_update) (rec_count rec),
      rec_until = c_overwrite (rec_until rec_to_update) (rec_until rec),
      rec_bymonth = c_overwrite (rec_bymonth rec_to_update) (rec_bymonth rec),
      rec_byday = c_overwrite (rec_byday rec_to_update) (rec_byday rec),
      rec_exdate = c_overwrite (rec_exdate rec_to_update) (rec_exdate rec)\<rparr>"

text \<open>\<open>if (field != NULL) _mio_recurrence_element_add(...)\<close>\<close>

definition rec_element :: "cptr \<Rightarrow> string \<Rightarrow> cptr \<Rightarrow> xmpp_stanza \<Rightarrow> xmpp_stanza option" where
  "rec_element guard name txt parent =
     (if guard \<noteq> None then mio_recurrence_element_add parent name txt else Some parent)"

text \<open>The element \<open>byday\<close> is given the text of \<open>bymonth\<close>.\<close>

definition mio_recurrence_to_stanza :: "mio_recurrence \<Rightarrow> xmpp_stanza option" where
  "mio_recurrence_to_stanza rec = do {
     r \<leftarrow> rec_element (rec_freq rec) ''freq'' (rec_freq rec) (stanza_named ''recurrence'');
     r \<leftarrow> rec_element (rec_interval rec) ''interval'' (rec_interval rec) r;
     r \<leftarrow> rec_element (rec_count rec) ''count'' (rec_count rec) r;
     r \<leftarrow> rec_element (rec_until rec) ''until'' (rec_until rec) r;
     r \<leftarrow> rec_element (rec_bymonth rec) ''bymonth'' (rec_bymonth rec) r;
     r \<leftarrow> rec_element (rec_byday rec) ''byday'' (rec_bymonth rec) r;
     rec_element (rec_exdate rec) ''exdate'' (rec_exdate rec) r }"

section \<open>Events\<close>

definition mio_event_tail_get :: "mio_event list \<Rightarrow> mio_event option" where
  "mio_event_tail_get es = c_tail_get es"

definition event_stanza :: "mio_event \<Rightarrow> xmpp_stanza option" where
  "event_stanza cur = do {
     s \<leftarrow> set_attr (stanza_named ''event'') ''id'' (Some (c_snprintf_u 8 (ev_id cur)));
     s \<leftarrow> set_attr_opt s ''info'' (ev_info cur);
     s \<leftarrow> set_attr_opt s ''time'' (ev_time cur);
     s \<leftarrow> set_attr_opt s ''transducerName'' (ev_tranducer_name cur);
     s \<leftarrow> set_attr_opt s ''transducerValue'' (ev_transducer_value cur);
     (case ev_recurrence cur of
        None \<Rightarrow> Some s
      | Some rec \<Rightarrow> do { r \<leftarrow> mio_recurrence_to_stanza rec; Some (xmpp_stanza_add_child s r) }) }"

fun event_stanzas :: "mio_event list \<Rightarrow> xmpp_stanza \<Rightarrow> xmpp_stanza option" where
  "event_stanzas [] schedule = Some schedule"
| "event_stanzas (cur # next) schedule = do {
     s \<leftarrow> event_stanza cur;
     event_stanzas next (xmpp_stanza_add_child schedule s) }"

definition mio_schedule_event_to_item :: "mio_event list \<Rightarrow> xmpp_stanza option" where
  "mio_schedule_event_to_item event = do {
     item \<leftarrow> mio_pubsub_item_new ''schedule'';
     schedule \<leftarrow> event_stanzas event (stanza_named ''schedule'');
     Some (xmpp_stanza_add_child item schedule) }"

fun event_renumber_loop :: "int \<Rightarrow> mio_event list \<Rightarrow> mio_event list" where
  "event_renumber_loop i [] = []"
| "event_renumber_loop i (cur # next) = cur\<lparr>ev_id := i\<rparr> # event_renumber_loop (i + 1) next"

definition mio_event_renumber :: "mio_event list \<Rightarrow> mio_event list" where
  "mio_event_renumber events = event_renumber_loop 0 events"

text \<open>
  The search with the \<open>prev\<close> pointer: \<open>prev\<close> holds the events passed so far. The head is unlinked
  by returning its successor, any other event through \<open>prev->next\<close>.
\<close>

fun event_remove_loop :: "mio_event list \<Rightarrow> mio_event list \<Rightarrow> int \<Rightarrow> mio_event list" where
  "event_remove_loop prev [] i = mio_event_renumber prev"
| "event_remove_loop prev (cur # next) i =
     (if ev_id cur = i then
        (if prev = [] then mio_event_renumber next else mio_event_renumber (prev @ next))
      else event_remove_loop (prev @ [cur]) next i)"

definition mio_schedule_event_remove :: "mio_event list \<Rightarrow> int \<Rightarrow> mio_event list" where
  "mio_schedule_event_remove events i = event_remove_loop [] events i"

text \<open>The index of the first event with the number, as the inner loop of the merge finds it.\<close>

fun event_find :: "int \<Rightarrow> mio_event list \<Rightarrow> nat option" where
  "event_find i [] = None"
| "event_find i (cur # next) = (if ev_id cur = i then Some 0 else map_option Suc (event_find i next))"

definition event_overwrite :: "mio_event \<Rightarrow> mio_event \<Rightarrow> mio_event" where
  "event_overwrite cur event =
     cur\<lparr>ev_info := c_overwrite (ev_info cur) (ev_info event),
          ev_recurrence := (case ev_recurrence event of None \<Rightarrow> ev_recurrence cur
             | Some r \<Rightarrow> Some (mio_recurrence_merge mio_recurrence_new r)),
          ev_time := c_overwrite (ev_time cur) (ev_time event),
          ev_tranducer_name := c_overwrite (ev_tranducer_name cur) (ev_tranducer_name event),
          ev_transducer_value := c_overwrite (ev_transducer_value cur) (ev_transducer_value event)\<rparr>"

text \<open>
  One round of the outer loop: the event of that number is overwritten, or else a new event is
  linked behind the tail; the tail of an empty schedule is NULL. A new event has number -1.
\<close>

definition event_merge_step :: "mio_event list \<Rightarrow> mio_event \<Rightarrow> mio_event list option" where
  "event_merge_step es event = (case event_find (ev_id event) es of
     Some k \<Rightarrow> Some (es[k := event_overwrite (es ! k) event])
   | None \<Rightarrow> (case mio_event_tail_get es of
        None \<Rightarrow> None
      | Some _ \<Rightarrow> Some (es @ [event_overwrite mio_event_new event])))"

fun event_merge_loop :: "mio_event list \<Rightarrow> mio_event list \<Rightarrow> mio_event list option" where
  "event_merge_loop es [] = Some es"
| "event_merge_loop es (event # next) = do { es' \<leftarrow> event_merge_step es event; event_merge_loop es' next }"

definition mio_schedule_event_merge :: "mio_event list \<Rightarrow> mio_event list \<Rightarrow> mio_event list option" where
  "mio_schedule_event_merge event_to_update event = do {
     es \<leftarrow> event_merge_loop event_to_update event;
     Some (mio_event_renumber es) }"

section \<open>Renumbering and removal\<close>

definition events_numbered :: "mio_event list \<Rightarrow> bool" where
  "events_numbered es \<longleftrightarrow> map ev_id es = map int [0..<length es]"

lemma length_event_renumber_loop [simp]: "length (event_renumber_loop i es) = length es"
  by (induction es arbitrary: i) auto

lemma event_renumber_loop_nth:
  "k < length es \<Longrightarrow> event_renumber_loop i es ! k = (es ! k)\<lparr>ev_id := i + int k\<rparr>"
  by (induction es arbitrary: i k) (auto simp: nth_Cons split: nat.splits)

lemma length_mio_event_renumber [simp]: "length (mio_event_renumber es) = length es"
  by (simp add: mio_event_renumber_def)

lemma mio_event_renumber_nth:
  "k < length es \<Longrightarrow> mio_event_renumber es ! k = (es ! k)\<lparr>ev_id := int k\<rparr>"
  by (simp add: mio_event_renumber_def event_renumber_loop_nth)

lemma mio_event_renumber_numbered: "events_numbered (mio_event_renumber es)"
  unfolding events_numbered_def by (rule nth_equalityI) (auto simp: mio_event_renumber_nth)

lemma mio_event_renumber_id: "events_numbered es \<Longrightarrow> mio_event_renumber es = es"
proof (rule nth_equalityI)
  fix k assume num: "events_numbered es" and k: "k < length (mio_event_renumber es)"
  then have "ev_id (es ! k) = int k"
    by (metis add_0 events_numbered_def length_map length_mio_event_renumber nth_map nth_upt length_upt diff_zero)
  with k show "mio_event_renumber es ! k = es ! k" by (simp add: mio_event_renumber_nth)
qed simp

lemma event_remove_loop_eq:
  "event_remove_loop prev es i = mio_event_renumber
     (prev @ (case event_find i es of None \<Rightarrow> es | Some k \<Rightarrow> take k es @ drop (Suc k) es))"
  by (induction prev es i rule: event_remove_loop.induct) (auto split: option.splits)

lemma event_find_numbered:
  "map ev_id es = map int [n..<n + length es] \<Longrightarrow>
   event_find (int k) es = (if n \<le> k \<and> k < n + length es then Some (k - n) else None)"
proof (induction es arbitrary: n)
  case Nil
  then show ?case by simp
next
  case (Cons e es)
  have "[n..<n + length (e # es)] = n # [Suc n..<Suc n + length es]" by (simp add: upt_conv_Cons del: upt_Suc)
  then have "ev_id e # map ev_id es = int n # map int [Suc n..<Suc n + length es]"
    using Cons.prems by (simp del: upt_Suc)
  then have e: "ev_id e = int n" and es: "map ev_id es = map int [Suc n..<Suc n + length es]" by (simp_all del: upt_Suc)
  show ?case
  proof (cases "k = n")
    case True
    with e show ?thesis by simp
  next
    case False
    have "Suc (k - Suc n) = k - n" if "Suc n \<le> k" using that by simp
    with False e Cons.IH [OF es] show ?thesis by auto
  qed
qed

section \<open>Merging\<close>

lemma event_find_Some:
  "event_find i es = Some k \<Longrightarrow> k < length es \<and> ev_id (es ! k) = i \<and> (\<forall>j < k. ev_id (es ! j) \<noteq> i)"
proof (induction es arbitrary: k)
  case (Cons e es)
  show ?case
  proof (cases "ev_id e = i")
    case True
    with Cons.prems show ?thesis by simp
  next
    case False
    with Cons.prems obtain k' where k': "k = Suc k'" "event_find i es = Some k'" by auto
    with Cons.IH [of k'] False show ?thesis by (auto simp: nth_Cons split: nat.splits)
  qed
qed simp

lemma event_find_None: "event_find i es = None \<longleftrightarrow> i \<notin> ev_id ` set es"
  by (induction es) auto

lemma event_overwrite_id [simp]: "ev_id (event_overwrite e f) = ev_id e"
  by (simp add: event_overwrite_def)

lemma event_merge_step_ok: "es \<noteq> [] \<Longrightarrow> \<exists>es'. event_merge_step es e = Some es' \<and> es' \<noteq> [] \<and> length es \<le> length es'"
  using event_find_Some [of "ev_id e" es]
  by (auto simp: event_merge_step_def mio_event_tail_get_def c_tail_get_conv split: option.splits)

lemma event_merge_loop_ok: "es \<noteq> [] \<Longrightarrow> \<exists>es'. event_merge_loop es fs = Some es' \<and> length es \<le> length es'"
proof (induction fs arbitrary: es)
  case Nil
  then show ?case by simp
next
  case (Cons f fs)
  from event_merge_step_ok [OF Cons.prems, of f]
  obtain es1 where 1: "event_merge_step es f = Some es1" "es1 \<noteq> []" "length es \<le> length es1" by blast
  with Cons.IH [OF 1(2)] show ?case by fastforce
qed

text \<open>Merging events whose numbers all exist: each event is overwritten by those of its number, in order.\<close>

definition event_updates :: "mio_event list \<Rightarrow> int \<Rightarrow> mio_event \<Rightarrow> mio_event" where
  "event_updates fs i e = foldl event_overwrite e (filter (\<lambda>f. ev_id f = i) fs)"

lemma event_updates_id [simp]: "ev_id (event_updates fs i e) = ev_id e"
proof -
  have "ev_id (foldl event_overwrite e xs) = ev_id e" for xs by (induction xs arbitrary: e) auto
  then show ?thesis by (simp add: event_updates_def)
qed

lemma events_numbered_nth: "events_numbered es \<Longrightarrow> k < length es \<Longrightarrow> ev_id (es ! k) = int k"
  unfolding events_numbered_def by (metis add_0 diff_zero length_map length_upt nth_map nth_upt)

lemma event_merge_step_numbered:
  assumes "events_numbered es" "0 \<le> ev_id f" "ev_id f < int (length es)"
  shows "event_merge_step es f = Some (map (\<lambda>e. if ev_id e = ev_id f then event_overwrite e f else e) es)"
proof -
  let ?k = "nat (ev_id f)"
  have k: "?k < length es" "ev_id f = int ?k" using assms(2,3) by auto
  have "event_find (int ?k) es = Some ?k"
    using event_find_numbered [of es 0 ?k] assms(1) k(1) by (simp add: events_numbered_def)
  then have "event_merge_step es f = Some (es[?k := event_overwrite (es ! ?k) f])"
    using k(2) by (simp add: event_merge_step_def)
  also have "es[?k := event_overwrite (es ! ?k) f] = map (\<lambda>e. if ev_id e = ev_id f then event_overwrite e f else e) es"
    using events_numbered_nth [OF assms(1)] k by (intro nth_equalityI) (auto simp: nth_list_update)
  finally show ?thesis .
qed

lemma event_merge_loop_numbered:
  assumes "events_numbered es" "list_all (\<lambda>f. 0 \<le> ev_id f \<and> ev_id f < int (length es)) fs"
  shows "event_merge_loop es fs = Some (map (\<lambda>e. event_updates fs (ev_id e) e) es)"
  using assms
proof (induction fs arbitrary: es)
  case Nil
  then show ?case by (simp add: event_updates_def)
next
  case (Cons f fs)
  let ?es = "map (\<lambda>e. if ev_id e = ev_id f then event_overwrite e f else e) es"
  have step: "event_merge_step es f = Some ?es" using Cons.prems by (intro event_merge_step_numbered) auto
  have ids: "map ev_id ?es = map ev_id es" by simp
  have "events_numbered ?es" using Cons.prems(1) unfolding events_numbered_def ids by simp
  moreover have "list_all (\<lambda>f. 0 \<le> ev_id f \<and> ev_id f < int (length ?es)) fs" using Cons.prems(2) by simp
  ultimately have "event_merge_loop ?es fs = Some (map (\<lambda>e. event_updates fs (ev_id e) e) ?es)" by (rule Cons.IH)
  with step show ?case by (auto simp: event_updates_def)
qed

section \<open>Properties\<close>

text \<open>Removing an event from a schedule deletes the first event with that number, keeps the others in
  their order, and numbers the result from 0; a number that does not occur only renumbers. On a numbered
  schedule, removing a valid number shortens it by one and deletes exactly the event at that position.\<close>

theorem schedule_remove_spec:
  assumes "events_numbered es" "k < length es"
  shows "events_numbered (mio_schedule_event_remove es i) \<and>
     (i \<notin> ev_id ` set es \<longrightarrow> mio_schedule_event_remove es i = es) \<and>
     mio_schedule_event_remove es (int k) = mio_event_renumber (take k es @ drop (Suc k) es) \<and>
     Suc (length (mio_schedule_event_remove es (int k))) = length es"
proof -
  have eq: "mio_schedule_event_remove es i = mio_event_renumber
      (case event_find i es of None \<Rightarrow> es | Some k \<Rightarrow> take k es @ drop (Suc k) es)" for i
    by (simp add: mio_schedule_event_remove_def event_remove_loop_eq)
  have "event_find (int k) es = Some k"
    using event_find_numbered [of es 0 k] assms by (simp add: events_numbered_def)
  with eq [of "int k"] assms(2) show ?thesis
    by (simp add: eq [of i] mio_event_renumber_numbered mio_event_renumber_id [OF assms(1)]
        event_find_None [THEN iffD2])
qed

definition example_event :: "int \<Rightarrow> string \<Rightarrow> mio_event" where
  "example_event i nm = mio_event_new\<lparr>ev_id := i, ev_info := Some nm, ev_time := Some ''2014-01-01T00:00''\<rparr>"

definition example_schedule :: "mio_event list" where
  "example_schedule = [example_event 0 ''on'', example_event 1 ''off'']"

lemma example_schedule_numbered: "events_numbered example_schedule" "length example_schedule = 2"
  by (simp_all add: events_numbered_def example_schedule_def example_event_def upt_rec numeral_2_eq_2)

theorem schedule_remove_spec_witness:
  "events_numbered (mio_schedule_event_remove example_schedule 7) \<and>
   mio_schedule_event_remove example_schedule (int 0) =
     mio_event_renumber (take 0 example_schedule @ drop (Suc 0) example_schedule) \<and>
   Suc (length (mio_schedule_event_remove example_schedule (int 0))) = length example_schedule"
proof -
  have "0 < length example_schedule" using example_schedule_numbered by simp
  from schedule_remove_spec [OF example_schedule_numbered(1) this, of 7] show ?thesis by blast
qed

text \<open>Merging into a numbered schedule events that carry existing numbers keeps the length and the
  numbering, and each event of the result is the old one overwritten, field by field and where a field is
  given, by the merged events of its number in their order; events that are not mentioned stay as they are.\<close>

theorem schedule_merge_spec:
  assumes "events_numbered es" "list_all (\<lambda>f. 0 \<le> ev_id f \<and> ev_id f < int (length es)) fs"
  shows "mio_schedule_event_merge es fs = Some (map (\<lambda>e. event_updates fs (ev_id e) e) es)"
proof -
  have "map ev_id (map (\<lambda>e. event_updates fs (ev_id e) e) es) = map ev_id es" by simp
  then have "events_numbered (map (\<lambda>e. event_updates fs (ev_id e) e) es)"
    using assms(1) unfolding events_numbered_def by simp
  then show ?thesis
    by (simp add: mio_schedule_event_merge_def event_merge_loop_numbered [OF assms] mio_event_renumber_id)
qed

theorem schedule_merge_spec_witness:
  "mio_schedule_event_merge example_schedule [example_event 1 ''dim''] =
     Some (map (\<lambda>e. event_updates [example_event 1 ''dim''] (ev_id e) e) example_schedule)"
  by (rule schedule_merge_spec) (simp_all add: example_schedule_numbered, simp add: example_event_def)

text \<open>Two new events (number -1, as \<open>mio_event_new\<close> leaves it) merged in one call are not both added: the
  second finds the first, which was linked in with number -1 as well, and overwrites it. The schedule
  grows by one event only.\<close>

theorem schedule_merge_new_events_collapse:
  assumes "es \<noteq> []" "events_numbered es" "ev_id f = -1" "ev_id g = -1"
  shows "mio_schedule_event_merge es [f, g] =
     Some (es @ [(event_overwrite (event_overwrite mio_event_new f) g)\<lparr>ev_id := int (length es)\<rparr>])"
proof -
  have "ev_id ` set es = int ` {..<length es}"
    using assms(2) unfolding events_numbered_def by (metis atLeast_upt list.set_map)
  then have none: "event_find (-1) es = None" by (auto simp: event_find_None)
  let ?f = "event_overwrite mio_event_new f"
  have find: "event_find (-1) (es @ [?f]) = Some (length es)"
  proof -
    have "event_find i (es @ [e]) = Some (length es)" if "event_find i es = None" "ev_id e = i" for i e
      using that by (induction es) (auto split: if_splits)
    then show ?thesis using none by (simp add: mio_event_new_def)
  qed
  have num: "events_numbered (es @ [e\<lparr>ev_id := int (length es)\<rparr>])" for e
    using assms(2) by (simp add: events_numbered_def)
  have ren: "mio_event_renumber (es @ [e]) = es @ [e\<lparr>ev_id := int (length es)\<rparr>]" for e
  proof (rule nth_equalityI)
    fix k assume "k < length (mio_event_renumber (es @ [e]))"
    then have k: "k < Suc (length es)" by simp
    then show "mio_event_renumber (es @ [e]) ! k = (es @ [e\<lparr>ev_id := int (length es)\<rparr>]) ! k"
      using events_numbered_nth [OF assms(2)] by (auto simp: mio_event_renumber_nth nth_append less_Suc_eq)
  qed simp
  show ?thesis
    using none find assms(1,3,4)
    by (simp add: mio_schedule_event_merge_def event_merge_step_def mio_event_tail_get_def c_tail_get_conv ren)
qed

theorem schedule_merge_new_events_collapse_witness:
  "mio_schedule_event_merge example_schedule [example_event (-1) ''a'', example_event (-1) ''b''] =
     Some (example_schedule @ [(event_overwrite (event_overwrite mio_event_new (example_event (-1) ''a''))
       (example_event (-1) ''b''))\<lparr>ev_id := int (length example_schedule)\<rparr>])"
  by (rule schedule_merge_new_events_collapse)
    (simp_all add: example_schedule_numbered, simp_all add: example_schedule_def example_event_def)

text \<open>Merging never loses events and succeeds on every non-empty schedule; the result is numbered from 0.
  On an empty schedule the tail is NULL and merging anything is undefined.\<close>

theorem schedule_merge_total:
  assumes "es \<noteq> []"
  shows "(\<exists>es'. mio_schedule_event_merge es fs = Some es' \<and> length es \<le> length es' \<and> events_numbered es') \<and>
     mio_schedule_event_merge [] [f] = None"
  using event_merge_loop_ok [OF assms, of fs] mio_event_renumber_numbered
  by (auto simp: mio_schedule_event_merge_def event_merge_step_def mio_event_tail_get_def c_tail_get_conv)

theorem schedule_merge_total_witness:
  "(\<exists>es'. mio_schedule_event_merge example_schedule [example_event 9 ''x''] = Some es' \<and>
      length example_schedule \<le> length es' \<and> events_numbered es') \<and>
   mio_schedule_event_merge [] [example_event 0 ''x''] = None"
  by (rule schedule_merge_total) (simp add: example_schedule_def)

text \<open>The printer of a recurrence writes the months into the element \<open>byday\<close>: with both given, the text of
  \<open>byday\<close> is that of \<open>bymonth\<close>; with a day but no month, it is undefined.\<close>

theorem recurrence_byday_is_bymonth:
  "mio_recurrence_to_stanza (mio_recurrence_new\<lparr>rec_byday := Some d, rec_bymonth := Some mth\<rparr>) =
     Some (foldl xmpp_stanza_add_child (stanza_named ''recurrence'')
       [xmpp_stanza_add_child (stanza_named ''bymonth'') (Stanza XMPP_STANZA_TEXT (Some mth) None []),
        xmpp_stanza_add_child (stanza_named ''byday'') (Stanza XMPP_STANZA_TEXT (Some mth) None [])]) \<and>
   mio_recurrence_to_stanza (mio_recurrence_new\<lparr>rec_byday := Some d\<rparr>) = None"
  by (simp add: mio_recurrence_to_stanza_def mio_recurrence_new_def rec_element_def mio_recurrence_element_add_def)

end
