(* ===== verification/Mio_References.thy ===== *)
theory Mio_References
  imports Mio_Stanzas
begin

text \<open>
  References between nodes (\<^verbatim>\<open>mio.c\<close>, \<open>mio_reference_new\<close> to \<open>mio_reference_remove\<close>): each node keeps a
  list of the nodes it has as children and parents, published as an item. Here are the operations on
  the list and its printing.

  Shown: removal takes out the first matching reference and keeps the others in order; a list that
  does not contain the reference, and a list that contains nothing else, both give NULL.
\<close>

definition mio_reference_tail_get :: "mio_reference list \<Rightarrow> mio_reference option" where
  "mio_reference_tail_get ref = c_tail_get ref"

section \<open>Adding and removing\<close>

text \<open>
  The list part of \<open>mio_reference_add\<close>: a blank head is filled, otherwise a new element is linked
  behind the tail; \<open>refs->type\<close> of NULL is undefined. The index of the filled element is returned.
\<close>

definition reference_slot :: "mio_reference list \<Rightarrow> (nat \<times> mio_reference list) option" where
  "reference_slot refs = (case refs of [] \<Rightarrow> None
     | r # rs \<Rightarrow> if ref_type r = MIO_REFERENCE_UNKOWN then Some (0, refs)
                else Some (length refs, refs @ [mio_reference_new]))"

definition reference_fill :: "mio_reference \<Rightarrow> mio_reference_type \<Rightarrow> mio_meta_type \<Rightarrow> cptr \<Rightarrow> mio_reference" where
  "reference_fill r type meta_type node =
     r\<lparr>ref_type := type, ref_meta_type := meta_type, ref_node := c_overwrite (ref_node r) node\<rparr>"

fun reference_remove_loop :: "mio_reference list \<Rightarrow> mio_reference list \<Rightarrow> mio_reference_type \<Rightarrow> string
    \<Rightarrow> mio_reference list option" where
  "reference_remove_loop prev [] type node = Some []"
| "reference_remove_loop prev (cur # next) type node = do {
     hit \<leftarrow> (if ref_type cur = type then c_streq (ref_node cur) (Some node) else Some False);
     if hit then (if prev = [] then Some next else Some (prev @ next))
     else reference_remove_loop (prev @ [cur]) next type node }"

definition mio_reference_remove :: "mio_reference list \<Rightarrow> mio_reference_type \<Rightarrow> string \<Rightarrow> mio_reference list option" where
  "mio_reference_remove refs type node = reference_remove_loop [] refs type node"

section \<open>Printing\<close>

text \<open>\<open>Some None\<close>: the reference has no type and the whole item is abandoned.\<close>

definition reference_stanza :: "mio_reference \<Rightarrow> xmpp_stanza option option" where
  "reference_stanza cur =
     (case ref_type cur of
        MIO_REFERENCE_UNKOWN \<Rightarrow> Some None
      | ty \<Rightarrow> do {
          s \<leftarrow> set_attr (stanza_named ''reference'') ''type''
                 (Some (if ty = MIO_REFERENCE_CHILD then ''child'' else ''parent''));
          s \<leftarrow> set_attr s ''metaType'' (Some (case ref_meta_type cur of
                 MIO_META_TYPE_DEVICE \<Rightarrow> ''device'' | MIO_META_TYPE_LOCATION \<Rightarrow> ''location''
               | MIO_META_TYPE_UKNOWN \<Rightarrow> ''unknown''));
          s \<leftarrow> set_attr_opt s ''node'' (ref_node cur);
          s \<leftarrow> set_attr_opt s ''name'' (ref_name cur);
          Some (Some s) })"

fun reference_stanzas :: "mio_reference list \<Rightarrow> xmpp_stanza \<Rightarrow> xmpp_stanza option option" where
  "reference_stanzas [] s = Some (Some s)"
| "reference_stanzas (cur # next) s = do {
     c \<leftarrow> reference_stanza cur;
     (case c of None \<Rightarrow> Some None | Some c \<Rightarrow> reference_stanzas next (xmpp_stanza_add_child s c)) }"

definition mio_references_to_item :: "mio_reference list \<Rightarrow> xmpp_stanza option option" where
  "mio_references_to_item ref = do {
     item \<leftarrow> mio_pubsub_item_new ''references'';
     r \<leftarrow> reference_stanzas ref (stanza_named ''references'');
     Some (map_option (xmpp_stanza_add_child item) r) }"

section \<open>Lemmas\<close>

definition ref_matches :: "mio_reference_type \<Rightarrow> string \<Rightarrow> mio_reference \<Rightarrow> bool" where
  "ref_matches type node r \<longleftrightarrow> ref_type r = type \<and> ref_node r = Some node"

lemma reference_remove_loop_eq:
  "list_all (\<lambda>r. ref_node r \<noteq> None) refs \<Longrightarrow>
   reference_remove_loop prev refs type node =
     Some (if list_ex (ref_matches type node) refs
           then prev @ takeWhile (\<lambda>r. \<not> ref_matches type node r) refs @
                tl (dropWhile (\<lambda>r. \<not> ref_matches type node r) refs)
           else [])"
  by (induction prev refs type node rule: reference_remove_loop.induct) (auto simp: ref_matches_def)

text \<open>The stanza of a typed reference and the attributes it has.\<close>

definition ref_type_name :: "mio_reference_type \<Rightarrow> string" where
  "ref_type_name ty = (if ty = MIO_REFERENCE_CHILD then ''child'' else ''parent'')"

definition meta_type_name :: "mio_meta_type \<Rightarrow> string" where
  "meta_type_name ty = (case ty of MIO_META_TYPE_DEVICE \<Rightarrow> ''device'' | MIO_META_TYPE_LOCATION \<Rightarrow> ''location''
     | MIO_META_TYPE_UKNOWN \<Rightarrow> ''unknown'')"

definition reference_tag :: "mio_reference \<Rightarrow> xmpp_stanza" where
  "reference_tag r = put_attr (put_attr (put_attr (put_attr (stanza_named ''reference'')
     ''type'' (Some (ref_type_name (ref_type r)))) ''metaType'' (Some (meta_type_name (ref_meta_type r))))
     ''node'' (ref_node r)) ''name'' (ref_name r)"

lemma reference_stanza_eq:
  "ref_type r \<noteq> MIO_REFERENCE_UNKOWN \<Longrightarrow> reference_stanza r = Some (Some (reference_tag r))"
  by (auto simp: reference_stanza_def reference_tag_def stanza_build ref_type_name_def meta_type_name_def
      split: mio_reference_type.splits mio_meta_type.splits)

lemma reference_tag_simps [simp]:
  "tag_wf (reference_tag r)" "st_data (reference_tag r) = Some ''reference''" "st_children (reference_tag r) = []"
  by (simp_all add: reference_tag_def put_attr_tag)

lemma reference_tag_attr:
  "stanza_attr (reference_tag r) k =
     (if k = ''name'' \<and> ref_name r \<noteq> None then ref_name r
      else if k = ''node'' \<and> ref_node r \<noteq> None then ref_node r
      else if k = ''metaType'' then Some (meta_type_name (ref_meta_type r))
      else if k = ''type'' then Some (ref_type_name (ref_type r)) else None)"
  by (auto simp: reference_tag_def put_attr_tag split: option.splits)

lemma reference_stanzas_eq:
  "list_all (\<lambda>r. ref_type r \<noteq> MIO_REFERENCE_UNKOWN) refs \<Longrightarrow>
   reference_stanzas refs s = Some (Some (foldl xmpp_stanza_add_child s (map reference_tag refs)))"
  by (induction refs arbitrary: s) (auto simp: reference_stanza_eq)

section \<open>Properties\<close>

text \<open>Removing a reference takes out the first reference of that type to that node and keeps the others in
  their order. The result is NULL both when the reference was the only one and when it was not there at all,
  so a caller cannot tell an emptied list from a failed search.\<close>

theorem reference_remove_spec:
  assumes "list_all (\<lambda>r. ref_node r \<noteq> None) refs"
  shows "(\<forall>a b r. refs = a @ r # b \<longrightarrow> ref_matches ty node r \<longrightarrow> \<not> list_ex (ref_matches ty node) a \<longrightarrow>
            mio_reference_remove refs ty node = Some (a @ b)) \<and>
         (\<not> list_ex (ref_matches ty node) refs \<longrightarrow> mio_reference_remove refs ty node = Some []) \<and>
         mio_reference_remove [mio_reference_new\<lparr>ref_type := ty, ref_node := Some node\<rparr>] ty node = Some []"
proof -
  note eq = reference_remove_loop_eq [OF assms, of "[]" ty node]
  have "mio_reference_remove refs ty node = Some (a @ b)"
    if s: "refs = a @ r # b" "ref_matches ty node r" "\<not> list_ex (ref_matches ty node) a" for a b r
  proof -
    have "\<forall>x \<in> set a. \<not> ref_matches ty node x" using s(3) by (simp add: list_ex_iff)
    then have "takeWhile (\<lambda>r. \<not> ref_matches ty node r) refs = a" "dropWhile (\<lambda>r. \<not> ref_matches ty node r) refs = r # b"
      using s(1,2) by (simp_all add: takeWhile_append2 dropWhile_append2)
    moreover have "list_ex (ref_matches ty node) refs" using s by simp
    ultimately show ?thesis using eq by (simp add: mio_reference_remove_def)
  qed
  moreover have "mio_reference_remove refs ty node = Some []" if "\<not> list_ex (ref_matches ty node) refs"
    using that eq by (simp add: mio_reference_remove_def)
  ultimately show ?thesis by (auto simp: mio_reference_remove_def)
qed

theorem reference_remove_spec_witness:
  "mio_reference_remove [mio_reference_new\<lparr>ref_type := MIO_REFERENCE_PARENT, ref_node := Some ''hall''\<rparr>,
      mio_reference_new\<lparr>ref_type := MIO_REFERENCE_CHILD, ref_node := Some ''lamp''\<rparr>] MIO_REFERENCE_CHILD ''lamp'' =
    Some [mio_reference_new\<lparr>ref_type := MIO_REFERENCE_PARENT, ref_node := Some ''hall''\<rparr>]"
proof -
  let ?p = "mio_reference_new\<lparr>ref_type := MIO_REFERENCE_PARENT, ref_node := Some ''hall''\<rparr>"
  let ?c = "mio_reference_new\<lparr>ref_type := MIO_REFERENCE_CHILD, ref_node := Some ''lamp''\<rparr>"
  have all: "list_all (\<lambda>r. ref_node r \<noteq> None) [?p, ?c]" by simp
  have "ref_matches MIO_REFERENCE_CHILD ''lamp'' ?c" "\<not> list_ex (ref_matches MIO_REFERENCE_CHILD ''lamp'') [?p]"
    by (simp_all add: ref_matches_def)
  moreover have "[?p, ?c] = [?p] @ ?c # []" by simp
  ultimately have "mio_reference_remove [?p, ?c] MIO_REFERENCE_CHILD ''lamp'' = Some ([?p] @ [])"
    using reference_remove_spec [OF all, of MIO_REFERENCE_CHILD "''lamp''"] by blast
  then show ?thesis by simp
qed

end
