(* ===== verification/Mio_Xml.thy ===== *)
theory Mio_Xml
  imports Mio_Packets Mio_Meta Mio_Schedule Mio_References
begin

text \<open>
  How a reply becomes a \<open>mio_response_t\<close> (\<^verbatim>\<open>mio_handlers.c\<close>): the reply stanza is printed, parsed by
  expat, and each start tag, end tag and text calls back into one of the \<open>mio_XMLstart_*\<close> and
  \<open>mio_XMLString_*\<close> functions, which fill the response. The state they share is \<open>mio_xml_parser_data_t\<close>.

  Its \<open>payload\<close> pointer designates a place inside the response that is being filled; it is the datatype
  \<open>xd_payload\<close>: the last transducer, the last event, and so on. A \<open>Lost\<close> place is an object that is no
  longer (or never was) reachable from the response. Using a pointer as a structure of another type, or
  NULL, or a freed parent record, gives \<open>None\<close>. Element names are compared as strings after the callback
  that delivered them, which relies on expat keeping the name buffers intact.
\<close>

section \<open>Parser data\<close>

datatype xd_payload =
  XNull | XPacket | XMeta | XMetaLost | XTransducer | XTransducerLost
| XGeoTransducer | XGeoMeta | XGeoLost | XEvent

datatype xd_char_handler = XChars_none | XChars_geoloc | XChars_recurrence | XChars_collection

record xml_data =
  xd_response :: mio_response
  xd_payload :: xd_payload
  xd_chars :: xd_char_handler
  xd_curr_element_name :: cptr
  xd_prev_element_name :: cptr
  xd_curr_depth :: int
  xd_prev_depth :: int
  xd_parents :: "cptr list"  \<comment> \<open>the \<open>parent\<close> chain along \<open>prev\<close>, innermost first; [] is NULL\<close>
  xd_parent_freed :: bool

definition xml_data_new :: "mio_response \<Rightarrow> xd_char_handler \<Rightarrow> xml_data" where
  "xml_data_new response chars = \<lparr>xd_response = response, xd_payload = XNull, xd_chars = chars,
     xd_curr_element_name = None, xd_prev_element_name = None, xd_curr_depth = 0, xd_prev_depth = 0,
     xd_parents = [], xd_parent_freed = False\<rparr>"

definition xml_data_update_start_element :: "xml_data \<Rightarrow> string \<Rightarrow> xml_data option" where
  "xml_data_update_start_element xd element_name = do {
     let prev = xd_curr_element_name xd;
     let depth = xd_curr_depth xd + 1;
     let xd1 = xd\<lparr>xd_prev_element_name := prev, xd_curr_element_name := Some element_name,
                  xd_curr_depth := depth, xd_prev_depth := depth\<rparr>;
     if xd_prev_depth xd < depth then
       (if xd_parents xd = [] then Some (xd1\<lparr>xd_parents := [prev]\<rparr>)
        else if xd_parent_freed xd then None
        else Some (xd1\<lparr>xd_parents := prev # xd_parents xd\<rparr>))
     else Some xd1 }"

definition xml_data_update_end_element :: "xml_data \<Rightarrow> xml_data option" where
  "xml_data_update_end_element xd = do {
     xd1 \<leftarrow> (if xd_prev_depth xd > xd_curr_depth xd then
               (if xd_parent_freed xd then None
                else case xd_parents xd of
                       p # q # rest \<Rightarrow> Some (xd\<lparr>xd_parents := q # rest, xd_parent_freed := (q = None)\<rparr>)
                     | _ \<Rightarrow> None)
             else Some xd);
     Some (xd1\<lparr>xd_prev_depth := xd_curr_depth xd, xd_curr_depth := xd_curr_depth xd - 1\<rparr>) }"

text \<open>Access to the packet that \<open>response->response\<close> is cast to.\<close>

definition xd_packet :: "xml_data \<Rightarrow> mio_packet option" where
  "xd_packet xd = (case rsp_response (xd_response xd) of RPacket p \<Rightarrow> Some p | _ \<Rightarrow> None)"

definition xd_set_packet :: "mio_packet \<Rightarrow> xml_data \<Rightarrow> xml_data" where
  "xd_set_packet p xd = xd\<lparr>xd_response := (xd_response xd)\<lparr>rsp_response := RPacket p\<rparr>\<rparr>"

definition xd_set_type :: "mio_response_type \<Rightarrow> xml_data \<Rightarrow> xml_data" where
  "xd_set_type t xd = xd\<lparr>xd_response := (xd_response xd)\<lparr>rsp_response_type := t\<rparr>\<rparr>"

section \<open>Errors\<close>

text \<open>The loop over the attributes: the error is linked into the response when a type is found.\<close>

fun xml_error_loop :: "mio_response_error \<Rightarrow> bool \<Rightarrow> (string \<times> string) list \<Rightarrow> mio_response_error \<times> bool" where
  "xml_error_loop err linked [] = (err, linked)"
| "xml_error_loop err linked ((attr_name, v) # attr) =
     (if attr_name = ''type'' then xml_error_loop (err\<lparr>err_description := Some v\<rparr>) True attr
      else if attr_name = ''code'' then xml_error_loop (err\<lparr>err_num := Some (c_atoi v)\<rparr>) linked attr
      else xml_error_loop err linked attr)"

definition mio_XML_error_handler :: "(string \<times> string) list \<Rightarrow> mio_response \<Rightarrow> mio_response" where
  "mio_XML_error_handler attr response =
     (case xml_error_loop mio_response_error_new False attr of (err, linked) \<Rightarrow>
        if linked then response\<lparr>rsp_response_type := MIO_RESPONSE_ERROR, rsp_response := RError err\<rparr>
        else response)"

definition xd_error :: "(string \<times> string) list \<Rightarrow> xml_data \<Rightarrow> xml_data" where
  "xd_error attr xd = xd\<lparr>xd_response := mio_XML_error_handler attr (xd_response xd)\<rparr>"

section \<open>Start tags\<close>

definition mio_XMLstart_subscribe :: "xml_data \<Rightarrow> string \<Rightarrow> (string \<times> string) list \<Rightarrow> xml_data option" where
  "mio_XMLstart_subscribe xd element_name attr = do {
     xd \<leftarrow> xml_data_update_start_element xd element_name;
     Some (if element_name = ''subscription'' then
             (if list_ex (\<lambda>(k, v). k = ''subscription'' \<and> v = ''subscribed'') attr
              then xd_set_type MIO_RESPONSE_OK xd else xd)
           else if element_name = ''error'' then xd_error attr xd else xd) }"

definition mio_XMLstart_error :: "xml_data \<Rightarrow> string \<Rightarrow> (string \<times> string) list \<Rightarrow> xml_data option" where
  "mio_XMLstart_error xd element_name attr = do {
     xd \<leftarrow> xml_data_update_start_element xd element_name;
     let xd = (if element_name = ''error'' then xd_error attr xd else xd);
     Some (if rsp_response_type (xd_response xd) \<noteq> MIO_RESPONSE_ERROR
           then xd_set_type MIO_RESPONSE_OK xd else xd) }"

text \<open>The attribute loop shared by the subscription and affiliation elements: the last of jid and node.\<close>

fun jid_node_loop :: "cptr \<Rightarrow> (string \<times> string) list \<Rightarrow> cptr" where
  "jid_node_loop curr_jid_node [] = curr_jid_node"
| "jid_node_loop curr_jid_node ((k, v) # attr) =
     jid_node_loop (if k = ''jid'' then Some v else if k = ''node'' then Some v else curr_jid_node) attr"

text \<open>The last value of an attribute, as the assigning loops leave it.\<close>

fun attr_last :: "string \<Rightarrow> cptr \<Rightarrow> (string \<times> string) list \<Rightarrow> cptr" where
  "attr_last name cur [] = cur"
| "attr_last name cur ((k, v) # attr) = attr_last name (if k = name then Some v else cur) attr"

definition mio_XMLstart_subscriptions_query :: "xml_data \<Rightarrow> string \<Rightarrow> (string \<times> string) list \<Rightarrow> xml_data option" where
  "mio_XMLstart_subscriptions_query xd element_name attr = do {
     xd \<leftarrow> xml_data_update_start_element xd element_name;
     if element_name = ''subscriptions'' then do {
       packet \<leftarrow> xd_packet xd;
       Some (xd_set_packet (packet\<lparr>pkt_type := MIO_PACKET_SUBSCRIPTIONS\<rparr>) (xd_set_type MIO_RESPONSE_PACKET xd)) }
     else if element_name = ''subscription'' then do {
       packet \<leftarrow> xd_packet xd;
       packet' \<leftarrow> mio_subscription_add packet (jid_node_loop None attr) (attr_last ''subid'' None attr);
       Some (xd_set_packet packet' xd) }
     else if element_name = ''error'' then Some (xd_error attr xd)
     else Some xd }"

definition affiliation_of_name :: "mio_affiliation_type \<Rightarrow> string \<Rightarrow> mio_affiliation_type" where
  "affiliation_of_name cur v =
     (if v = ''none'' then MIO_AFFILIATION_NONE else if v = ''owner'' then MIO_AFFILIATION_OWNER
      else if v = ''member'' then MIO_AFFILIATION_MEMBER else if v = ''publisher'' then MIO_AFFILIATION_PUBLISHER
      else if v = ''publish-only'' then MIO_AFFILIATION_PUBLISH_ONLY
      else if v = ''outcast'' then MIO_AFFILIATION_OUTCAST else cur)"

fun affiliation_loop :: "mio_affiliation_type \<Rightarrow> (string \<times> string) list \<Rightarrow> mio_affiliation_type" where
  "affiliation_loop curr_aff [] = curr_aff"
| "affiliation_loop curr_aff ((k, v) # attr) =
     affiliation_loop (if k = ''affiliation'' then affiliation_of_name curr_aff v else curr_aff) attr"

definition mio_XMLstart_acl_affiliations_query :: "xml_data \<Rightarrow> string \<Rightarrow> (string \<times> string) list \<Rightarrow> xml_data option" where
  "mio_XMLstart_acl_affiliations_query xd element_name attr = do {
     xd \<leftarrow> xml_data_update_start_element xd element_name;
     if element_name = ''affiliations'' then do {
       packet \<leftarrow> xd_packet xd;
       Some (xd_set_packet (packet\<lparr>pkt_type := MIO_PACKET_AFFILIATIONS\<rparr>) (xd_set_type MIO_RESPONSE_PACKET xd)) }
     else if element_name = ''affiliation'' then do {
       packet \<leftarrow> xd_packet xd;
       packet' \<leftarrow> mio_affiliation_add packet (jid_node_loop None attr) (affiliation_loop MIO_AFFILIATION_UNKOWN attr);
       Some (xd_set_packet packet' xd) }
     else if element_name = ''error'' then Some (xd_error attr xd)
     else Some xd }"

definition mio_XMLstart_collection_children_query :: "xml_data \<Rightarrow> string \<Rightarrow> (string \<times> string) list \<Rightarrow> xml_data option" where
  "mio_XMLstart_collection_children_query xd element_name attr = do {
     xd \<leftarrow> xml_data_update_start_element xd element_name;
     if element_name = ''item'' then do {
       packet \<leftarrow> xd_packet xd;
       packet' \<leftarrow> mio_collection_add packet (attr_last ''node'' None attr) (attr_last ''name'' None attr);
       Some (xd_set_packet packet' xd) }
     else if element_name = ''error'' then Some (xd_error attr xd)
     else Some xd }"

fun parents_field_loop :: "xml_data \<Rightarrow> (string \<times> string) list \<Rightarrow> xml_data" where
  "parents_field_loop xd [] = xd"
| "parents_field_loop xd ((k, v) # attr) =
     parents_field_loop
       (if k = ''var'' then
          (if v = ''pubsub#collection'' then xd\<lparr>xd_payload := XPacket, xd_chars := XChars_collection\<rparr> else xd)
        else xd\<lparr>xd_chars := XChars_none\<rparr>) attr"

definition mio_XMLstart_collection_parents_query :: "xml_data \<Rightarrow> string \<Rightarrow> (string \<times> string) list \<Rightarrow> xml_data option" where
  "mio_XMLstart_collection_parents_query xd element_name attr = do {
     xd \<leftarrow> xml_data_update_start_element xd element_name;
     let xd = xd\<lparr>xd_prev_element_name := xd_curr_element_name xd, xd_curr_element_name := Some element_name\<rparr>;
     Some (if element_name = ''field'' then parents_field_loop xd attr
           else if element_name = ''error'' then xd_error attr xd else xd) }"

text \<open>The \<open>items\<close> element: each \<open>node\<close> attribute names the event node and counts a payload.\<close>

fun items_node_loop :: "mio_packet \<Rightarrow> (string \<times> string) list \<Rightarrow> mio_packet option" where
  "items_node_loop packet [] = Some packet"
| "items_node_loop packet ((k, v) # attr) =
     (if k = ''node'' then do {
        d \<leftarrow> as_data (pkt_payload packet);
        d \<leftarrow> d;
        items_node_loop (packet\<lparr>pkt_payload := PData (d\<lparr>dt_event := Some v\<rparr>),
                          pkt_num_payloads := pkt_num_payloads packet + 1\<rparr>) attr }
      else items_node_loop packet attr)"

definition mio_XMLstart_pubsub_data_receive :: "xml_data \<Rightarrow> string \<Rightarrow> (string \<times> string) list \<Rightarrow> xml_data option" where
  "mio_XMLstart_pubsub_data_receive xd element_name attr = do {
     packet \<leftarrow> xd_packet xd;
     mio_data \<leftarrow> as_data (pkt_payload packet);
     xd \<leftarrow> xml_data_update_start_element xd element_name;
     if element_name = ''items'' then do {
       packet' \<leftarrow> items_node_loop packet attr;
       Some (xd_set_packet packet' xd) }
     else if element_name = ''transducerValue'' \<or> element_name = ''transducerSetValue'' then do {
       d \<leftarrow> mio_data;
       let type = (if element_name = ''transducerValue'' then MIO_TRANSDUCER_VALUE else MIO_TRANSDUCER_SET_VALUE);
       let d' = mio_data_transducer_value_add d type 0 (attr_last ''id'' None attr)
                  (attr_last ''typedValue'' None attr) (attr_last ''rawValue'' None attr)
                  (attr_last ''timestamp'' None attr);
       Some (xd_set_packet (packet\<lparr>pkt_payload := PData d'\<rparr>) (xd_set_type MIO_RESPONSE_PACKET xd)) }
     else Some xd }"

definition mio_XMLstart_node_type_query :: "xml_data \<Rightarrow> string \<Rightarrow> (string \<times> string) list \<Rightarrow> xml_data option" where
  "mio_XMLstart_node_type_query xd element_name attr = do {
     xd \<leftarrow> xml_data_update_start_element xd element_name;
     if element_name = ''identity'' then
       (case attr_last ''type'' None attr of
          None \<Rightarrow> Some xd
        | Some v \<Rightarrow> do {
            packet \<leftarrow> xd_packet xd;
            Some (xd_set_packet (packet\<lparr>pkt_type := MIO_PACKET_NODE_TYPE, pkt_num_payloads := 1,
                    pkt_payload := PNodeType (if v = ''collection'' then MIO_NODE_TYPE_COLLECTION
                      else if v = ''leaf'' then MIO_NODE_TYPE_LEAF else MIO_NODE_TYPE_UNKNOWN)\<rparr>)
                  (xd_set_type MIO_RESPONSE_PACKET xd)) })
     else if element_name = ''error'' then Some (xd_error attr xd)
     else Some xd }"

section \<open>Meta information\<close>

fun meta_attr_step :: "mio_meta \<Rightarrow> string \<times> string \<Rightarrow> mio_meta" where
  "meta_attr_step m (k, v) =
     (if k = ''name'' then m\<lparr>mt_name := Some v\<rparr>
      else if k = ''timestamp'' then m\<lparr>mt_timestamp := Some v\<rparr>
      else if k = ''info'' then m\<lparr>mt_info := Some v\<rparr>
      else if k = ''type'' then
        (if v = ''device'' then m\<lparr>mt_meta_type := MIO_META_TYPE_DEVICE\<rparr>
         else if v = ''location'' then m\<lparr>mt_meta_type := MIO_META_TYPE_LOCATION\<rparr> else m)
      else m)"

definition meta_attr_loop :: "mio_meta \<Rightarrow> (string \<times> string) list \<Rightarrow> mio_meta" where
  "meta_attr_loop m attr = foldl meta_attr_step m attr"

fun transducer_attr_step :: "mio_transducer_meta \<Rightarrow> string \<times> string \<Rightarrow> mio_transducer_meta" where
  "transducer_attr_step t (k, v) =
     (if k = ''name'' then t\<lparr>tm_name := Some v\<rparr>
      else if k = ''type'' then t\<lparr>tm_type := Some v\<rparr>
      else if k = ''interface'' then t\<lparr>tm_interface := Some v\<rparr>
      else if k = ''unit'' then t\<lparr>tm_unit := Some v\<rparr>
      else if k = ''manufacturer'' then t\<lparr>tm_manufacturer := Some v\<rparr>
      else if k = ''serial'' then t\<lparr>tm_serial := Some v\<rparr>
      else if k = ''info'' then t\<lparr>tm_info := Some v\<rparr>
      else if k = ''minValue'' then t\<lparr>tm_min_value := Some v\<rparr>
      else if k = ''maxValue'' then t\<lparr>tm_max_value := Some v\<rparr>
      else if k = ''resolution'' then t\<lparr>tm_resolution := Some v\<rparr>
      else if k = ''precision'' then t\<lparr>tm_precision := Some v\<rparr>
      else if k = ''accuracy'' then t\<lparr>tm_accuracy := Some v\<rparr>
      else t)"

definition transducer_attr_loop :: "mio_transducer_meta \<Rightarrow> (string \<times> string) list \<Rightarrow> mio_transducer_meta" where
  "transducer_attr_loop t attr = foldl transducer_attr_step t attr"

definition enum_of_attr :: "(string \<times> string) list \<Rightarrow> mio_enum_map_meta" where
  "enum_of_attr attr = \<lparr>em_name = attr_last ''name'' None attr, em_value = attr_last ''value'' None attr\<rparr>"

definition property_of_attr :: "(string \<times> string) list \<Rightarrow> mio_property_meta" where
  "property_of_attr attr = \<lparr>pm_name = attr_last ''name'' None attr, pm_value = attr_last ''value'' None attr\<rparr>"

text \<open>Replacing the meta structure of the packet cuts the places inside the old one off.\<close>

definition xd_payload_cut :: "xd_payload \<Rightarrow> xd_payload" where
  "xd_payload_cut p = (case p of XMeta \<Rightarrow> XMetaLost | XTransducer \<Rightarrow> XTransducerLost
     | XGeoTransducer \<Rightarrow> XGeoLost | XGeoMeta \<Rightarrow> XGeoLost | _ \<Rightarrow> p)"

definition xd_set_meta :: "mio_meta \<Rightarrow> xml_data \<Rightarrow> xml_data option" where
  "xd_set_meta m xd = do { packet \<leftarrow> xd_packet xd; Some (xd_set_packet (packet\<lparr>pkt_payload := PMeta m\<rparr>) xd) }"

definition mio_XMLstart_pubsub_meta_receive :: "xml_data \<Rightarrow> string \<Rightarrow> (string \<times> string) list \<Rightarrow> xml_data option" where
  "mio_XMLstart_pubsub_meta_receive xd element_name attr = do {
     packet \<leftarrow> xd_packet xd;
     mio_meta \<leftarrow> as_meta (pkt_payload packet);
     xd \<leftarrow> xml_data_update_start_element xd element_name;
     if element_name = ''items'' then
       Some (xd_set_packet (packet\<lparr>pkt_payload := PMeta mio_meta_new, pkt_type := MIO_PACKET_META,
               pkt_num_payloads := pkt_num_payloads packet + 1\<rparr>)
             (xd_set_type MIO_RESPONSE_PACKET (xd\<lparr>xd_payload := xd_payload_cut (xd_payload xd)\<rparr>)))
     else if element_name = ''meta'' then
       (case mio_meta of
          None \<Rightarrow> if list_ex (\<lambda>(k, v). k \<in> {''name'', ''timestamp'', ''info''} \<or>
                        k = ''type'' \<and> v \<in> {''location'', ''device''}) attr then None
                  else Some (xd\<lparr>xd_chars := XChars_none, xd_payload := XNull\<rparr>)
        | Some m \<Rightarrow> xd_set_meta (meta_attr_loop m attr) (xd\<lparr>xd_chars := XChars_none, xd_payload := XMeta\<rparr>))
     else if element_name = ''transducer'' then do {
       m \<leftarrow> mio_meta;
       let t_meta = transducer_attr_loop mio_transducer_meta_new attr;
       if mt_meta_type m \<noteq> MIO_META_TYPE_UKNOWN
       then xd_set_meta (mio_transducer_meta_add m [t_meta]) (xd\<lparr>xd_chars := XChars_none, xd_payload := XTransducer\<rparr>)
       else Some (xd\<lparr>xd_chars := XChars_none, xd_payload := XTransducerLost\<rparr>) }
     else if element_name = ''map'' then do {
       m \<leftarrow> mio_meta;
       t_meta \<leftarrow> mio_transducer_meta_tail_get (mt_transducers m);
       xd_set_meta (m\<lparr>mt_transducers := c_update_last (\<lambda>t. mio_enum_map_meta_add t [enum_of_attr attr]) (mt_transducers m)\<rparr>)
         (xd\<lparr>xd_chars := XChars_none\<rparr>) }
     else if element_name = ''property'' then
       (let p_meta = property_of_attr attr; xd = xd\<lparr>xd_chars := XChars_none\<rparr> in
        case xd_parents xd of
          [] \<Rightarrow> Some xd
        | parent # _ \<Rightarrow> do {
            in_transducer \<leftarrow> c_streq parent (Some ''transducer'');
            if in_transducer then
              (case xd_payload xd of
                 XTransducer \<Rightarrow> do {
                   m \<leftarrow> mio_meta;
                   xd_set_meta (m\<lparr>mt_transducers := c_update_last (\<lambda>t. t\<lparr>tm_properties := tm_properties t @ [p_meta]\<rparr>)
                                   (mt_transducers m)\<rparr>) xd }
               | XTransducerLost \<Rightarrow> Some xd
               | _ \<Rightarrow> None)
            else do { m \<leftarrow> mio_meta; xd_set_meta (mio_property_meta_add m [p_meta]) xd } })
     else if element_name = ''geoloc'' then
       (case xd_prev_element_name xd of
          None \<Rightarrow> Some (xd\<lparr>xd_payload := XGeoLost, xd_chars := XChars_geoloc\<rparr>)
        | Some prev \<Rightarrow>
            if prev = ''transducer'' then
              (case xd_payload xd of
                 XTransducer \<Rightarrow> do {
                   m \<leftarrow> mio_meta;
                   xd_set_meta (m\<lparr>mt_transducers := c_update_last (\<lambda>t. t\<lparr>tm_geoloc := Some mio_geoloc_new\<rparr>)
                                   (mt_transducers m)\<rparr>)
                     (xd\<lparr>xd_payload := XGeoTransducer, xd_chars := XChars_geoloc\<rparr>) }
               | XTransducerLost \<Rightarrow> Some (xd\<lparr>xd_payload := XGeoLost, xd_chars := XChars_geoloc\<rparr>)
               | _ \<Rightarrow> None)
            else
              (case xd_payload xd of
                 XMeta \<Rightarrow> do {
                   m \<leftarrow> mio_meta;
                   xd_set_meta (m\<lparr>mt_geoloc := Some mio_geoloc_new\<rparr>)
                     (xd\<lparr>xd_payload := XGeoMeta, xd_chars := XChars_geoloc\<rparr>) }
               | XMetaLost \<Rightarrow> Some (xd\<lparr>xd_payload := XGeoLost, xd_chars := XChars_geoloc\<rparr>)
               | _ \<Rightarrow> None))
     else Some xd }"

section \<open>Schedules and references\<close>

fun event_attr_step :: "mio_event \<Rightarrow> string \<times> string \<Rightarrow> mio_event" where
  "event_attr_step e (k, v) =
     (if k = ''time'' then e\<lparr>ev_time := Some v\<rparr>
      else if k = ''info'' then e\<lparr>ev_info := Some v\<rparr>
      else if k = ''transducerName'' then e\<lparr>ev_tranducer_name := Some v\<rparr>
      else if k = ''transducerValue'' then e\<lparr>ev_transducer_value := Some v\<rparr>
      else if k = ''id'' then e\<lparr>ev_id := c_scan_u v (ev_id e)\<rparr>
      else e)"

definition event_attr_loop :: "mio_event \<Rightarrow> (string \<times> string) list \<Rightarrow> mio_event" where
  "event_attr_loop e attr = foldl event_attr_step e attr"

definition mio_XMLstart_schedule_query :: "xml_data \<Rightarrow> string \<Rightarrow> (string \<times> string) list \<Rightarrow> xml_data option" where
  "mio_XMLstart_schedule_query xd element_name attr = do {
     let xd = xd\<lparr>xd_prev_element_name := xd_curr_element_name xd, xd_curr_element_name := Some element_name\<rparr>;
     xd \<leftarrow> xml_data_update_start_element xd element_name;
     if element_name = ''items'' then do {
       packet \<leftarrow> xd_packet xd;
       Some (xd_set_packet (packet\<lparr>pkt_type := MIO_PACKET_SCHEDULE\<rparr>) (xd_set_type MIO_RESPONSE_PACKET xd)) }
     else if element_name = ''event'' then do {
       packet \<leftarrow> xd_packet xd;
       es \<leftarrow> as_events (pkt_payload packet);
       Some (xd_set_packet (packet\<lparr>pkt_payload := PSchedule (es @ [event_attr_loop mio_event_new attr]),
               pkt_num_payloads := pkt_num_payloads packet + 1\<rparr>)
             (xd\<lparr>xd_chars := XChars_none, xd_payload := XEvent\<rparr>)) }
     else if element_name = ''recurrence'' then
       (case xd_payload xd of
          XEvent \<Rightarrow> do {
            packet \<leftarrow> xd_packet xd;
            es \<leftarrow> as_events (pkt_payload packet);
            Some (xd_set_packet (packet\<lparr>pkt_payload :=
                    PSchedule (c_update_last (\<lambda>e. e\<lparr>ev_recurrence := Some mio_recurrence_new\<rparr>) es)\<rparr>)
                  (xd\<lparr>xd_chars := XChars_recurrence\<rparr>)) }
        | _ \<Rightarrow> None)
     else if element_name = ''error'' then Some (xd_error attr xd)
     else Some xd }"

fun reference_attr_step :: "mio_reference \<Rightarrow> string \<times> string \<Rightarrow> mio_reference" where
  "reference_attr_step r (k, v) =
     (if k = ''type'' then
        (if v = ''child'' then r\<lparr>ref_type := MIO_REFERENCE_CHILD\<rparr>
         else if v = ''parent'' then r\<lparr>ref_type := MIO_REFERENCE_PARENT\<rparr> else r)
      else if k = ''metaType'' then
        (if v = ''device'' then r\<lparr>ref_meta_type := MIO_META_TYPE_DEVICE\<rparr>
         else if v = ''location'' then r\<lparr>ref_meta_type := MIO_META_TYPE_LOCATION\<rparr> else r)
      else if k = ''node'' then r\<lparr>ref_node := Some v\<rparr>
      else if k = ''name'' then r\<lparr>ref_name := Some v\<rparr>
      else r)"

definition reference_attr_loop :: "mio_reference \<Rightarrow> (string \<times> string) list \<Rightarrow> mio_reference" where
  "reference_attr_loop r attr = foldl reference_attr_step r attr"

definition mio_XMLstart_references_query :: "xml_data \<Rightarrow> string \<Rightarrow> (string \<times> string) list \<Rightarrow> xml_data option" where
  "mio_XMLstart_references_query xd element_name attr = do {
     xd \<leftarrow> xml_data_update_start_element xd element_name;
     if element_name = ''items'' then do {
       packet \<leftarrow> xd_packet xd;
       Some (xd_set_packet (packet\<lparr>pkt_type := MIO_PACKET_REFERENCES\<rparr>) (xd_set_type MIO_RESPONSE_PACKET xd)) }
     else if element_name = ''reference'' then do {
       packet \<leftarrow> xd_packet xd;
       refs \<leftarrow> as_references (pkt_payload packet);
       Some (xd_set_packet (packet\<lparr>pkt_payload := PReferences (refs @ [reference_attr_loop mio_reference_new attr]),
               pkt_num_payloads := pkt_num_payloads packet + 1\<rparr>) xd) }
     else if element_name = ''error'' then Some (xd_error attr xd)
     else Some xd }"

end
