(* ===== verification/Mio_Handlers.thy ===== *)
theory Mio_Handlers
  imports Mio_Xml
begin

text \<open>
  Text callbacks, the parse of a reply, and the handlers of \<^verbatim>\<open>mio_handlers.c\<close> that the event loop calls
  with a reply stanza. expat is the argument \<open>expat\<close>: for a text, the events it delivers and whether it
  accepts the text. A handler gives its return code, the response it filled and whether it signalled
  the waiting request (\<open>None\<close> is undefined behaviour). The handlers find their request in the request
  table by \<open>response->id\<close>; the argument \<open>found\<close> says whether it is there.
\<close>

section \<open>Text callbacks\<close>

text \<open>
  \<open>snprintf(field, len + 1, "%s", s)\<close> stores the first \<open>len\<close> characters, which are the text of the event,
  up to a NUL. A field that is already set is kept: only the first piece of a text counts.
\<close>

definition text_once :: "cptr \<Rightarrow> string \<Rightarrow> cptr" where
  "text_once old s = (case old of None \<Rightarrow> Some s | Some _ \<Rightarrow> old)"

text \<open>A text without a number leaves the new \<open>double\<close> uninitialised, which is treated as undefined.\<close>

definition double_once :: "c_double option \<Rightarrow> string \<Rightarrow> c_double option option" where
  "double_once old s = (case old of None \<Rightarrow> map_option Some (c_scan_lf s) | Some _ \<Rightarrow> Some old)"

definition geoloc_fields :: "string list" where
  "geoloc_fields = [''accuracy'', ''alt'', ''area'', ''bearing'', ''building'', ''country'', ''countrycode'',
     ''datum'', ''description'', ''floor'', ''lat'', ''locality'', ''lon'', ''postalcode'', ''region'', ''room'',
     ''speed'', ''street'', ''text'', ''timestamp'', ''tzo'', ''uri'']"

definition geoloc_text :: "string \<Rightarrow> string \<Rightarrow> mio_geoloc \<Rightarrow> mio_geoloc option" where
  "geoloc_text el s g =
     (if el = ''accuracy'' then map_option (\<lambda>d. g\<lparr>geo_accuracy := d\<rparr>) (double_once (geo_accuracy g) s)
      else if el = ''alt'' then map_option (\<lambda>d. g\<lparr>geo_alt := d\<rparr>) (double_once (geo_alt g) s)
      else if el = ''area'' then Some (g\<lparr>geo_area := text_once (geo_area g) s\<rparr>)
      else if el = ''bearing'' then map_option (\<lambda>d. g\<lparr>geo_bearing := d\<rparr>) (double_once (geo_bearing g) s)
      else if el = ''building'' then Some (g\<lparr>geo_building := text_once (geo_building g) s\<rparr>)
      else if el = ''country'' then Some (g\<lparr>geo_country := text_once (geo_country g) s\<rparr>)
      else if el = ''countrycode'' then Some (g\<lparr>geo_country_code := text_once (geo_country_code g) s\<rparr>)
      else if el = ''datum'' then Some (g\<lparr>geo_datum := text_once (geo_datum g) s\<rparr>)
      else if el = ''description'' then Some (g\<lparr>geo_description := text_once (geo_description g) s\<rparr>)
      else if el = ''floor'' then Some (g\<lparr>geo_floor := text_once (geo_floor g) s\<rparr>)
      else if el = ''lat'' then map_option (\<lambda>d. g\<lparr>geo_lat := d\<rparr>) (double_once (geo_lat g) s)
      else if el = ''locality'' then Some (g\<lparr>geo_locality := text_once (geo_locality g) s\<rparr>)
      else if el = ''lon'' then map_option (\<lambda>d. g\<lparr>geo_lon := d\<rparr>) (double_once (geo_lon g) s)
      else if el = ''postalcode'' then Some (g\<lparr>geo_postal_code := text_once (geo_postal_code g) s\<rparr>)
      else if el = ''region'' then Some (g\<lparr>geo_region := text_once (geo_region g) s\<rparr>)
      else if el = ''room'' then Some (g\<lparr>geo_room := text_once (geo_room g) s\<rparr>)
      else if el = ''speed'' then map_option (\<lambda>d. g\<lparr>geo_speed := d\<rparr>) (double_once (geo_speed g) s)
      else if el = ''street'' then Some (g\<lparr>geo_street := text_once (geo_street g) s\<rparr>)
      else if el = ''text'' then Some (g\<lparr>geo_text := text_once (geo_text g) s\<rparr>)
      else if el = ''timestamp'' then Some (g\<lparr>geo_timestamp := text_once (geo_timestamp g) s\<rparr>)
      else if el = ''tzo'' then Some (g\<lparr>geo_tzo := text_once (geo_tzo g) s\<rparr>)
      else if el = ''uri'' then Some (g\<lparr>geo_uri := text_once (geo_uri g) s\<rparr>)
      else Some g)"

text \<open>
  The location is the one \<open>payload\<close> points to. A field name with a payload that is NULL or no
  location is undefined; other element names do not touch it.
\<close>

definition mio_XMLString_geoloc :: "xml_data \<Rightarrow> string \<Rightarrow> xml_data option" where
  "mio_XMLString_geoloc xd s = do {
     el \<leftarrow> xd_curr_element_name xd;
     if el \<notin> set geoloc_fields then Some xd
     else case xd_payload xd of
       XGeoMeta \<Rightarrow> do {
         packet \<leftarrow> xd_packet xd; m \<leftarrow> as_meta (pkt_payload packet); m \<leftarrow> m;
         g \<leftarrow> mt_geoloc m; g' \<leftarrow> geoloc_text el s g;
         xd_set_meta (m\<lparr>mt_geoloc := Some g'\<rparr>) xd }
     | XGeoTransducer \<Rightarrow> do {
         packet \<leftarrow> xd_packet xd; m \<leftarrow> as_meta (pkt_payload packet); m \<leftarrow> m;
         t \<leftarrow> mio_transducer_meta_tail_get (mt_transducers m);
         g \<leftarrow> tm_geoloc t; g' \<leftarrow> geoloc_text el s g;
         xd_set_meta (m\<lparr>mt_transducers := c_update_last (\<lambda>t. t\<lparr>tm_geoloc := Some g'\<rparr>) (mt_transducers m)\<rparr>) xd }
     | XGeoLost \<Rightarrow> Some xd
     | _ \<Rightarrow> None }"

definition recurrence_fields :: "string list" where
  "recurrence_fields = [''freq'', ''interval'', ''count'', ''until'', ''bymonth'', ''byday'', ''exdate'']"

definition recurrence_text :: "string \<Rightarrow> string \<Rightarrow> mio_recurrence \<Rightarrow> mio_recurrence" where
  "recurrence_text el s rec =
     (if el = ''freq'' then rec\<lparr>rec_freq := text_once (rec_freq rec) s\<rparr>
      else if el = ''interval'' then rec\<lparr>rec_interval := text_once (rec_interval rec) s\<rparr>
      else if el = ''count'' then rec\<lparr>rec_count := text_once (rec_count rec) s\<rparr>
      else if el = ''until'' then rec\<lparr>rec_until := text_once (rec_until rec) s\<rparr>
      else if el = ''bymonth'' then rec\<lparr>rec_bymonth := text_once (rec_bymonth rec) s\<rparr>
      else if el = ''byday'' then rec\<lparr>rec_byday := text_once (rec_byday rec) s\<rparr>
      else if el = ''exdate'' then rec\<lparr>rec_exdate := text_once (rec_exdate rec) s\<rparr>
      else rec)"

text \<open>The callback reads \<open>event->recurrence\<close> first: the payload has to be an event.\<close>

definition mio_XMLString_recurrence :: "xml_data \<Rightarrow> string \<Rightarrow> xml_data option" where
  "mio_XMLString_recurrence xd s = do {
     el \<leftarrow> xd_curr_element_name xd;
     (case xd_payload xd of
        XEvent \<Rightarrow> do {
          packet \<leftarrow> xd_packet xd;
          es \<leftarrow> as_events (pkt_payload packet);
          e \<leftarrow> mio_event_tail_get es;
          if el \<notin> set recurrence_fields then Some xd
          else do {
            rec \<leftarrow> ev_recurrence e;
            Some (xd_set_packet (packet\<lparr>pkt_payload := PSchedule
                    (c_update_last (\<lambda>e. e\<lparr>ev_recurrence := Some (recurrence_text el s rec)\<rparr>) es)\<rparr>) xd) } }
      | _ \<Rightarrow> None) }"

text \<open>
  The packet the callback appends to is the one the response had when the \<open>field\<close> tag was seen; an
  error that replaced it makes the appended element unreachable.
\<close>

definition mio_XMLString_collection_query :: "xml_data \<Rightarrow> string \<Rightarrow> xml_data option" where
  "mio_XMLString_collection_query xd s = do {
     el \<leftarrow> xd_curr_element_name xd;
     if el = ''value'' then
       (case rsp_response (xd_response xd) of
          RPacket packet \<Rightarrow> do { p \<leftarrow> mio_collection_add packet (Some s) None; Some (xd_set_packet p xd) }
        | _ \<Rightarrow> Some xd)
     else Some xd }"

section \<open>Parsing a reply\<close>

definition xml_char_data :: "xml_data \<Rightarrow> string \<Rightarrow> xml_data option" where
  "xml_char_data xd s = (case xd_chars xd of
     XChars_none \<Rightarrow> Some xd
   | XChars_geoloc \<Rightarrow> mio_XMLString_geoloc xd s
   | XChars_recurrence \<Rightarrow> mio_XMLString_recurrence xd s
   | XChars_collection \<Rightarrow> mio_XMLString_collection_query xd s)"

type_synonym xml_start = "xml_data \<Rightarrow> string \<Rightarrow> (string \<times> string) list \<Rightarrow> xml_data option"

fun xml_run :: "xml_start \<Rightarrow> xml_data \<Rightarrow> xml_event list \<Rightarrow> xml_data option" where
  "xml_run start xd [] = Some xd"
| "xml_run start xd (StartElement name attr # es) = do { xd' \<leftarrow> start xd name attr; xml_run start xd' es }"
| "xml_run start xd (EndElement name # es) = do { xd' \<leftarrow> xml_data_update_end_element xd; xml_run start xd' es }"
| "xml_run start xd (CharData s # es) = do { xd' \<leftarrow> xml_char_data xd s; xml_run start xd' es }"

text \<open>
  The code of \<open>xmpp_stanza_to_text\<close> is not looked at: when it fails, \<open>strlen\<close> reads an uninitialised
  pointer. On a syntax error the callbacks made so far stand.
\<close>

definition mio_xml_parse :: "(string \<Rightarrow> xml_event list \<times> bool) \<Rightarrow> xmpp_stanza option \<Rightarrow> xml_data \<Rightarrow> xml_start
    \<Rightarrow> (int \<times> xml_data) option" where
  "mio_xml_parse expat stanza xd start = (case stanza of
     None \<Rightarrow> Some (MIO_ERROR_XML_NULL_STANZA, xd)
   | Some s \<Rightarrow> (case xmpp_stanza_to_text s of
        Inl e \<Rightarrow> None
      | Inr buf \<Rightarrow> (case expat buf of (events, ok) \<Rightarrow> do {
           xd' \<leftarrow> xml_run start xd events;
           Some (if ok then MIO_OK else MIO_ERROR_XML_PARSING, xd') })))"

section \<open>Handlers\<close>

type_synonym expat = "string \<Rightarrow> xml_event list \<times> bool"
type_synonym handler_result = "(int \<times> mio_response \<times> bool) option"
type_synonym mio_handler = "expat \<Rightarrow> bool \<Rightarrow> xmpp_stanza \<Rightarrow> mio_response \<Rightarrow> handler_result"

definition mio_handler_subscribe :: mio_handler where
  "mio_handler_subscribe expat found stanza response =
     (if \<not> found then Some (MIO_ERROR_REQUEST_NOT_FOUND, response, False)
      else do {
        let response = response\<lparr>rsp_stanza := Some stanza\<rparr>;
        (err, xd) \<leftarrow> mio_xml_parse expat (Some stanza) (xml_data_new response XChars_none) mio_XMLstart_subscribe;
        Some (err, xd_response xd, err = MIO_OK) })"

definition mio_handler_error :: mio_handler where
  "mio_handler_error expat found stanza response =
     (if \<not> found then Some (MIO_ERROR_REQUEST_NOT_FOUND, response, False)
      else do {
        let response = response\<lparr>rsp_stanza := Some stanza\<rparr>;
        (err, xd) \<leftarrow> mio_xml_parse expat (Some stanza) (xml_data_new response XChars_none) mio_XMLstart_error;
        Some (err, xd_response xd, err = MIO_OK) })"

text \<open>The handlers that collect a packet: the response gets a new packet before the parse.\<close>

definition handler_packet_parse :: "expat \<Rightarrow> xmpp_stanza \<Rightarrow> mio_response \<Rightarrow> mio_packet \<Rightarrow> xml_start \<Rightarrow> xd_char_handler
    \<Rightarrow> (int \<times> mio_response) option" where
  "handler_packet_parse expat stanza response packet start chars = do {
     (err, xd) \<leftarrow> mio_xml_parse expat (Some stanza)
       (xml_data_new (response\<lparr>rsp_stanza := Some stanza, rsp_response := RPacket packet\<rparr>) chars) start;
     Some (err, xd_response xd) }"

definition mio_handler_subscriptions_query :: mio_handler where
  "mio_handler_subscriptions_query expat found stanza response =
     (if \<not> found then Some (MIO_ERROR_REQUEST_NOT_FOUND, response, False)
      else do {
        (err, r) \<leftarrow> handler_packet_parse expat stanza response mio_packet_new
          mio_XMLstart_subscriptions_query XChars_none;
        Some (err, r, err = MIO_OK) })"

definition mio_handler_acl_affiliations_query :: mio_handler where
  "mio_handler_acl_affiliations_query expat found stanza response =
     (if \<not> found then Some (MIO_ERROR_REQUEST_NOT_FOUND, response, False)
      else do {
        (err, r) \<leftarrow> handler_packet_parse expat stanza response mio_packet_new
          mio_XMLstart_acl_affiliations_query XChars_none;
        Some (err, r, err = MIO_OK) })"

text \<open>
  The handlers of the collection queries set the types after the parse. The packet they keep a
  pointer to is the response's unless an error replaced it.
\<close>

definition collection_packet_type :: "mio_response \<Rightarrow> mio_response" where
  "collection_packet_type r = r\<lparr>rsp_response_type := MIO_RESPONSE_PACKET,
     rsp_response := (case rsp_response r of RPacket p \<Rightarrow> RPacket (p\<lparr>pkt_type := MIO_PACKET_COLLECTIONS\<rparr>) | b \<Rightarrow> b)\<rparr>"

definition mio_handler_collection_children_query :: mio_handler where
  "mio_handler_collection_children_query expat found stanza response =
     (if \<not> found then Some (MIO_ERROR_REQUEST_NOT_FOUND, response, False)
      else do {
        (err, r) \<leftarrow> handler_packet_parse expat stanza response mio_packet_new
          mio_XMLstart_collection_children_query XChars_none;
        Some (if err = MIO_OK then (err, collection_packet_type r, True) else (err, r, False)) })"

definition mio_handler_collection_parents_query :: mio_handler where
  "mio_handler_collection_parents_query expat found stanza response =
     (if \<not> found then Some (MIO_ERROR_REQUEST_NOT_FOUND, response, False)
      else do {
        (err, r) \<leftarrow> handler_packet_parse expat stanza response mio_packet_new
          mio_XMLstart_collection_parents_query XChars_none;
        Some (if err = MIO_OK then (err, collection_packet_type r, True) else (err, r, False)) })"

definition mio_handler_meta_query :: mio_handler where
  "mio_handler_meta_query expat found stanza response =
     (if \<not> found then Some (MIO_ERROR_REQUEST_NOT_FOUND, response, False)
      else do {
        (err, r) \<leftarrow> handler_packet_parse expat stanza response mio_packet_new
          mio_XMLstart_pubsub_meta_receive XChars_geoloc;
        Some (err, r, err = MIO_OK) })"

definition mio_handler_node_type_query :: mio_handler where
  "mio_handler_node_type_query expat found stanza response =
     (if \<not> found then Some (MIO_ERROR_REQUEST_NOT_FOUND, response, False)
      else do {
        (err, r) \<leftarrow> handler_packet_parse expat stanza response mio_packet_new
          mio_XMLstart_node_type_query XChars_none;
        Some (err, r, err = MIO_OK) })"

definition mio_handler_item_recent_get :: mio_handler where
  "mio_handler_item_recent_get expat found stanza response =
     (if \<not> found then Some (MIO_ERROR_REQUEST_NOT_FOUND, response, False)
      else do {
        (err, r) \<leftarrow> handler_packet_parse expat stanza response
          (mio_packet_payload_add mio_packet_new (PData mio_data_new) MIO_PACKET_DATA)
          mio_XMLstart_pubsub_data_receive XChars_none;
        Some (if err = MIO_OK then (err, r\<lparr>rsp_response_type := MIO_RESPONSE_PACKET\<rparr>, True) else (err, r, False)) })"

definition mio_handler_schedule_query :: mio_handler where
  "mio_handler_schedule_query expat found stanza response =
     (if \<not> found then Some (MIO_ERROR_REQUEST_NOT_FOUND, response, False)
      else do {
        (err, r) \<leftarrow> handler_packet_parse expat stanza response mio_packet_new
          mio_XMLstart_schedule_query XChars_none;
        Some (err, r, err = MIO_OK) })"

definition mio_handler_references_query :: mio_handler where
  "mio_handler_references_query expat found stanza response =
     (if \<not> found then Some (MIO_ERROR_REQUEST_NOT_FOUND, response, False)
      else do {
        (err, r) \<leftarrow> handler_packet_parse expat stanza response mio_packet_new
          mio_XMLstart_references_query XChars_none;
        Some (err, r, err = MIO_OK) })"

section \<open>What is assumed of expat\<close>

text \<open>
  expat accepts the text of a stanza and delivers its start tags with the attributes in their order,
  its texts in one piece each, and its end tags.
\<close>

definition expat_delivers :: "expat \<Rightarrow> xmpp_stanza \<Rightarrow> bool" where
  "expat_delivers expat s \<longleftrightarrow> (case xmpp_stanza_to_text s of Inl _ \<Rightarrow> False | Inr buf \<Rightarrow> expat buf = (sax_events s, True))"

lemma mio_xml_parse_delivers:
  "expat_delivers expat s \<Longrightarrow> mio_xml_parse expat (Some s) xd start =
     map_option (\<lambda>xd'. (MIO_OK, xd')) (xml_run start xd (sax_events s))"
  by (auto simp: expat_delivers_def mio_xml_parse_def split: sum.splits Option.bind_splits)

text \<open>Such an expat exists for every stanza that can be printed.\<close>

definition printable :: "xmpp_stanza \<Rightarrow> bool" where
  "printable s \<longleftrightarrow> stanza_text s \<noteq> None"

lemma expat_delivers_const: "printable s \<Longrightarrow> expat_delivers (\<lambda>_. (sax_events s, True)) s"
  by (auto simp: expat_delivers_def printable_def xmpp_stanza_to_text_eq)

lemma those_None: "those xs = None \<longleftrightarrow> None \<in> set xs"
  by (induction xs) (auto split: option.splits)

lemma printable_tag:
  "st_type s = XMPP_STANZA_TAG \<Longrightarrow> st_data s \<noteq> None \<Longrightarrow> list_all printable (st_children s) \<Longrightarrow> printable s"
proof (cases s)
  case (Stanza ty d a cs)
  assume "st_type s = XMPP_STANZA_TAG" "st_data s \<noteq> None" "list_all printable (st_children s)"
  moreover from this Stanza have "None \<notin> set (map stanza_text cs)" by (auto simp: printable_def list_all_iff)
  then obtain ts where "those (map stanza_text cs) = Some ts" using those_None [of "map stanza_text cs"] by auto
  ultimately show ?thesis using Stanza by (auto simp: printable_def)
qed

lemma printable_tag_wf: "tag_wf s \<Longrightarrow> list_all printable (st_children s) \<Longrightarrow> printable s"
  by (rule printable_tag) (auto simp: tag_wf_def)

lemma printable_text [simp]: "printable (Stanza XMPP_STANZA_TEXT (Some t) a cs)"
  by (simp add: printable_def)

section \<open>What every handler keeps\<close>

text \<open>No callback touches the identifier of the response it fills.\<close>

definition xd_rid :: "xml_data \<Rightarrow> string" where
  "xd_rid xd = rsp_id (xd_response xd)"

lemma xd_rid_simps [simp]:
  "xd_rid (xd_set_packet p xd) = xd_rid xd" "xd_rid (xd_set_type t xd) = xd_rid xd"
  "xd_rid (xd\<lparr>xd_payload := py\<rparr>) = xd_rid xd" "xd_rid (xd\<lparr>xd_chars := ch\<rparr>) = xd_rid xd"
  "xd_rid (xd\<lparr>xd_prev_element_name := pn\<rparr>) = xd_rid xd" "xd_rid (xd\<lparr>xd_curr_element_name := cn\<rparr>) = xd_rid xd"
  "xd_rid (xml_data_new r chars) = rsp_id r"
  by (simp_all add: xd_rid_def xd_set_packet_def xd_set_type_def xml_data_new_def)

lemma xd_rid_error [simp]: "xd_rid (xd_error attr xd) = xd_rid xd"
  by (auto simp: xd_rid_def xd_error_def mio_XML_error_handler_def split: prod.splits)

lemma xd_rid_start: "xml_data_update_start_element xd n = Some xd' \<Longrightarrow> xd_rid xd' = xd_rid xd"
  by (auto simp: xml_data_update_start_element_def xd_rid_def Let_def split: if_splits)

lemma xd_rid_end: "xml_data_update_end_element xd = Some xd' \<Longrightarrow> xd_rid xd' = xd_rid xd"
  by (auto simp: xml_data_update_end_element_def xd_rid_def split: if_splits list.splits)

lemma xd_rid_set_meta: "xd_set_meta m xd = Some xd' \<Longrightarrow> xd_rid xd' = xd_rid xd"
  by (auto simp: xd_set_meta_def split: Option.bind_splits)

lemma xd_rid_parents_field: "xd_rid (parents_field_loop xd attr) = xd_rid xd"
  by (induction xd attr rule: parents_field_loop.induct) auto

lemma xd_rid_chars: "xml_char_data xd s = Some xd' \<Longrightarrow> xd_rid xd' = xd_rid xd"
  by (auto simp: xml_char_data_def mio_XMLString_geoloc_def mio_XMLString_recurrence_def mio_XMLString_collection_query_def
      dest: xd_rid_set_meta split: xd_char_handler.splits Option.bind_splits if_splits xd_payload.splits mio_response_body.splits)

lemmas xd_rid_dest = xd_rid_start xd_rid_set_meta

lemma xd_rid_starts:
  "mio_XMLstart_subscribe xd n at = Some xd' \<Longrightarrow> xd_rid xd' = xd_rid xd"
  "mio_XMLstart_error xd n at = Some xd' \<Longrightarrow> xd_rid xd' = xd_rid xd"
  "mio_XMLstart_subscriptions_query xd n at = Some xd' \<Longrightarrow> xd_rid xd' = xd_rid xd"
  "mio_XMLstart_acl_affiliations_query xd n at = Some xd' \<Longrightarrow> xd_rid xd' = xd_rid xd"
  "mio_XMLstart_collection_children_query xd n at = Some xd' \<Longrightarrow> xd_rid xd' = xd_rid xd"
  "mio_XMLstart_collection_parents_query xd n at = Some xd' \<Longrightarrow> xd_rid xd' = xd_rid xd"
  "mio_XMLstart_pubsub_data_receive xd n at = Some xd' \<Longrightarrow> xd_rid xd' = xd_rid xd"
  "mio_XMLstart_node_type_query xd n at = Some xd' \<Longrightarrow> xd_rid xd' = xd_rid xd"
  "mio_XMLstart_schedule_query xd n at = Some xd' \<Longrightarrow> xd_rid xd' = xd_rid xd"
  "mio_XMLstart_references_query xd n at = Some xd' \<Longrightarrow> xd_rid xd' = xd_rid xd"
  by (auto simp: mio_XMLstart_subscribe_def mio_XMLstart_error_def mio_XMLstart_subscriptions_query_def
      mio_XMLstart_acl_affiliations_query_def mio_XMLstart_collection_children_query_def
      mio_XMLstart_collection_parents_query_def mio_XMLstart_pubsub_data_receive_def mio_XMLstart_node_type_query_def
      mio_XMLstart_schedule_query_def mio_XMLstart_references_query_def xd_rid_parents_field Let_def
      dest!: xd_rid_dest split: Option.bind_splits if_splits option.splits xd_payload.splits)

lemma xd_rid_meta: "mio_XMLstart_pubsub_meta_receive xd n at = Some xd' \<Longrightarrow> xd_rid xd' = xd_rid xd"
  by (auto simp: mio_XMLstart_pubsub_meta_receive_def Let_def
      dest!: xd_rid_dest split: Option.bind_splits if_splits option.splits xd_payload.splits list.splits)

lemma xd_rid_run:
  assumes "\<And>xd n at xd'. start xd n at = Some xd' \<Longrightarrow> xd_rid xd' = xd_rid xd"
  shows "xml_run start xd es = Some xd' \<Longrightarrow> xd_rid xd' = xd_rid xd"
proof (induction es arbitrary: xd)
  case (Cons e es)
  then show ?case
    by (cases e) (auto dest!: assms xd_rid_end xd_rid_chars split: Option.bind_splits)
qed simp

definition keeps_rid :: "xml_start \<Rightarrow> bool" where
  "keeps_rid start \<longleftrightarrow> (\<forall>xd n at xd'. start xd n at = Some xd' \<longrightarrow> xd_rid xd' = xd_rid xd)"

lemma keeps_rid_starts [simp]:
  "keeps_rid mio_XMLstart_subscribe" "keeps_rid mio_XMLstart_error" "keeps_rid mio_XMLstart_subscriptions_query"
  "keeps_rid mio_XMLstart_acl_affiliations_query" "keeps_rid mio_XMLstart_collection_children_query"
  "keeps_rid mio_XMLstart_collection_parents_query" "keeps_rid mio_XMLstart_pubsub_data_receive"
  "keeps_rid mio_XMLstart_node_type_query" "keeps_rid mio_XMLstart_schedule_query" "keeps_rid mio_XMLstart_references_query"
  "keeps_rid mio_XMLstart_pubsub_meta_receive"
  unfolding keeps_rid_def using xd_rid_starts xd_rid_meta by blast+

lemma xd_rid_parse:
  assumes "mio_xml_parse expat (Some s) xd start = Some (err, xd')" "keeps_rid start"
  shows "xd_rid xd' = xd_rid xd"
proof -
  have "xml_run start xd es = Some xd' \<Longrightarrow> xd_rid xd' = xd_rid xd" for es
    by (rule xd_rid_run) (use assms(2) in \<open>auto simp: keeps_rid_def\<close>)
  then show ?thesis using assms(1) by (auto simp: mio_xml_parse_def split: sum.splits prod.splits Option.bind_splits)
qed

lemma handler_packet_parse_rid:
  assumes "handler_packet_parse expat stanza r packet start chars = Some (err, r')" "keeps_rid start"
  shows "rsp_id r' = rsp_id r"
  using assms(1) xd_rid_parse [OF _ assms(2)]
  by (fastforce simp: handler_packet_parse_def xd_rid_def xml_data_new_def split: Option.bind_splits)

text \<open>
  What all reply handlers have in common: they keep the identifier of the response, and they signal the request
  exactly when they return MIO_OK, which they do only if the request is in the table.
\<close>

definition well_behaved :: "mio_handler \<Rightarrow> bool" where
  "well_behaved hf \<longleftrightarrow> (\<forall>expat found stanza r err r' sg. hf expat found stanza r = Some (err, r', sg) \<longrightarrow>
     rsp_id r' = rsp_id r \<and> (sg \<longleftrightarrow> err = MIO_OK) \<and> (sg \<longrightarrow> found))"

lemma not_found_not_ok [simp]: "MIO_ERROR_REQUEST_NOT_FOUND \<noteq> MIO_OK"
  by (simp add: MIO_ERROR_REQUEST_NOT_FOUND_def MIO_OK_def)

lemma collection_packet_type_id [simp]: "rsp_id (collection_packet_type r) = rsp_id r"
  by (simp add: collection_packet_type_def)

lemma well_behaved_parse:
  "well_behaved mio_handler_subscribe" "well_behaved mio_handler_error"
  by (auto simp: well_behaved_def mio_handler_subscribe_def mio_handler_error_def xd_rid_def xml_data_new_def Let_def
      dest!: xd_rid_parse split: if_splits Option.bind_splits)

lemma well_behaved_packet:
  "well_behaved mio_handler_subscriptions_query" "well_behaved mio_handler_acl_affiliations_query"
  "well_behaved mio_handler_collection_children_query" "well_behaved mio_handler_collection_parents_query"
  "well_behaved mio_handler_meta_query" "well_behaved mio_handler_node_type_query"
  "well_behaved mio_handler_item_recent_get" "well_behaved mio_handler_schedule_query"
  "well_behaved mio_handler_references_query"
  by (auto simp: well_behaved_def mio_handler_subscriptions_query_def mio_handler_acl_affiliations_query_def
      mio_handler_collection_children_query_def mio_handler_collection_parents_query_def mio_handler_meta_query_def
      mio_handler_node_type_query_def mio_handler_item_recent_get_def mio_handler_schedule_query_def mio_handler_references_query_def
      dest!: handler_packet_parse_rid split: if_splits Option.bind_splits)

end
