(* ===== verification/Strophe_Handler.thy ===== *)
theory Strophe_Handler
  imports Strophe_Stanza
begin

text \<open>
  The callbacks libstrophe keeps per connection (\<^verbatim>\<open>src/libs/c/libstrophe/src/handler.c\<close>): handlers for the
  reply to one identifier, handlers for stanzas by namespace, name and type, and timed handlers. A handler
  is a function pointer, here a value of the type \<open>'h\<close> that is only compared, with a user pointer of type
  \<open>'u\<close>. Calling one is the argument \<open>call\<close>: it acts on the rest of the connection (type \<open>'s\<close>) and tells
  whether the handler stays. Handlers that add or delete handlers while a stanza is delivered are outside
  the model; libMIO has none. The table of identifier handlers maps an identifier to its chain, [] being NULL.

  Shown: a function is registered at most once, and registering it again has no effect; a delivery calls
  every matching handler once, in order, and drops exactly those that answer 0; invariants of the callbacks
  are invariants of the delivery.
\<close>

section \<open>Data\<close>

record ('h, 'u) xmpp_handlist =
  hl_user_handler :: bool
  hl_handler :: 'h
  hl_userdata :: 'u
  hl_enabled :: bool
  hl_period :: "64 word"
  hl_last_stamp :: "64 word"
  hl_id :: string
  hl_ns :: cptr
  hl_name :: cptr
  hl_type :: cptr

definition handlist_item :: "bool \<Rightarrow> 'h \<Rightarrow> 'u \<Rightarrow> ('h, 'u) xmpp_handlist" where
  "handlist_item user h u = \<lparr>hl_user_handler = user, hl_handler = h, hl_userdata = u, hl_enabled = False,
     hl_period = 0, hl_last_stamp = 0, hl_id = [], hl_ns = None, hl_name = None, hl_type = None\<rparr>"

section \<open>Registration\<close>

text \<open>The search every registration starts with.\<close>

definition handler_registered :: "'h \<Rightarrow> ('h, 'u) xmpp_handlist list \<Rightarrow> bool" where
  "handler_registered h items = list_ex (\<lambda>item. hl_handler item = h) items"

text \<open>Unlinking the first item with that function.\<close>

fun handler_unlink :: "'h \<Rightarrow> ('h, 'u) xmpp_handlist list \<Rightarrow> ('h, 'u) xmpp_handlist list" where
  "handler_unlink h [] = []"
| "handler_unlink h (item # next) = (if hl_handler item = h then next else item # handler_unlink h next)"

definition timed_handler_add :: "('h, 'u) xmpp_handlist list \<Rightarrow> 'h \<Rightarrow> 64 word \<Rightarrow> 'u \<Rightarrow> bool \<Rightarrow> 64 word
    \<Rightarrow> ('h, 'u) xmpp_handlist list" where
  "timed_handler_add timed h period u user now =
     (if handler_registered h timed then timed
      else timed @ [(handlist_item user h u)\<lparr>hl_period := period, hl_last_stamp := now\<rparr>])"

definition xmpp_timed_handler_delete :: "('h, 'u) xmpp_handlist list \<Rightarrow> 'h \<Rightarrow> ('h, 'u) xmpp_handlist list" where
  "xmpp_timed_handler_delete timed h = handler_unlink h timed"

type_synonym ('h, 'u) id_handlers = "string \<Rightarrow> ('h, 'u) xmpp_handlist list"

definition id_handler_add :: "('h, 'u) id_handlers \<Rightarrow> 'h \<Rightarrow> string \<Rightarrow> 'u \<Rightarrow> bool \<Rightarrow> ('h, 'u) id_handlers" where
  "id_handler_add ids h i u user =
     (if handler_registered h (ids i) then ids
      else ids(i := ids i @ [(handlist_item user h u)\<lparr>hl_id := i\<rparr>]))"

definition xmpp_id_handler_delete :: "('h, 'u) id_handlers \<Rightarrow> 'h \<Rightarrow> string \<Rightarrow> ('h, 'u) id_handlers" where
  "xmpp_id_handler_delete ids h i = ids(i := handler_unlink h (ids i))"

definition handler_add :: "('h, 'u) xmpp_handlist list \<Rightarrow> 'h \<Rightarrow> cptr \<Rightarrow> cptr \<Rightarrow> cptr \<Rightarrow> 'u \<Rightarrow> bool
    \<Rightarrow> ('h, 'u) xmpp_handlist list" where
  "handler_add handlers h ns name type u user =
     (if handler_registered h handlers then handlers
      else handlers @ [(handlist_item user h u)\<lparr>hl_ns := ns, hl_name := name, hl_type := type\<rparr>])"

definition xmpp_handler_delete :: "('h, 'u) xmpp_handlist list \<Rightarrow> 'h \<Rightarrow> ('h, 'u) xmpp_handlist list" where
  "xmpp_handler_delete handlers h = handler_unlink h handlers"

definition xmpp_timed_handler_add :: "('h, 'u) xmpp_handlist list \<Rightarrow> 'h \<Rightarrow> 64 word \<Rightarrow> 'u \<Rightarrow> 64 word
    \<Rightarrow> ('h, 'u) xmpp_handlist list" where
  "xmpp_timed_handler_add timed h period u now = timed_handler_add timed h period u True now"

definition xmpp_id_handler_add :: "('h, 'u) id_handlers \<Rightarrow> 'h \<Rightarrow> string \<Rightarrow> 'u \<Rightarrow> ('h, 'u) id_handlers" where
  "xmpp_id_handler_add ids h i u = id_handler_add ids h i u True"

definition xmpp_handler_add :: "('h, 'u) xmpp_handlist list \<Rightarrow> 'h \<Rightarrow> cptr \<Rightarrow> cptr \<Rightarrow> cptr \<Rightarrow> 'u
    \<Rightarrow> ('h, 'u) xmpp_handlist list" where
  "xmpp_handler_add handlers h ns name type u = handler_add handlers h ns name type u True"

section \<open>Delivery\<close>

text \<open>
  The chain of an identifier. \<open>prevs\<close> is the chain up to and with \<open>prev\<close>, \<open>skipped\<close> the items passed over
  since, because they wait for the authentication: \<open>prev\<close> is not moved over them, so unlinking a later item
  unlinks them too.
\<close>

fun fire_id_loop :: "('s \<Rightarrow> bool) \<Rightarrow> (('h, 'u) xmpp_handlist \<Rightarrow> 's \<Rightarrow> (bool \<times> 's) option) \<Rightarrow>
    ('h, 'u) xmpp_handlist list \<Rightarrow> ('h, 'u) xmpp_handlist list \<Rightarrow> ('h, 'u) xmpp_handlist list \<Rightarrow> 's \<Rightarrow>
    (('h, 'u) xmpp_handlist list \<times> 's) option" where
  "fire_id_loop auth call prevs skipped [] s = Some (prevs @ skipped, s)"
| "fire_id_loop auth call prevs skipped (item # next) s =
     (if hl_user_handler item \<and> \<not> auth s then fire_id_loop auth call prevs (skipped @ [item]) next s
      else do {
        (keep, s') \<leftarrow> call item s;
        if keep then fire_id_loop auth call (prevs @ skipped @ [item]) [] next s'
        else fire_id_loop auth call prevs [] next s' })"

text \<open>Whether a handler wants the stanza: \<open>NULL\<close> matches everything, and the namespace may be a child's.\<close>

definition handler_matches :: "('h, 'u) xmpp_handlist \<Rightarrow> xmpp_stanza \<Rightarrow> bool option" where
  "handler_matches item stanza = do {
     ns \<leftarrow> xmpp_stanza_get_ns stanza;
     let name = xmpp_stanza_get_name stanza;
     type \<leftarrow> xmpp_stanza_get_type stanza;
     ns_ok \<leftarrow> (case hl_ns item of
        None \<Rightarrow> Some True
      | Some n \<Rightarrow> if ns = Some n then Some True
                  else do { c \<leftarrow> xmpp_stanza_get_child_by_ns stanza n; Some (c \<noteq> None) });
     Some (ns_ok \<and> (hl_name item = None \<or> name \<noteq> None \<and> name = hl_name item) \<and>
           (hl_type item = None \<or> type \<noteq> None \<and> type = hl_type item)) }"

fun fire_loop :: "('s \<Rightarrow> bool) \<Rightarrow> (('h, 'u) xmpp_handlist \<Rightarrow> 's \<Rightarrow> (bool \<times> 's) option) \<Rightarrow> xmpp_stanza \<Rightarrow>
    ('h, 'u) xmpp_handlist list \<Rightarrow> ('h, 'u) xmpp_handlist list \<Rightarrow> 's \<Rightarrow> (('h, 'u) xmpp_handlist list \<times> 's) option" where
  "fire_loop auth call stanza prevs [] s = Some (prevs, s)"
| "fire_loop auth call stanza prevs (item # next) s =
     (if \<not> hl_enabled item \<or> hl_user_handler item \<and> \<not> auth s then fire_loop auth call stanza (prevs @ [item]) next s
      else do {
        m \<leftarrow> handler_matches item stanza;
        if m then do {
          (keep, s') \<leftarrow> call item s;
          fire_loop auth call stanza (if keep then prevs @ [item] else prevs) next s' }
        else fire_loop auth call stanza (prevs @ [item]) next s })"

definition handlers_enable :: "('h, 'u) xmpp_handlist list \<Rightarrow> ('h, 'u) xmpp_handlist list" where
  "handlers_enable items = map (\<lambda>item. item\<lparr>hl_enabled := True\<rparr>) items"

definition handler_fire_stanza :: "('s \<Rightarrow> bool) \<Rightarrow> (('h, 'u) xmpp_handlist \<Rightarrow> 's \<Rightarrow> (bool \<times> 's) option) \<Rightarrow> xmpp_stanza \<Rightarrow>
    ('h, 'u) id_handlers \<Rightarrow> ('h, 'u) xmpp_handlist list \<Rightarrow> 's \<Rightarrow>
    (('h, 'u) id_handlers \<times> ('h, 'u) xmpp_handlist list \<times> 's) option" where
  "handler_fire_stanza auth call stanza ids handlers s = do {
     stanza_id \<leftarrow> xmpp_stanza_get_id stanza;
     (ids', s') \<leftarrow> (case stanza_id of
        None \<Rightarrow> Some (ids, s)
      | Some i \<Rightarrow> do { (chain, s') \<leftarrow> fire_id_loop auth call [] [] (ids i) s; Some (ids(i := chain), s') });
     (handlers', s'') \<leftarrow> fire_loop auth call stanza [] (handlers_enable handlers) s';
     Some (ids', handlers', s'') }"

text \<open>
  One connection's share of \<open>handler_fire_timed\<close>. \<open>clock k\<close> is what the \<open>k\<close>-th call of \<open>time_stamp\<close> returns;
  the loop carries the number of calls so far. A handler that answers 0 is deleted by its function: the first
  item with that function goes, before or at the item that fired.
\<close>

fun fire_timed_loop :: "('s \<Rightarrow> bool) \<Rightarrow> (('h, 'u) xmpp_handlist \<Rightarrow> 's \<Rightarrow> (bool \<times> 's) option) \<Rightarrow> (nat \<Rightarrow> 64 word) \<Rightarrow> nat \<Rightarrow>
    64 word \<Rightarrow> ('h, 'u) xmpp_handlist list \<Rightarrow> ('h, 'u) xmpp_handlist list \<Rightarrow> 's \<Rightarrow>
    (64 word \<times> ('h, 'u) xmpp_handlist list \<times> 's) option" where
  "fire_timed_loop auth call clock k min_left passed [] s = Some (min_left, passed, s)"
| "fire_timed_loop auth call clock k min_left passed (item # next) s =
     (if \<not> hl_enabled item \<or> hl_user_handler item \<and> \<not> auth s
      then fire_timed_loop auth call clock k min_left (passed @ [item]) next s
      else let elapsed = clock k - hl_last_stamp item in
        if elapsed \<ge> hl_period item then do {
          let item' = item\<lparr>hl_last_stamp := clock (k + 1)\<rparr>;
          (keep, s') \<leftarrow> call item' s;
          fire_timed_loop auth call clock (k + 2) min_left
            (if keep then passed @ [item'] else xmpp_timed_handler_delete (passed @ [item']) (hl_handler item)) next s' }
        else fire_timed_loop auth call clock (k + 1) (min min_left (hl_period item - elapsed)) (passed @ [item]) next s)"

definition handler_fire_timed :: "('s \<Rightarrow> bool) \<Rightarrow> (('h, 'u) xmpp_handlist \<Rightarrow> 's \<Rightarrow> (bool \<times> 's) option) \<Rightarrow> (nat \<Rightarrow> 64 word) \<Rightarrow>
    bool \<Rightarrow> ('h, 'u) xmpp_handlist list \<Rightarrow> 's \<Rightarrow> (64 word \<times> ('h, 'u) xmpp_handlist list \<times> 's) option" where
  "handler_fire_timed auth call clock connected timed s =
     (if connected then fire_timed_loop auth call clock 0 (- 1) [] (handlers_enable timed) s else Some (- 1, timed, s))"

fun handler_reset_timed :: "(nat \<Rightarrow> 64 word) \<Rightarrow> nat \<Rightarrow> bool \<Rightarrow> ('h, 'u) xmpp_handlist list \<Rightarrow> ('h, 'u) xmpp_handlist list" where
  "handler_reset_timed clock k user_only [] = []"
| "handler_reset_timed clock k user_only (item # next) =
     (if user_only \<and> hl_user_handler item \<or> \<not> user_only
      then item\<lparr>hl_last_stamp := clock k\<rparr> # handler_reset_timed clock (k + 1) user_only next
      else item # handler_reset_timed clock k user_only next)"

section \<open>Registration keeps the functions distinct\<close>

definition handlers_distinct :: "('h, 'u) xmpp_handlist list \<Rightarrow> bool" where
  "handlers_distinct items = distinct (map hl_handler items)"

lemma handler_registered_iff: "handler_registered h items \<longleftrightarrow> h \<in> hl_handler ` set items"
  by (auto simp: handler_registered_def list_ex_iff)

lemma handler_unlink_distinct:
  "handlers_distinct items \<Longrightarrow> handler_unlink h items = filter (\<lambda>item. hl_handler item \<noteq> h) items"
proof (induction items)
  case (Cons item items)
  then have "hl_handler item \<notin> hl_handler ` set items" by (simp add: handlers_distinct_def)
  then have "hl_handler x \<noteq> hl_handler item" if "x \<in> set items" for x using that imageI [of x "set items" hl_handler] by metis
  then have "filter (\<lambda>x. hl_handler x \<noteq> hl_handler item) items = items" by (intro filter_True ballI)
  with Cons show ?case by (auto simp: handlers_distinct_def)
qed simp

lemma handlers_distinct_unlink: "handlers_distinct items \<Longrightarrow> handlers_distinct (handler_unlink h items)"
  by (simp add: handler_unlink_distinct) (simp add: handlers_distinct_def distinct_map_filter)

lemma handlers_distinct_snoc:
  "handlers_distinct items \<Longrightarrow> \<not> handler_registered (hl_handler item) items \<Longrightarrow> handlers_distinct (items @ [item])"
  by (auto simp: handlers_distinct_def handler_registered_iff)

lemma handler_add_distinct: "handlers_distinct hs \<Longrightarrow> handlers_distinct (handler_add hs h ns name type u user)"
  by (auto simp: handler_add_def handlist_item_def intro!: handlers_distinct_snoc)

lemma id_handler_add_distinct:
  "handlers_distinct (ids j) \<Longrightarrow> handlers_distinct (id_handler_add ids h i u user j)"
  by (auto simp: id_handler_add_def handlist_item_def intro!: handlers_distinct_snoc)

lemma timed_handler_add_distinct:
  "handlers_distinct hs \<Longrightarrow> handlers_distinct (timed_handler_add hs h period u user now)"
  by (auto simp: timed_handler_add_def handlist_item_def intro!: handlers_distinct_snoc)

section \<open>Deliveries\<close>

text \<open>
  The interface of a callback: called with user data of a good kind, it keeps an invariant of the connection.
  Then so does every delivery and every round of timed handlers over such user data.
\<close>

locale callbacks =
  fixes auth :: "'s \<Rightarrow> bool"
    and call :: "('h, 'u) xmpp_handlist \<Rightarrow> 's \<Rightarrow> (bool \<times> 's) option"
    and invar :: "'s \<Rightarrow> bool"
    and good :: "'u \<Rightarrow> bool"
  assumes call_invar: "invar s \<Longrightarrow> good (hl_userdata item) \<Longrightarrow> call item s = Some (keep, s') \<Longrightarrow> invar s'"
begin

definition all_good :: "('h, 'u) xmpp_handlist list \<Rightarrow> bool" where
  "all_good items = list_all (\<lambda>item. good (hl_userdata item)) items"

lemma all_good_simps [simp]:
  "all_good []" "all_good (item # items) \<longleftrightarrow> good (hl_userdata item) \<and> all_good items"
  "all_good (handlers_enable items) = all_good items"
  by (simp_all add: all_good_def handlers_enable_def list_all_iff)

lemma fire_id_invar:
  "fire_id_loop auth call prevs skipped items s = Some (chain, s') \<Longrightarrow> all_good items \<Longrightarrow> invar s \<Longrightarrow> invar s'"
  by (induction items arbitrary: prevs skipped s) (auto split: if_splits Option.bind_splits dest: call_invar)

lemma fire_invar: "fire_loop auth call stanza prevs items s = Some (hs, s') \<Longrightarrow> all_good items \<Longrightarrow> invar s \<Longrightarrow> invar s'"
  by (induction items arbitrary: prevs s) (auto split: if_splits Option.bind_splits dest: call_invar)

lemma fire_timed_invar:
  "fire_timed_loop auth call clock k m passed items s = Some (m', hs, s') \<Longrightarrow> all_good items \<Longrightarrow> invar s \<Longrightarrow> invar s'"
proof (induction items arbitrary: k m passed s)
  case (Cons item items)
  have "invar s1" if "call (item\<lparr>hl_last_stamp := n\<rparr>) s = Some (keep, s1)" for n keep s1
    using call_invar [OF Cons.prems(3) _ that] Cons.prems(2) by simp
  with Cons show ?case by (auto simp: Let_def split: if_splits Option.bind_splits)
qed simp

lemma fire_stanza_invar:
  "handler_fire_stanza auth call stanza ids hs s = Some (ids', hs', s') \<Longrightarrow>
   (\<And>i. xmpp_stanza_get_id stanza = Some (Some i) \<Longrightarrow> all_good (ids i)) \<Longrightarrow> all_good hs \<Longrightarrow> invar s \<Longrightarrow> invar s'"
  by (auto simp: handler_fire_stanza_def split: Option.bind_splits option.splits intro: fire_invar [OF _ _ fire_id_invar] fire_invar)

end

text \<open>What a delivery to a chain should be: every handler is called once, in order, and those that answer 0 go.\<close>

fun call_all :: "('i \<Rightarrow> 's \<Rightarrow> (bool \<times> 's) option) \<Rightarrow> 'i list \<Rightarrow> 's \<Rightarrow> ('i list \<times> 's) option" where
  "call_all call [] s = Some ([], s)"
| "call_all call (item # next) s = do {
     (keep, s') \<leftarrow> call item s;
     (kept, s'') \<leftarrow> call_all call next s';
     Some (if keep then item # kept else kept, s'') }"

lemma fire_id_loop_eq:
  assumes "\<And>s. auth s"
  shows "fire_id_loop auth call prevs [] items s = map_option (\<lambda>(kept, s'). (prevs @ kept, s')) (call_all call items s)"
proof (induction items arbitrary: prevs s)
  case (Cons item items)
  then show ?case
    by (cases "call item s") (auto simp: assms map_conv_bind_option split: Option.bind_splits)
qed simp

lemma fire_loop_eq:
  assumes "\<And>s. auth s" "list_all hl_enabled items" "list_all (\<lambda>item. handler_matches item stanza \<noteq> None) items"
  shows "fire_loop auth call stanza prevs items s =
     map_option (\<lambda>(kept, s'). (prevs @ kept, s'))
       (call_all (\<lambda>item s. if the (handler_matches item stanza) then call item s else Some (True, s)) items s)"
  using assms(2,3)
proof (induction items arbitrary: prevs s)
  case (Cons item items)
  then obtain m where "handler_matches item stanza = Some m" by auto
  with Cons show ?case
    by (cases m; cases "call item s") (auto simp: assms map_conv_bind_option split: Option.bind_splits)
qed simp

lemma fire_id_loop_subset:
  "fire_id_loop auth call prevs skipped items s = Some (chain, s') \<Longrightarrow> set chain \<subseteq> set prevs \<union> set skipped \<union> set items"
proof (induction items arbitrary: prevs skipped s)
  case (Cons item items)
  show ?case
  proof (cases "hl_user_handler item \<and> \<not> auth s")
    case True
    with Cons.prems Cons.IH [of prevs "skipped @ [item]" s] show ?thesis by auto
  next
    case False
    with Cons.prems obtain keep s1 where "call item s = Some (keep, s1)"
      "fire_id_loop auth call (if keep then prevs @ skipped @ [item] else prevs) [] items s1 = Some (chain, s')"
      by (auto split: Option.bind_splits if_splits)
    with Cons.IH [of "if keep then prevs @ skipped @ [item] else prevs" "[]" s1] show ?thesis by (auto split: if_splits)
  qed
qed auto

lemma fire_loop_subset:
  "fire_loop auth call stanza prevs items s = Some (hs, s') \<Longrightarrow> set hs \<subseteq> set prevs \<union> set items"
proof (induction items arbitrary: prevs s)
  case (Cons item items)
  obtain prevs1 s1 where "fire_loop auth call stanza prevs1 items s1 = Some (hs, s')" "set prevs1 \<subseteq> set prevs \<union> {item}"
    using Cons.prems by (fastforce split: if_splits Option.bind_splits)
  with Cons.IH [of prevs1 s1] show ?case by auto
qed simp

section \<open>Properties\<close>


definition example_reply :: xmpp_stanza where
  "example_reply = put_attr (stanza_named ''iq'') ''id'' (Some ''7'')"


end
