(* ===== verification/Mio_Conn.thy ===== *)
theory Mio_Conn
  imports Mio_Handlers Strophe_Handler
begin

text \<open>
  The connection structure of libMIO (\<^verbatim>\<open>mio.c\<close>, \<^verbatim>\<open>mio_handlers.c\<close>): the queue of received publications, the table
  of open requests with its counting semaphore, the registration of handlers, sending, and the functions the
  event loop calls when a stanza arrives.

  A response that several parties point to is an address into the store \<open>cn_responses\<close>. A request lives in the
  request table; its condition variable has no memory: a signal wakes a waiting thread or is lost. The handler a
  request is registered with is named by a constructor of \<open>mio_handler_fn\<close>. \<open>cn_rwlock_ok\<close> and \<open>cn_mutex_ok\<close> say
  whether taking the table lock and the event loop mutex succeeds; memory allocation succeeds.

  Shown: the queue keeps the newest 100 responses in order (through the locale \<open>drop_oldest_queue\<close>); clearing a
  queue that is not empty is undefined; the request table is a finite map and the semaphore counts its free
  places as long as every request is registered; the last place is refused and its count is lost; a second
  stanza handler is never registered.
\<close>

section \<open>Data\<close>

datatype mio_handler_fn =
  H_error | H_subscribe | H_subscriptions_query | H_acl_affiliations_query | H_collection_children_query
| H_collection_parents_query | H_meta_query | H_node_type_query | H_item_recent_get | H_schedule_query
| H_references_query | H_pubsub_data_receive | H_keepalive

datatype generic_fn = G_generic | G_generic_id | G_generic_timed | G_disconnect_cleanup

datatype cond_state = Cond_idle | Cond_waiting | Cond_woken

record mio_request =
  rq_id :: string
  rq_cond :: cond_state
  rq_predicate :: bool
  rq_handler :: "mio_handler_fn option"
  rq_handler_type :: mio_handler_type
  rq_response :: "nat option"

record mio_handler_data =
  hd_handler :: "mio_handler_fn option"
  hd_response :: "nat option"
  hd_request :: "string option"

record mio_conn =
  cn_jid :: cptr
  cn_authenticated :: bool
  cn_connected :: bool
  cn_id_handlers :: "(generic_fn, mio_handler_data) id_handlers"
  cn_handlers :: "(generic_fn, mio_handler_data) xmpp_handlist list"
  cn_timed_handlers :: "(generic_fn, mio_handler_data) xmpp_handlist list"
  cn_send_queue :: "string list"
  cn_presence_status :: mio_presence_status
  cn_pubsub_rx_queue :: "mio_response list"
  cn_pubsub_rx_queue_len :: int
  cn_pubsub_rx_listening :: bool
  cn_open_requests :: int
  cn_request_table :: "mio_request list"
  cn_send_request_predicate :: bool
  cn_conn_mutex :: bool
  cn_conn_predicate :: bool
  cn_retries :: int
  cn_responses :: "nat \<Rightarrow> mio_response"
  cn_rwlock_ok :: bool
  cn_mutex_ok :: bool

definition MIO_MAX_OPEN_REQUESTS :: int where "MIO_MAX_OPEN_REQUESTS = 100"
definition MIO_PUBSUB_RX_QUEUE_MAX_LEN :: int where "MIO_PUBSUB_RX_QUEUE_MAX_LEN = 100"
definition MIO_ERROR_CONNECTION :: int where "MIO_ERROR_CONNECTION = -2"
definition MIO_ERROR_MUTEX :: int where "MIO_ERROR_MUTEX = -5"
definition MIO_ERROR_COND_WAIT :: int where "MIO_ERROR_COND_WAIT = -6"
definition MIO_ERROR_HANDLER_ADD :: int where "MIO_ERROR_HANDLER_ADD = -13"
definition MIO_ERROR_RW_LOCK :: int where "MIO_ERROR_RW_LOCK = -20"

text \<open>
  A new connection; the semaphore is created by \<open>mio_connect\<close>, the two locks work, and the store of responses
  is arbitrary.
\<close>

definition mio_conn_new :: mio_conn where
  "mio_conn_new = \<lparr>cn_jid = None, cn_authenticated = False, cn_connected = False, cn_id_handlers = (\<lambda>_. []),
     cn_handlers = [], cn_timed_handlers = [], cn_send_queue = [], cn_presence_status = MIO_PRESENCE_UNKNOWN,
     cn_pubsub_rx_queue = [], cn_pubsub_rx_queue_len = 0, cn_pubsub_rx_listening = False, cn_open_requests = 0,
     cn_request_table = [], cn_send_request_predicate = False, cn_conn_mutex = False, cn_conn_predicate = False,
     cn_retries = 0, cn_responses = (\<lambda>_. mio_response_new), cn_rwlock_ok = True, cn_mutex_ok = True\<rparr>"

section \<open>The queue of publications\<close>

text \<open>Removing the first entry of an empty queue is undefined.\<close>

definition mio_pubsub_rx_queue_enqueue :: "mio_conn \<Rightarrow> mio_response \<Rightarrow> mio_conn option" where
  "mio_pubsub_rx_queue_enqueue conn response =
     (if cn_pubsub_rx_queue_len conn \<ge> MIO_PUBSUB_RX_QUEUE_MAX_LEN then
        (case cn_pubsub_rx_queue conn of
           [] \<Rightarrow> None
         | temp # queue \<Rightarrow> Some (conn\<lparr>cn_pubsub_rx_queue := queue @ [response]\<rparr>))
      else Some (conn\<lparr>cn_pubsub_rx_queue := cn_pubsub_rx_queue conn @ [response],
             cn_pubsub_rx_queue_len := cn_pubsub_rx_queue_len conn + 1\<rparr>))"

definition mio_pubsub_rx_queue_dequeue :: "mio_conn \<Rightarrow> (mio_response option \<times> mio_conn) option" where
  "mio_pubsub_rx_queue_dequeue conn =
     (if cn_pubsub_rx_queue_len conn > 0 then
        (case cn_pubsub_rx_queue conn of
           [] \<Rightarrow> None
         | response # queue \<Rightarrow> Some (Some response, conn\<lparr>cn_pubsub_rx_queue := queue,
             cn_pubsub_rx_queue_len := cn_pubsub_rx_queue_len conn - 1\<rparr>))
      else Some (None, conn))"

text \<open>Freeing reads the structure; the memory itself is not modelled.\<close>

definition mio_response_free :: "mio_response option \<Rightarrow> unit option" where
  "mio_response_free response = map_option (\<lambda>_. ()) response"

text \<open>The loop of \<open>mio_pubsub_data_rx_queue_clear\<close>, entered with a response; the length bounds it.\<close>

function rx_queue_clear_loop :: "mio_conn \<Rightarrow> mio_conn option" where
  "rx_queue_clear_loop conn =
     (case mio_pubsub_rx_queue_dequeue conn of
        None \<Rightarrow> None
      | Some (response, conn') \<Rightarrow>
          (case mio_response_free response of
             None \<Rightarrow> None
           | Some _ \<Rightarrow> rx_queue_clear_loop conn'))"
  by pat_completeness auto

termination rx_queue_clear_loop
  by (relation "measure (\<lambda>c. nat (cn_pubsub_rx_queue_len c))")
    (auto simp: mio_pubsub_rx_queue_dequeue_def mio_response_free_def split: if_splits list.splits)

declare rx_queue_clear_loop.simps [simp del]

definition mio_pubsub_data_rx_queue_clear :: "mio_conn \<Rightarrow> mio_conn option" where
  "mio_pubsub_data_rx_queue_clear conn = do {
     (response, conn) \<leftarrow> mio_pubsub_rx_queue_dequeue conn;
     (case response of None \<Rightarrow> Some conn | Some _ \<Rightarrow> rx_queue_clear_loop conn) }"

section \<open>Requests\<close>

definition mio_request_new :: mio_request where
  "mio_request_new = \<lparr>rq_id = [], rq_cond = Cond_idle, rq_predicate = False, rq_handler = None,
     rq_handler_type = MIO_HANDLER, rq_response = None\<rparr>"

text \<open>\<open>HASH_FIND_STR\<close>, \<open>HASH_ADD_STR\<close> and \<open>HASH_DEL\<close> on the table; the key is the \<open>id\<close> field of the request.\<close>

definition request_find :: "mio_conn \<Rightarrow> string \<Rightarrow> mio_request option" where
  "request_find conn i = find (\<lambda>r. rq_id r = i) (cn_request_table conn)"

fun request_update_list :: "string \<Rightarrow> (mio_request \<Rightarrow> mio_request) \<Rightarrow> mio_request list \<Rightarrow> mio_request list" where
  "request_update_list i f [] = []"
| "request_update_list i f (r # rs) = (if rq_id r = i then f r # rs else r # request_update_list i f rs)"

definition request_update :: "string \<Rightarrow> (mio_request \<Rightarrow> mio_request) \<Rightarrow> mio_conn \<Rightarrow> mio_conn" where
  "request_update i f conn = conn\<lparr>cn_request_table := request_update_list i f (cn_request_table conn)\<rparr>"

fun request_remove_list :: "string \<Rightarrow> mio_request list \<Rightarrow> mio_request list" where
  "request_remove_list i [] = []"
| "request_remove_list i (r # rs) = (if rq_id r = i then rs else r # request_remove_list i rs)"

text \<open>
  Adding a request: refused when the semaphore shows no free place; left out of the table when the identifier
  is taken. The response gets the identifier unless it has one.
\<close>

definition mio_request_add :: "mio_conn \<Rightarrow> string \<Rightarrow> mio_handler_fn \<Rightarrow> mio_handler_type \<Rightarrow> nat option \<Rightarrow> mio_request
    \<Rightarrow> int \<times> mio_conn" where
  "mio_request_add conn i handler handler_type response request =
     (if cn_open_requests conn \<le> 0 then (MIO_ERROR_TOO_MANY_OPEN_REQUESTS, conn)
      else if \<not> cn_rwlock_ok conn then (MIO_ERROR_RW_LOCK, conn)
      else if request_find conn i = None then
        (let request = request\<lparr>rq_id := if rq_id request = [] then i else rq_id request, rq_handler := Some handler,
               rq_handler_type := handler_type, rq_response := response\<rparr>;
             conn = (case response of
                None \<Rightarrow> conn
              | Some a \<Rightarrow> let r = cn_responses conn a in
                  conn\<lparr>cn_responses := (cn_responses conn)(a := if rsp_id r = [] then r\<lparr>rsp_id := i\<rparr> else r)\<rparr>)
         in (MIO_OK, conn\<lparr>cn_request_table := cn_request_table conn @ [request]\<rparr>))
      else (MIO_OK, conn))"

definition mio_request_delete :: "mio_conn \<Rightarrow> string \<Rightarrow> int \<times> mio_conn" where
  "mio_request_delete conn i =
     (if \<not> cn_rwlock_ok conn then (MIO_ERROR_RW_LOCK, conn)
      else case request_find conn i of
        None \<Rightarrow> (MIO_ERROR_REQUEST_NOT_FOUND, conn)
      | Some r \<Rightarrow> (MIO_OK, conn\<lparr>cn_request_table := request_remove_list i (cn_request_table conn),
          cn_open_requests := cn_open_requests conn + 1\<rparr>))"

definition mio_request_get :: "mio_conn \<Rightarrow> string \<Rightarrow> mio_request option" where
  "mio_request_get conn i = (if cn_rwlock_ok conn then request_find conn i else None)"

definition mio_response_get :: "mio_conn \<Rightarrow> string \<Rightarrow> nat option" where
  "mio_response_get conn i = Option.bind (mio_request_get conn i) rq_response"

text \<open>\<open>_mio_cond_signal\<close> on a request: the predicate is set, and a waiting thread is woken.\<close>

definition request_signal :: "mio_request \<Rightarrow> mio_request" where
  "request_signal r = r\<lparr>rq_predicate := True, rq_cond := (if rq_cond r = Cond_waiting then Cond_woken else rq_cond r)\<rparr>"

definition mio_cond_signal :: "mio_conn \<Rightarrow> string \<Rightarrow> mio_conn" where
  "mio_cond_signal conn i = request_update i request_signal conn"

section \<open>Handlers\<close>

definition mio_handler_data_new :: mio_handler_data where
  "mio_handler_data_new = \<lparr>hd_handler = None, hd_response = None, hd_request = None\<rparr>"

text \<open>
  The trigger data is copied into the response. For a name the new buffer is stored in \<open>response->type\<close> and left
  uninitialised, and the name is copied to \<open>response->name\<close>, for which nothing was allocated: undefined.
\<close>

definition handler_trigger_copy :: "cptr \<Rightarrow> cptr \<Rightarrow> cptr \<Rightarrow> mio_response \<Rightarrow> mio_response option" where
  "handler_trigger_copy ns name type r =
     (let r = (if ns \<noteq> None then r\<lparr>rsp_ns := ns\<rparr> else r);
          r = (if type \<noteq> None then r\<lparr>rsp_type := type\<rparr> else r)
      in if name \<noteq> None then None else Some r)"

text \<open>The request's \<open>id\<close> is an array, so the test for NULL never makes it a new one.\<close>

definition mio_handler_add :: "mio_conn \<Rightarrow> mio_handler_fn \<Rightarrow> cptr \<Rightarrow> cptr \<Rightarrow> cptr \<Rightarrow> mio_request option \<Rightarrow> nat option
    \<Rightarrow> (int \<times> mio_conn) option" where
  "mio_handler_add conn handler ns name type request response =
     (if ns = None \<and> type = None \<and> name = None then Some (MIO_ERROR_HANDLER_ADD, conn)
      else do {
        conn \<leftarrow> (case response of
           None \<Rightarrow> Some conn
         | Some a \<Rightarrow> do { r \<leftarrow> handler_trigger_copy ns name type (cn_responses conn a);
                         Some (conn\<lparr>cn_responses := (cn_responses conn)(a := r)\<rparr>) });
        let (err, conn) = (case request of
           None \<Rightarrow> (MIO_OK, conn)
         | Some r \<Rightarrow> mio_request_add conn (rq_id r) handler MIO_HANDLER response r);
        Some (err, if err = MIO_OK then
            conn\<lparr>cn_handlers := xmpp_handler_add (cn_handlers conn) G_generic ns name type
              (mio_handler_data_new\<lparr>hd_handler := Some handler, hd_response := response\<rparr>)\<rparr>
          else conn) })"

text \<open>The identifier is copied into the response, which must not be NULL.\<close>

definition mio_handler_id_add :: "mio_conn \<Rightarrow> mio_handler_fn \<Rightarrow> string \<Rightarrow> mio_request \<Rightarrow> nat option \<Rightarrow> (int \<times> mio_conn) option" where
  "mio_handler_id_add conn handler i request response =
     (let request = request\<lparr>rq_id := i\<rparr>;
          (err, conn) = mio_request_add conn i handler MIO_HANDLER_ID response request
      in do {
        a \<leftarrow> response;
        let conn = conn\<lparr>cn_responses := (cn_responses conn)(a := (cn_responses conn a)\<lparr>rsp_id := i\<rparr>)\<rparr>;
        Some (err, if err = MIO_OK then
            conn\<lparr>cn_id_handlers := xmpp_id_handler_add (cn_id_handlers conn) G_generic_id i
              (mio_handler_data_new\<lparr>hd_handler := Some handler, hd_request := Some i, hd_response := response\<rparr>)\<rparr>
          else conn) })"

definition mio_handler_timed_add :: "mio_conn \<Rightarrow> mio_handler_fn \<Rightarrow> 64 word \<Rightarrow> 64 word \<Rightarrow> int \<times> mio_conn" where
  "mio_handler_timed_add conn handler period now =
     (MIO_OK, conn\<lparr>cn_timed_handlers := xmpp_timed_handler_add (cn_timed_handlers conn) G_generic_timed period
        (mio_handler_data_new\<lparr>hd_handler := Some handler\<rparr>) now\<rparr>)"

definition mio_handler_id_delete :: "mio_conn \<Rightarrow> string \<Rightarrow> mio_conn" where
  "mio_handler_id_delete conn i = conn\<lparr>cn_id_handlers := xmpp_id_handler_delete (cn_id_handlers conn) G_generic_id i\<rparr>"

section \<open>Sending\<close>

definition xmpp_send_raw :: "mio_conn \<Rightarrow> string \<Rightarrow> mio_conn" where
  "xmpp_send_raw conn data = (if cn_connected conn then conn\<lparr>cn_send_queue := cn_send_queue conn @ [data]\<rparr> else conn)"

definition xmpp_send :: "mio_conn \<Rightarrow> xmpp_stanza \<Rightarrow> mio_conn" where
  "xmpp_send conn stanza =
     (if cn_connected conn then
        (case xmpp_stanza_to_text stanza of Inl _ \<Rightarrow> conn | Inr buf \<Rightarrow> xmpp_send_raw conn buf)
      else conn)"

definition mio_send_nonblocking :: "mio_conn \<Rightarrow> xmpp_stanza \<Rightarrow> int \<times> mio_conn" where
  "mio_send_nonblocking conn stanza = (case xmpp_stanza_to_text stanza of
     Inl _ \<Rightarrow> (MIO_OK, conn)
   | Inr buf \<Rightarrow>
       if \<not> cn_authenticated conn then (MIO_ERROR_CONNECTION, conn)
       else if \<not> cn_mutex_ok conn then (MIO_ERROR_MUTEX, conn)
       else (MIO_OK, (xmpp_send_raw conn buf)\<lparr>cn_send_request_predicate := True\<rparr>))"

section \<open>The queue: the newest responses in order\<close>

text \<open>
  The interface of a queue of bounded capacity that drops its oldest entry. After any sequence of arrivals it
  holds the newest entries in the order of arrival, and taking them out one by one gives them in that order.
\<close>

locale drop_oldest_queue =
  fixes enq :: "'c \<Rightarrow> 'r \<Rightarrow> 'c option"
    and deq :: "'c \<Rightarrow> ('r option \<times> 'c) option"
    and items :: "'c \<Rightarrow> 'r list"
    and invar :: "'c \<Rightarrow> bool"
    and cap :: nat
  assumes cap_pos: "0 < cap"
    and invar_len: "invar c \<Longrightarrow> length (items c) \<le> cap"
    and enq_ok: "invar c \<Longrightarrow> \<exists>c'. enq c r = Some c' \<and> invar c' \<and>
      items c' = (if length (items c) = cap then tl (items c) else items c) @ [r]"
    and deq_empty: "invar c \<Longrightarrow> items c = [] \<Longrightarrow> deq c = Some (None, c)"
    and deq_head: "invar c \<Longrightarrow> items c = r # rs \<Longrightarrow> \<exists>c'. deq c = Some (Some r, c') \<and> invar c' \<and> items c' = rs"
begin

primrec enq_all :: "'c \<Rightarrow> 'r list \<Rightarrow> 'c option" where
  "enq_all c [] = Some c"
| "enq_all c (r # rs) = do { c' \<leftarrow> enq c r; enq_all c' rs }"

primrec deq_n :: "nat \<Rightarrow> 'c \<Rightarrow> ('r option list \<times> 'c) option" where
  "deq_n 0 c = Some ([], c)"
| "deq_n (Suc n) c = do { (r, c') \<leftarrow> deq c; (rs, c'') \<leftarrow> deq_n n c'; Some (r # rs, c'') }"

definition newest :: "'r list \<Rightarrow> 'r list" where
  "newest rs = drop (length rs - cap) rs"

lemma newest_snoc:
  "length xs \<le> cap \<Longrightarrow> newest ((if length xs = cap then tl xs else xs) @ r # rs) = newest (xs @ r # rs)"
proof (cases "length xs = cap")
  case True
  then obtain a ys where "xs = a # ys" using cap_pos by (cases xs) auto
  with True show ?thesis by (simp add: newest_def Suc_diff_le del: drop_append)
qed simp

lemma enq_all_items:
  "invar c \<Longrightarrow> \<exists>c'. enq_all c rs = Some c' \<and> invar c' \<and> items c' = newest (items c @ rs)"
proof (induction rs arbitrary: c)
  case Nil
  then show ?case using invar_len [OF Nil] by (simp add: newest_def)
next
  case (Cons r rs)
  obtain c1 where 1: "enq c r = Some c1" "invar c1" "items c1 = (if length (items c) = cap then tl (items c) else items c) @ [r]"
    using enq_ok [OF Cons.prems] by blast
  from Cons.IH [OF 1(2)] 1(1,3) newest_snoc [OF invar_len [OF Cons.prems], of r rs] show ?case by auto
qed

lemma deq_n_items:
  "invar c \<Longrightarrow> \<exists>c'. deq_n (length (items c)) c = Some (map Some (items c), c') \<and> invar c' \<and> items c' = []"
proof (induction "items c" arbitrary: c)
  case (Cons r rs)
  obtain c1 where 1: "deq c = Some (Some r, c1)" "invar c1" "items c1 = rs"
    using deq_head [OF Cons.prems Cons.hyps(2) [symmetric]] by blast
  from Cons.hyps(1) [OF 1(3) [symmetric] 1(2)] 1 Cons.hyps(2) [symmetric] show ?case by auto
qed simp

end

definition rx_queue_ok :: "mio_conn \<Rightarrow> bool" where
  "rx_queue_ok conn \<longleftrightarrow> cn_pubsub_rx_queue_len conn = int (length (cn_pubsub_rx_queue conn)) \<and>
     length (cn_pubsub_rx_queue conn) \<le> nat MIO_PUBSUB_RX_QUEUE_MAX_LEN"

interpretation rx: drop_oldest_queue mio_pubsub_rx_queue_enqueue mio_pubsub_rx_queue_dequeue cn_pubsub_rx_queue rx_queue_ok
  "nat MIO_PUBSUB_RX_QUEUE_MAX_LEN"
proof unfold_locales
  show "0 < nat MIO_PUBSUB_RX_QUEUE_MAX_LEN" by (simp add: MIO_PUBSUB_RX_QUEUE_MAX_LEN_def)
  show "length (cn_pubsub_rx_queue c) \<le> nat MIO_PUBSUB_RX_QUEUE_MAX_LEN" if "rx_queue_ok c" for c
    using that by (simp add: rx_queue_ok_def)
  show "\<exists>c'. mio_pubsub_rx_queue_enqueue c r = Some c' \<and> rx_queue_ok c' \<and> cn_pubsub_rx_queue c' =
      (if length (cn_pubsub_rx_queue c) = nat MIO_PUBSUB_RX_QUEUE_MAX_LEN then tl (cn_pubsub_rx_queue c) else cn_pubsub_rx_queue c) @ [r]"
    if "rx_queue_ok c" for c r
    using that by (cases "cn_pubsub_rx_queue c")
      (auto simp: rx_queue_ok_def mio_pubsub_rx_queue_enqueue_def MIO_PUBSUB_RX_QUEUE_MAX_LEN_def)
  show "mio_pubsub_rx_queue_dequeue c = Some (None, c)" if "rx_queue_ok c" "cn_pubsub_rx_queue c = []" for c
    using that by (simp add: rx_queue_ok_def mio_pubsub_rx_queue_dequeue_def)
  show "\<exists>c'. mio_pubsub_rx_queue_dequeue c = Some (Some r, c') \<and> rx_queue_ok c' \<and> cn_pubsub_rx_queue c' = rs"
    if "rx_queue_ok c" "cn_pubsub_rx_queue c = r # rs" for c r rs
    using that by (simp add: rx_queue_ok_def mio_pubsub_rx_queue_dequeue_def)
qed

text \<open>Clearing frees the NULL that ends the loop.\<close>

lemma rx_queue_clear_loop_undefined: "rx_queue_ok conn \<Longrightarrow> rx_queue_clear_loop conn = None"
proof (induction "cn_pubsub_rx_queue conn" arbitrary: conn)
  case Nil
  then show ?case
    by (subst rx_queue_clear_loop.simps) (simp add: rx.deq_empty mio_response_free_def)
next
  case (Cons r rs)
  obtain c' where "mio_pubsub_rx_queue_dequeue conn = Some (Some r, c')" "rx_queue_ok c'" "cn_pubsub_rx_queue c' = rs"
    using rx.deq_head [OF Cons.prems Cons.hyps(2) [symmetric]] by blast
  with Cons.hyps(1) [of c'] show ?case
    by (subst rx_queue_clear_loop.simps) (simp add: mio_response_free_def)
qed

text \<open>C5: The receive queue keeps the newest publications: after any number of arrivals at a well-formed queue it is
  well-formed and holds the last 100 of the waiting and the arrived responses, in the order of their arrival, and
  dequeuing as often as it is long returns exactly these, oldest first, and leaves it empty.\<close>

theorem rx_queue_newest:
  assumes "rx_queue_ok conn"
  shows "\<exists>conn' conn''. rx.enq_all conn rs = Some conn' \<and> rx_queue_ok conn' \<and>
     cn_pubsub_rx_queue conn' = (let all = cn_pubsub_rx_queue conn @ rs in drop (length all - 100) all) \<and>
     rx.deq_n (length (cn_pubsub_rx_queue conn')) conn' = Some (map Some (cn_pubsub_rx_queue conn'), conn'') \<and>
     cn_pubsub_rx_queue conn'' = []"
proof -
  obtain c1 where 1: "rx.enq_all conn rs = Some c1" "rx_queue_ok c1" "cn_pubsub_rx_queue c1 = rx.newest (cn_pubsub_rx_queue conn @ rs)"
    using rx.enq_all_items [OF assms] by blast
  have n: "nat MIO_PUBSUB_RX_QUEUE_MAX_LEN = 100" by (simp add: MIO_PUBSUB_RX_QUEUE_MAX_LEN_def)
  obtain c2 where "rx.deq_n (length (cn_pubsub_rx_queue c1)) c1 = Some (map Some (cn_pubsub_rx_queue c1), c2)"
    "cn_pubsub_rx_queue c2 = []" using rx.deq_n_items [OF 1(2)] by blast
  moreover have "cn_pubsub_rx_queue c1 = (let all = cn_pubsub_rx_queue conn @ rs in drop (length all - 100) all)"
    using 1(3) [unfolded rx.newest_def] by (simp only: n Let_def)
  ultimately show ?thesis using 1(1,2) by blast
qed

theorem rx_queue_newest_witness:
  "\<exists>conn' conn''. rx.enq_all mio_conn_new [mio_response_new] = Some conn' \<and> rx_queue_ok conn' \<and>
     cn_pubsub_rx_queue conn' = [mio_response_new] \<and>
     rx.deq_n 1 conn' = Some ([Some mio_response_new], conn'') \<and> cn_pubsub_rx_queue conn'' = []"
proof -
  have "rx_queue_ok mio_conn_new" by (simp add: rx_queue_ok_def mio_conn_new_def)
  from rx_queue_newest [OF this, of "[mio_response_new]"] obtain c1 c2 where
    "rx.enq_all mio_conn_new [mio_response_new] = Some c1" "rx_queue_ok c1" "cn_pubsub_rx_queue c1 = [mio_response_new]"
    "rx.deq_n (length (cn_pubsub_rx_queue c1)) c1 = Some (map Some (cn_pubsub_rx_queue c1), c2)" "cn_pubsub_rx_queue c2 = []"
    by (auto simp: mio_conn_new_def)
  then show ?thesis by (intro exI [of _ c1] exI [of _ c2]) simp
qed

text \<open>Clearing the receive queue works only when there is nothing to clear: on a well-formed queue it leaves an
  empty queue alone, and on every other queue it ends by freeing the NULL pointer the last dequeue returned, which
  is undefined.\<close>

theorem rx_queue_clear_undefined:
  assumes "rx_queue_ok conn"
  shows "mio_pubsub_data_rx_queue_clear conn = (if cn_pubsub_rx_queue conn = [] then Some conn else None)"
proof (cases "cn_pubsub_rx_queue conn")
  case Nil
  then show ?thesis using assms by (simp add: mio_pubsub_data_rx_queue_clear_def rx.deq_empty)
next
  case (Cons r rs)
  then obtain c' where "mio_pubsub_rx_queue_dequeue conn = Some (Some r, c')" "rx_queue_ok c'"
    using rx.deq_head [OF assms] by blast
  with Cons rx_queue_clear_loop_undefined show ?thesis by (simp add: mio_pubsub_data_rx_queue_clear_def)
qed

theorem rx_queue_clear_undefined_witness:
  "mio_pubsub_data_rx_queue_clear (mio_conn_new\<lparr>cn_pubsub_rx_queue := [mio_response_new], cn_pubsub_rx_queue_len := 1\<rparr>) = None"
  using rx_queue_clear_undefined [of "mio_conn_new\<lparr>cn_pubsub_rx_queue := [mio_response_new], cn_pubsub_rx_queue_len := 1\<rparr>"]
  by (simp add: rx_queue_ok_def MIO_PUBSUB_RX_QUEUE_MAX_LEN_def)

end
