(* ===== verification/Mio_Requests.thy ===== *)
theory Mio_Requests
  imports Mio_Conn
begin

text \<open>
  The request table and its semaphore, the registration of handlers, and what the event loop does with an
  arriving stanza: libstrophe calls \<open>mio_handler_generic_id\<close> or \<open>mio_handler_generic\<close> with the handler data, and
  these call the handler on the shared response.

  Shown: opening a request and closing it again restores the table and the semaphore while two places are free;
  with one place left the request is refused and the place is never given back; a second stanza handler or timed
  handler is not registered; every delivery keeps the queue, the identifiers of the table and the number of open
  requests.
\<close>

section \<open>The event loop\<close>

text \<open>The handlers by name. \<open>H_pubsub_data_receive\<close> and \<open>H_keepalive\<close> work on the connection and are not among them.\<close>

definition reply_handler :: "mio_handler_fn \<Rightarrow> mio_handler option" where
  "reply_handler h = (case h of
     H_error \<Rightarrow> Some mio_handler_error | H_subscribe \<Rightarrow> Some mio_handler_subscribe
   | H_subscriptions_query \<Rightarrow> Some mio_handler_subscriptions_query
   | H_acl_affiliations_query \<Rightarrow> Some mio_handler_acl_affiliations_query
   | H_collection_children_query \<Rightarrow> Some mio_handler_collection_children_query
   | H_collection_parents_query \<Rightarrow> Some mio_handler_collection_parents_query
   | H_meta_query \<Rightarrow> Some mio_handler_meta_query | H_node_type_query \<Rightarrow> Some mio_handler_node_type_query
   | H_item_recent_get \<Rightarrow> Some mio_handler_item_recent_get | H_schedule_query \<Rightarrow> Some mio_handler_schedule_query
   | H_references_query \<Rightarrow> Some mio_handler_references_query | H_pubsub_data_receive \<Rightarrow> None
   | H_keepalive \<Rightarrow> None)"

definition pubsub_event_ns :: string where
  "pubsub_event_ns = ''http://jabber.org/protocol/pubsub#event''"

text \<open>
  A publication arrives. The request it belongs to must be in the table; otherwise the error message reads
  \<open>response->id\<close>, undefined for the NULL response the listener is registered with. The parsed response, the
  caller's or a new one, is queued and the listener signalled if it holds a packet and the request was found.
  Otherwise the packet is freed; the pointer the response keeps to it dangles and is \<open>RNull\<close> here.
\<close>

definition mio_handler_pubsub_data_receive :: "expat \<Rightarrow> mio_conn \<Rightarrow> xmpp_stanza \<Rightarrow> mio_response option
    \<Rightarrow> (int \<times> mio_conn \<times> mio_response) option" where
  "mio_handler_pubsub_data_receive expat conn stanza response =
     (case mio_request_get conn ''pubsub_data_rx'' of
        None \<Rightarrow> do { r \<leftarrow> response; Some (MIO_ERROR_REQUEST_NOT_FOUND, conn, r) }
      | Some _ \<Rightarrow> do {
          let i = (case response of Some r \<Rightarrow> rsp_id r | None \<Rightarrow> ''pubsub_data_rx'');
          let request = mio_request_get conn i;
          let packet = mio_packet_payload_add mio_packet_new (PData mio_data_new) MIO_PACKET_DATA;
          let r = (case response of
             Some r \<Rightarrow> r
           | None \<Rightarrow> mio_response_new\<lparr>rsp_id := ''pubsub_data_rx'', rsp_ns := Some pubsub_event_ns\<rparr>);
          let r = r\<lparr>rsp_response := RPacket packet\<rparr>;
          (err, xd) \<leftarrow> mio_xml_parse expat (Some stanza) (xml_data_new r XChars_none) mio_XMLstart_pubsub_data_receive;
          let r = xd_response xd;
          if err \<noteq> MIO_OK then Some (err, conn, r)
          else if rsp_response_type r = MIO_RESPONSE_PACKET \<and> request \<noteq> None then do {
            let r = r\<lparr>rsp_stanza := Some stanza\<rparr>;
            conn \<leftarrow> mio_pubsub_rx_queue_enqueue conn r;
            Some (MIO_HANDLER_KEEP, mio_cond_signal conn i, r) }
          else Some (MIO_HANDLER_KEEP, conn, r\<lparr>rsp_response := RNull\<rparr>) })"

definition mio_stanza_to_response :: "expat \<Rightarrow> mio_conn \<Rightarrow> xmpp_stanza \<Rightarrow> (mio_response \<times> mio_conn) option" where
  "mio_stanza_to_response expat conn stanza = do {
     (err, conn, r) \<leftarrow> mio_handler_pubsub_data_receive expat conn stanza (Some mio_response_new);
     Some (r, conn) }"

text \<open>
  Calling the handler of the handler data on its response. \<open>mio_handler_keepalive\<close> takes its first argument, a connection of
  libMIO, for a connection of libstrophe, which is undefined.
\<close>

definition handler_data_call :: "expat \<Rightarrow> mio_handler_data \<Rightarrow> xmpp_stanza \<Rightarrow> mio_conn \<Rightarrow> (int \<times> mio_conn) option" where
  "handler_data_call expat shd stanza conn = do {
     h \<leftarrow> hd_handler shd;
     (case reply_handler h of
        None \<Rightarrow> if h = H_keepalive then None else (case hd_response shd of
           None \<Rightarrow> do { (err, conn, r) \<leftarrow> mio_handler_pubsub_data_receive expat conn stanza None; Some (err, conn) }
         | Some a \<Rightarrow> do {
             (err, conn, r) \<leftarrow> mio_handler_pubsub_data_receive expat conn stanza (Some (cn_responses conn a));
             Some (err, conn\<lparr>cn_responses := (cn_responses conn)(a := r)\<rparr>) })
      | Some handler \<Rightarrow> do {
          a \<leftarrow> hd_response shd;
          let r = cn_responses conn a;
          (err, r', signalled) \<leftarrow> handler expat (mio_request_get conn (rsp_id r) \<noteq> None) stanza r;
          let conn = conn\<lparr>cn_responses := (cn_responses conn)(a := r')\<rparr>;
          Some (err, if signalled then mio_cond_signal conn (rsp_id r) else conn) }) }"

text \<open>\<open>True\<close> keeps the handler.\<close>

definition mio_handler_generic :: "expat \<Rightarrow> xmpp_stanza \<Rightarrow> mio_handler_data \<Rightarrow> mio_conn \<Rightarrow> (bool \<times> mio_conn) option" where
  "mio_handler_generic expat stanza shd conn = do {
     (err, conn) \<leftarrow> handler_data_call expat shd stanza conn;
     Some (if err = MIO_HANDLER_KEEP then True else if err = MIO_HANDLER_REMOVE then False else True, conn) }"

definition mio_handler_generic_id :: "expat \<Rightarrow> xmpp_stanza \<Rightarrow> mio_handler_data \<Rightarrow> mio_conn \<Rightarrow> (bool \<times> mio_conn) option" where
  "mio_handler_generic_id expat stanza shd conn = do {
     (err, conn) \<leftarrow> handler_data_call expat shd stanza conn;
     Some (err \<noteq> MIO_OK, conn) }"

definition generic_call :: "expat \<Rightarrow> xmpp_stanza \<Rightarrow> (generic_fn, mio_handler_data) xmpp_handlist \<Rightarrow> mio_conn
    \<Rightarrow> (bool \<times> mio_conn) option" where
  "generic_call expat stanza item conn = (case hl_handler item of
     G_generic \<Rightarrow> mio_handler_generic expat stanza (hl_userdata item) conn
   | G_generic_id \<Rightarrow> mio_handler_generic_id expat stanza (hl_userdata item) conn
   | _ \<Rightarrow> None)"

text \<open>A stanza arrives on the connection.\<close>

definition stanza_arrives :: "expat \<Rightarrow> xmpp_stanza \<Rightarrow> mio_conn \<Rightarrow> mio_conn option" where
  "stanza_arrives expat stanza conn = do {
     (ids, hs, conn') \<leftarrow> handler_fire_stanza cn_authenticated (generic_call expat stanza) stanza
        (cn_id_handlers conn) (cn_handlers conn) conn;
     Some (conn'\<lparr>cn_id_handlers := ids, cn_handlers := hs\<rparr>) }"

section \<open>Listening for publications\<close>

text \<open>What \<open>sem_wait\<close> does: take a place, or block (\<open>None\<close>).\<close>

definition sem_wait :: "mio_conn \<Rightarrow> mio_conn option" where
  "sem_wait conn = (if cn_open_requests conn > 0 then Some (conn\<lparr>cn_open_requests := cn_open_requests conn - 1\<rparr>) else None)"

definition presence_stanza :: "cptr \<Rightarrow> xmpp_stanza option" where
  "presence_stanza type = set_attr_opt (stanza_named ''presence'') ''type'' type"

definition mio_listen_start :: "mio_conn \<Rightarrow> (int \<times> mio_conn) option" where
  "mio_listen_start conn =
     (if \<not> cn_authenticated conn then Some (MIO_ERROR_DISCONNECTED, conn)
      else do {
        pres \<leftarrow> presence_stanza None;
        Some (MIO_OK, (xmpp_send conn pres)\<lparr>cn_presence_status := MIO_PRESENCE_PRESENT\<rparr>) })"

definition mio_listen_stop :: "mio_conn \<Rightarrow> (int \<times> mio_conn) option" where
  "mio_listen_stop conn =
     (if \<not> cn_authenticated conn then Some (MIO_ERROR_DISCONNECTED, conn)
      else do {
        pres \<leftarrow> presence_stanza (Some ''unavailable'');
        Some (MIO_OK, (xmpp_send conn pres)\<lparr>cn_presence_status := MIO_PRESENCE_UNAVAILABLE\<rparr>) })"

text \<open>The outcome of an operation that may block in \<open>sem_wait\<close>.\<close>

datatype 'a outcome = Returns 'a | Blocks

definition mio_pubsub_data_listen_start :: "mio_conn \<Rightarrow> (int \<times> mio_conn) outcome option" where
  "mio_pubsub_data_listen_start conn =
     (if \<not> cn_authenticated conn then Some (Returns (MIO_ERROR_DISCONNECTED, conn))
      else do {
        conn \<leftarrow> (if cn_presence_status conn \<noteq> MIO_PRESENCE_PRESENT then map_option snd (mio_listen_start conn) else Some conn);
        (case sem_wait conn of
           None \<Rightarrow> Some Blocks
         | Some conn \<Rightarrow> do {
             (err, conn) \<leftarrow> mio_handler_add conn H_pubsub_data_receive (Some pubsub_event_ns) None None
                (Some (mio_request_new\<lparr>rq_id := ''pubsub_data_rx''\<rparr>)) None;
             Some (Returns (err, if err = MIO_OK then conn\<lparr>cn_pubsub_rx_listening := True\<rparr> else conn)) }) })"

definition mio_pubsub_data_listen_stop :: "mio_conn \<Rightarrow> int \<times> mio_conn" where
  "mio_pubsub_data_listen_stop conn = (case mio_request_get conn ''pubsub_data_rx'' of
     None \<Rightarrow> (MIO_OK, conn)
   | Some request \<Rightarrow>
       (MIO_OK, snd (mio_request_delete (mio_cond_signal (conn\<lparr>cn_pubsub_rx_listening := False\<rparr>) ''pubsub_data_rx'')
          ''pubsub_data_rx'')))"

section \<open>The table\<close>

lemma find_append: "find P (xs @ ys) = (case find P xs of None \<Rightarrow> find P ys | Some x \<Rightarrow> Some x)"
  by (induction xs) auto

lemma find_request_update_list:
  assumes "\<And>r. rq_id (f r) = rq_id r"
  shows "find (\<lambda>r. rq_id r = j) (request_update_list i f rs) =
     (if i = j then map_option f (find (\<lambda>r. rq_id r = j) rs) else find (\<lambda>r. rq_id r = j) rs)"
  by (induction rs) (auto simp: assms)

lemma map_rq_id_update [simp]:
  assumes "\<And>r. rq_id (f r) = rq_id r"
  shows "map rq_id (request_update_list i f rs) = map rq_id rs"
  by (induction rs) (auto simp: assms)

lemma find_request_remove_list:
  "distinct (map rq_id rs) \<Longrightarrow> find (\<lambda>r. rq_id r = j) (request_remove_list i rs) =
     (if i = j then None else find (\<lambda>r. rq_id r = j) rs)"
proof (induction rs)
  case (Cons r rs)
  have "find (\<lambda>r. rq_id r = j) rs = None" if "rq_id r = j" using Cons.prems that by (auto simp: find_None_iff image_iff)
  with Cons show ?case by auto
qed simp

lemma request_remove_list_new: "i \<notin> rq_id ` set rs \<Longrightarrow> request_remove_list i (rs @ [r]) = (if rq_id r = i then rs else rs @ [r])"
  by (induction rs) auto

lemma distinct_request_remove: "distinct (map rq_id rs) \<Longrightarrow> distinct (map rq_id (request_remove_list i rs))"
proof (induction rs)
  case (Cons r rs)
  have "rq_id ` set (request_remove_list i rs) \<subseteq> rq_id ` set rs" for rs by (induction rs) auto
  with Cons show ?case by auto
qed simp

lemma length_request_remove: "i \<in> rq_id ` set rs \<Longrightarrow> Suc (length (request_remove_list i rs)) = length rs"
  by (induction rs) auto

lemma request_find_None: "request_find conn i = None \<longleftrightarrow> i \<notin> rq_id ` set (cn_request_table conn)"
  by (auto simp: request_find_def find_None_iff)

lemma rq_id_request_find: "request_find conn i = Some r \<Longrightarrow> rq_id r = i"
  by (auto simp: request_find_def find_Some_iff)

lemma rq_id_signal [simp]: "rq_id (request_signal r) = rq_id r"
  by (simp add: request_signal_def)

lemma request_find_signal:
  "request_find (mio_cond_signal conn i) j = (if i = j then map_option request_signal (request_find conn j) else request_find conn j)"
  by (simp add: request_find_def mio_cond_signal_def request_update_def find_request_update_list)

text \<open>The table is well-formed: identifiers are unique, and the semaphore and the table share the 100 places.\<close>

definition requests_ok :: "mio_conn \<Rightarrow> bool" where
  "requests_ok conn \<longleftrightarrow> distinct (map rq_id (cn_request_table conn)) \<and> 0 \<le> cn_open_requests conn \<and>
     cn_open_requests conn + int (length (cn_request_table conn)) = MIO_MAX_OPEN_REQUESTS"

text \<open>Opening a request as \<open>_mio_send_blocking\<close> does: take a place, then register the handler.\<close>

definition request_open :: "mio_conn \<Rightarrow> mio_handler_fn \<Rightarrow> string \<Rightarrow> nat \<Rightarrow> (int \<times> mio_conn) outcome option" where
  "request_open conn h i a = (case sem_wait conn of
     None \<Rightarrow> Some Blocks
   | Some conn \<Rightarrow> map_option Returns (mio_handler_id_add conn h i mio_request_new (Some a)))"

lemma request_open_registered:
  assumes "cn_open_requests conn > 1" "cn_rwlock_ok conn" "request_find conn i = None" "i \<noteq> []"
    "\<not> handler_registered G_generic_id (cn_id_handlers conn i)"
  shows "\<exists>conn'. request_open conn h i a = Some (Returns (MIO_OK, conn')) \<and>
     cn_open_requests conn' = cn_open_requests conn - 1 \<and> cn_rwlock_ok conn' \<and>
     cn_request_table conn' = cn_request_table conn @ [mio_request_new\<lparr>rq_id := i, rq_handler := Some h,
       rq_handler_type := MIO_HANDLER_ID, rq_response := Some a\<rparr>] \<and>
     rsp_id (cn_responses conn' a) = i \<and>
     map hl_userdata (cn_id_handlers conn' i) = map hl_userdata (cn_id_handlers conn i) @
       [\<lparr>hd_handler = Some h, hd_response = Some a, hd_request = Some i\<rparr>]"
  using assms
  by (auto simp: request_open_def sem_wait_def mio_handler_id_add_def mio_request_add_def request_find_def Let_def
      xmpp_id_handler_add_def id_handler_add_def handlist_item_def mio_handler_data_new_def)

text \<open>Opening a request and closing it restores the connection's accounts: with at least two free places and an
  identifier not in use, taking a place and registering the handler returns MIO_OK, and the request is found under its
  identifier and every other request as before; the places taken and free still add up to 100. Deleting the request
  gives back the table and the semaphore as they were.\<close>

theorem request_open_close:
  assumes ok: "requests_ok conn" "cn_rwlock_ok conn" "cn_open_requests conn > 1"
    and fresh: "request_find conn i = None" "i \<noteq> []" "\<not> handler_registered G_generic_id (cn_id_handlers conn i)"
  shows "\<exists>conn'. request_open conn h i a = Some (Returns (MIO_OK, conn')) \<and> requests_ok conn' \<and>
     (\<forall>j. request_find conn' j \<noteq> None \<longleftrightarrow> j = i \<or> request_find conn j \<noteq> None) \<and>
     mio_response_get conn' i = Some a \<and>
     fst (mio_request_delete conn' i) = MIO_OK \<and>
     cn_request_table (snd (mio_request_delete conn' i)) = cn_request_table conn \<and>
     cn_open_requests (snd (mio_request_delete conn' i)) = cn_open_requests conn"
proof -
  let ?r = "mio_request_new\<lparr>rq_id := i, rq_handler := Some h, rq_handler_type := MIO_HANDLER_ID, rq_response := Some a\<rparr>"
  obtain conn' where c: "request_open conn h i a = Some (Returns (MIO_OK, conn'))"
    "cn_open_requests conn' = cn_open_requests conn - 1" "cn_rwlock_ok conn'"
    "cn_request_table conn' = cn_request_table conn @ [?r]"
    using request_open_registered [OF ok(3,2) fresh] by blast
  have n: "i \<notin> rq_id ` set (cn_request_table conn)" using fresh(1) by (simp add: request_find_None)
  have f: "request_find conn' i = Some ?r"
    using c(4) fresh(1) by (simp add: request_find_def find_append)
  have "requests_ok conn'" using ok c n by (auto simp: requests_ok_def)
  moreover have "\<forall>j. request_find conn' j \<noteq> None \<longleftrightarrow> j = i \<or> request_find conn j \<noteq> None"
    using c(4) by (auto simp: request_find_None)
  moreover have "mio_response_get conn' i = Some a" using f c(3) by (simp add: mio_response_get_def mio_request_get_def)
  ultimately show ?thesis
    using c f n by (intro exI [of _ conn']) (simp add: mio_request_delete_def request_remove_list_new)
qed

text \<open>The last place of the request table is lost when it is used: with exactly one free place the semaphore lets
  the request through, but the registration then reads a semaphore of 0 and refuses it with
  MIO_ERROR_TOO_MANY_OPEN_REQUESTS, a code \<open>_mio_send_blocking\<close> ignores; no handler is registered for the reply, the
  deletion that ends the request does not find it, and the semaphore stays at 0, so the place is never given back.\<close>

theorem last_place_lost:
  assumes "requests_ok conn" "cn_rwlock_ok conn" "cn_open_requests conn = 1" "request_find conn i = None"
  shows "\<exists>conn'. request_open conn h i a = Some (Returns (MIO_ERROR_TOO_MANY_OPEN_REQUESTS, conn')) \<and>
     cn_id_handlers conn' = cn_id_handlers conn \<and> cn_request_table conn' = cn_request_table conn \<and>
     fst (mio_request_delete conn' i) = MIO_ERROR_REQUEST_NOT_FOUND \<and>
     cn_open_requests (snd (mio_request_delete conn' i)) = 0 \<and> \<not> requests_ok (snd (mio_request_delete conn' i))"
  using assms
  by (auto simp: request_open_def sem_wait_def mio_handler_id_add_def mio_request_add_def mio_request_delete_def
      request_find_def Let_def requests_ok_def MIO_OK_def MIO_ERROR_TOO_MANY_OPEN_REQUESTS_def)

text \<open>Only the first stanza handler counts: libMIO registers every handler as the same libstrophe callback, and
  libstrophe keeps one entry per callback, so once a handler is registered \<open>mio_handler_add\<close> for another one leaves the
  list as it was, while it enters the request in the table and returns MIO_OK. The same holds for timed handlers.\<close>

theorem second_handler_ignored:
  assumes "handler_registered G_generic (cn_handlers conn)" "handler_registered G_generic_timed (cn_timed_handlers conn)"
    and "ns \<noteq> None" "cn_open_requests conn > 0" "cn_rwlock_ok conn" "request_find conn (rq_id r) = None" "rq_id r \<noteq> []"
  shows "\<exists>conn'. mio_handler_add conn h ns None type (Some r) None = Some (MIO_OK, conn') \<and>
     cn_handlers conn' = cn_handlers conn \<and> request_find conn' (rq_id r) \<noteq> None \<and>
     mio_handler_timed_add conn g period now = (MIO_OK, conn)"
  using assms
  by (auto simp: mio_handler_add_def mio_request_add_def xmpp_handler_add_def handler_add_def mio_handler_timed_add_def
      xmpp_timed_handler_add_def timed_handler_add_def request_find_None)

section \<open>Examples\<close>

text \<open>A connection right after \<open>mio_connect\<close>.\<close>

definition example_conn :: mio_conn where
  "example_conn = mio_conn_new\<lparr>cn_jid := Some ''u@h'', cn_authenticated := True, cn_connected := True,
     cn_open_requests := MIO_MAX_OPEN_REQUESTS\<rparr>"

lemma example_conn_fields:
  "cn_open_requests example_conn = 100" "cn_rwlock_ok example_conn" "cn_request_table example_conn = []"
  "cn_id_handlers example_conn i = []" "cn_handlers example_conn = []" "cn_timed_handlers example_conn = []"
  "cn_authenticated example_conn" "cn_connected example_conn" "cn_mutex_ok example_conn" "requests_ok example_conn"
  "request_find example_conn i = None" "\<not> cn_conn_mutex example_conn"
  by (simp_all add: example_conn_def mio_conn_new_def MIO_MAX_OPEN_REQUESTS_def requests_ok_def request_find_def)

theorem request_open_close_witness:
  "\<exists>conn'. request_open example_conn H_error ''7'' 0 = Some (Returns (MIO_OK, conn')) \<and> requests_ok conn' \<and>
     mio_response_get conn' ''7'' = Some 0 \<and> fst (mio_request_delete conn' ''7'') = MIO_OK \<and>
     cn_request_table (snd (mio_request_delete conn' ''7'')) = [] \<and> cn_open_requests (snd (mio_request_delete conn' ''7'')) = 100"
  using request_open_close [of example_conn "''7''" H_error 0]
  by (auto simp: example_conn_fields handler_registered_def)

definition full_conn :: mio_conn where
  "full_conn = example_conn\<lparr>cn_open_requests := 1, cn_request_table :=
     map (\<lambda>n. mio_request_new\<lparr>rq_id := replicate (Suc n) CHR ''x''\<rparr>) [0..<99]\<rparr>"

theorem last_place_lost_witness:
  "\<exists>conn'. request_open full_conn H_error ''7'' 0 = Some (Returns (MIO_ERROR_TOO_MANY_OPEN_REQUESTS, conn')) \<and>
     cn_id_handlers conn' ''7'' = [] \<and> cn_open_requests (snd (mio_request_delete conn' ''7'')) = 0"
proof -
  have d: "distinct (map (\<lambda>n. replicate (Suc n) CHR ''x'') [0..<99])"
    by (auto simp: distinct_map inj_on_def)
  have "''7'' \<noteq> replicate (Suc n) CHR ''x''" for n by simp
  then have n: "request_find full_conn ''7'' = None" by (auto simp: request_find_None full_conn_def)
  have "requests_ok full_conn"
    using d by (simp add: requests_ok_def full_conn_def MIO_MAX_OPEN_REQUESTS_def o_def del: replicate.simps)
  moreover have "cn_rwlock_ok full_conn" "cn_open_requests full_conn = 1" "cn_id_handlers full_conn ''7'' = []"
    by (simp_all add: full_conn_def example_conn_fields)
  ultimately show ?thesis using last_place_lost [OF _ _ _ n, of H_error 0] by auto
qed

theorem second_handler_ignored_witness:
  "\<exists>conn conn'. handler_registered G_generic (cn_handlers conn) \<and>
     mio_handler_add conn H_error (Some ''jabber:client'') None None (Some (mio_request_new\<lparr>rq_id := ''7''\<rparr>)) None = Some (MIO_OK, conn') \<and>
     cn_handlers conn' = cn_handlers conn"
proof -
  let ?c = "example_conn\<lparr>cn_handlers := [handlist_item True G_generic mio_handler_data_new],
    cn_timed_handlers := [handlist_item True G_generic_timed mio_handler_data_new]\<rparr>"
  let ?r = "mio_request_new\<lparr>rq_id := ''7''\<rparr>"
  have h: "handler_registered G_generic (cn_handlers ?c)" "handler_registered G_generic_timed (cn_timed_handlers ?c)"
    by (simp_all add: handler_registered_def handlist_item_def)
  have "cn_open_requests ?c > 0" "cn_rwlock_ok ?c" "request_find ?c (rq_id ?r) = None" "rq_id ?r \<noteq> []"
    using example_conn_fields by (simp_all add: request_find_def)
  from second_handler_ignored [OF h _ this, of "Some ''jabber:client''" H_error None] h(1) show ?thesis by blast
qed

section \<open>Deliveries\<close>

text \<open>What a callback of the event loop leaves alone.\<close>

definition call_frame :: "mio_conn \<Rightarrow> mio_conn \<Rightarrow> bool" where
  "call_frame conn conn' \<longleftrightarrow> map rq_id (cn_request_table conn') = map rq_id (cn_request_table conn) \<and>
     cn_open_requests conn' = cn_open_requests conn \<and> cn_authenticated conn' = cn_authenticated conn \<and>
     cn_rwlock_ok conn' = cn_rwlock_ok conn \<and> cn_mutex_ok conn' = cn_mutex_ok conn \<and>
     cn_send_queue conn' = cn_send_queue conn \<and> cn_pubsub_rx_listening conn' = cn_pubsub_rx_listening conn \<and>
     cn_conn_predicate conn' = cn_conn_predicate conn \<and> cn_conn_mutex conn' = cn_conn_mutex conn \<and>
     (rx_queue_ok conn \<longrightarrow> rx_queue_ok conn')"

lemma call_frame_refl: "call_frame conn conn"
  by (simp add: call_frame_def)

lemma call_frame_trans: "call_frame a b \<Longrightarrow> call_frame b c \<Longrightarrow> call_frame a c"
  by (simp add: call_frame_def)

lemma call_frame_signal: "call_frame conn (mio_cond_signal conn i)"
  by (simp add: call_frame_def mio_cond_signal_def request_update_def rx_queue_ok_def)

lemma call_frame_responses: "call_frame conn (conn\<lparr>cn_responses := f\<rparr>)"
  by (simp add: call_frame_def rx_queue_ok_def)

lemma call_frame_enqueue:
  assumes "mio_pubsub_rx_queue_enqueue conn r = Some conn'"
  shows "call_frame conn conn'"
  using assms rx.enq_ok [of conn r]
  by (auto simp: call_frame_def mio_pubsub_rx_queue_enqueue_def split: if_splits list.splits)

lemma call_frame_data_receive:
  assumes "mio_handler_pubsub_data_receive expat conn stanza response = Some (err, conn', r)"
  shows "call_frame conn conn'"
  using assms
  by (auto simp: mio_handler_pubsub_data_receive_def Let_def call_frame_refl
      intro: call_frame_trans [OF call_frame_enqueue call_frame_signal]
      split: option.splits Option.bind_splits if_splits)

lemma call_frame_handler_data_call:
  assumes "handler_data_call expat shd stanza conn = Some (err, conn')"
  shows "call_frame conn conn'"
  using assms
  by (auto simp: handler_data_call_def Let_def
      intro: call_frame_data_receive call_frame_responses call_frame_trans [OF call_frame_data_receive call_frame_responses]
        call_frame_trans [OF call_frame_responses call_frame_signal]
      split: option.splits Option.bind_splits if_splits)

lemma call_frame_generic_call:
  assumes "generic_call expat stanza item conn = Some (keep, conn')"
  shows "call_frame conn conn'"
  using assms
  by (auto simp: generic_call_def mio_handler_generic_def mio_handler_generic_id_def
      intro: call_frame_handler_data_call split: generic_fn.splits Option.bind_splits if_splits)

text \<open>The callbacks of libMIO have the frame as their invariant, from any start.\<close>

interpretation delivery: callbacks cn_authenticated "generic_call expat stanza" "call_frame conn" "\<lambda>_. True" for expat stanza conn
proof unfold_locales
  show "call_frame conn s'" if "call_frame conn s" "True" "generic_call expat stanza item s = Some (keep, s')" for s item keep s'
    using call_frame_trans [OF that(1) call_frame_generic_call [OF that(3)]] .
qed

lemma stanza_arrives_frame:
  assumes "stanza_arrives expat stanza conn = Some conn'"
  shows "call_frame conn conn'"
proof -
  obtain ids hs c where c: "handler_fire_stanza cn_authenticated (generic_call expat stanza) stanza (cn_id_handlers conn)
      (cn_handlers conn) conn = Some (ids, hs, c)" "conn' = c\<lparr>cn_id_handlers := ids, cn_handlers := hs\<rparr>"
    using assms by (auto simp: stanza_arrives_def split: Option.bind_splits)
  have "call_frame conn c" by (rule delivery.fire_stanza_invar [OF c(1)]) (simp_all add: delivery.all_good_def list_all_iff call_frame_refl)
  then show ?thesis using c(2) by (simp add: call_frame_def rx_queue_ok_def)
qed

lemma requests_ok_frame: "call_frame conn conn' \<Longrightarrow> requests_ok conn \<Longrightarrow> requests_ok conn'"
  by (auto simp: call_frame_def requests_ok_def dest: map_eq_imp_length_eq)

text \<open>Whatever stanza arrives, and whatever expat makes of it, a delivery that is defined keeps the accounts of the
  connection: the receive queue stays well-formed, the table keeps its identifiers and the semaphore its value, nothing
  is sent, and the connection stays authenticated if it was.\<close>

theorem delivery_keeps_accounts:
  assumes "stanza_arrives expat stanza conn = Some conn'" "rx_queue_ok conn" "requests_ok conn"
  shows "rx_queue_ok conn' \<and> requests_ok conn' \<and> map rq_id (cn_request_table conn') = map rq_id (cn_request_table conn) \<and>
     cn_open_requests conn' = cn_open_requests conn \<and> cn_send_queue conn' = cn_send_queue conn \<and>
     cn_authenticated conn' = cn_authenticated conn"
  using stanza_arrives_frame [OF assms(1)] requests_ok_frame assms(2,3) by (auto simp: call_frame_def)

theorem delivery_keeps_accounts_witness:
  "\<exists>conn'. stanza_arrives (\<lambda>_. ([], True)) example_reply example_conn = Some conn' \<and> rx_queue_ok conn' \<and> requests_ok conn'"
proof -
  have "xmpp_stanza_get_id example_reply = Some (Some ''7'')" by code_simp
  then have s: "stanza_arrives (\<lambda>_. ([], True)) example_reply example_conn =
      Some (example_conn\<lparr>cn_id_handlers := (cn_id_handlers example_conn)(''7'' := []), cn_handlers := []\<rparr>)"
    by (simp add: stanza_arrives_def handler_fire_stanza_def example_conn_fields handlers_enable_def)
  have "rx_queue_ok example_conn" by (simp add: rx_queue_ok_def example_conn_def mio_conn_new_def)
  from delivery_keeps_accounts [OF s this example_conn_fields(10)] s show ?thesis by blast
qed

lemma request_reply:
  assumes c: "cn_open_requests conn > 1" "cn_rwlock_ok conn" "request_find conn i = None" "i \<noteq> []" "cn_id_handlers conn i = []"
    "cn_authenticated conn" "cn_handlers conn = []"
    and sid: "xmpp_stanza_get_id stanza = Some (Some i)" and h: "reply_handler h = Some hf"
    and run: "\<forall>r. rsp_id r = i \<longrightarrow> (\<exists>r'. hf expat True stanza r = Some (MIO_OK, r', True) \<and> P r')"
  shows "\<exists>conn' conn'' q. request_open conn h i a = Some (Returns (MIO_OK, conn')) \<and>
     stanza_arrives expat stanza conn' = Some conn'' \<and> P (cn_responses conn'' a) \<and>
     request_find conn'' i = Some q \<and> rq_predicate q \<and> cn_id_handlers conn'' i = []"
proof -
  let ?r = "mio_request_new\<lparr>rq_id := i, rq_handler := Some h, rq_handler_type := MIO_HANDLER_ID, rq_response := Some a\<rparr>"
  have nr: "\<not> handler_registered G_generic_id (cn_id_handlers conn i)" using c(5) by (simp add: handler_registered_def)
  obtain c1 where 1: "request_open conn h i a = Some (Returns (MIO_OK, c1))" "cn_rwlock_ok c1" "cn_authenticated c1"
    "cn_request_table c1 = cn_request_table conn @ [?r]" "rsp_id (cn_responses c1 a) = i" "cn_handlers c1 = []"
    "cn_id_handlers c1 i = [(handlist_item True G_generic_id \<lparr>hd_handler = Some h, hd_response = Some a, hd_request = Some i\<rparr>)\<lparr>hl_id := i\<rparr>]"
    using c nr by (auto simp: request_open_def sem_wait_def mio_handler_id_add_def mio_request_add_def request_find_def Let_def
      xmpp_id_handler_add_def id_handler_add_def mio_handler_data_new_def)
  have f: "request_find c1 i = Some ?r" using 1(4) c(3) by (simp add: request_find_def find_append)
  obtain r' where r': "hf expat True stanza (cn_responses c1 a) = Some (MIO_OK, r', True)" "P r'" using run 1(5) by blast
  let ?c2 = "mio_cond_signal (c1\<lparr>cn_responses := (cn_responses c1)(a := r')\<rparr>) i"
  have "handler_data_call expat \<lparr>hd_handler = Some h, hd_response = Some a, hd_request = Some i\<rparr> stanza c1 = Some (MIO_OK, ?c2)"
    using f 1(2,5) r'(1) h by (simp add: handler_data_call_def mio_request_get_def Let_def)
  then have call: "generic_call expat stanza (hd (cn_id_handlers c1 i)) c1 = Some (False, ?c2)"
    using 1(7) by (simp add: generic_call_def mio_handler_generic_id_def handlist_item_def)
  let ?c3 = "?c2\<lparr>cn_id_handlers := (cn_id_handlers c1)(i := []), cn_handlers := []\<rparr>"
  have "stanza_arrives expat stanza c1 = Some ?c3"
    using call 1(3,6,7) sid by (simp add: stanza_arrives_def handler_fire_stanza_def handlers_enable_def)
  moreover have "request_find ?c3 i = Some (request_signal ?r)"
    using f by (simp add: request_find_def mio_cond_signal_def request_update_def find_request_update_list)
  moreover have "cn_responses ?c3 a = r'" "cn_id_handlers ?c3 i = []" by (simp_all add: mio_cond_signal_def request_update_def)
  moreover have "rq_predicate (request_signal ?r)" by (simp add: request_signal_def)
  ultimately show ?thesis using 1(1) r'(2) by metis
qed

text \<open>C24: The reply completes the request: after a request was opened on an authenticated connection, the arrival of a
  stanza with its identifier runs its handler once on the caller's response; if the handler succeeds, the response is
  the one the handler made, the request's predicate is set, and the handler is no longer registered, so a second
  stanza with that identifier is not delivered to it.\<close>

theorem reply_completes_request:
  assumes c: "cn_open_requests conn > 1" "cn_rwlock_ok conn" "request_find conn i = None" "i \<noteq> []" "cn_id_handlers conn i = []"
    "cn_authenticated conn" "cn_handlers conn = []"
    and sid: "xmpp_stanza_get_id stanza = Some (Some i)" and h: "reply_handler h = Some hf"
    and run: "\<forall>r. rsp_id r = i \<longrightarrow> (\<exists>r'. hf expat True stanza r = Some (MIO_OK, r', True) \<and> P r')"
  shows "\<exists>conn' conn'' q. request_open conn h i a = Some (Returns (MIO_OK, conn')) \<and>
     stanza_arrives expat stanza conn' = Some conn'' \<and> P (cn_responses conn'' a) \<and>
     request_find conn'' i = Some q \<and> rq_predicate q \<and> cn_id_handlers conn'' i = []"
  by (rule request_reply [OF assms])

lemma example_reply_printable: "printable example_reply"
  by (rule printable_tag_wf) (simp_all add: example_reply_def put_attr_tag)

lemma example_reply_handled:
  "\<exists>r'. mio_handler_error (\<lambda>_. (sax_events example_reply, True)) True example_reply r = Some (MIO_OK, r', True) \<and>
     rsp_stanza r' = Some example_reply"
proof -
  note e = expat_delivers_const [OF example_reply_printable]
  have "tag_wf example_reply" "st_data example_reply = Some ''iq''" and c: "st_children example_reply = []"
    by (simp_all add: example_reply_def put_attr_tag)
  from sax_events_tag [OF this(1,2)] c
  have "sax_events example_reply = [StartElement ''iq'' (stanza_pairs example_reply), EndElement ''iq'']" by simp
  then show ?thesis
    unfolding mio_handler_error_def Let_def mio_xml_parse_delivers [OF e]
    by (simp add: mio_XMLstart_error_def xml_data_update_start_element_def
        xml_data_update_end_element_def xml_data_new_def xd_set_type_def Let_def)
qed

theorem reply_completes_request_witness:
  "\<exists>conn' conn'' q. request_open example_conn H_error ''7'' 0 = Some (Returns (MIO_OK, conn')) \<and>
     stanza_arrives (\<lambda>_. (sax_events example_reply, True)) example_reply conn' = Some conn'' \<and>
     rsp_stanza (cn_responses conn'' 0) = Some example_reply \<and>
     request_find conn'' ''7'' = Some q \<and> rq_predicate q \<and> cn_id_handlers conn'' ''7'' = []"
proof -
  have sid: "xmpp_stanza_get_id example_reply = Some (Some ''7'')" by code_simp
  have h: "reply_handler H_error = Some mio_handler_error" by (simp add: reply_handler_def)
  show ?thesis
    using reply_completes_request [of example_conn "''7''" example_reply H_error mio_handler_error
        "\<lambda>_. (sax_events example_reply, True)" "\<lambda>r. rsp_stanza r = Some example_reply" 0, OF _ _ _ _ _ _ _ sid h]
      example_reply_handled by (simp add: example_conn_fields)
qed

text \<open>Converting a publication to a response by \<open>mio_stanza_to_response\<close> never gives usable data: unless a request with
  the empty identifier is open, a stanza that parses leaves a response whose packet has been freed, or no packet at all
  when no listener is registered.\<close>

theorem stanza_to_response_freed:
  assumes "request_find conn [] = None"
    and "mio_stanza_to_response expat conn stanza = Some (r, conn')"
    and "\<forall>buf. xmpp_stanza_to_text stanza = Inr buf \<longrightarrow> snd (expat buf)"
  shows "rsp_response r = RNull \<and> conn' = conn"
  using assms
  by (auto simp: mio_stanza_to_response_def mio_handler_pubsub_data_receive_def mio_request_get_def mio_response_new_def Let_def
      mio_xml_parse_def split: option.splits Option.bind_splits sum.splits prod.splits if_splits)

definition listening_conn :: mio_conn where
  "listening_conn = example_conn\<lparr>cn_request_table := [mio_request_new\<lparr>rq_id := ''pubsub_data_rx''\<rparr>], cn_open_requests := 99,
     cn_pubsub_rx_listening := True\<rparr>"

theorem stanza_to_response_freed_witness:
  "\<exists>r. mio_stanza_to_response (\<lambda>_. ([], True)) listening_conn example_reply = Some (r, listening_conn) \<and> rsp_response r = RNull"
proof -
  have "printable example_reply" by (rule example_reply_printable)
  then obtain buf where b: "xmpp_stanza_to_text example_reply = Inr buf"
    by (auto simp: printable_def xmpp_stanza_to_text_eq)
  have n: "request_find listening_conn [] = None" by (simp add: request_find_def listening_conn_def)
  obtain r where r: "mio_stanza_to_response (\<lambda>_. ([], True)) listening_conn example_reply = Some (r, listening_conn)"
    by (simp add: mio_stanza_to_response_def mio_handler_pubsub_data_receive_def mio_request_get_def request_find_def
        listening_conn_def example_conn_fields mio_response_new_def mio_xml_parse_def b xml_data_new_def Let_def)
  with stanza_to_response_freed [OF n r] show ?thesis by simp
qed

end
