(* ===== verification/Mio_Send.thy ===== *)
theory Mio_Send
  imports Mio_Requests
begin

text \<open>
  \<open>_mio_send_blocking\<close> and the event loop as an interleaving: the sending thread runs its statements one after the
  other, and between any two of them the event loop may deliver a stanza and other threads may change what is not
  the sender's. The state is the connection and the program counter of the sender. The identifier, the stanza, the
  handler and the address of the response are parameters; so is whether condition variables wake up spuriously,
  which POSIX allows.

  A condition wait is two steps, blocking (mutex locked and the wait entered) and waking (the mutex is taken again and
  released by the code that follows); the predicate is tested
  before the mutex is locked, as in the code. The mutex \<open>conn_mutex\<close> is a lock that is not recursive: the attribute
  the constructor prepares is not passed to \<open>pthread_mutex_init\<close>.

  Shown: a thread that returns MIO_OK without a spurious wake-up has a response its handler completed; on every
  return but one the request has left the table; the exception is MIO_ERROR_PREDICATE, reached when the reply is
  faster than the first test; a reply between the test and the wait is lost; after a connection failure was
  announced the sender locks \<open>conn_mutex\<close> twice and never returns.
\<close>

section \<open>Program counters and steps\<close>

definition MIO_SEND_RETRIES :: nat where "MIO_SEND_RETRIES = 3"

datatype send_pc =
  SB_start            \<comment> \<open>before \<open>sem_wait\<close>\<close>
| SB_register         \<comment> \<open>before \<open>mio_handler_id_add\<close>\<close>
| SB_send nat         \<comment> \<open>before \<open>_mio_send_nonblocking\<close>, with the failed attempts so far\<close>
| SB_lock nat         \<comment> \<open>before locking \<open>conn_mutex\<close>\<close>
| SB_reconnect nat    \<comment> \<open>before the test of \<open>conn_predicate\<close>\<close>
| SB_reconnect_wait nat  \<comment> \<open>in the wait for a connection\<close>
| SB_test             \<comment> \<open>before the test of \<open>request->predicate\<close>\<close>
| SB_block            \<comment> \<open>between that test and the wait\<close>
| SB_wait             \<comment> \<open>in the wait for the reply\<close>
| SB_return int

type_synonym send_state = "mio_conn \<times> send_pc"

text \<open>Giving up: the handler is deleted, then the request.\<close>

definition send_abandon :: "string \<Rightarrow> mio_conn \<Rightarrow> mio_conn" where
  "send_abandon i conn = snd (mio_request_delete
     (conn\<lparr>cn_id_handlers := xmpp_id_handler_delete (cn_id_handlers conn) G_generic_id i\<rparr>) i)"

definition request_predicate :: "mio_conn \<Rightarrow> string \<Rightarrow> bool" where
  "request_predicate conn i = (case request_find conn i of None \<Rightarrow> False | Some r \<Rightarrow> rq_predicate r)"

definition request_woken :: "mio_conn \<Rightarrow> string \<Rightarrow> bool" where
  "request_woken conn i = (case request_find conn i of None \<Rightarrow> False | Some r \<Rightarrow> rq_cond r = Cond_woken)"

definition request_block :: "mio_request \<Rightarrow> mio_request" where
  "request_block r = r\<lparr>rq_cond := Cond_waiting\<rparr>"

text \<open>
  Handler data that belongs to others: it points neither to the response at \<open>a\<close> nor to one with the identifier \<open>i\<close>.
  The request of the sender is exclusive if its identifier and response are used by nobody else.
\<close>

definition foreign :: "string \<Rightarrow> nat \<Rightarrow> (nat \<Rightarrow> string) \<Rightarrow> mio_handler_data \<Rightarrow> bool" where
  "foreign i a rid shd = (case hd_response shd of None \<Rightarrow> True | Some b \<Rightarrow> b \<noteq> a \<and> rid b \<noteq> i)"

definition response_ids :: "mio_conn \<Rightarrow> nat \<Rightarrow> string" where
  "response_ids conn b = rsp_id (cn_responses conn b)"

definition exclusive :: "string \<Rightarrow> nat \<Rightarrow> mio_conn \<Rightarrow> bool" where
  "exclusive i a conn \<longleftrightarrow>
     (\<forall>j item. j \<noteq> i \<longrightarrow> item \<in> set (cn_id_handlers conn j) \<longrightarrow> foreign i a (response_ids conn) (hl_userdata item)) \<and>
     (\<forall>item \<in> set (cn_handlers conn). foreign i a (response_ids conn) (hl_userdata item))"

text \<open>What other threads leave alone: this request, its handler and its response.\<close>

definition others_frame :: "string \<Rightarrow> nat \<Rightarrow> mio_conn \<Rightarrow> mio_conn \<Rightarrow> bool" where
  "others_frame i a conn conn' \<longleftrightarrow> request_find conn' i = request_find conn i \<and>
     (distinct (map rq_id (cn_request_table conn)) \<longrightarrow> distinct (map rq_id (cn_request_table conn'))) \<and>
     cn_id_handlers conn' i = cn_id_handlers conn i \<and> cn_responses conn' a = cn_responses conn a \<and>
     cn_rwlock_ok conn' = cn_rwlock_ok conn \<and> (exclusive i a conn \<longrightarrow> exclusive i a conn')"

inductive send_step :: "expat \<Rightarrow> bool \<Rightarrow> string \<Rightarrow> xmpp_stanza \<Rightarrow> mio_handler_fn \<Rightarrow> nat \<Rightarrow> send_state \<Rightarrow> send_state \<Rightarrow> bool"
  for expat :: expat and spurious :: bool and i :: string and stanza :: xmpp_stanza and h :: mio_handler_fn and a :: nat where
  take_place: "sem_wait conn = Some conn' \<Longrightarrow>
    send_step expat spurious i stanza h a (conn, SB_start) (conn', SB_register)"
| register: "mio_handler_id_add conn h i mio_request_new (Some a) = Some (err, conn') \<Longrightarrow>
    send_step expat spurious i stanza h a (conn, SB_register) (conn', SB_send 0)"
| sent: "mio_send_nonblocking conn stanza = (err, conn') \<Longrightarrow> err \<noteq> MIO_ERROR_CONNECTION \<Longrightarrow>
    send_step expat spurious i stanza h a (conn, SB_send n) (conn', SB_test)"
| send_failed: "mio_send_nonblocking conn stanza = (MIO_ERROR_CONNECTION, conn') \<Longrightarrow> Suc n < MIO_SEND_RETRIES \<Longrightarrow>
    send_step expat spurious i stanza h a (conn, SB_send n) (conn', SB_lock (Suc n))"
| send_given_up: "mio_send_nonblocking conn stanza = (MIO_ERROR_CONNECTION, conn') \<Longrightarrow> \<not> Suc n < MIO_SEND_RETRIES \<Longrightarrow>
    send_step expat spurious i stanza h a (conn, SB_send n) (send_abandon i conn', SB_return MIO_ERROR_CONNECTION)"
| lock: "\<not> cn_conn_mutex conn \<Longrightarrow>
    send_step expat spurious i stanza h a (conn, SB_lock n) (conn\<lparr>cn_conn_mutex := True\<rparr>, SB_reconnect n)"
| reconnected: "cn_conn_predicate conn \<Longrightarrow>
    send_step expat spurious i stanza h a (conn, SB_reconnect n) (conn, SB_send n)"
| reconnect_block: "\<not> cn_conn_predicate conn \<Longrightarrow> cn_conn_mutex conn \<Longrightarrow>
    send_step expat spurious i stanza h a (conn, SB_reconnect n) (conn\<lparr>cn_conn_mutex := False\<rparr>, SB_reconnect_wait n)"
| reconnect_wake: "cn_conn_predicate conn \<or> spurious \<Longrightarrow> \<not> cn_conn_mutex conn \<Longrightarrow>
    send_step expat spurious i stanza h a (conn, SB_reconnect_wait n) (conn, SB_reconnect n)"
| reconnect_timeout: "\<not> cn_conn_mutex conn \<Longrightarrow>
    send_step expat spurious i stanza h a (conn, SB_reconnect_wait n) (send_abandon i conn, SB_return MIO_ERROR_TIMEOUT)"
| reconnect_error: "\<not> cn_conn_mutex conn \<Longrightarrow>
    send_step expat spurious i stanza h a (conn, SB_reconnect_wait n) (send_abandon i conn, SB_return MIO_ERROR_COND_WAIT)"
| test_set: "request_predicate conn i \<Longrightarrow>
    send_step expat spurious i stanza h a (conn, SB_test) (conn, SB_return MIO_ERROR_PREDICATE)"
| test_clear: "\<not> request_predicate conn i \<Longrightarrow>
    send_step expat spurious i stanza h a (conn, SB_test) (conn, SB_block)"
| block_error: "\<not> cn_mutex_ok conn \<Longrightarrow>
    send_step expat spurious i stanza h a (conn, SB_block) (conn, SB_return MIO_ERROR_MUTEX)"
| block: "cn_mutex_ok conn \<Longrightarrow>
    send_step expat spurious i stanza h a (conn, SB_block) (request_update i request_block conn, SB_wait)"
| wake: "request_woken conn i \<or> spurious \<Longrightarrow>
    send_step expat spurious i stanza h a (conn, SB_wait) (snd (mio_request_delete conn i), SB_return MIO_OK)"
| timeout: "\<not> request_woken conn i \<Longrightarrow>
    send_step expat spurious i stanza h a (conn, SB_wait) (send_abandon i conn, SB_return MIO_ERROR_TIMEOUT)"
| wait_error: "\<not> request_woken conn i \<Longrightarrow>
    send_step expat spurious i stanza h a (conn, SB_wait) (send_abandon i conn, SB_return MIO_ERROR_COND_WAIT)"
| deliver: "stanza_arrives expat reply conn = Some conn' \<Longrightarrow>
    send_step expat spurious i stanza h a (conn, pc) (conn', pc)"
| others: "others_frame i a conn conn' \<Longrightarrow>
    send_step expat spurious i stanza h a (conn, pc) (conn', pc)"

abbreviation send_steps :: "expat \<Rightarrow> bool \<Rightarrow> string \<Rightarrow> xmpp_stanza \<Rightarrow> mio_handler_fn \<Rightarrow> nat \<Rightarrow> send_state \<Rightarrow> send_state \<Rightarrow> bool" where
  "send_steps expat spurious i stanza h a \<equiv> (send_step expat spurious i stanza h a)\<^sup>*\<^sup>*"

inductive_cases send_step_waitE: "send_step expat spurious i stanza h a (conn, SB_wait) (conn', pc')"
inductive_cases send_step_lockE: "send_step expat spurious i stanza h a (conn, SB_lock n) (conn', pc')"

section \<open>What the callbacks of others leave alone\<close>

definition foreign_frame :: "string \<Rightarrow> nat \<Rightarrow> mio_conn \<Rightarrow> mio_conn \<Rightarrow> bool" where
  "foreign_frame i a conn s \<longleftrightarrow> i \<noteq> ''pubsub_data_rx'' \<and> call_frame conn s \<and> response_ids s = response_ids conn \<and>
     request_find s i = request_find conn i \<and> cn_responses s a = cn_responses conn a"

lemma request_find_responses [simp]: "request_find (conn\<lparr>cn_responses := f\<rparr>) i = request_find conn i"
  by (simp add: request_find_def)

lemma request_find_handlers [simp]: "request_find (conn\<lparr>cn_id_handlers := ids, cn_handlers := hs\<rparr>) i = request_find conn i"
  by (simp add: request_find_def)

lemma response_ids_upd: "rsp_id r = rsp_id (cn_responses conn a) \<Longrightarrow>
   response_ids (conn\<lparr>cn_responses := (cn_responses conn)(a := r)\<rparr>) = response_ids conn"
  by (auto simp: response_ids_def fun_eq_iff)

lemma signal_fields [simp]:
  "cn_responses (mio_cond_signal conn j) = cn_responses conn" "response_ids (mio_cond_signal conn j) = response_ids conn"
  by (simp_all add: mio_cond_signal_def request_update_def response_ids_def fun_eq_iff)

lemma enqueue_fields:
  assumes "mio_pubsub_rx_queue_enqueue conn r = Some conn'"
  shows "cn_responses conn' = cn_responses conn" "request_find conn' j = request_find conn j"
  using assms by (auto simp: mio_pubsub_rx_queue_enqueue_def request_find_def split: if_splits list.splits)

lemma data_receive_foreign:
  assumes "mio_handler_pubsub_data_receive expat conn stanza response = Some (err, conn', r)" "i \<noteq> ''pubsub_data_rx''"
    "\<And>r0. response = Some r0 \<Longrightarrow> rsp_id r0 \<noteq> i"
  shows "cn_responses conn' = cn_responses conn" "request_find conn' i = request_find conn i"
    "\<And>r0. response = Some r0 \<Longrightarrow> rsp_id r = rsp_id r0"
proof -
  note d = assms(1) [unfolded mio_handler_pubsub_data_receive_def Let_def]
  show "cn_responses conn' = cn_responses conn"
    using d by (auto split: option.splits Option.bind_splits if_splits) (auto intro: enqueue_fields(1))
  show "request_find conn' i = request_find conn i"
    using d assms(2,3)
    by (auto simp: request_find_signal split: option.splits Option.bind_splits if_splits) (auto intro: enqueue_fields(2))
  show "rsp_id r = rsp_id r0" if "response = Some r0" for r0
    using d that xd_rid_parse [OF _ keeps_rid_starts(7)]
    by (auto simp: xd_rid_def split: option.splits Option.bind_splits if_splits) (fastforce simp: xml_data_new_def)+
qed

lemma reply_handler_well_behaved: "reply_handler h = Some hf \<Longrightarrow> well_behaved hf"
  by (cases h) (auto simp: reply_handler_def well_behaved_parse well_behaved_packet)

lemma handler_data_call_foreign:
  assumes "foreign_frame i a conn s" "foreign i a (response_ids conn) shd" "handler_data_call expat shd stanza s = Some (err, s')"
  shows "foreign_frame i a conn s'"
proof -
  have f: "i \<noteq> ''pubsub_data_rx''" "call_frame conn s" "response_ids s = response_ids conn" "request_find s i = request_find conn i"
    "cn_responses s a = cn_responses conn a" using assms(1) by (simp_all add: foreign_frame_def)
  have cf: "call_frame conn s'" using call_frame_trans [OF f(2) call_frame_handler_data_call [OF assms(3)]] .
  obtain h where h: "hd_handler shd = Some h" using assms(3) by (auto simp: handler_data_call_def split: Option.bind_splits)
  have b: "b \<noteq> a \<and> rsp_id (cn_responses s b) \<noteq> i" if "hd_response shd = Some b" for b
    using assms(2) that fun_cong [OF f(3), of b] by (auto simp: foreign_def response_ids_def)
  show ?thesis
  proof (cases "reply_handler h")
    case None
    have nk: "h \<noteq> H_keepalive" using assms(3) h None by (auto simp: handler_data_call_def)
    show ?thesis
    proof (cases "hd_response shd")
      case resp: None
      then obtain r where "mio_handler_pubsub_data_receive expat s stanza None = Some (err, s', r)"
        using assms(3) h None nk by (auto simp: handler_data_call_def split: Option.bind_splits)
      from data_receive_foreign [OF this f(1)] f cf show ?thesis by (simp add: foreign_frame_def response_ids_def fun_eq_iff)
    next
      case resp: (Some c)
      then obtain s1 r where 1: "mio_handler_pubsub_data_receive expat s stanza (Some (cn_responses s c)) = Some (err, s1, r)"
        "s' = s1\<lparr>cn_responses := (cn_responses s1)(c := r)\<rparr>"
        using assms(3) h None nk by (auto simp: handler_data_call_def split: Option.bind_splits)
      have "rsp_id (cn_responses s c) \<noteq> i" "c \<noteq> a" using b [OF resp] by simp_all
      then have "rsp_id r = rsp_id (cn_responses s c)" "cn_responses s1 = cn_responses s" "request_find s1 i = request_find s i" "c \<noteq> a"
        using data_receive_foreign [OF 1(1) f(1)] by auto
      with f cf 1(2) show ?thesis by (auto simp: foreign_frame_def response_ids_def fun_eq_iff)
    qed
  next
    case (Some hf)
    then obtain c r' sg where 1: "hd_response shd = Some c"
      "hf expat (mio_request_get s (rsp_id (cn_responses s c)) \<noteq> None) stanza (cn_responses s c) = Some (err, r', sg)"
      "s' = (let s1 = s\<lparr>cn_responses := (cn_responses s)(c := r')\<rparr> in
         if sg then mio_cond_signal s1 (rsp_id (cn_responses s c)) else s1)"
      using assms(3) h by (auto simp: handler_data_call_def Let_def split: Option.bind_splits)
    have w: "rsp_id r' = rsp_id (cn_responses s c)"
      using reply_handler_well_behaved [OF Some] 1(2) by (auto simp: well_behaved_def)
    with b [OF 1(1)] f cf 1(3) response_ids_upd [OF w] show ?thesis
      by (auto simp: foreign_frame_def request_find_signal Let_def)
  qed
qed

interpretation foreign_delivery: callbacks cn_authenticated "generic_call expat stanza" "foreign_frame i a conn"
  "foreign i a (response_ids conn)" for expat stanza i a conn
proof unfold_locales
  show "foreign_frame i a conn s'" if "foreign_frame i a conn s" "foreign i a (response_ids conn) (hl_userdata item)"
    "generic_call expat stanza item s = Some (keep, s')" for s item keep s'
    using that handler_data_call_foreign [OF that(1,2)]
    by (auto simp: generic_call_def mio_handler_generic_def mio_handler_generic_id_def
        split: generic_fn.splits Option.bind_splits)
qed

section \<open>The sender's own reply\<close>

definition own_data :: "mio_handler_fn \<Rightarrow> string \<Rightarrow> nat \<Rightarrow> mio_handler_data" where
  "own_data h i a = \<lparr>hd_handler = Some h, hd_response = Some a, hd_request = Some i\<rparr>"

definition own_item :: "mio_handler_fn \<Rightarrow> string \<Rightarrow> nat \<Rightarrow> (generic_fn, mio_handler_data) xmpp_handlist \<Rightarrow> bool" where
  "own_item h i a item \<longleftrightarrow> hl_handler item = G_generic_id \<and> hl_userdata item = own_data h i a"

text \<open>The response at \<open>a\<close> is what the handler made of a stanza with the identifier and of a response labelled with it, returning MIO_OK.\<close>

definition completed :: "expat \<Rightarrow> mio_handler \<Rightarrow> string \<Rightarrow> mio_response \<Rightarrow> bool" where
  "completed expat hf i r \<longleftrightarrow>
     (\<exists>reply r0. xmpp_stanza_get_id reply = Some (Some i) \<and> rsp_id r0 = i \<and> hf expat True reply r0 = Some (MIO_OK, r, True))"

lemma own_call:
  assumes "reply_handler h = Some hf" "generic_call expat stanza item s = Some (keep, s')" "own_item h i a item"
  shows "response_ids s' = response_ids s" "call_frame s s'"
    "keep \<Longrightarrow> request_find s' i = request_find s i"
    "\<not> keep \<Longrightarrow> hf expat True stanza (cn_responses s a) = Some (MIO_OK, cn_responses s' a, True) \<and>
       request_find s' i \<in> {request_find s i, map_option request_signal (request_find s i)}"
proof -
  obtain err r' sg where 1: "hf expat (mio_request_get s (rsp_id (cn_responses s a)) \<noteq> None) stanza (cn_responses s a) = Some (err, r', sg)"
    "s' = (let s1 = s\<lparr>cn_responses := (cn_responses s)(a := r')\<rparr> in
       if sg then mio_cond_signal s1 (rsp_id (cn_responses s a)) else s1)" "keep = (err \<noteq> MIO_OK)"
    using assms
    by (auto simp: generic_call_def mio_handler_generic_id_def own_item_def own_data_def handler_data_call_def Let_def
        split: Option.bind_splits)
  have w: "rsp_id r' = rsp_id (cn_responses s a)" "sg \<longleftrightarrow> err = MIO_OK" "sg \<longrightarrow> mio_request_get s (rsp_id (cn_responses s a)) \<noteq> None"
    using reply_handler_well_behaved [OF assms(1)] 1(1) unfolding well_behaved_def by blast+
  show "call_frame s s'" by (rule call_frame_generic_call [OF assms(2)])
  show "response_ids s' = response_ids s" using 1(2) response_ids_upd [OF w(1)] by (auto simp: Let_def)
  show "request_find s' i = request_find s i" if keep using that 1(2,3) w(2) by simp
  show "hf expat True stanza (cn_responses s a) = Some (MIO_OK, cn_responses s' a, True) \<and>
      request_find s' i \<in> {request_find s i, map_option request_signal (request_find s i)}" if "\<not> keep"
  proof -
    have e: "err = MIO_OK" "sg" using that 1(3) w(2) by simp_all
    then have "(mio_request_get s (rsp_id (cn_responses s a)) \<noteq> None) = True" using w(3) by simp
    with 1(1) e have "hf expat True stanza (cn_responses s a) = Some (MIO_OK, r', True)" by simp
    with 1(2) e show ?thesis by (simp add: request_find_signal)
  qed
qed

text \<open>
  What the delivery of a stanza can do to the sender's request: nothing, or a failed attempt of the handler, or its
  completion.
\<close>

definition delivered :: "expat \<Rightarrow> mio_handler \<Rightarrow> string \<Rightarrow> nat \<Rightarrow> mio_conn \<Rightarrow> mio_conn \<Rightarrow>
    (generic_fn, mio_handler_data) xmpp_handlist list \<Rightarrow> bool" where
  "delivered expat hf i a conn conn' chain \<longleftrightarrow> call_frame conn conn' \<and> response_ids conn' = response_ids conn \<and>
     (chain = cn_id_handlers conn i \<and> request_find conn' i = request_find conn i \<and>
        (chain = [] \<longrightarrow> cn_responses conn' a = cn_responses conn a) \<or>
      cn_id_handlers conn i \<noteq> [] \<and> chain = [] \<and> completed expat hf i (cn_responses conn' a) \<and>
        request_find conn' i \<in> {request_find conn i, map_option request_signal (request_find conn i)})"

lemma delivered_refl: "delivered expat hf i a conn conn (cn_id_handlers conn i)"
  by (simp add: delivered_def call_frame_refl)

lemma delivered_foreign:
  assumes "delivered expat hf i a conn c1 chain" "foreign_frame i a c1 c"
  shows "delivered expat hf i a conn c chain"
  using assms by (auto simp: delivered_def foreign_frame_def intro: call_frame_trans)

text \<open>The chain of the sender's identifier.\<close>

lemma own_chain_fire:
  assumes h: "reply_handler h = Some hf" and sid: "xmpp_stanza_get_id stanza = Some (Some i)"
    and chain: "cn_id_handlers conn i = [] \<or> (\<exists>item. cn_id_handlers conn i = [item] \<and> own_item h i a item \<and> rsp_id (cn_responses conn a) = i)"
    and fire: "fire_id_loop cn_authenticated (generic_call expat stanza) [] [] (cn_id_handlers conn i) conn = Some (chain, c1)"
  shows "delivered expat hf i a conn c1 chain"
  using chain
proof (elim disjE exE conjE)
  assume "cn_id_handlers conn i = []"
  then show ?thesis using fire delivered_refl [of expat hf i a conn] by auto
next
  fix item assume item: "cn_id_handlers conn i = [item]" "own_item h i a item" "rsp_id (cn_responses conn a) = i"
  show ?thesis
  proof (cases "hl_user_handler item \<and> \<not> cn_authenticated conn")
    case True
    then show ?thesis using fire item delivered_refl [of expat hf i a conn] by auto
  next
    case False
    with fire have "(do { (keep, s') \<leftarrow> generic_call expat stanza item conn; Some (if keep then [item] else [], s') }) = Some (chain, c1)"
      unfolding item(1) by (cases "generic_call expat stanza item conn") (auto split: if_splits)
    then obtain keep where 1: "generic_call expat stanza item conn = Some (keep, c1)" "chain = (if keep then [item] else [])"
      by (cases "generic_call expat stanza item conn") auto
    note oc = own_call [OF h 1(1) item(2)]
    show ?thesis
    proof (cases keep)
      case True
      then show ?thesis using oc(1,2,3) 1(2) item by (simp add: delivered_def)
    next
      case False
      then show ?thesis using oc(1,2,4) 1(2) item sid by (auto simp: delivered_def completed_def)
    qed
  qed
qed

lemma stanza_arrives_delivered:
  assumes h: "reply_handler h = Some hf" "i \<noteq> ''pubsub_data_rx''" and ex: "exclusive i a conn"
    and chain: "cn_id_handlers conn i = [] \<or> (\<exists>item. cn_id_handlers conn i = [item] \<and> own_item h i a item \<and> rsp_id (cn_responses conn a) = i)"
    and arr: "stanza_arrives expat stanza conn = Some conn'"
  shows "delivered expat hf i a conn conn' (cn_id_handlers conn' i)" "exclusive i a conn'"
proof -
  obtain ids c1 hs c where ids: "(case the (xmpp_stanza_get_id stanza) of None \<Rightarrow> Some (cn_id_handlers conn, conn)
       | Some k \<Rightarrow> do { (ch, s') \<leftarrow> fire_id_loop cn_authenticated (generic_call expat stanza) [] [] (cn_id_handlers conn k) conn;
                       Some ((cn_id_handlers conn)(k := ch), s') }) = Some (ids, c1)"
    and hs: "fire_loop cn_authenticated (generic_call expat stanza) stanza [] (handlers_enable (cn_handlers conn)) c1 = Some (hs, c)"
    and conn': "conn' = c\<lparr>cn_id_handlers := ids, cn_handlers := hs\<rparr>" and some: "xmpp_stanza_get_id stanza \<noteq> None"
    using arr by (auto simp: stanza_arrives_def handler_fire_stanza_def split: Option.bind_splits)
  have sub: "set (ids j) \<subseteq> set (cn_id_handlers conn j)" for j
    using ids by (auto split: option.splits Option.bind_splits if_splits) (use fire_id_loop_subset in fastforce)
  have stage1: "delivered expat hf i a conn c1 (ids i)"
  proof (cases "the (xmpp_stanza_get_id stanza)")
    case None
    then show ?thesis using ids delivered_refl by auto
  next
    case (Some k)
    then obtain ch where ch: "fire_id_loop cn_authenticated (generic_call expat stanza) [] [] (cn_id_handlers conn k) conn = Some (ch, c1)"
      "ids = (cn_id_handlers conn)(k := ch)" using ids by (auto split: Option.bind_splits)
    show ?thesis
    proof (cases "k = i")
      case True
      have "xmpp_stanza_get_id stanza = Some (Some i)" using Some some True by auto
      from own_chain_fire [OF h(1) this chain] ch True show ?thesis by simp
    next
      case False
      have "foreign_delivery.all_good i a conn (cn_id_handlers conn k)"
        using ex False by (auto simp: foreign_delivery.all_good_def list_all_iff exclusive_def)
      then have "foreign_frame i a conn c1"
        by (rule foreign_delivery.fire_id_invar [OF ch(1)]) (simp add: foreign_frame_def call_frame_refl h(2))
      from delivered_foreign [OF delivered_refl this] ch(2) False show ?thesis by simp
    qed
  qed
  have r1: "response_ids c1 = response_ids conn" using stage1 by (simp add: delivered_def)
  have "foreign_delivery.all_good i a c1 (handlers_enable (cn_handlers conn))"
    using ex r1 by (auto simp: foreign_delivery.all_good_def list_all_iff exclusive_def handlers_enable_def)
  then have ff: "foreign_frame i a c1 c"
    by (rule foreign_delivery.fire_invar [OF hs]) (simp add: foreign_frame_def call_frame_refl h(2))
  have d: "delivered expat hf i a conn c (ids i)" by (rule delivered_foreign [OF stage1 ff])
  then show "delivered expat hf i a conn conn' (cn_id_handlers conn' i)"
    using conn' by (auto simp: delivered_def call_frame_def rx_queue_ok_def response_ids_def [abs_def])
  have r': "response_ids conn' = response_ids conn" using d conn' by (auto simp: delivered_def response_ids_def [abs_def])
  have "hl_userdata item \<in> hl_userdata ` set (cn_handlers conn)" if "item \<in> set hs" for item
    using fire_loop_subset [OF hs] that by (force simp: handlers_enable_def)
  then show "exclusive i a conn'"
    using ex sub r' conn' unfolding exclusive_def by (fastforce simp: subset_iff)
qed

section \<open>The invariant\<close>

definition chain_ok :: "mio_handler_fn \<Rightarrow> string \<Rightarrow> nat \<Rightarrow> mio_conn \<Rightarrow> bool" where
  "chain_ok h i a conn \<longleftrightarrow> cn_id_handlers conn i = [] \<or>
     (\<exists>item. cn_id_handlers conn i = [item] \<and> own_item h i a item \<and> rsp_id (cn_responses conn a) = i)"

definition send_core :: "expat \<Rightarrow> mio_handler_fn \<Rightarrow> mio_handler \<Rightarrow> string \<Rightarrow> nat \<Rightarrow> mio_conn \<Rightarrow> bool" where
  "send_core expat h hf i a conn \<longleftrightarrow> distinct (map rq_id (cn_request_table conn)) \<and> cn_rwlock_ok conn \<and>
     exclusive i a conn \<and> chain_ok h i a conn \<and>
     (request_predicate conn i \<longrightarrow> completed expat hf i (cn_responses conn a) \<and> cn_id_handlers conn i = []) \<and>
     (request_woken conn i \<longrightarrow> request_predicate conn i)"

definition send_inv :: "expat \<Rightarrow> bool \<Rightarrow> mio_handler_fn \<Rightarrow> mio_handler \<Rightarrow> string \<Rightarrow> nat \<Rightarrow> send_state \<Rightarrow> bool" where
  "send_inv expat spurious h hf i a s \<longleftrightarrow> (case s of (conn, pc) \<Rightarrow> send_core expat h hf i a conn \<and>
     (pc = SB_start \<or> pc = SB_register \<longrightarrow> request_find conn i = None \<and> cn_id_handlers conn i = []) \<and>
     (\<forall>e. pc = SB_return e \<and> e \<notin> {MIO_ERROR_PREDICATE, MIO_ERROR_MUTEX} \<longrightarrow> request_find conn i = None \<and>
        (e \<noteq> MIO_OK \<longrightarrow> cn_id_handlers conn i = [])) \<and>
     (pc = SB_return MIO_OK \<and> \<not> spurious \<longrightarrow> completed expat hf i (cn_responses conn a) \<and> cn_id_handlers conn i = []))"

definition same_core :: "mio_conn \<Rightarrow> mio_conn \<Rightarrow> bool" where
  "same_core conn conn' \<longleftrightarrow> cn_request_table conn' = cn_request_table conn \<and> cn_id_handlers conn' = cn_id_handlers conn \<and>
     cn_handlers conn' = cn_handlers conn \<and> cn_responses conn' = cn_responses conn \<and> cn_rwlock_ok conn' = cn_rwlock_ok conn"

lemma same_core_find: "same_core conn conn' \<Longrightarrow> request_find conn' i = request_find conn i"
  by (simp add: same_core_def request_find_def)

lemma send_core_same: "same_core conn conn' \<Longrightarrow> send_core expat h hf i a conn \<Longrightarrow> send_core expat h hf i a conn'"
  by (simp add: same_core_def send_core_def exclusive_def chain_ok_def request_predicate_def request_woken_def request_find_def
      response_ids_def [abs_def])

lemma same_core_updates [simp]:
  "same_core conn (conn\<lparr>cn_conn_mutex := b\<rparr>)" "same_core conn (conn\<lparr>cn_open_requests := n\<rparr>)"
  by (simp_all add: same_core_def)

lemma same_core_send: "mio_send_nonblocking conn stanza = (err, conn') \<Longrightarrow> same_core conn conn'"
  by (auto simp: mio_send_nonblocking_def xmpp_send_raw_def same_core_def split: sum.splits if_splits)

lemma same_core_wait: "sem_wait conn = Some conn' \<Longrightarrow> same_core conn conn'"
  by (auto simp: sem_wait_def split: if_splits)

lemma request_predicate_None [simp]: "request_find conn i = None \<Longrightarrow> \<not> request_predicate conn i"
  "request_find conn i = None \<Longrightarrow> \<not> request_woken conn i"
  by (simp_all add: request_predicate_def request_woken_def)

text \<open>Leaving: the request is deleted, with or without its handler.\<close>

lemma send_core_delete:
  assumes "send_core expat h hf i a conn" "ids = cn_id_handlers conn \<or> ids = (cn_id_handlers conn)(i := [])"
  shows "send_core expat h hf i a (snd (mio_request_delete (conn\<lparr>cn_id_handlers := ids\<rparr>) i))"
    "request_find (snd (mio_request_delete (conn\<lparr>cn_id_handlers := ids\<rparr>) i)) i = None"
    "cn_id_handlers (snd (mio_request_delete (conn\<lparr>cn_id_handlers := ids\<rparr>) i)) = ids"
    "cn_responses (snd (mio_request_delete (conn\<lparr>cn_id_handlers := ids\<rparr>) i)) = cn_responses conn"
proof -
  let ?c = "snd (mio_request_delete (conn\<lparr>cn_id_handlers := ids\<rparr>) i)"
  have d: "distinct (map rq_id (cn_request_table conn))" "cn_rwlock_ok conn" using assms(1) by (simp_all add: send_core_def)
  show f: "request_find ?c i = None"
    using d find_request_remove_list [OF d(1)] by (auto simp: mio_request_delete_def request_find_def split: option.splits)
  show i: "cn_id_handlers ?c = ids" "cn_responses ?c = cn_responses conn"
    by (auto simp: mio_request_delete_def split: option.splits)
  have "distinct (map rq_id (cn_request_table ?c))" "cn_rwlock_ok ?c" "cn_handlers ?c = cn_handlers conn"
    using d distinct_request_remove by (auto simp: mio_request_delete_def split: option.splits)
  moreover have "exclusive i a ?c" using assms i calculation(3) by (auto simp: send_core_def exclusive_def response_ids_def [abs_def])
  moreover have "chain_ok h i a ?c" using assms i by (auto simp: send_core_def chain_ok_def)
  ultimately show "send_core expat h hf i a ?c" using f by (simp add: send_core_def)
qed

lemma send_abandon_eq:
  assumes "send_core expat h hf i a conn"
  shows "send_abandon i conn = snd (mio_request_delete (conn\<lparr>cn_id_handlers := (cn_id_handlers conn)(i := [])\<rparr>) i)"
proof -
  have "handler_unlink G_generic_id (cn_id_handlers conn i) = []"
    using assms by (auto simp: send_core_def chain_ok_def own_item_def)
  then show ?thesis by (simp add: send_abandon_def xmpp_id_handler_delete_def)
qed

lemma send_core_abandon:
  assumes "send_core expat h hf i a conn"
  shows "send_core expat h hf i a (send_abandon i conn)" "request_find (send_abandon i conn) i = None"
    "cn_id_handlers (send_abandon i conn) i = []"
  using send_core_delete [OF assms disjI2 [OF refl]] by (simp_all add: send_abandon_eq [OF assms])

lemma send_core_finish:
  assumes "send_core expat h hf i a conn"
  shows "send_core expat h hf i a (snd (mio_request_delete conn i))" "request_find (snd (mio_request_delete conn i)) i = None"
    "cn_id_handlers (snd (mio_request_delete conn i)) = cn_id_handlers conn" "cn_responses (snd (mio_request_delete conn i)) = cn_responses conn"
  using send_core_delete [OF assms, of "cn_id_handlers conn"] by simp_all

text \<open>Registering.\<close>

lemma send_core_register:
  assumes core: "send_core expat h hf i a conn" and fresh: "request_find conn i = None" "cn_id_handlers conn i = []"
    and reg: "mio_handler_id_add conn h i mio_request_new (Some a) = Some (err, conn')"
  shows "send_core expat h hf i a conn'"
proof -
  let ?r = "mio_request_new\<lparr>rq_id := i, rq_handler := Some h, rq_handler_type := MIO_HANDLER_ID, rq_response := Some a\<rparr>"
  have c: "distinct (map rq_id (cn_request_table conn))" "cn_rwlock_ok conn" "exclusive i a conn"
    using core by (simp_all add: send_core_def)
  have n: "i \<notin> rq_id ` set (cn_request_table conn)" using fresh(1) by (simp add: request_find_None)
  have t: "cn_request_table conn' = (if err = MIO_OK then cn_request_table conn @ [?r] else cn_request_table conn)"
    "cn_id_handlers conn' = (if err = MIO_OK then (cn_id_handlers conn)(i := [(handlist_item True G_generic_id (own_data h i a))\<lparr>hl_id := i\<rparr>])
       else cn_id_handlers conn)"
    "cn_handlers conn' = cn_handlers conn" "cn_rwlock_ok conn'" "\<forall>b. b \<noteq> a \<longrightarrow> cn_responses conn' b = cn_responses conn b"
    "err = MIO_OK \<longrightarrow> rsp_id (cn_responses conn' a) = i"
    using reg fresh c(2)
    by (auto simp: mio_handler_id_add_def mio_request_add_def Let_def xmpp_id_handler_add_def id_handler_add_def
        handler_registered_def mio_handler_data_new_def own_data_def MIO_OK_def MIO_ERROR_TOO_MANY_OPEN_REQUESTS_def
        MIO_ERROR_RW_LOCK_def split: if_splits)
  have "find (\<lambda>r. rq_id r = i) (cn_request_table conn) = None" using fresh(1) by (simp add: request_find_def)
  then have f: "request_find conn' i = (if err = MIO_OK then Some ?r else None)"
    by (simp add: request_find_def t(1) find_append)
  have "exclusive i a conn'"
    using c(3) t fresh(2) by (fastforce simp: exclusive_def foreign_def response_ids_def split: option.splits if_splits)
  moreover have "chain_ok h i a conn'" using t(2,6) fresh(2) by (simp add: chain_ok_def own_item_def handlist_item_def)
  ultimately show ?thesis
    using c(1) t n f by (auto simp: send_core_def request_predicate_def request_woken_def mio_request_new_def)
qed

text \<open>Deliveries.\<close>

lemma send_core_deliver:
  assumes core: "send_core expat h hf i a conn" and h: "reply_handler h = Some hf" "i \<noteq> ''pubsub_data_rx''"
    and arr: "stanza_arrives expat stanza conn = Some conn'"
  shows "send_core expat h hf i a conn'" "request_find conn i = None \<Longrightarrow> request_find conn' i = None"
    "cn_id_handlers conn i = [] \<Longrightarrow> cn_id_handlers conn' i = [] \<and> cn_responses conn' a = cn_responses conn a"
proof -
  have c: "distinct (map rq_id (cn_request_table conn))" "cn_rwlock_ok conn" "exclusive i a conn" "chain_ok h i a conn"
    "request_predicate conn i \<Longrightarrow> completed expat hf i (cn_responses conn a) \<and> cn_id_handlers conn i = []"
    "request_woken conn i \<Longrightarrow> request_predicate conn i"
    using core by (simp_all add: send_core_def)
  note d = stanza_arrives_delivered [OF h c(3) c(4) [unfolded chain_ok_def] arr]
  have f: "call_frame conn conn'" using d(1) by (simp add: delivered_def)
  show "request_find conn' i = None" if "request_find conn i = None" using d(1) that by (auto simp: delivered_def)
  show "cn_id_handlers conn' i = [] \<and> cn_responses conn' a = cn_responses conn a" if "cn_id_handlers conn i = []"
    using d(1) that by (auto simp: delivered_def)
  have "response_ids conn' a = response_ids conn a" using d(1) by (simp add: delivered_def)
  then have "chain_ok h i a conn'" using d(1) c(4) by (auto simp: delivered_def chain_ok_def response_ids_def)
  moreover have "completed expat hf i (cn_responses conn' a) \<and> cn_id_handlers conn' i = []" if "request_predicate conn' i"
  proof (cases "cn_id_handlers conn' i = cn_id_handlers conn i \<and> request_find conn' i = request_find conn i \<and>
      (cn_id_handlers conn' i = [] \<longrightarrow> cn_responses conn' a = cn_responses conn a)")
    case True
    then show ?thesis using c(5) that by (simp add: request_predicate_def)
  next
    case False
    then show ?thesis using d(1) by (auto simp: delivered_def)
  qed
  moreover have "request_predicate conn' i" if "request_woken conn' i"
    using d(1) that c(6) unfolding delivered_def request_woken_def request_predicate_def
    by (cases "request_find conn i") (auto simp: request_signal_def)
  moreover have "distinct (map rq_id (cn_request_table conn'))" "cn_rwlock_ok conn'" using f c(1,2) by (simp_all add: call_frame_def)
  ultimately show "send_core expat h hf i a conn'" using d(2) by (simp add: send_core_def)
qed

lemma send_core_others:
  assumes "send_core expat h hf i a conn" "others_frame i a conn conn'"
  shows "send_core expat h hf i a conn'"
  using assms
  by (simp add: send_core_def others_frame_def chain_ok_def request_predicate_def request_woken_def)

lemma send_core_block:
  assumes "send_core expat h hf i a conn"
  shows "send_core expat h hf i a (request_update i request_block conn)"
proof -
  have "request_find (request_update i request_block conn) i = map_option request_block (request_find conn i)"
    using find_request_update_list [of request_block i i "cn_request_table conn"]
    by (simp add: request_find_def request_update_def request_block_def)
  moreover have "map rq_id (request_update_list i request_block (cn_request_table conn)) = map rq_id (cn_request_table conn)"
    by (rule map_rq_id_update) (simp add: request_block_def)
  ultimately show ?thesis
    using assms
    by (auto simp: send_core_def exclusive_def chain_ok_def request_predicate_def request_woken_def response_ids_def [abs_def]
        request_update_def request_block_def split: option.splits)
qed

lemma send_inv_core: "send_inv expat spurious h hf i a (conn, pc) \<Longrightarrow> send_core expat h hf i a conn"
  by (simp add: send_inv_def)

lemma send_inv_mid:
  "send_core expat h hf i a conn \<Longrightarrow> pc \<noteq> SB_start \<Longrightarrow> pc \<noteq> SB_register \<Longrightarrow> \<forall>e. pc \<noteq> SB_return e \<Longrightarrow>
   send_inv expat spurious h hf i a (conn, pc)"
  by (simp add: send_inv_def)

lemma send_inv_abandon:
  "send_core expat h hf i a conn \<Longrightarrow> e \<noteq> MIO_OK \<Longrightarrow> send_inv expat spurious h hf i a (send_abandon i conn, SB_return e)"
  using send_core_abandon by (simp add: send_inv_def)

lemma send_inv_return:
  "send_core expat h hf i a conn \<Longrightarrow> e \<in> {MIO_ERROR_PREDICATE, MIO_ERROR_MUTEX} \<Longrightarrow> send_inv expat spurious h hf i a (conn, SB_return e)"
  by (auto simp: send_inv_def MIO_OK_def MIO_ERROR_PREDICATE_def MIO_ERROR_MUTEX_def)

lemmas send_errors_not_ok = MIO_OK_def MIO_ERROR_CONNECTION_def MIO_ERROR_TIMEOUT_def MIO_ERROR_COND_WAIT_def

lemma send_step_inv:
  assumes "send_step expat spurious i stanza h a s s'" "send_inv expat spurious h hf i a s"
    and h: "reply_handler h = Some hf" "i \<noteq> ''pubsub_data_rx''"
  shows "send_inv expat spurious h hf i a s'"
  using assms(1,2)
proof (induction rule: send_step.induct)
  case (take_place conn conn')
  note sc = same_core_wait [OF take_place(1)]
  have "cn_id_handlers conn' = cn_id_handlers conn" using sc by (simp add: same_core_def)
  then show ?case
    using take_place(2) send_core_same [OF sc send_inv_core [OF take_place(2)]] same_core_find [OF sc] by (simp add: send_inv_def)
next
  case (register conn err conn')
  have f: "request_find conn i = None" "cn_id_handlers conn i = []" using register(2) by (simp_all add: send_inv_def)
  show ?case by (rule send_inv_mid [OF send_core_register [OF send_inv_core [OF register(2)] f register(1)]]) simp_all
next
  case (sent conn err conn' n)
  show ?case by (rule send_inv_mid [OF send_core_same [OF same_core_send [OF sent(1)] send_inv_core [OF sent(3)]]]) simp_all
next
  case (send_failed conn conn' n)
  show ?case by (rule send_inv_mid [OF send_core_same [OF same_core_send [OF send_failed(1)] send_inv_core [OF send_failed(3)]]]) simp_all
next
  case (send_given_up conn conn' n)
  show ?case
    by (rule send_inv_abandon [OF send_core_same [OF same_core_send [OF send_given_up(1)] send_inv_core [OF send_given_up(3)]]])
      (simp add: send_errors_not_ok)
next
  case (lock conn n)
  show ?case by (rule send_inv_mid [OF send_core_same [OF same_core_updates(1) send_inv_core [OF lock(2)]]]) simp_all
next
  case (reconnected conn n)
  show ?case by (rule send_inv_mid [OF send_inv_core [OF reconnected(2)]]) simp_all
next
  case (reconnect_block conn n)
  show ?case by (rule send_inv_mid [OF send_core_same [OF same_core_updates(1) send_inv_core [OF reconnect_block(3)]]]) simp_all
next
  case (reconnect_wake conn n)
  show ?case by (rule send_inv_mid [OF send_inv_core [OF reconnect_wake(3)]]) simp_all
next
  case (reconnect_timeout conn n)
  show ?case by (rule send_inv_abandon [OF send_inv_core [OF reconnect_timeout(2)]]) (simp add: send_errors_not_ok)
next
  case (reconnect_error conn n)
  show ?case by (rule send_inv_abandon [OF send_inv_core [OF reconnect_error(2)]]) (simp add: send_errors_not_ok)
next
  case (test_set conn)
  show ?case by (rule send_inv_return [OF send_inv_core [OF test_set(2)]]) simp
next
  case (test_clear conn)
  show ?case by (rule send_inv_mid [OF send_inv_core [OF test_clear(2)]]) simp_all
next
  case (block_error conn)
  show ?case by (rule send_inv_return [OF send_inv_core [OF block_error(2)]]) simp
next
  case (block conn)
  show ?case by (rule send_inv_mid [OF send_core_block [OF send_inv_core [OF block(2)]]]) simp_all
next
  case (wake conn)
  note c = send_inv_core [OF wake(2)]
  have "completed expat hf i (cn_responses conn a) \<and> cn_id_handlers conn i = []" if "\<not> spurious"
    using wake(1) that c by (simp add: send_core_def)
  then show ?case using send_core_finish [OF c] by (simp add: send_inv_def)
next
  case (timeout conn)
  show ?case by (rule send_inv_abandon [OF send_inv_core [OF timeout(2)]]) (simp add: send_errors_not_ok)
next
  case (wait_error conn)
  show ?case by (rule send_inv_abandon [OF send_inv_core [OF wait_error(2)]]) (simp add: send_errors_not_ok)
next
  case (deliver reply conn conn' pc)
  from send_core_deliver [OF send_inv_core [OF deliver(2)] h deliver(1)] deliver(2) show ?case by (cases pc) (auto simp: send_inv_def)
next
  case (others conn conn' pc)
  from send_core_others [OF send_inv_core [OF others(2)] others(1)] others show ?case
    by (cases pc) (auto simp: send_inv_def others_frame_def)
qed

lemma send_steps_inv:
  assumes "send_steps expat spurious i stanza h a s s'" "send_inv expat spurious h hf i a s"
    "reply_handler h = Some hf" "i \<noteq> ''pubsub_data_rx''"
  shows "send_inv expat spurious h hf i a s'"
  using assms by (induction rule: rtranclp_induct) (auto intro: send_step_inv)

section \<open>Runs\<close>

text \<open>
  A connection on which a request can be sent: authenticated, locks free, at least two places, no stanza handler, and
  an identifier and a response nobody uses.
\<close>

definition send_ready :: "string \<Rightarrow> nat \<Rightarrow> mio_conn \<Rightarrow> bool" where
  "send_ready i a conn \<longleftrightarrow> requests_ok conn \<and> cn_rwlock_ok conn \<and> cn_mutex_ok conn \<and> cn_open_requests conn > 1 \<and>
     cn_handlers conn = [] \<and> request_find conn i = None \<and> cn_id_handlers conn i = [] \<and> exclusive i a conn \<and>
     i \<noteq> [] \<and> i \<noteq> ''pubsub_data_rx''"

text \<open>The request is registered and has not been answered.\<close>

definition send_open :: "mio_handler_fn \<Rightarrow> string \<Rightarrow> nat \<Rightarrow> mio_request \<Rightarrow> mio_conn \<Rightarrow> bool" where
  "send_open h i a q conn \<longleftrightarrow> cn_rwlock_ok conn \<and> cn_mutex_ok conn \<and> cn_handlers conn = [] \<and>
     (\<exists>item. cn_id_handlers conn i = [item] \<and> own_item h i a item) \<and>
     request_find conn i = Some q \<and> \<not> rq_predicate q \<and> rsp_id (cn_responses conn a) = i"

lemma send_ready_inv:
  "send_ready i a conn \<Longrightarrow> send_inv expat spurious h hf i a (conn, SB_start)"
  by (simp add: send_ready_def send_inv_def send_core_def requests_ok_def chain_ok_def)

lemma send_opens:
  assumes "send_ready i a conn"
  shows "\<exists>q conn'. send_steps expat spurious i stanza h a (conn, SB_start) (conn', SB_send 0) \<and> send_open h i a q conn' \<and>
     rq_cond q = Cond_idle \<and> cn_authenticated conn' = cn_authenticated conn \<and> cn_connected conn' = cn_connected conn \<and>
     cn_conn_mutex conn' = cn_conn_mutex conn \<and> cn_conn_predicate conn' = cn_conn_predicate conn"
proof -
  let ?c1 = "conn\<lparr>cn_open_requests := cn_open_requests conn - 1\<rparr>"
  let ?q = "mio_request_new\<lparr>rq_id := i, rq_handler := Some h, rq_handler_type := MIO_HANDLER_ID, rq_response := Some a\<rparr>"
  have w: "sem_wait conn = Some ?c1" using assms by (simp add: send_ready_def sem_wait_def)
  have n: "find (\<lambda>r. rq_id r = i) (cn_request_table conn) = None" using assms by (simp add: send_ready_def request_find_def)
  have ok: "cn_rwlock_ok conn" "cn_mutex_ok conn" "cn_handlers conn = []" "cn_id_handlers conn i = []" "1 < cn_open_requests conn"
    using assms by (simp_all add: send_ready_def)
  have "\<exists>c2. mio_handler_id_add ?c1 h i mio_request_new (Some a) = Some (MIO_OK, c2) \<and>
    cn_request_table c2 = cn_request_table conn @ [?q] \<and> rsp_id (cn_responses c2 a) = i \<and> cn_rwlock_ok c2 \<and> cn_mutex_ok c2 \<and>
    cn_handlers c2 = [] \<and> cn_id_handlers c2 i = [(handlist_item True G_generic_id (own_data h i a))\<lparr>hl_id := i\<rparr>] \<and>
    cn_authenticated c2 = cn_authenticated conn \<and> cn_connected c2 = cn_connected conn \<and>
    cn_conn_mutex c2 = cn_conn_mutex conn \<and> cn_conn_predicate c2 = cn_conn_predicate conn"
    using ok n
    by (simp add: mio_handler_id_add_def mio_request_add_def request_find_def Let_def xmpp_id_handler_add_def
        id_handler_add_def handler_registered_def mio_handler_data_new_def own_data_def)
  then obtain c2 where r: "mio_handler_id_add ?c1 h i mio_request_new (Some a) = Some (MIO_OK, c2)"
    "cn_request_table c2 = cn_request_table conn @ [?q]" "rsp_id (cn_responses c2 a) = i" "cn_rwlock_ok c2" "cn_mutex_ok c2"
    "cn_handlers c2 = []" "cn_id_handlers c2 i = [(handlist_item True G_generic_id (own_data h i a))\<lparr>hl_id := i\<rparr>]"
    "cn_authenticated c2 = cn_authenticated conn" "cn_connected c2 = cn_connected conn"
    "cn_conn_mutex c2 = cn_conn_mutex conn" "cn_conn_predicate c2 = cn_conn_predicate conn"
    by blast
  have "send_steps expat spurious i stanza h a (conn, SB_start) (c2, SB_send 0)"
    by (rule converse_rtranclp_into_rtranclp, rule send_step.take_place [OF w], rule r_into_rtranclp, rule send_step.register [OF r(1)])
  moreover have "send_open h i a ?q c2"
    using r n by (simp add: send_open_def own_item_def handlist_item_def request_find_def find_append mio_request_new_def)
  moreover have "rq_cond ?q = Cond_idle" by (simp add: mio_request_new_def)
  ultimately show ?thesis using r by blast
qed

lemma send_sent:
  assumes "send_open h i a q conn" "cn_authenticated conn" "printable stanza"
  shows "\<exists>conn'. send_step expat spurious i stanza h a (conn, SB_send n) (conn', SB_test) \<and> send_open h i a q conn' \<and>
     cn_authenticated conn'"
proof -
  obtain buf where buf: "xmpp_stanza_to_text stanza = Inr buf" using assms(3) by (auto simp: printable_def xmpp_stanza_to_text_eq)
  let ?c = "(xmpp_send_raw conn buf)\<lparr>cn_send_request_predicate := True\<rparr>"
  have "mio_send_nonblocking conn stanza = (MIO_OK, ?c)" using assms buf by (simp add: mio_send_nonblocking_def send_open_def)
  then have "send_step expat spurious i stanza h a (conn, SB_send n) (?c, SB_test)"
    by (rule send_step.sent) (simp add: MIO_OK_def MIO_ERROR_CONNECTION_def)
  moreover have "send_open h i a q ?c" "cn_authenticated ?c"
    using assms by (simp_all add: send_open_def xmpp_send_raw_def request_find_def)
  ultimately show ?thesis by blast
qed

text \<open>The reply arrives while the request is open.\<close>

lemma send_reply:
  assumes o: "send_open h i a q conn" "cn_authenticated conn" and h: "reply_handler h = Some hf"
    and sid: "xmpp_stanza_get_id reply = Some (Some i)"
    and run: "hf expat True reply (cn_responses conn a) = Some (MIO_OK, r, True)"
  shows "\<exists>conn'. send_step expat spurious i stanza h a (conn, pc) (conn', pc) \<and> cn_responses conn' a = r \<and>
     request_find conn' i = Some (request_signal q) \<and> cn_id_handlers conn' i = [] \<and> cn_mutex_ok conn'"
proof -
  obtain item where item: "cn_id_handlers conn i = [item]" "own_item h i a item" using o(1) by (auto simp: send_open_def)
  have f: "request_find conn i = Some q" "rsp_id (cn_responses conn a) = i" "cn_rwlock_ok conn" "cn_handlers conn = []" "cn_mutex_ok conn"
    using o(1) by (simp_all add: send_open_def)
  let ?c2 = "mio_cond_signal (conn\<lparr>cn_responses := (cn_responses conn)(a := r)\<rparr>) i"
  have "handler_data_call expat (own_data h i a) reply conn = Some (MIO_OK, ?c2)"
    using f h run by (simp add: handler_data_call_def own_data_def mio_request_get_def Let_def)
  then have call: "generic_call expat reply item conn = Some (False, ?c2)"
    using item(2) by (simp add: generic_call_def own_item_def mio_handler_generic_id_def)
  let ?c3 = "?c2\<lparr>cn_id_handlers := (cn_id_handlers conn)(i := []), cn_handlers := []\<rparr>"
  have "stanza_arrives expat reply conn = Some ?c3"
    using call item(1) f(4) o(2) sid by (simp add: stanza_arrives_def handler_fire_stanza_def handlers_enable_def)
  from send_step.deliver [OF this] have "send_step expat spurious i stanza h a (conn, pc) (?c3, pc)" .
  moreover have "request_find ?c3 i = Some (request_signal q)" using f(1) by (simp add: request_find_signal)
  moreover have "cn_responses ?c3 a = r" "cn_id_handlers ?c3 i = []" "cn_mutex_ok ?c3"
    using f(5) by (simp_all add: mio_cond_signal_def request_update_def)
  ultimately show ?thesis by blast
qed

lemma send_open_block:
  assumes "send_open h i a q conn" "cn_authenticated conn"
  shows "send_step expat spurious i stanza h a (conn, SB_test) (conn, SB_block)"
    "send_step expat spurious i stanza h a (conn, SB_block) (request_update i request_block conn, SB_wait)"
    "send_open h i a (request_block q) (request_update i request_block conn)" "cn_authenticated (request_update i request_block conn)"
proof -
  have f: "request_find conn i = Some q" "\<not> rq_predicate q" "cn_mutex_ok conn" using assms(1) by (simp_all add: send_open_def)
  show "send_step expat spurious i stanza h a (conn, SB_test) (conn, SB_block)"
    by (rule send_step.test_clear) (simp add: request_predicate_def f)
  show "send_step expat spurious i stanza h a (conn, SB_block) (request_update i request_block conn, SB_wait)"
    by (rule send_step.block [OF f(3)])
  have "request_find (request_update i request_block conn) i = Some (request_block q)"
    using f(1) find_request_update_list [of request_block i i "cn_request_table conn"]
    by (simp add: request_find_def request_update_def request_block_def)
  then show "send_open h i a (request_block q) (request_update i request_block conn)"
    using assms(1) by (simp add: send_open_def request_update_def request_block_def)
  show "cn_authenticated (request_update i request_block conn)" using assms(2) by (simp add: request_update_def)
qed

text \<open>From the start to the first test of the predicate.\<close>

lemma send_to_test:
  assumes "send_ready i a conn" "cn_authenticated conn" "printable stanza"
  shows "\<exists>q c. send_steps expat spurious i stanza h a (conn, SB_start) (c, SB_test) \<and> send_open h i a q c \<and>
     rq_cond q = Cond_idle \<and> cn_authenticated c"
proof -
  obtain q c1 where 1: "send_steps expat spurious i stanza h a (conn, SB_start) (c1, SB_send 0)" "send_open h i a q c1"
    "rq_cond q = Cond_idle" "cn_authenticated c1"
    using send_opens [OF assms(1)] assms(2) by blast
  from send_sent [OF 1(2,4) assms(3)] obtain c2 where "send_step expat spurious i stanza h a (c1, SB_send 0) (c2, SB_test)"
    "send_open h i a q c2" "cn_authenticated c2" by blast
  with 1 show ?thesis by (meson rtranclp.rtrancl_into_rtrancl)
qed

lemma send_reply_run:
  assumes "send_open h i a q conn" "cn_authenticated conn" "reply_handler h = Some hf" "xmpp_stanza_get_id reply = Some (Some i)"
    and "\<forall>r. rsp_id r = i \<longrightarrow> (\<exists>r'. hf expat True reply r = Some (MIO_OK, r', True))"
  shows "\<exists>conn'. send_step expat spurious i stanza h a (conn, pc) (conn', pc) \<and> completed expat hf i (cn_responses conn' a) \<and>
     request_find conn' i = Some (request_signal q) \<and> cn_id_handlers conn' i = [] \<and> cn_mutex_ok conn'"
proof -
  have i: "rsp_id (cn_responses conn a) = i" using assms(1) by (simp add: send_open_def)
  with assms(5) obtain r' where r': "hf expat True reply (cn_responses conn a) = Some (MIO_OK, r', True)" by blast
  then have "completed expat hf i r'" using assms(4) i unfolding completed_def by blast
  with send_reply [OF assms(1-4) r', of spurious stanza pc] show ?thesis by auto
qed

section \<open>Properties\<close>

text \<open>C1: A blocking send that returns MIO_OK has its answer: on every interleaving of the sender with the event loop and
  other threads, from a connection where the identifier and the response are the sender's own, if no condition variable
  wakes up spuriously and the sender returns MIO_OK, then the response is what its handler made, successfully, of a stanza
  with the identifier of the request; the request has left the table and the handler is unregistered.\<close>

theorem send_ok_completed:
  assumes "send_ready i a conn" "reply_handler h = Some hf"
    and "send_steps expat False i stanza h a (conn, SB_start) (conn', SB_return MIO_OK)"
  shows "completed expat hf i (cn_responses conn' a) \<and> request_find conn' i = None \<and> cn_id_handlers conn' i = []"
proof -
  have "i \<noteq> ''pubsub_data_rx''" using assms(1) by (simp add: send_ready_def)
  from send_steps_inv [OF assms(3) send_ready_inv [OF assms(1)] assms(2) this] show ?thesis
    by (simp add: send_inv_def MIO_OK_def MIO_ERROR_PREDICATE_def MIO_ERROR_MUTEX_def)
qed

text \<open>C27: Whatever the interleaving, spurious wake-ups included, a blocking send takes its request out of the table before
  it returns, unless it returns MIO_ERROR_PREDICATE or MIO_ERROR_MUTEX; when it returns another error it has also
  unregistered its handler.\<close>

theorem send_cleans_up:
  assumes "send_ready i a conn" "reply_handler h = Some hf"
    and "send_steps expat spurious i stanza h a (conn, SB_start) (conn', SB_return e)"
    and "e \<noteq> MIO_ERROR_PREDICATE" "e \<noteq> MIO_ERROR_MUTEX"
  shows "request_find conn' i = None \<and> (e \<noteq> MIO_OK \<longrightarrow> cn_id_handlers conn' i = [])"
proof -
  have "i \<noteq> ''pubsub_data_rx''" using assms(1) by (simp add: send_ready_def)
  from send_steps_inv [OF assms(3) send_ready_inv [OF assms(1)] assms(2) this] assms(4,5) show ?thesis
    by (simp add: send_inv_def)
qed

lemma send_success:
  assumes "send_ready i a conn" "cn_authenticated conn" "printable stanza" "reply_handler h = Some hf"
    and "xmpp_stanza_get_id reply = Some (Some i)"
    and "\<forall>r. rsp_id r = i \<longrightarrow> (\<exists>r'. hf expat True reply r = Some (MIO_OK, r', True))"
  shows "\<exists>conn'. send_steps expat spurious i stanza h a (conn, SB_start) (conn', SB_return MIO_OK)"
proof -
  obtain q c1 where 1: "send_steps expat spurious i stanza h a (conn, SB_start) (c1, SB_test)" "send_open h i a q c1" "cn_authenticated c1"
    using send_to_test [OF assms(1-3)] by blast
  let ?c2 = "request_update i request_block c1"
  note b = send_open_block [OF 1(2,3)]
  obtain c3 where 3: "send_step expat spurious i stanza h a (?c2, SB_wait) (c3, SB_wait)"
    "request_find c3 i = Some (request_signal (request_block q))"
    using send_reply_run [OF b(3,4) assms(4-6)] by blast
  have "request_woken c3 i" using 3(2) by (simp add: request_woken_def request_signal_def request_block_def)
  then have "send_step expat spurious i stanza h a (c3, SB_wait) (snd (mio_request_delete c3 i), SB_return MIO_OK)"
    by (intro send_step.wake disjI1)
  with 1(1) b(1,2) 3(1) show ?thesis by (meson rtranclp.rtrancl_into_rtrancl)
qed


text \<open>A reply that is fast is reported as an error: if it is handled before the sender first tests the predicate, the
  sender returns MIO_ERROR_PREDICATE although the response is complete, and leaves its request in the table and its place
  of the semaphore taken.\<close>

theorem send_fast_reply_error:
  assumes "send_ready i a conn" "cn_authenticated conn" "printable stanza" "reply_handler h = Some hf"
    and "xmpp_stanza_get_id reply = Some (Some i)"
    and "\<forall>r. rsp_id r = i \<longrightarrow> (\<exists>r'. hf expat True reply r = Some (MIO_OK, r', True))"
  shows "\<exists>conn'. send_steps expat False i stanza h a (conn, SB_start) (conn', SB_return MIO_ERROR_PREDICATE) \<and>
     completed expat hf i (cn_responses conn' a) \<and> request_find conn' i \<noteq> None"
proof -
  obtain q c1 where 1: "send_steps expat False i stanza h a (conn, SB_start) (c1, SB_test)" "send_open h i a q c1" "cn_authenticated c1"
    using send_to_test [OF assms(1-3)] by blast
  obtain c2 where 2: "send_step expat False i stanza h a (c1, SB_test) (c2, SB_test)" "completed expat hf i (cn_responses c2 a)"
    "request_find c2 i = Some (request_signal q)"
    using send_reply_run [OF 1(2,3) assms(4-6)] by blast
  have "request_predicate c2 i" using 2(3) by (simp add: request_predicate_def request_signal_def)
  then have "send_step expat False i stanza h a (c2, SB_test) (c2, SB_return MIO_ERROR_PREDICATE)" by (rule send_step.test_set)
  with 1(1) 2(1) have "send_steps expat False i stanza h a (conn, SB_start) (c2, SB_return MIO_ERROR_PREDICATE)"
    by (meson rtranclp.rtrancl_into_rtrancl)
  with 2(2,3) show ?thesis by auto
qed

text \<open>A sender that waits for a reply that has been delivered: only a time-out or a failing wait ends it.\<close>

definition reply_missed :: "mio_handler_fn \<Rightarrow> string \<Rightarrow> nat \<Rightarrow> mio_conn \<Rightarrow> bool" where
  "reply_missed h i a conn \<longleftrightarrow> i \<noteq> ''pubsub_data_rx'' \<and> exclusive i a conn \<and> cn_id_handlers conn i = [] \<and> \<not> request_woken conn i"

lemma reply_missed_step:
  assumes "send_step expat False i stanza h a (conn, SB_wait) (conn', pc')" "reply_missed h i a conn" "reply_handler h = Some hf"
  shows "pc' = SB_wait \<and> reply_missed h i a conn' \<or> pc' = SB_return MIO_ERROR_TIMEOUT \<or> pc' = SB_return MIO_ERROR_COND_WAIT"
proof -
  have m: "i \<noteq> ''pubsub_data_rx''" "exclusive i a conn" "cn_id_handlers conn i = []" "\<not> request_woken conn i"
    using assms(2) by (simp_all add: reply_missed_def)
  show ?thesis
    using assms(1)
  proof (rule send_step_waitE)
    fix reply assume "pc' = SB_wait" and r: "stanza_arrives expat reply conn = Some conn'"
    with stanza_arrives_delivered [OF assms(3) m(1,2) disjI1 [OF m(3)] r] m show ?thesis
      by (auto simp: delivered_def reply_missed_def request_woken_def)
  next
    assume "pc' = SB_wait" "others_frame i a conn conn'"
    then show ?thesis using assms(2) by (auto simp: others_frame_def reply_missed_def request_woken_def)
  qed (use m in auto)
qed

lemma reply_missed_steps:
  assumes "send_steps expat False i stanza h a (conn, SB_wait) (conn', pc')" "reply_missed h i a conn" "reply_handler h = Some hf"
  shows "pc' = SB_wait \<and> reply_missed h i a conn' \<or> (\<exists>e. pc' = SB_return e \<and> e \<in> {MIO_ERROR_TIMEOUT, MIO_ERROR_COND_WAIT})"
proof -
  let ?P = "\<lambda>(c, pc). pc = SB_wait \<and> reply_missed h i a c \<or> (\<exists>e. pc = SB_return e \<and> e \<in> {MIO_ERROR_TIMEOUT, MIO_ERROR_COND_WAIT})"
  have "?P s'" if "send_steps expat False i stanza h a s s'" "?P s" for s s'
    using that
  proof (induction rule: rtranclp_induct)
    case (step s1 s2)
    obtain c1 p1 c2 p2 where s: "s1 = (c1, p1)" "s2 = (c2, p2)" by (cases s1, cases s2)
    have "p1 = SB_wait \<and> reply_missed h i a c1 \<or> (\<exists>e. p1 = SB_return e \<and> e \<in> {MIO_ERROR_TIMEOUT, MIO_ERROR_COND_WAIT})"
      using step.IH [OF step.prems] s by simp
    then show ?case
    proof (elim disjE conjE exE)
      assume w: "p1 = SB_wait" "reply_missed h i a c1"
      have "send_step expat False i stanza h a (c1, SB_wait) (c2, p2)" using step.hyps(2) s w(1) by simp
      from reply_missed_step [OF this w(2) assms(3)] s show ?thesis by auto
    next
      fix e assume "p1 = SB_return e" "e \<in> {MIO_ERROR_TIMEOUT, MIO_ERROR_COND_WAIT}"
      with step.hyps(2) s show ?thesis by (auto elim: send_step.cases)
    qed
  qed simp
  from this [OF assms(1)] assms(2) show ?thesis by simp
qed

text \<open>A reply between the test and the wait is lost: there is an interleaving in which the reply is handled after the
  sender tested the predicate and before it waits; the response is then complete while the sender waits, and without
  spurious wake-ups every continuation in which the sender returns gives MIO_ERROR_TIMEOUT or MIO_ERROR_COND_WAIT.\<close>

theorem send_lost_wakeup:
  assumes "send_ready i a conn" "cn_authenticated conn" "printable stanza" "reply_handler h = Some hf"
    and "xmpp_stanza_get_id reply = Some (Some i)"
    and "\<forall>r. rsp_id r = i \<longrightarrow> (\<exists>r'. hf expat True reply r = Some (MIO_OK, r', True))"
  shows "\<exists>conn'. send_steps expat False i stanza h a (conn, SB_start) (conn', SB_wait) \<and>
     completed expat hf i (cn_responses conn' a) \<and>
     (\<forall>conn'' e. send_steps expat False i stanza h a (conn', SB_wait) (conn'', SB_return e) \<longrightarrow>
        e \<in> {MIO_ERROR_TIMEOUT, MIO_ERROR_COND_WAIT})"
proof -
  obtain q c1 where 1: "send_steps expat False i stanza h a (conn, SB_start) (c1, SB_test)" "send_open h i a q c1" "cn_authenticated c1"
    using send_to_test [OF assms(1-3)] by blast
  obtain c2 where 2: "send_step expat False i stanza h a (c1, SB_block) (c2, SB_block)" "completed expat hf i (cn_responses c2 a)"
    "request_find c2 i = Some (request_signal q)" "cn_id_handlers c2 i = []" "cn_mutex_ok c2"
    using send_reply_run [OF 1(2,3) assms(4-6)] by blast
  let ?c3 = "request_update i request_block c2"
  have steps: "send_steps expat False i stanza h a (conn, SB_start) (c2, SB_block)"
    using 1(1) send_open_block(1) [OF 1(2,3)] 2(1) by (meson rtranclp.rtrancl_into_rtrancl)
  have i: "i \<noteq> ''pubsub_data_rx''" using assms(1) by (simp add: send_ready_def)
  have core: "send_core expat h hf i a ?c3"
    by (rule send_core_block [OF send_inv_core [OF send_steps_inv [OF steps send_ready_inv [OF assms(1)] assms(4) i]]])
  have "request_find ?c3 i = Some (request_block (request_signal q))"
    using 2(3) find_request_update_list [of request_block i i "cn_request_table c2"]
    by (simp add: request_find_def request_update_def request_block_def)
  then have "\<not> request_woken ?c3 i" by (simp add: request_woken_def request_block_def)
  then have m: "reply_missed h i a ?c3"
    using core 2(4) i by (simp add: reply_missed_def send_core_def request_update_def)
  have "send_steps expat False i stanza h a (conn, SB_start) (?c3, SB_wait)"
    using steps send_step.block [OF 2(5)] by (meson rtranclp.rtrancl_into_rtrancl)
  moreover have "completed expat hf i (cn_responses ?c3 a)" using 2(2) by (simp add: request_update_def)
  ultimately show ?thesis using reply_missed_steps [OF _ m assms(4)] by blast
qed

text \<open>After a disconnection was announced a blocking send deadlocks: the connection handler sets \<open>conn_predicate\<close> when it
  gives up reconnecting, and nothing clears it; the sender's first failed attempt then locks \<open>conn_mutex\<close> and skips the loop
  that would unlock it, the second failed attempt locks it again, and no step takes the sender further.\<close>

theorem send_deadlock:
  assumes "send_ready i a conn" "\<not> cn_authenticated conn" "printable stanza" "cn_conn_predicate conn" "\<not> cn_conn_mutex conn"
  shows "\<exists>conn'. send_steps expat spurious i stanza h a (conn, SB_start) (conn', SB_lock 2) \<and>
     (\<forall>conn'' pc. send_step expat spurious i stanza h a (conn', SB_lock 2) (conn'', pc) \<longrightarrow> pc = SB_lock 2)"
proof -
  obtain c1 where 1: "send_steps expat spurious i stanza h a (conn, SB_start) (c1, SB_send 0)" "\<not> cn_authenticated c1"
    "cn_conn_predicate c1" "\<not> cn_conn_mutex c1" using send_opens [OF assms(1)] assms(2,4,5) by blast
  obtain buf where buf: "xmpp_stanza_to_text stanza = Inr buf" using assms(3) by (auto simp: printable_def xmpp_stanza_to_text_eq)
  have fail: "mio_send_nonblocking c stanza = (MIO_ERROR_CONNECTION, c)" if "\<not> cn_authenticated c" for c
    using that buf by (simp add: mio_send_nonblocking_def)
  let ?c2 = "c1\<lparr>cn_conn_mutex := True\<rparr>"
  have "send_step expat spurious i stanza h a (c1, SB_send 0) (c1, SB_lock (Suc 0))"
    by (rule send_step.send_failed [OF fail [OF 1(2)]]) (simp add: MIO_SEND_RETRIES_def)
  moreover have "send_step expat spurious i stanza h a (c1, SB_lock (Suc 0)) (?c2, SB_reconnect (Suc 0))"
    by (rule send_step.lock [OF 1(4)])
  moreover have "send_step expat spurious i stanza h a (?c2, SB_reconnect (Suc 0)) (?c2, SB_send (Suc 0))"
    by (rule send_step.reconnected) (simp add: 1(3))
  moreover have "send_step expat spurious i stanza h a (?c2, SB_send (Suc 0)) (?c2, SB_lock (Suc (Suc 0)))"
    by (rule send_step.send_failed [OF fail]) (simp_all add: 1(2) MIO_SEND_RETRIES_def)
  ultimately have "send_steps expat spurious i stanza h a (conn, SB_start) (?c2, SB_lock (Suc (Suc 0)))"
    using 1(1) by (meson rtranclp.rtrancl_into_rtrancl)
  moreover have "pc = SB_lock 2" if "send_step expat spurious i stanza h a (?c2, SB_lock 2) (conn'', pc)" for conn'' pc
    using that by (rule send_step_lockE) simp_all
  ultimately show ?thesis by (auto simp: numeral_2_eq_2)
qed

section \<open>Examples\<close>

lemma example_send_ready: "send_ready ''7'' 0 example_conn" "cn_authenticated example_conn"
  by (simp_all add: send_ready_def example_conn_fields exclusive_def)

lemma example_error_handler: "reply_handler H_error = Some mio_handler_error"
  by (simp add: reply_handler_def)

lemma example_reply_id: "xmpp_stanza_get_id example_reply = Some (Some ''7'')"
  by code_simp

lemma example_reply_accepted:
  "\<forall>r. rsp_id r = ''7'' \<longrightarrow> (\<exists>r'. mio_handler_error (\<lambda>_. (sax_events example_reply, True)) True example_reply r = Some (MIO_OK, r', True))"
  using example_reply_handled by blast

lemmas example_send = example_send_ready example_reply_printable example_error_handler example_reply_id example_reply_accepted


theorem send_ok_completed_witness:
  "\<exists>conn'. send_steps (\<lambda>_. (sax_events example_reply, True)) False ''7'' example_reply H_error 0
     (example_conn, SB_start) (conn', SB_return MIO_OK) \<and>
     completed (\<lambda>_. (sax_events example_reply, True)) mio_handler_error ''7'' (cn_responses conn' 0) \<and> request_find conn' ''7'' = None"
proof -
  obtain conn' where c: "send_steps (\<lambda>_. (sax_events example_reply, True)) False ''7'' example_reply H_error 0
     (example_conn, SB_start) (conn', SB_return MIO_OK)" using send_success [OF example_send] by blast
  from send_ok_completed [OF example_send_ready(1) example_error_handler c] c show ?thesis by blast
qed

theorem send_cleans_up_witness:
  "\<exists>conn'. send_steps (\<lambda>_. (sax_events example_reply, True)) True ''7'' example_reply H_error 0
     (example_conn, SB_start) (conn', SB_return MIO_OK) \<and> request_find conn' ''7'' = None"
proof -
  obtain conn' where c: "send_steps (\<lambda>_. (sax_events example_reply, True)) True ''7'' example_reply H_error 0
     (example_conn, SB_start) (conn', SB_return MIO_OK)" using send_success [OF example_send] by blast
  have "MIO_OK \<noteq> MIO_ERROR_PREDICATE" "MIO_OK \<noteq> MIO_ERROR_MUTEX"
    by (simp_all add: MIO_OK_def MIO_ERROR_PREDICATE_def MIO_ERROR_MUTEX_def)
  from send_cleans_up [OF example_send_ready(1) example_error_handler c this] c show ?thesis by blast
qed

theorem send_fast_reply_error_witness:
  "\<exists>conn'. send_steps (\<lambda>_. (sax_events example_reply, True)) False ''7'' example_reply H_error 0
     (example_conn, SB_start) (conn', SB_return MIO_ERROR_PREDICATE) \<and> request_find conn' ''7'' \<noteq> None"
  using send_fast_reply_error [OF example_send] by blast

theorem send_lost_wakeup_witness:
  "\<exists>conn'. send_steps (\<lambda>_. (sax_events example_reply, True)) False ''7'' example_reply H_error 0
     (example_conn, SB_start) (conn', SB_wait) \<and>
     completed (\<lambda>_. (sax_events example_reply, True)) mio_handler_error ''7'' (cn_responses conn' 0)"
  using send_lost_wakeup [OF example_send] by blast

theorem send_deadlock_witness:
  "\<exists>conn'. send_steps (\<lambda>_. ([], True)) False ''7'' example_reply H_error 0
     (example_conn\<lparr>cn_authenticated := False, cn_conn_predicate := True\<rparr>, SB_start) (conn', SB_lock 2)"
proof -
  let ?c = "example_conn\<lparr>cn_authenticated := False, cn_conn_predicate := True\<rparr>"
  have "send_ready ''7'' 0 ?c"
    using example_conn_fields
    by (simp add: send_ready_def exclusive_def requests_ok_def request_find_def)
  moreover have "\<not> cn_authenticated ?c" "cn_conn_predicate ?c" "\<not> cn_conn_mutex ?c" using example_conn_fields(12) by simp_all
  ultimately show ?thesis using send_deadlock [OF _ _ example_reply_printable] by blast
qed

end
