(* ===== verification/Mio_Receive.thy ===== *)
theory Mio_Receive
  imports Mio_Send
begin

text \<open>
  \<open>mio_pubsub_data_receive\<close> (\<^verbatim>\<open>mio.c\<close>): the application takes the next publication, and waits for one when there is
  none. The receiver runs its statements one after the other; between them the event loop may deliver a stanza, another
  thread may take a publication, and another thread may stop the listening, which frees the request the receiver waits
  on. \<open>receive_own\<close> are the steps of the receiver, \<open>receive_env\<close> those of the others; \<open>stops\<close> says whether listening may be
  stopped, \<open>spurious\<close> whether condition variables wake up spuriously. One thread waits at a time.

  Shown: a receiver that returns MIO_OK hands over the oldest publication of the queue; while listening is not stopped it
  uses no freed memory; a publication wakes a waiting receiver, which returns it; a publication taken without waiting
  leaves the predicate set, so that the next call does not wait but runs in a loop until one more publication arrives; and
  stopping under a waiting receiver makes it use freed memory.
\<close>

section \<open>Steps\<close>

abbreviation rx_id :: string where "rx_id \<equiv> ''pubsub_data_rx''"

datatype receive_pc =
  RX_start            \<comment> \<open>before the test of the connection\<close>
| RX_listen           \<comment> \<open>the queue was empty; before the search for the request\<close>
| RX_outer            \<comment> \<open>before the test of the queue and of \<open>pubsub_rx_listening\<close>\<close>
| RX_test             \<comment> \<open>before the test of \<open>request->predicate\<close>\<close>
| RX_block            \<comment> \<open>before the mutex is locked\<close>
| RX_wait             \<comment> \<open>in the wait\<close>
| RX_reset            \<comment> \<open>before \<open>request->predicate = 0\<close>\<close>
| RX_dequeue          \<comment> \<open>before the last \<open>_mio_pubsub_rx_queue_dequeue\<close>\<close>
| RX_return int mio_response
| RX_undefined        \<comment> \<open>the request was read after it was freed\<close>

type_synonym receive_state = "mio_conn \<times> receive_pc"

definition response_copy :: "mio_response \<Rightarrow> mio_response \<Rightarrow> mio_response" where
  "response_copy response rx = response\<lparr>rsp_id := rsp_id rx, rsp_name := rsp_name rx, rsp_ns := rsp_ns rx,
     rsp_response_type := rsp_response_type rx, rsp_type := rsp_type rx, rsp_response := rsp_response rx, rsp_stanza := rsp_stanza rx\<rparr>"

definition request_unblock :: "mio_request \<Rightarrow> mio_request" where "request_unblock r = r\<lparr>rq_cond := Cond_idle\<rparr>"
definition request_reset :: "mio_request \<Rightarrow> mio_request" where "request_reset r = r\<lparr>rq_predicate := False\<rparr>"

inductive receive_own :: "bool \<Rightarrow> mio_response \<Rightarrow> receive_state \<Rightarrow> receive_state \<Rightarrow> bool"
  for spurious :: bool and response :: mio_response where
  refused: "\<not> cn_authenticated conn \<Longrightarrow>
    receive_own spurious response (conn, RX_start) (conn, RX_return MIO_ERROR_DISCONNECTED response)"
| quick: "cn_authenticated conn \<Longrightarrow> mio_pubsub_rx_queue_dequeue conn = Some (Some rx, conn') \<Longrightarrow>
    receive_own spurious response (conn, RX_start) (conn', RX_return MIO_OK (response_copy response rx))"
| slow: "cn_authenticated conn \<Longrightarrow> mio_pubsub_rx_queue_dequeue conn = Some (None, conn') \<Longrightarrow>
    receive_own spurious response (conn, RX_start) (conn', RX_listen)"
| listening: "mio_request_get conn rx_id \<noteq> None \<Longrightarrow>
    receive_own spurious response (conn, RX_listen) (conn, RX_outer)"
| listen: "mio_request_get conn rx_id = None \<Longrightarrow> mio_pubsub_data_listen_start conn = Some (Returns (MIO_OK, conn')) \<Longrightarrow>
    receive_own spurious response (conn, RX_listen) (conn', RX_outer)"
| listen_error: "mio_request_get conn rx_id = None \<Longrightarrow> mio_pubsub_data_listen_start conn = Some (Returns (err, conn')) \<Longrightarrow> err \<noteq> MIO_OK \<Longrightarrow>
    receive_own spurious response (conn, RX_listen) (conn', RX_return err response)"
| outer_again: "cn_pubsub_rx_queue_len conn \<le> 0 \<Longrightarrow> cn_pubsub_rx_listening conn \<Longrightarrow>
    receive_own spurious response (conn, RX_outer) (conn, RX_test)"
| outer_done: "\<not> (cn_pubsub_rx_queue_len conn \<le> 0 \<and> cn_pubsub_rx_listening conn) \<Longrightarrow>
    receive_own spurious response (conn, RX_outer) (conn, RX_reset)"
| test_set: "request_predicate conn rx_id \<Longrightarrow>
    receive_own spurious response (conn, RX_test) (conn, RX_outer)"
| test_clear: "request_find conn rx_id \<noteq> None \<Longrightarrow> \<not> request_predicate conn rx_id \<Longrightarrow>
    receive_own spurious response (conn, RX_test) (conn, RX_block)"
| block_error: "\<not> cn_mutex_ok conn \<Longrightarrow> request_find conn rx_id \<noteq> None \<Longrightarrow>
    receive_own spurious response (conn, RX_block) (conn, RX_return MIO_ERROR_MUTEX response)"
| block: "cn_mutex_ok conn \<Longrightarrow> request_find conn rx_id \<noteq> None \<Longrightarrow>
    receive_own spurious response (conn, RX_block) (request_update rx_id request_block conn, RX_wait)"
| wake: "request_find conn rx_id \<noteq> None \<Longrightarrow> request_woken conn rx_id \<or> spurious \<Longrightarrow>
    receive_own spurious response (conn, RX_wait) (request_update rx_id request_unblock conn, RX_test)"
| wait_error: "request_find conn rx_id \<noteq> None \<Longrightarrow> \<not> request_woken conn rx_id \<Longrightarrow>
    receive_own spurious response (conn, RX_wait) (request_update rx_id request_unblock conn, RX_return MIO_ERROR_COND_WAIT response)"
| reset: "request_find conn rx_id \<noteq> None \<Longrightarrow>
    receive_own spurious response (conn, RX_reset) (request_update rx_id request_reset conn, RX_dequeue)"
| taken: "mio_pubsub_rx_queue_dequeue conn = Some (Some rx, conn') \<Longrightarrow>
    receive_own spurious response (conn, RX_dequeue) (conn', RX_return MIO_OK (response_copy response rx))"
| nothing: "mio_pubsub_rx_queue_dequeue conn = Some (None, conn') \<Longrightarrow>
    receive_own spurious response (conn, RX_dequeue) (conn', RX_return MIO_ERROR_NO_RESPONSE response)"
| freed: "request_find conn rx_id = None \<Longrightarrow> pc \<in> {RX_test, RX_block, RX_wait, RX_reset} \<Longrightarrow>
    receive_own spurious response (conn, pc) (conn, RX_undefined)"

text \<open>What other threads leave alone.\<close>

definition rx_frame :: "mio_conn \<Rightarrow> mio_conn \<Rightarrow> bool" where
  "rx_frame conn conn' \<longleftrightarrow> cn_pubsub_rx_queue conn' = cn_pubsub_rx_queue conn \<and>
     cn_pubsub_rx_queue_len conn' = cn_pubsub_rx_queue_len conn \<and> cn_rwlock_ok conn' = cn_rwlock_ok conn \<and>
     cn_pubsub_rx_listening conn' = cn_pubsub_rx_listening conn \<and> request_find conn' rx_id = request_find conn rx_id"

inductive receive_env :: "expat \<Rightarrow> bool \<Rightarrow> mio_conn \<Rightarrow> mio_conn \<Rightarrow> bool" for expat :: expat and stops :: bool where
  arrives: "stanza_arrives expat stanza conn = Some conn' \<Longrightarrow> receive_env expat stops conn conn'"
| rival: "mio_pubsub_rx_queue_dequeue conn = Some (r, conn') \<Longrightarrow> receive_env expat stops conn conn'"
| stopped: "stops \<Longrightarrow> mio_pubsub_data_listen_stop conn = (err, conn') \<Longrightarrow> receive_env expat stops conn conn'"
| others: "rx_frame conn conn' \<Longrightarrow> receive_env expat stops conn conn'"

inductive receive_step :: "expat \<Rightarrow> bool \<Rightarrow> bool \<Rightarrow> mio_response \<Rightarrow> receive_state \<Rightarrow> receive_state \<Rightarrow> bool"
  for expat :: expat and stops :: bool and spurious :: bool and response :: mio_response where
  own: "receive_own spurious response s s' \<Longrightarrow> receive_step expat stops spurious response s s'"
| env: "receive_env expat stops conn conn' \<Longrightarrow> receive_step expat stops spurious response (conn, pc) (conn', pc)"

abbreviation receive_steps :: "expat \<Rightarrow> bool \<Rightarrow> bool \<Rightarrow> mio_response \<Rightarrow> receive_state \<Rightarrow> receive_state \<Rightarrow> bool" where
  "receive_steps expat stops spurious response \<equiv> (receive_step expat stops spurious response)\<^sup>*\<^sup>*"

inductive_cases receive_own_startE: "receive_own spurious response (conn, RX_start) s"
inductive_cases receive_own_listenE: "receive_own spurious response (conn, RX_listen) s"
inductive_cases receive_own_outerE: "receive_own spurious response (conn, RX_outer) s"
inductive_cases receive_own_testE: "receive_own spurious response (conn, RX_test) s"
inductive_cases receive_own_returnE: "receive_own spurious response (conn, RX_return e r) s"

section \<open>What steps keep\<close>

lemma dequeue_some: "mio_pubsub_rx_queue_dequeue conn = Some (Some rx, conn') \<Longrightarrow>
   cn_pubsub_rx_queue conn = rx # cn_pubsub_rx_queue conn'"
  by (auto simp: mio_pubsub_rx_queue_dequeue_def split: if_splits list.splits)

lemma dequeue_ok:
  assumes "rx_queue_ok conn"
  shows "\<exists>r conn'. mio_pubsub_rx_queue_dequeue conn = Some (r, conn')"
  using rx.deq_empty [OF assms] rx.deq_head [OF assms] by (cases "cn_pubsub_rx_queue conn") blast+

lemma dequeue_keeps:
  assumes "mio_pubsub_rx_queue_dequeue conn = Some (r, conn')" "rx_queue_ok conn"
  shows "rx_queue_ok conn'" "cn_rwlock_ok conn' = cn_rwlock_ok conn" "request_find conn' i = request_find conn i"
  using assms by (auto simp: mio_pubsub_rx_queue_dequeue_def rx_queue_ok_def request_find_def split: if_splits list.splits)

lemma request_update_keeps:
  assumes "\<And>r. rq_id (f r) = rq_id r"
  shows "rx_queue_ok (request_update i f conn) = rx_queue_ok conn" "cn_rwlock_ok (request_update i f conn) = cn_rwlock_ok conn"
    "request_find (request_update i f conn) j = (if i = j then map_option f (request_find conn j) else request_find conn j)"
  using find_request_update_list [of f, OF assms] by (simp_all add: request_update_def rx_queue_ok_def request_find_def)

lemma request_ids [simp]: "rq_id (request_block r) = rq_id r" "rq_id (request_unblock r) = rq_id r" "rq_id (request_reset r) = rq_id r"
  by (simp_all add: request_block_def request_unblock_def request_reset_def)

lemma call_frame_find: "call_frame conn conn' \<Longrightarrow> request_find conn' i = None \<longleftrightarrow> request_find conn i = None"
proof -
  assume "call_frame conn conn'"
  then have "set (map rq_id (cn_request_table conn')) = set (map rq_id (cn_request_table conn))" by (simp add: call_frame_def)
  then show ?thesis by (simp add: request_find_None)
qed

lemma listen_start_keeps:
  assumes "mio_pubsub_data_listen_start conn = Some (Returns (err, conn'))" "rx_queue_ok conn" "cn_rwlock_ok conn"
  shows "rx_queue_ok conn' \<and> cn_rwlock_ok conn' \<and> (err = MIO_OK \<longrightarrow> request_find conn' rx_id \<noteq> None)"
proof (cases "cn_authenticated conn")
  case False
  with assms show ?thesis by (auto simp: mio_pubsub_data_listen_start_def MIO_ERROR_DISCONNECTED_def MIO_OK_def)
next
  case True
  obtain c1 c2 where 1: "(if cn_presence_status conn \<noteq> MIO_PRESENCE_PRESENT then map_option snd (mio_listen_start conn) else Some conn) = Some c1"
    "sem_wait c1 = Some c2" and 2: "\<exists>c3. mio_handler_add c2 H_pubsub_data_receive (Some pubsub_event_ns) None None
      (Some (mio_request_new\<lparr>rq_id := rx_id\<rparr>)) None = Some (err, c3) \<and> conn' = (if err = MIO_OK then c3\<lparr>cn_pubsub_rx_listening := True\<rparr> else c3)"
    using assms(1) True by (auto simp: mio_pubsub_data_listen_start_def split: Option.bind_splits option.splits)
  have "rx_queue_ok c1 \<and> cn_rwlock_ok c1"
    using 1(1) assms(2,3) by (auto simp: mio_listen_start_def xmpp_send_def xmpp_send_raw_def rx_queue_ok_def split: if_splits Option.bind_splits sum.splits)
  then have c2: "rx_queue_ok c2 \<and> cn_rwlock_ok c2" using 1(2) by (auto simp: sem_wait_def rx_queue_ok_def split: if_splits)
  then show ?thesis using 2
    by (auto simp: mio_handler_add_def mio_request_add_def Let_def rx_queue_ok_def request_find_def find_append mio_request_new_def
        MIO_ERROR_TOO_MANY_OPEN_REQUESTS_def MIO_ERROR_RW_LOCK_def MIO_OK_def split: if_splits)
qed

text \<open>While nobody stops the listening, the request is there from the moment it is looked for, and the queue is well-formed.\<close>

definition receive_inv :: "receive_state \<Rightarrow> bool" where
  "receive_inv s \<longleftrightarrow> (case s of (conn, pc) \<Rightarrow> rx_queue_ok conn \<and> cn_rwlock_ok conn \<and> pc \<noteq> RX_undefined \<and>
     (pc \<in> {RX_outer, RX_test, RX_block, RX_wait, RX_reset, RX_dequeue} \<longrightarrow> request_find conn rx_id \<noteq> None))"

lemma receive_own_inv:
  assumes "receive_own spurious response s s'" "receive_inv s"
  shows "receive_inv s'"
  using assms
proof (induction rule: receive_own.induct)
  case (listen conn conn')
  then show ?case using listen_start_keeps by (auto simp: receive_inv_def)
next
  case (listen_error conn err conn')
  then show ?case using listen_start_keeps by (auto simp: receive_inv_def)
qed (auto simp: receive_inv_def dequeue_keeps request_update_keeps mio_request_get_def split: if_splits)

lemma receive_env_inv:
  assumes "receive_env expat False conn conn'" "receive_inv (conn, pc)"
  shows "receive_inv (conn', pc)"
  using assms(1)
proof cases
  case (arrives stanza)
  have f: "call_frame conn conn'" by (rule stanza_arrives_frame [OF arrives])
  then have "rx_queue_ok conn \<longrightarrow> rx_queue_ok conn'" "cn_rwlock_ok conn' = cn_rwlock_ok conn" by (simp_all add: call_frame_def)
  with call_frame_find [OF f, of rx_id] assms(2) show ?thesis by (simp add: receive_inv_def del: not_None_eq)
next
  case (rival r)
  then show ?thesis using assms(2) by (simp add: receive_inv_def dequeue_keeps)
next
  case others
  then show ?thesis using assms(2) by (simp add: receive_inv_def rx_frame_def rx_queue_ok_def)
qed simp

lemma receive_steps_inv:
  assumes "receive_steps expat False spurious response s s'" "receive_inv s"
  shows "receive_inv s'"
  using assms
proof (induction rule: rtranclp_induct)
  case (step s' s'')
  from step.hyps(2) step.IH [OF step.prems] show ?case
    by cases (auto intro: receive_own_inv receive_env_inv)
qed simp

text \<open>The result, and where it came from.\<close>

definition receive_result :: "(receive_state \<Rightarrow> bool) \<Rightarrow> mio_response \<Rightarrow> receive_state \<Rightarrow> bool" where
  "receive_result reached response s \<longleftrightarrow> (case s of (conn, pc) \<Rightarrow> \<forall>e r. pc = RX_return e r \<longrightarrow>
     (e = MIO_OK \<longrightarrow> (\<exists>c c' pc' rx. reached (c, pc') \<and> cn_pubsub_rx_queue c = rx # cn_pubsub_rx_queue c' \<and>
        reached (c', RX_return e r) \<and> r = response_copy response rx)) \<and>
     (e \<noteq> MIO_OK \<longrightarrow> r = response))"

lemma receive_step_result:
  assumes step: "receive_step expat stops spurious response s s'" and "receive_result reached response s" "reached s"
    and closed: "\<And>t t'. reached t \<Longrightarrow> receive_step expat stops spurious response t t' \<Longrightarrow> reached t'"
  shows "receive_result reached response s'"
  using step
proof cases
  case own
  have r': "reached s'" by (rule closed [OF assms(3) step])
  from own show ?thesis
  proof cases
    case (quick conn rx conn')
    then show ?thesis using assms(3) r' dequeue_some [OF quick(4)] by (auto simp: receive_result_def)
  next
    case (taken conn rx conn')
    then show ?thesis using assms(3) r' dequeue_some [OF taken(3)] by (auto simp: receive_result_def)
  qed (auto simp: receive_result_def MIO_OK_def MIO_ERROR_DISCONNECTED_def MIO_ERROR_MUTEX_def MIO_ERROR_COND_WAIT_def MIO_ERROR_NO_RESPONSE_def)
next
  case (env conn conn' pc)
  then show ?thesis using assms(2) by (simp add: receive_result_def)
qed

lemma receive_steps_result:
  assumes "receive_steps expat stops spurious response s0 s" "receive_result (receive_steps expat stops spurious response s0) response s0"
  shows "receive_result (receive_steps expat stops spurious response s0) response s"
  using assms
proof (induction rule: rtranclp_induct)
  case (step s s')
  show ?case
    by (rule receive_step_result [OF step.hyps(2) step.IH [OF step.prems] step.hyps(1)]) (rule rtranclp.rtrancl_into_rtrancl)
qed

text \<open>A publication that the handler puts into the queue.\<close>

lemma handler_enqueued:
  assumes "mio_handler_pubsub_data_receive expat conn stanza None = Some (err, conn', r)" "cn_pubsub_rx_queue conn' \<noteq> cn_pubsub_rx_queue conn"
  shows "\<exists>c. mio_pubsub_rx_queue_enqueue conn r = Some c \<and> conn' = mio_cond_signal c rx_id"
  using assms
  by (auto simp: mio_handler_pubsub_data_receive_def Let_def split: option.splits Option.bind_splits if_splits)

lemma handler_published:
  assumes "mio_handler_pubsub_data_receive expat conn stanza None = Some (err, conn', r)" "rx_queue_ok conn"
    "cn_pubsub_rx_queue conn = []" "cn_pubsub_rx_queue conn' \<noteq> []"
  shows "conn' = mio_cond_signal (conn\<lparr>cn_pubsub_rx_queue := [r], cn_pubsub_rx_queue_len := 1\<rparr>) rx_id"
proof -
  obtain c where "mio_pubsub_rx_queue_enqueue conn r = Some c" "conn' = mio_cond_signal c rx_id"
    using handler_enqueued [OF assms(1)] assms(3,4) by auto
  then show ?thesis using assms(2,3)
    by (simp add: mio_pubsub_rx_queue_enqueue_def rx_queue_ok_def MIO_PUBSUB_RX_QUEUE_MAX_LEN_def)
qed

section \<open>Example\<close>

definition example_publication :: mio_response where
  "example_publication = mio_response_new\<lparr>rsp_id := rx_id\<rparr>"

definition queued_conn :: mio_conn where
  "queued_conn = example_conn\<lparr>cn_pubsub_rx_queue := [example_publication], cn_pubsub_rx_queue_len := 1\<rparr>"

lemma queued_receive:
  "receive_steps (\<lambda>_. ([], True)) False False mio_response_new (queued_conn, RX_start)
     (queued_conn\<lparr>cn_pubsub_rx_queue := [], cn_pubsub_rx_queue_len := 0\<rparr>, RX_return MIO_OK example_publication)"
proof -
  have "example_publication = response_copy mio_response_new example_publication" by (simp add: response_copy_def example_publication_def)
  moreover have "receive_own False mio_response_new (queued_conn, RX_start)
     (queued_conn\<lparr>cn_pubsub_rx_queue := [], cn_pubsub_rx_queue_len := 0\<rparr>, RX_return MIO_OK (response_copy mio_response_new example_publication))"
    by (rule receive_own.quick) (simp_all add: queued_conn_def example_conn_fields mio_pubsub_rx_queue_dequeue_def)
  ultimately show ?thesis by (metis r_into_rtranclp receive_step.own)
qed

definition value_events :: "xml_event list" where
  "value_events = [StartElement ''transducerValue'' [(''id'', ''t''), (''typedValue'', ''21'')], EndElement ''transducerValue'']"

definition rx_request :: "cond_state \<Rightarrow> mio_request" where
  "rx_request c = mio_request_new\<lparr>rq_id := rx_id, rq_cond := c\<rparr>"

definition rx_conn :: "cond_state \<Rightarrow> mio_conn" where
  "rx_conn c = example_conn\<lparr>cn_pubsub_rx_listening := True, cn_request_table := [rx_request c]\<rparr>"

lemma rx_conn_facts:
  "rx_queue_ok (rx_conn c)" "cn_pubsub_rx_queue (rx_conn c) = []" "request_find (rx_conn c) rx_id = Some (rx_request c)"
  "rq_cond (rx_request c) = c" "cn_rwlock_ok (rx_conn c)" "cn_authenticated (rx_conn c)" "cn_pubsub_rx_listening (rx_conn c)"
  "distinct (map rq_id (cn_request_table (rx_conn c)))"
  by (simp_all add: rx_conn_def rx_request_def rx_queue_ok_def example_conn_def mio_conn_new_def request_find_def)

lemma value_handled:
  "\<exists>err conn1 rx. mio_handler_pubsub_data_receive (\<lambda>_. (value_events, True)) (rx_conn c) example_reply None = Some (err, conn1, rx) \<and>
     cn_pubsub_rx_queue conn1 \<noteq> []"
proof -
  obtain buf where buf: "xmpp_stanza_to_text example_reply = Inr buf"
    using example_reply_printable by (auto simp: printable_def xmpp_stanza_to_text_eq)
  have g: "mio_request_get (rx_conn c) rx_id = Some (rx_request c)" by (simp add: mio_request_get_def rx_conn_facts)
  show ?thesis
    using buf g rx_conn_facts(1,2) [of c]
    by (simp add: mio_handler_pubsub_data_receive_def mio_xml_parse_def value_events_def mio_XMLstart_pubsub_data_receive_def
        xml_data_update_start_element_def xml_data_update_end_element_def xml_data_new_def xd_packet_def xd_set_packet_def xd_set_type_def
        mio_packet_payload_add_def mio_packet_new_def as_data_def Let_def mio_pubsub_rx_queue_enqueue_def rx_queue_ok_def
        MIO_PUBSUB_RX_QUEUE_MAX_LEN_def MIO_OK_def mio_cond_signal_def request_update_def)
qed

section \<open>Properties\<close>





text \<open>C31: A publication reaches a waiting receiver: when the receiver waits, the queue is empty, and the handler of publications
  puts a response into the queue, the receiver by its own steps returns MIO_OK with a copy of it and leaves the queue empty.\<close>

theorem receive_waiting_gets:
  assumes "rx_queue_ok conn" "cn_pubsub_rx_queue conn = []" "request_find conn rx_id = Some q" "rq_cond q = Cond_waiting"
    and "mio_handler_pubsub_data_receive expat conn stanza None = Some (err, conn1, rx)" "cn_pubsub_rx_queue conn1 \<noteq> []"
  shows "\<exists>conn2. (receive_own spurious response)\<^sup>*\<^sup>* (conn1, RX_wait) (conn2, RX_return MIO_OK (response_copy response rx)) \<and>
     cn_pubsub_rx_queue conn2 = [] \<and> \<not> request_predicate conn2 rx_id"
proof -
  let ?c = "conn\<lparr>cn_pubsub_rx_queue := [rx], cn_pubsub_rx_queue_len := 1\<rparr>"
  have c1: "conn1 = mio_cond_signal ?c rx_id" by (rule handler_published [OF assms(5,1,2,6)])
  have f1: "request_find conn1 rx_id = Some (request_signal q)"
    using assms(3) by (simp add: c1 request_find_signal) (simp add: request_find_def)
  let ?c2 = "request_update rx_id request_unblock conn1"
  have f2: "request_find ?c2 rx_id = Some (request_unblock (request_signal q))" using f1 by (simp add: request_update_keeps)
  let ?c3 = "request_update rx_id request_reset ?c2"
  have q3: "cn_pubsub_rx_queue ?c2 = [rx]" "cn_pubsub_rx_queue_len ?c2 = 1" "cn_pubsub_rx_queue ?c3 = [rx]" "cn_pubsub_rx_queue_len ?c3 = 1"
    by (simp_all add: c1 mio_cond_signal_def request_update_def)
  let ?c4 = "?c3\<lparr>cn_pubsub_rx_queue := [], cn_pubsub_rx_queue_len := 0\<rparr>"
  have "receive_own spurious response (conn1, RX_wait) (?c2, RX_test)"
    using f1 assms(4) by (intro receive_own.wake) (simp_all add: request_woken_def request_signal_def)
  moreover have "receive_own spurious response (?c2, RX_test) (?c2, RX_outer)"
    using f2 by (intro receive_own.test_set) (simp add: request_predicate_def request_unblock_def request_signal_def)
  moreover have "receive_own spurious response (?c2, RX_outer) (?c2, RX_reset)"
    using q3 by (intro receive_own.outer_done) simp
  moreover have "receive_own spurious response (?c2, RX_reset) (?c3, RX_dequeue)"
    using f2 by (intro receive_own.reset) simp
  moreover have "receive_own spurious response (?c3, RX_dequeue) (?c4, RX_return MIO_OK (response_copy response rx))"
    using q3 by (intro receive_own.taken) (simp add: mio_pubsub_rx_queue_dequeue_def)
  ultimately have "(receive_own spurious response)\<^sup>*\<^sup>* (conn1, RX_wait) (?c4, RX_return MIO_OK (response_copy response rx))"
    by (meson converse_rtranclp_into_rtranclp rtranclp.rtrancl_refl)
  moreover have "request_find ?c4 rx_id = Some (request_reset (request_unblock (request_signal q)))"
    using f2 request_update_keeps(3) [of request_reset rx_id ?c2 rx_id] by (simp add: request_find_def)
  then have "\<not> request_predicate ?c4 rx_id" by (simp add: request_predicate_def request_reset_def)
  ultimately show ?thesis by (intro exI [of _ ?c4]) simp
qed

theorem receive_waiting_gets_witness:
  "\<exists>conn1 rx conn2. (receive_own False mio_response_new)\<^sup>*\<^sup>* (conn1, RX_wait) (conn2, RX_return MIO_OK (response_copy mio_response_new rx)) \<and>
     cn_pubsub_rx_queue conn1 \<noteq> [] \<and> cn_pubsub_rx_queue conn2 = []"
proof -
  obtain err conn1 rx where h: "mio_handler_pubsub_data_receive (\<lambda>_. (value_events, True)) (rx_conn Cond_waiting) example_reply None = Some (err, conn1, rx)"
    "cn_pubsub_rx_queue conn1 \<noteq> []" using value_handled by blast
  from receive_waiting_gets [OF rx_conn_facts(1-4) h, of False mio_response_new] h(2) show ?thesis by blast
qed

text \<open>C37: A publication taken without waiting leaves a busy receiver behind: when one arrives while nobody waits, the next call
  returns it at once but leaves the predicate of the request set; the call after that finds the queue empty and never waits:
  whatever it does by its own steps, it is between the two loop tests, changes nothing, and has another step.\<close>

theorem receive_spins:
  assumes "rx_queue_ok conn" "cn_pubsub_rx_queue conn = []" "request_find conn rx_id = Some q" "cn_rwlock_ok conn"
    and "cn_authenticated conn" "cn_pubsub_rx_listening conn"
    and "mio_handler_pubsub_data_receive expat conn stanza None = Some (err, conn1, rx)" "cn_pubsub_rx_queue conn1 \<noteq> []"
  shows "\<exists>conn2. receive_own spurious response (conn1, RX_start) (conn2, RX_return MIO_OK (response_copy response rx)) \<and>
     (\<forall>conn3 pc. (receive_own spurious response')\<^sup>*\<^sup>* (conn2, RX_start) (conn3, pc) \<longrightarrow>
        conn3 = conn2 \<and> pc \<in> {RX_start, RX_listen, RX_outer, RX_test} \<and> (\<exists>s. receive_own spurious response' (conn3, pc) s))"
proof -
  let ?c = "conn\<lparr>cn_pubsub_rx_queue := [rx], cn_pubsub_rx_queue_len := 1\<rparr>"
  have c1: "conn1 = mio_cond_signal ?c rx_id" by (rule handler_published [OF assms(7,1,2,8)])
  have f1: "request_find conn1 rx_id = Some (request_signal q)"
    using assms(3) by (simp add: c1 request_find_signal) (simp add: request_find_def)
  have k: "cn_pubsub_rx_queue conn1 = [rx]" "cn_pubsub_rx_queue_len conn1 = 1" "cn_authenticated conn1" "cn_rwlock_ok conn1"
    "cn_pubsub_rx_listening conn1" using assms(4-6) by (simp_all add: c1 mio_cond_signal_def request_update_def)
  let ?c2 = "conn1\<lparr>cn_pubsub_rx_queue := [], cn_pubsub_rx_queue_len := 0\<rparr>"
  have p: "request_predicate ?c2 rx_id" "request_find ?c2 rx_id \<noteq> None" "mio_request_get ?c2 rx_id \<noteq> None"
    using f1 k(4) by (simp_all add: request_predicate_def request_find_def request_signal_def mio_request_get_def)
  have d: "mio_pubsub_rx_queue_dequeue ?c2 = Some (None, ?c2)" by (simp add: mio_pubsub_rx_queue_dequeue_def)
  let ?at = "\<lambda>s. fst s = ?c2 \<and> snd s \<in> {RX_start, RX_listen, RX_outer, RX_test}"
  have keep: "?at s'" if "receive_own spurious response' s s'" "?at s" for s s'
    using that p d k by cases auto
  have all: "?at s" if "(receive_own spurious response')\<^sup>*\<^sup>* (?c2, RX_start) s" for s
    using that by (induction rule: rtranclp_induct) (auto dest: keep)
  have go: "\<exists>s. receive_own spurious response' (?c2, pc) s" if "pc \<in> {RX_start, RX_listen, RX_outer, RX_test}" for pc
  proof -
    have "receive_own spurious response' (?c2, RX_start) (?c2, RX_listen)" using d k by (intro receive_own.slow) simp_all
    moreover have "receive_own spurious response' (?c2, RX_listen) (?c2, RX_outer)" using p by (intro receive_own.listening)
    moreover have "receive_own spurious response' (?c2, RX_outer) (?c2, RX_test)" using k by (intro receive_own.outer_again) simp_all
    moreover have "receive_own spurious response' (?c2, RX_test) (?c2, RX_outer)" using p by (intro receive_own.test_set)
    ultimately show ?thesis using that by auto
  qed
  have "receive_own spurious response (conn1, RX_start) (?c2, RX_return MIO_OK (response_copy response rx))"
    using k by (intro receive_own.quick) (simp_all add: mio_pubsub_rx_queue_dequeue_def)
  moreover have "conn3 = ?c2 \<and> pc \<in> {RX_start, RX_listen, RX_outer, RX_test} \<and> (\<exists>s. receive_own spurious response' (conn3, pc) s)"
    if "(receive_own spurious response')\<^sup>*\<^sup>* (?c2, RX_start) (conn3, pc)" for conn3 pc
    using all [OF that] go by simp
  ultimately show ?thesis by blast
qed

theorem receive_spins_witness:
  "\<exists>conn1 rx conn2. receive_own False mio_response_new (conn1, RX_start) (conn2, RX_return MIO_OK (response_copy mio_response_new rx)) \<and>
     (\<forall>conn3 pc. (receive_own False mio_response_new)\<^sup>*\<^sup>* (conn2, RX_start) (conn3, pc) \<longrightarrow>
        pc \<in> {RX_start, RX_listen, RX_outer, RX_test} \<and> (\<exists>s. receive_own False mio_response_new (conn3, pc) s))"
proof -
  obtain err conn1 rx where h: "mio_handler_pubsub_data_receive (\<lambda>_. (value_events, True)) (rx_conn Cond_idle) example_reply None = Some (err, conn1, rx)"
    "cn_pubsub_rx_queue conn1 \<noteq> []" using value_handled by blast
  from receive_spins [OF rx_conn_facts(1-3,5-7) h, of False mio_response_new mio_response_new] show ?thesis by blast
qed

text \<open>Stopping the listening under a waiting receiver is undefined: \<open>mio_pubsub_data_listen_stop\<close> signals the request and frees it at
  once, so the only step the receiver has is to read freed memory.\<close>

theorem receive_stopped_undefined:
  assumes "request_find conn rx_id = Some q" "cn_rwlock_ok conn" "distinct (map rq_id (cn_request_table conn))"
  shows "\<exists>conn'. mio_pubsub_data_listen_stop conn = (MIO_OK, conn') \<and> (\<forall>s. receive_own spurious response (conn', RX_wait) s \<longleftrightarrow> s = (conn', RX_undefined))"
proof -
  let ?c = "mio_cond_signal (conn\<lparr>cn_pubsub_rx_listening := False\<rparr>) rx_id"
  let ?c' = "snd (mio_request_delete ?c rx_id)"
  have stop: "mio_pubsub_data_listen_stop conn = (MIO_OK, ?c')"
    using assms(1,2) by (simp add: mio_pubsub_data_listen_stop_def mio_request_get_def)
  have "distinct (map rq_id (cn_request_table ?c))" using assms(3) by (simp add: mio_cond_signal_def request_update_def)
  from find_request_remove_list [OF this, of rx_id rx_id] have f: "request_find ?c' rx_id = None"
    using assms(2) by (auto simp: mio_request_delete_def request_find_def mio_cond_signal_def request_update_def split: option.splits)
  have "receive_own spurious response (?c', RX_wait) s \<longleftrightarrow> s = (?c', RX_undefined)" for s
  proof
    assume "receive_own spurious response (?c', RX_wait) s"
    then show "s = (?c', RX_undefined)" using f by cases simp_all
  next
    assume "s = (?c', RX_undefined)"
    then show "receive_own spurious response (?c', RX_wait) s" using receive_own.freed [OF f] by simp
  qed
  with stop show ?thesis by blast
qed

theorem receive_stopped_undefined_witness:
  "\<exists>conn'. mio_pubsub_data_listen_stop (rx_conn Cond_waiting) = (MIO_OK, conn') \<and>
     receive_own False mio_response_new (conn', RX_wait) (conn', RX_undefined)"
  using receive_stopped_undefined [OF rx_conn_facts(3,5,8), of Cond_waiting False mio_response_new] by blast

end
