(* ===== verification/Strophe_Base64.thy ===== *)
theory Strophe_Base64
  imports Strophe_Hash
begin

text \<open>
  Base64 (\<^verbatim>\<open>src/libs/c/libstrophe/src/sasl.c\<close>), in which the messages of the SASL login travel. A buffer is a string of bytes,
  a \<open>uint32_t\<close> a word, and \<open>None\<close> stands for an access outside a buffer. \<open>char\<close> is signed, so that a byte above 127 indexes before the
  table of the decoder.

  Shown: decoding what was encoded gives it back, and the encoder fills its buffer exactly; the encoder runs out of its
  buffer on inputs shorter than 2 bytes; the decoder writes past its buffer on inputs that do not end as Base64 must, and
  on those only.
\<close>

section \<open>Tables\<close>

definition base64_charmap :: string where
  "base64_charmap = ''ABCDEFGHIJKLMNOPQRSTUVWXYZabcdefghijklmnopqrstuvwxyz0123456789+/=''"

definition base64_invcharmap :: "nat list" where
  "base64_invcharmap =
    [65,65,65,65, 65,65,65,65, 65,65,65,65, 65,65,65,65,
     65,65,65,65, 65,65,65,65, 65,65,65,65, 65,65,65,65,
     65,65,65,65, 65,65,65,65, 65,65,65,62, 65,65,65,63,
     52,53,54,55, 56,57,58,59, 60,61,65,65, 65,64,65,65,
     65, 0, 1, 2,  3, 4, 5, 6,  7, 8, 9,10, 11,12,13,14,
     15,16,17,18, 19,20,21,22, 23,24,25,65, 65,65,65,65,
     65,26,27,28, 29,30,31,32, 33,34,35,36, 37,38,39,40,
     41,42,43,44, 45,46,47,48, 49,50,51,65, 65,65,65,65] @ replicate 128 65"

definition base64_encode_at :: "32 word \<Rightarrow> char" where
  "base64_encode_at hextet = base64_charmap ! unat hextet"

text \<open>\<open>_base64_invcharmap[(int)buffer[i]]\<close>.\<close>

definition base64_inv :: "char \<Rightarrow> 32 word option" where
  "base64_inv c = (let i = c_schar c in if 0 \<le> i then Some (word_of_nat (base64_invcharmap ! nat i)) else None)"

definition base64_decode_at :: "string \<Rightarrow> int \<Rightarrow> 32 word option" where
  "base64_decode_at buffer i = (if 0 \<le> i \<and> i < int (length buffer) then base64_inv (buffer ! nat i) else None)"

section \<open>Encoding\<close>

definition c_byte :: "char \<Rightarrow> 32 word" where "c_byte c = of_char c"

definition base64_encoded_len :: "32 word \<Rightarrow> 32 word" where
  "base64_encoded_len len = push_bit 2 ((len + 2) div 3)"

definition base64_triple :: "char \<Rightarrow> char \<Rightarrow> char \<Rightarrow> string" where
  "base64_triple b0 b1 b2 =
     (let word = push_bit 16 (c_byte b0) OR push_bit 8 (c_byte b1) OR c_byte b2
      in [base64_encode_at (drop_bit 18 (word AND 0x00FC0000)), base64_encode_at (drop_bit 12 (word AND 0x0003F000)),
          base64_encode_at (drop_bit 6 (word AND 0x00000FC0)), base64_encode_at (word AND 0x000003F)])"

text \<open>The loop compares a signed with an unsigned number, so the comparison is unsigned.\<close>

function base64_encode_loop :: "string \<Rightarrow> nat \<Rightarrow> (nat \<times> string) option" where
  "base64_encode_loop buffer i =
     (if (word_of_nat i :: 32 word) < word_of_nat (length buffer) - 2
      then if i + 2 < length buffer
        then do {
          (j, out) \<leftarrow> base64_encode_loop buffer (i + 3);
          Some (j, base64_triple (buffer ! i) (buffer ! (i + 1)) (buffer ! (i + 2)) @ out) }
        else None
      else Some (i, []))"
  by pat_completeness auto
termination
  by (relation "measure (\<lambda>(buffer, i). length buffer - i)") auto

declare base64_encode_loop.simps [simp del]

definition base64_encode :: "string \<Rightarrow> string option" where
  "base64_encode buffer = do {
     let len = length buffer;
     (i, out) \<leftarrow> base64_encode_loop buffer 0;
     let pad = base64_charmap ! 64;
     Some (if len = i + 1 then
         out @ [base64_encode_at (drop_bit 2 (c_byte (buffer ! (len - 1)) AND 0xFC)),
                base64_encode_at (push_bit 4 (c_byte (buffer ! (len - 1)) AND 0x03)), pad, pad]
       else if len = i + 2 then
         out @ [base64_encode_at (drop_bit 2 (c_byte (buffer ! (len - 2)) AND 0xFC)),
                base64_encode_at (push_bit 4 (c_byte (buffer ! (len - 2)) AND 0x03) OR drop_bit 4 (c_byte (buffer ! (len - 1)) AND 0xF0)),
                base64_encode_at (push_bit 2 (c_byte (buffer ! (len - 1)) AND 0x0F)), pad]
       else out) }"

section \<open>Decoding\<close>

definition base64_decoded_len :: "string \<Rightarrow> int option" where
  "base64_decoded_len buffer = do {
     let len = int (length buffer);
     c \<leftarrow> base64_decode_at buffer (len - 1);
     nudge \<leftarrow> (if c < 64 then Some 0
       else if c = 64 then do {
         c \<leftarrow> base64_decode_at buffer (len - 2);
         if c < 64 then Some 1
         else if c = 64 then do {
           c \<leftarrow> base64_decode_at buffer (len - 3);
           Some (if c < 64 then 2 else -1) }
         else Some (-1) }
       else Some (-1));
     Some (if nudge < 0 then 0 else 3 * (len div 4) - nudge) }"

text \<open>Storing through \<open>d\<close>: a store of \<open>n\<close> bytes must end inside the \<open>dlen + 1\<close> bytes of the buffer.\<close>

definition byte_c :: "32 word \<Rightarrow> char" where "byte_c w = char_of (unat w)"

definition base64_put :: "int \<Rightarrow> string \<Rightarrow> string \<Rightarrow> string option" where
  "base64_put dlen out bytes = (if int (length out + length bytes) \<le> dlen + 1 then Some (out @ bytes) else None)"

text \<open>A set of 4 characters: the last hextet read, and the 3 bytes unless the loop breaks.\<close>

definition base64_quartet :: "string \<Rightarrow> int \<Rightarrow> (32 word \<times> string option) option" where
  "base64_quartet buffer i = do {
     h0 \<leftarrow> base64_decode_at buffer i;
     if h0 AND 0xC0 \<noteq> 0 then Some (h0, None) else do {
       h1 \<leftarrow> base64_decode_at buffer (i + 1);
       if h1 AND 0xC0 \<noteq> 0 then Some (h1, None) else do {
         h2 \<leftarrow> base64_decode_at buffer (i + 2);
         if h2 AND 0xC0 \<noteq> 0 then Some (h2, None) else do {
           h3 \<leftarrow> base64_decode_at buffer (i + 3);
           if h3 AND 0xC0 \<noteq> 0 then Some (h3, None)
           else let word = push_bit 18 h0 OR push_bit 12 h1 OR push_bit 6 h2 OR h3
             in Some (h3, Some [byte_c (drop_bit 16 (word AND 0x00FF0000)), byte_c (drop_bit 8 (word AND 0x0000FF00)),
                                byte_c (word AND 0x000000FF)]) }}}}"

function base64_decode_loop :: "string \<Rightarrow> int \<Rightarrow> nat \<Rightarrow> 32 word option \<Rightarrow> string \<Rightarrow> (32 word option \<times> string) option" where
  "base64_decode_loop buffer dlen i hextet out =
     (if (word_of_nat i :: 32 word) < word_of_nat (length buffer) - 3
      then if i < length buffer then do {
          (h, bytes) \<leftarrow> base64_quartet buffer (int i);
          (case bytes of
             None \<Rightarrow> Some (Some h, out)
           | Some bs \<Rightarrow> do { out' \<leftarrow> base64_put dlen out bs; base64_decode_loop buffer dlen (i + 4) (Some h) out' }) }
        else None
      else Some (hextet, out))"
  by pat_completeness auto
termination
  by (relation "measure (\<lambda>(buffer, dlen, i, hextet, out). length buffer - i)") auto

declare base64_decode_loop.simps [simp del]

text \<open>The last quartet, when it is padded; \<open>Some None\<close> is the jump to \<open>_base64_decode_error\<close>.\<close>

definition base64_remainder :: "string \<Rightarrow> int \<Rightarrow> string \<Rightarrow> string option option" where
  "base64_remainder buffer dlen out =
     (let len = int (length buffer) in
      if dlen mod 3 = 0 then Some (Some out)
      else do {
        h0 \<leftarrow> base64_decode_at buffer (len - 4);
        if h0 AND 0xC0 \<noteq> 0 then Some None else do {
          h1 \<leftarrow> base64_decode_at buffer (len - 3);
          if h1 AND 0xC0 \<noteq> 0 then Some None
          else if dlen mod 3 = 1 then do {
            out' \<leftarrow> base64_put dlen out [byte_c ((push_bit 2 h0 OR drop_bit 4 h1) AND 0xFF)];
            h2 \<leftarrow> base64_decode_at buffer (len - 2);
            if h2 \<noteq> 64 then Some None else do {
              h3 \<leftarrow> base64_decode_at buffer (len - 1);
              Some (if h3 \<noteq> 64 then None else Some out') }}
          else do {
            h2 \<leftarrow> base64_decode_at buffer (len - 2);
            if h2 AND 0xC0 \<noteq> 0 then Some None else do {
              let word = push_bit 10 h0 OR push_bit 4 h1 OR drop_bit 2 h2;
              out' \<leftarrow> base64_put dlen out [byte_c (drop_bit 8 (word AND 0xFF00)), byte_c (word AND 0x00FF)];
              h3 \<leftarrow> base64_decode_at buffer (len - 1);
              Some (if h3 \<noteq> 64 then None else Some out') }}}})"

definition base64_decode :: "string \<Rightarrow> string option option" where
  "base64_decode buffer =
     (if length buffer mod 4 \<noteq> 0 then Some None
      else do {
        dlen \<leftarrow> base64_decoded_len buffer;
        (hextet, out) \<leftarrow> base64_decode_loop buffer dlen 0 None [];
        hextet \<leftarrow> hextet;
        if hextet > 64 then Some None else do {
          result \<leftarrow> base64_remainder buffer dlen out;
          (case result of
             None \<Rightarrow> Some None
           | Some out \<Rightarrow> do { _ \<leftarrow> base64_put dlen out [CHR 0x00]; Some (Some out) }) }})"

section \<open>Bits\<close>

lemma base64_masks:
  "(0x00FC0000 :: 32 word) = push_bit 18 (mask 6)" "(0x0003F000 :: 32 word) = push_bit 12 (mask 6)"
  "(0x00000FC0 :: 32 word) = push_bit 6 (mask 6)" "(0x000003F :: 32 word) = mask 6"
  "(0x00FF0000 :: 32 word) = push_bit 16 (mask 8)" "(0x0000FF00 :: 32 word) = push_bit 8 (mask 8)" "(0x000000FF :: 32 word) = mask 8"
  "(0xC0 :: 32 word) = push_bit 6 (mask 2)" "(0xFC :: 32 word) = push_bit 2 (mask 6)" "(0x03 :: 32 word) = mask 2"
  "(0xF0 :: 32 word) = push_bit 4 (mask 4)" "(0x0F :: 32 word) = mask 4"
  by (simp_all add: mask_eq_exp_minus_1)

lemma base64_inv_table: "map base64_inv base64_charmap = map (\<lambda>n. Some (word_of_nat n)) [0..<65]"
  by (simp add: upt_rec base64_inv_def base64_invcharmap_def base64_charmap_def c_schar_def)

lemma unat_small_bits: "(\<And>n. k \<le> n \<Longrightarrow> \<not> bit (x :: 32 word) n) \<Longrightarrow> unat x < 2 ^ k"
proof -
  assume a: "\<And>n. k \<le> n \<Longrightarrow> \<not> bit x n"
  have "x = take_bit k x" by (rule bit_word_eqI) (use a leI in \<open>auto simp: bit_simps\<close>)
  then have "unat x = take_bit k (unat x)" by (metis unsigned_take_bit_eq)
  then show ?thesis by (metis take_bit_nat_less_exp)
qed

lemma small_bits: "unat (x :: 32 word) < 2 ^ k \<Longrightarrow> bit x n \<Longrightarrow> n < k"
proof -
  assume a: "unat x < 2 ^ k" "bit x n"
  have "unat x = take_bit k (unat x)" using a(1) by (simp add: take_bit_nat_eq_self)
  moreover have "bit (unat x) n" using a(2) by (simp add: bit_unsigned_iff)
  ultimately have "bit (take_bit k (unat x)) n" by simp
  then show "n < k" by (simp add: bit_take_bit_iff)
qed

lemma unat_c_byte: "unat (c_byte c) = (of_char c :: nat)" "unat (c_byte c) < 2 ^ 8"
proof -
  have "(of_char c :: 32 word) = of_nat (of_char c)" by (simp add: of_nat_of_char)
  moreover have "(of_char c :: nat) < 256" using of_char_mod_256 [of c, where 'a = nat] by (metis mod_less_divisor zero_less_numeral)
  moreover from this have "(of_char c :: nat) mod 4294967296 = of_char c" by (intro mod_less) linarith
  ultimately show "unat (c_byte c) = (of_char c :: nat)" "unat (c_byte c) < 2 ^ 8" by (simp_all add: unat_of_nat c_byte_def)
qed

lemma c_byte_bit: "bit (c_byte c) n \<Longrightarrow> n < 8"
  by (rule small_bits [OF unat_c_byte(2)])

lemma byte_c_byte [simp]: "byte_c (c_byte c) = c"
  by (simp add: byte_c_def unat_c_byte)

lemma base64_inv_encode: "unat h < 2 ^ 6 \<Longrightarrow> base64_inv (base64_encode_at h) = Some h"
proof -
  assume h: "unat h < 2 ^ 6"
  then have "unat h < length base64_charmap" by (simp add: base64_charmap_def)
  then have "base64_inv (base64_charmap ! unat h) = map base64_inv base64_charmap ! unat h" by simp
  also have "\<dots> = Some h" using h by (simp only: base64_inv_table) simp
  finally show ?thesis by (simp add: base64_encode_at_def)
qed

lemma small_and [simp]: "unat (h :: 32 word) < 2 ^ 6 \<Longrightarrow> h AND 0xC0 = 0"
  unfolding base64_masks using small_bits [of h 6] by (intro bit_word_eqI) (fastforce simp: bit_simps)

lemma hextets_small:
  "unat (drop_bit 18 (w AND 0x00FC0000 :: 32 word)) < 2 ^ 6" "unat (drop_bit 12 (w AND 0x0003F000 :: 32 word)) < 2 ^ 6"
  "unat (drop_bit 6 (w AND 0x00000FC0 :: 32 word)) < 2 ^ 6" "unat (w AND 0x000003F :: 32 word) < 2 ^ 6"
  unfolding base64_masks by (rule unat_small_bits; simp add: bit_simps)+

lemma hextets_word:
  fixes w :: "32 word" 
  defines "v \<equiv> push_bit 18 (drop_bit 18 (w AND 0x00FC0000)) OR push_bit 12 (drop_bit 12 (w AND 0x0003F000)) OR
    push_bit 6 (drop_bit 6 (w AND 0x00000FC0)) OR (w AND 0x000003F)"
  shows "v = w AND mask 24"
proof (rule bit_word_eqI)
  fix n assume "n < LENGTH(32)"
  consider "n < 6" | "6 \<le> n" "n < 12" | "12 \<le> n" "n < 18" | "18 \<le> n" by linarith
  then show "bit v n = bit (w AND mask 24) n" unfolding v_def base64_masks by cases (auto simp: bit_simps)
qed

lemma word_bytes:
  fixes b0 b1 b2 defines "w \<equiv> push_bit 16 (c_byte b0) OR push_bit 8 (c_byte b1) OR c_byte b2"
  shows "drop_bit 16 ((w AND mask 24) AND 0x00FF0000) = c_byte b0" "drop_bit 8 ((w AND mask 24) AND 0x0000FF00) = c_byte b1"
    "(w AND mask 24) AND 0x000000FF = c_byte b2"
  unfolding w_def base64_masks by (rule bit_word_eqI; auto simp: bit_simps dest: c_byte_bit)+

section \<open>Round trip\<close>

lemma decode_at: "0 \<le> i \<Longrightarrow> i < int (length buffer) \<Longrightarrow> base64_decode_at buffer i = base64_inv (buffer ! nat i)"
  by (simp add: base64_decode_at_def)

lemma quartet_small:
  assumes "base64_decode_at buffer i = Some h0" "base64_decode_at buffer (i + 1) = Some h1" "base64_decode_at buffer (i + 2) = Some h2"
    "base64_decode_at buffer (i + 3) = Some h3" "unat h0 < 2 ^ 6" "unat h1 < 2 ^ 6" "unat h2 < 2 ^ 6" "unat h3 < 2 ^ 6"
    "push_bit 18 h0 OR push_bit 12 h1 OR push_bit 6 h2 OR h3 = v"
  shows "base64_quartet buffer i = Some (h3, Some [byte_c (drop_bit 16 (v AND 0x00FF0000)), byte_c (drop_bit 8 (v AND 0x0000FF00)),
    byte_c (v AND 0x000000FF)])"
  unfolding base64_quartet_def Let_def assms(1-4,9) Option.bind.bind_lunit small_and [OF assms(5)] small_and [OF assms(6)]
    small_and [OF assms(7)] small_and [OF assms(8)] by simp

lemma group_at:
  assumes "take 4 (drop i buffer) = g" "i + 4 \<le> length buffer" "k < 4"
  shows "base64_decode_at buffer (int i + int k) = base64_inv (g ! k)"
proof -
  have "buffer ! (i + k) = g ! k" using assms by auto
  moreover have "nat (int i + int k) = i + k" by simp
  ultimately show ?thesis using assms(2,3) by (simp only: base64_decode_at_def) simp
qed

lemma quartet_triple:
  assumes "i + 4 \<le> length buffer" "take 4 (drop i buffer) = base64_triple b0 b1 b2"
  shows "\<exists>h. base64_quartet buffer (int i) = Some (h, Some [b0, b1, b2]) \<and> unat h < 2 ^ 6"
proof -
  define w where "w = push_bit 16 (c_byte b0) OR push_bit 8 (c_byte b1) OR c_byte b2"
  note at4 = group_at [OF assms(2,1), of 0, simplified] group_at [OF assms(2,1), of 1, simplified]
    group_at [OF assms(2,1), of 2, simplified] group_at [OF assms(2,1), of 3, simplified]
  have t: "base64_triple b0 b1 b2 = map base64_encode_at [drop_bit 18 (w AND 0x00FC0000), drop_bit 12 (w AND 0x0003F000),
      drop_bit 6 (w AND 0x00000FC0), w AND 0x000003F]"
    by (simp add: base64_triple_def w_def Let_def)
  note small = hextets_small [of w] and bytes = word_bytes [of b0 b1 b2, folded w_def]
  have dec: "base64_decode_at buffer (int i) = Some (drop_bit 18 (w AND 0x00FC0000))"
    "base64_decode_at buffer (int i + 1) = Some (drop_bit 12 (w AND 0x0003F000))"
    "base64_decode_at buffer (int i + 2) = Some (drop_bit 6 (w AND 0x00000FC0))"
    "base64_decode_at buffer (int i + 3) = Some (w AND 0x000003F)"
    unfolding at4 t using small [THEN base64_inv_encode] by simp_all
  show ?thesis using quartet_small [OF dec small hextets_word] small(4) unfolding bytes byte_c_byte by blast
qed


text \<open>Base64 by groups of three bytes.\<close>

definition base64_single :: "char \<Rightarrow> string" where
  "base64_single a = [base64_encode_at (drop_bit 2 (c_byte a AND 0xFC)), base64_encode_at (push_bit 4 (c_byte a AND 0x03)),
     base64_charmap ! 64, base64_charmap ! 64]"

definition base64_pair :: "char \<Rightarrow> char \<Rightarrow> string" where
  "base64_pair a b = [base64_encode_at (drop_bit 2 (c_byte a AND 0xFC)),
     base64_encode_at (push_bit 4 (c_byte a AND 0x03) OR drop_bit 4 (c_byte b AND 0xF0)),
     base64_encode_at (push_bit 2 (c_byte b AND 0x0F)), base64_charmap ! 64]"

fun base64_text :: "string \<Rightarrow> string" where
  "base64_text [] = []"
| "base64_text [a] = base64_single a"
| "base64_text [a, b] = base64_pair a b"
| "base64_text (a # b # c # rest) = base64_triple a b c @ base64_text rest"

lemma length_groups [simp]: "length (base64_triple a b c) = 4" "length (base64_pair a b) = 4" "length (base64_single a) = 4"
  by (simp_all add: base64_triple_def base64_pair_def base64_single_def Let_def)

lemma length_base64_text: "length (base64_text buffer) = 4 * ((length buffer + 2) div 3)"
proof (induction buffer rule: base64_text.induct)
  case (4 a b c rest)
  then show ?case by simp presburger
qed simp_all

lemma word_less_minus: "i \<le> n \<Longrightarrow> n < 2 ^ 32 \<Longrightarrow> k \<le> n \<Longrightarrow> (word_of_nat i :: 32 word) < word_of_nat n - word_of_nat k \<longleftrightarrow> i + k < n"
proof -
  assume a: "i \<le> n" "n < 2 ^ 32" "k \<le> n"
  have "(word_of_nat n - word_of_nat k :: 32 word) = word_of_nat (n - k)" using a(3) by (simp only: of_nat_diff)
  moreover have "unat (word_of_nat (n - k) :: 32 word) = n - k" "unat (word_of_nat i :: 32 word) = i"
    using a by (simp_all add: unat_of_nat del: of_nat_diff)
  ultimately show "(word_of_nat i :: 32 word) < word_of_nat n - word_of_nat k \<longleftrightarrow> i + k < n"
    by (simp add: word_less_nat_alt less_diff_conv del: of_nat_diff)
qed

lemma encode_loop_eq:
  assumes "2 \<le> length buffer" "length buffer < 2 ^ 32"
  shows "i \<le> length buffer \<Longrightarrow> \<exists>j out. base64_encode_loop buffer i = Some (j, out) \<and> j \<le> length buffer \<and> length buffer - j \<le> 2 \<and>
    base64_text (drop i buffer) = out @ base64_text (drop j buffer)"
proof (induction "length buffer - i" arbitrary: i rule: less_induct)
  case less
  have c: "(word_of_nat i :: 32 word) < word_of_nat (length buffer) - 2 \<longleftrightarrow> i + 2 < length buffer"
    using word_less_minus [OF less.prems assms(2,1)] by simp
  show ?case
  proof (cases "i + 2 < length buffer")
    case True
    then obtain j out where j: "base64_encode_loop buffer (i + 3) = Some (j, out)" "j \<le> length buffer" "length buffer - j \<le> 2"
      "base64_text (drop (i + 3) buffer) = out @ base64_text (drop j buffer)" using less.hyps [of "i + 3"] by fastforce
    have "drop i buffer = buffer ! i # buffer ! (i + 1) # buffer ! (i + 2) # drop (i + 3) buffer"
      using True by (simp add: Cons_nth_drop_Suc [symmetric] numeral_3_eq_3)
    with True j c show ?thesis by (subst base64_encode_loop.simps) auto
  next
    case False
    with less.prems c show ?thesis by (subst base64_encode_loop.simps) auto
  qed
qed

lemma encode_eq:
  assumes "2 \<le> length buffer" "length buffer < 2 ^ 32"
  shows "base64_encode buffer = Some (base64_text buffer)"
proof -
  obtain j out where j: "base64_encode_loop buffer 0 = Some (j, out)" "j \<le> length buffer" "length buffer - j \<le> 2"
    "base64_text buffer = out @ base64_text (drop j buffer)" using encode_loop_eq [OF assms, of 0] by auto
  consider "length buffer = j" | "length buffer = j + 1" | "length buffer = j + 2" using j(2,3) by linarith
  then show ?thesis
  proof cases
    case 1
    with j show ?thesis by (simp add: base64_encode_def Let_def)
  next
    case 2
    then have "drop j buffer = [buffer ! j]" by (simp add: Cons_nth_drop_Suc [symmetric])
    with j 2 show ?thesis by (simp add: base64_encode_def Let_def base64_single_def)
  next
    case 3
    then have "drop j buffer = [buffer ! j, buffer ! (j + 1)]" by (simp add: Cons_nth_drop_Suc [symmetric])
    with j 3 show ?thesis by (simp add: base64_encode_def Let_def base64_pair_def)
  qed
qed


section \<open>Round trip of the decoder\<close>

lemma inv_pad: "base64_inv (base64_charmap ! 64) = Some 64"
  by (simp add: base64_inv_def base64_invcharmap_def base64_charmap_def c_schar_def)

lemma Suc_Suc_minus: "2 \<le> n \<Longrightarrow> Suc (Suc (n - 2)) = n"
  by linarith

lemma single_word: "byte_c ((push_bit 2 (drop_bit 2 (c_byte a AND 0xFC)) OR drop_bit 4 (push_bit 4 (c_byte a AND 0x03))) AND 0xFF) = a"
proof -
  have "(push_bit 2 (drop_bit 2 (c_byte a AND 0xFC)) OR drop_bit 4 (push_bit 4 (c_byte a AND 0x03))) AND 0xFF = c_byte a"
  proof (rule bit_word_eqI)
    show "bit ((push_bit 2 (drop_bit 2 (c_byte a AND 0xFC)) OR drop_bit 4 (push_bit 4 (c_byte a AND 0x03))) AND 0xFF) n = bit (c_byte a) n" for n
      unfolding base64_masks by (cases "2 \<le> n") (auto simp: bit_simps Suc_Suc_minus dest: c_byte_bit)
  qed
  then show ?thesis by simp
qed

lemma pair_hextets: "unat (drop_bit 2 (c_byte a AND 0xFC)) < 2 ^ 6"
  "unat (push_bit 4 (c_byte a AND 0x03) OR drop_bit 4 (c_byte b AND 0xF0)) < 2 ^ 6" "unat (push_bit 2 (c_byte b AND 0x0F)) < 2 ^ 6"
  "unat (push_bit 4 (c_byte a AND 0x03)) < 2 ^ 6"
  unfolding base64_masks by (rule unat_small_bits; auto simp: bit_simps dest: c_byte_bit)+

lemma pair_word:
  fixes a b defines "w \<equiv> push_bit 10 (drop_bit 2 (c_byte a AND 0xFC)) OR
    push_bit 4 (push_bit 4 (c_byte a AND 0x03) OR drop_bit 4 (c_byte b AND 0xF0)) OR drop_bit 2 (push_bit 2 (c_byte b AND 0x0F))"
  shows "drop_bit 8 (w AND 0xFF00) = c_byte a" "w AND 0x00FF = c_byte b"
proof -
  have "bit (drop_bit 8 (w AND 0xFF00)) n = bit (c_byte a) n" for n
    unfolding w_def base64_masks by (cases "2 \<le> n") (auto simp: bit_simps Suc_Suc_minus dest: c_byte_bit)
  then show "drop_bit 8 (w AND 0xFF00) = c_byte a" by (simp add: bit_eq_iff)
  have "bit (w AND 0x00FF) n = bit (c_byte b) n" for n
    unfolding w_def base64_masks by (cases "4 \<le> n") (auto simp: bit_simps Suc_Suc_minus dest: c_byte_bit)
  then show "w AND 0x00FF = c_byte b" by (simp add: bit_eq_iff)
qed


lemma pad_and: "(64 :: 32 word) AND 0xC0 \<noteq> 0"
  by simp

lemma single_at:
  assumes "i + 4 \<le> length buffer" "take 4 (drop i buffer) = base64_single a"
  shows "base64_decode_at buffer (int i) = Some (drop_bit 2 (c_byte a AND 0xFC))"
    "base64_decode_at buffer (int i + 1) = Some (push_bit 4 (c_byte a AND 0x03))"
    "base64_decode_at buffer (int i + 2) = Some 64" "base64_decode_at buffer (int i + 3) = Some 64"
  using group_at [OF assms(2,1), of 0] group_at [OF assms(2,1), of 1] group_at [OF assms(2,1), of 2] group_at [OF assms(2,1), of 3]
    pair_hextets(1,4) [of a, THEN base64_inv_encode]
  unfolding base64_single_def by (simp_all add: inv_pad)

lemma pair_at:
  assumes "i + 4 \<le> length buffer" "take 4 (drop i buffer) = base64_pair a b"
  shows "base64_decode_at buffer (int i) = Some (drop_bit 2 (c_byte a AND 0xFC))"
    "base64_decode_at buffer (int i + 1) = Some (push_bit 4 (c_byte a AND 0x03) OR drop_bit 4 (c_byte b AND 0xF0))"
    "base64_decode_at buffer (int i + 2) = Some (push_bit 2 (c_byte b AND 0x0F))" "base64_decode_at buffer (int i + 3) = Some 64"
  using group_at [OF assms(2,1), of 0] group_at [OF assms(2,1), of 1] group_at [OF assms(2,1), of 2] group_at [OF assms(2,1), of 3]
    pair_hextets(1,3) [THEN base64_inv_encode] pair_hextets(2) [of a b, THEN base64_inv_encode]
  unfolding base64_pair_def by (simp_all add: inv_pad)

lemma quartet_padded:
  assumes "i + 4 \<le> length buffer"
  shows "take 4 (drop i buffer) = base64_single a \<Longrightarrow> base64_quartet buffer (int i) = Some (64, None)"
    "take 4 (drop i buffer) = base64_pair a b \<Longrightarrow> base64_quartet buffer (int i) = Some (64, None)"
proof -
  assume s: "take 4 (drop i buffer) = base64_single a"
  show "base64_quartet buffer (int i) = Some (64, None)"
    unfolding base64_quartet_def single_at [OF assms s] Option.bind.bind_lunit small_and [OF pair_hextets(1)] small_and [OF pair_hextets(4)] by simp
next
  assume s: "take 4 (drop i buffer) = base64_pair a b"
  show "base64_quartet buffer (int i) = Some (64, None)"
    unfolding base64_quartet_def pair_at [OF assms s] Option.bind.bind_lunit small_and [OF pair_hextets(1)] small_and [OF pair_hextets(2)]
      small_and [OF pair_hextets(3)] by simp
qed

lemma decode_loop_text:
  assumes "length buffer < 2 ^ 32" "4 \<le> length buffer"
  shows "buffer = P @ base64_text rest \<Longrightarrow> int (length out + 3 * (length rest div 3)) \<le> dlen + 1 \<Longrightarrow>
    rest \<noteq> [] \<or> (\<exists>h. hextet = Some h \<and> unat h \<le> 64) \<Longrightarrow>
    \<exists>h. base64_decode_loop buffer dlen (length P) hextet out = Some (Some h, out @ take (3 * (length rest div 3)) rest) \<and> unat h \<le> 64"
proof (induction rest arbitrary: P hextet out rule: base64_text.induct)
  case 1
  then show ?case using word_less_minus [of "length buffer" "length buffer" 3] assms by (subst base64_decode_loop.simps) auto
next
  case (2 a)
  then have q: "base64_quartet buffer (int (length P)) = Some (64, None)" by (intro quartet_padded(1) [where a = a]) simp_all
  show ?case using q 2(1) word_less_minus [of "length P" "length buffer" 3] assms(1) by (subst base64_decode_loop.simps) simp
next
  case (3 a b)
  then have q: "base64_quartet buffer (int (length P)) = Some (64, None)" by (intro quartet_padded(2) [where a = a and b = b]) simp_all
  show ?case using q 3(1) word_less_minus [of "length P" "length buffer" 3] assms(1) by (subst base64_decode_loop.simps) simp
next
  case (4 a b c rest)
  then obtain h where q: "base64_quartet buffer (int (length P)) = Some (h, Some [a, b, c])" "unat h < 2 ^ 6"
    using quartet_triple [of "length P" buffer a b c] by auto
  have d: "length (a # b # c # rest) div 3 = Suc (length rest div 3)" by simp
  have cap: "base64_put dlen out [a, b, c] = Some (out @ [a, b, c])" using 4(3) unfolding d base64_put_def by simp
  have "\<exists>h'. base64_decode_loop buffer dlen (length (P @ base64_triple a b c)) (Some h) (out @ [a, b, c]) =
      Some (Some h', (out @ [a, b, c]) @ take (3 * (length rest div 3)) rest) \<and> unat h' \<le> 64"
    by (rule 4(1)) (use 4(2,3) [unfolded d] q(2) in simp_all)
  moreover have "take (3 * Suc k) (a # b # c # rest) = [a, b, c] @ take (3 * k) rest" for k by (simp add: numeral_3_eq_3)
  ultimately show ?case using q(1) cap 4(2) word_less_minus [of "length P" "length buffer" 3] assms(1) unfolding d
    by (subst base64_decode_loop.simps) (simp del: mult_Suc_right)
qed

lemma base64_text_append: "length full mod 3 = 0 \<Longrightarrow> base64_text (full @ rest) = base64_text full @ base64_text rest"
  by (induction full rule: base64_text.induct) auto

text \<open>A string by its whole groups and what is left.\<close>

lemma groups_cases:
  fixes s :: string
  assumes "s \<noteq> []"
  obtains (whole) full a b c where "s = full @ [a, b, c]" "length full mod 3 = 0"
    | (pair) full a b where "s = full @ [a, b]" "length full mod 3 = 0"
    | (single) full a where "s = full @ [a]" "length full mod 3 = 0"
  using assms
proof (induction s arbitrary: thesis rule: base64_text.induct)
  case (2 a)
  then show ?case by (metis append_Nil list.size(3) mod_0)
next
  case (3 a b)
  then show ?case by (metis append_Nil list.size(3) mod_0)
next
  case (4 a b c rest)
  show ?case
  proof (cases "rest = []")
    case True
    with 4(2) show ?thesis by (metis append_Nil list.size(3) mod_0)
  next
    case False
    have m: "length (a # b # c # full) mod 3 = length full mod 3" for full by simp
    show ?thesis
    proof (rule 4(1))
      show "rest = full @ [x, y, z] \<Longrightarrow> length full mod 3 = 0 \<Longrightarrow> thesis" for full x y z using 4(2) [of "a # b # c # full"] m by simp
      show "rest = full @ [x, y] \<Longrightarrow> length full mod 3 = 0 \<Longrightarrow> thesis" for full x y using 4(3) [of "a # b # c # full"] m by simp
      show "rest = full @ [x] \<Longrightarrow> length full mod 3 = 0 \<Longrightarrow> thesis" for full x using 4(4) [of "a # b # c # full"] m by simp
    qed (rule False)
  qed
qed simp

lemma word_small64: "unat (h :: 32 word) < 2 ^ 6 \<Longrightarrow> h < 64"
  by (simp add: word_less_nat_alt)

lemma decoded_len_by_pad:
  assumes "base64_decode_at buffer (int (length buffer) - 1) = Some c1"
  shows "c1 < 64 \<Longrightarrow> base64_decoded_len buffer = Some (3 * (int (length buffer) div 4))"
    "c1 = 64 \<Longrightarrow> base64_decode_at buffer (int (length buffer) - 2) = Some c2 \<Longrightarrow> c2 < 64 \<Longrightarrow>
       base64_decoded_len buffer = Some (3 * (int (length buffer) div 4) - 1)"
    "c1 = 64 \<Longrightarrow> base64_decode_at buffer (int (length buffer) - 2) = Some 64 \<Longrightarrow>
       base64_decode_at buffer (int (length buffer) - 3) = Some c3 \<Longrightarrow> c3 < 64 \<Longrightarrow>
       base64_decoded_len buffer = Some (3 * (int (length buffer) div 4) - 2)"
  using assms by (simp_all add: base64_decoded_len_def Let_def)

lemma remainder_padded:
  assumes "base64_decode_at buffer (int (length buffer) - 4) = Some h0" "base64_decode_at buffer (int (length buffer) - 3) = Some h1"
    "base64_decode_at buffer (int (length buffer) - 2) = Some h2" "base64_decode_at buffer (int (length buffer) - 1) = Some 64"
    "unat h0 < 2 ^ 6" "unat h1 < 2 ^ 6"
  shows "dlen mod 3 = 1 \<Longrightarrow> h2 = 64 \<Longrightarrow> (push_bit 2 h0 OR drop_bit 4 h1) AND 0xFF = v1 \<Longrightarrow>
      base64_remainder buffer dlen out = map_option Some (base64_put dlen out [byte_c v1])"
    "dlen mod 3 = 2 \<Longrightarrow> unat h2 < 2 ^ 6 \<Longrightarrow> push_bit 10 h0 OR push_bit 4 h1 OR drop_bit 2 h2 = v2 \<Longrightarrow>
      base64_remainder buffer dlen out = map_option Some (base64_put dlen out [byte_c (drop_bit 8 (v2 AND 0xFF00)), byte_c (v2 AND 0x00FF)])"
proof -
  assume m: "dlen mod 3 = 1" "h2 = 64" "(push_bit 2 h0 OR drop_bit 4 h1) AND 0xFF = v1"
  show "base64_remainder buffer dlen out = map_option Some (base64_put dlen out [byte_c v1])"
    unfolding base64_remainder_def Let_def assms(1-4) Option.bind.bind_lunit small_and [OF assms(5)] small_and [OF assms(6)] m
    by (cases "base64_put dlen out [byte_c v1]") simp_all
next
  assume m: "dlen mod 3 = 2" "unat h2 < 2 ^ 6" "push_bit 10 h0 OR push_bit 4 h1 OR drop_bit 2 h2 = v2"
  show "base64_remainder buffer dlen out = map_option Some (base64_put dlen out [byte_c (drop_bit 8 (v2 AND 0xFF00)), byte_c (v2 AND 0x00FF)])"
    unfolding base64_remainder_def Let_def assms(1-4) Option.bind.bind_lunit small_and [OF assms(5)] small_and [OF assms(6)] small_and [OF m(2)] m
    by (cases "base64_put dlen out [byte_c (drop_bit 8 (v2 AND 0xFF00)), byte_c (v2 AND 0x00FF)]") simp_all
qed

lemma decode_text:
  assumes "s \<noteq> []" "length s < 2 ^ 31"
  shows "base64_decode (base64_text s) = Some (Some s)"
proof -
  define T where "T = base64_text s"
  have T: "length T < 2 ^ 32" "4 \<le> length T" "length T mod 4 = 0"
    using assms by (cases s; simp add: T_def length_base64_text)+
  have full: "full = take (3 * (length s div 3)) s" if "s = full @ rest" "length full mod 3 = 0" "length rest < 3" for full rest
  proof -
    have "3 * (length s div 3) = length full" using that by simp presburger
    then show ?thesis using that(1) by simp
  qed
  from assms(1) have "base64_decoded_len T = Some (int (length s)) \<and>
    base64_remainder T (int (length s)) (take (3 * (length s div 3)) s) = Some (Some s)"
  proof (cases rule: groups_cases)
    case (whole full a b c)
    then have split: "T = base64_text full @ base64_triple a b c" by (simp add: T_def base64_text_append)
    have l: "int (length T) - 1 = int (length (base64_text full)) + int 3" unfolding split by simp
    have "base64_decode_at T (int (length T) - 1) = base64_inv (base64_triple a b c ! 3)"
      unfolding l by (rule group_at) (simp_all add: split)
    also have "\<dots> = Some ((push_bit 16 (c_byte a) OR push_bit 8 (c_byte b) OR c_byte c) AND 0x000003F)"
      unfolding base64_triple_def Let_def using hextets_small(4) [THEN base64_inv_encode] by simp
    finally have "base64_decoded_len T = Some (3 * (int (length T) div 4))"
      by (rule decoded_len_by_pad(1)) (rule word_small64, rule hextets_small(4))
    moreover have "3 * (int (length T) div 4) = int (length s)" using whole unfolding T_def length_base64_text by simp presburger
    moreover have "take (3 * (length s div 3)) s = s" "int (length s) mod 3 = 0" using whole by simp_all presburger+
    ultimately show ?thesis by (simp add: base64_remainder_def Let_def)
  next
    case (pair full a b)
    then have split: "T = base64_text full @ base64_pair a b" by (simp add: T_def base64_text_append)
    have l: "int (length T) - 4 = int (length (base64_text full))" "int (length T) - 3 = int (length (base64_text full)) + 1"
      "int (length T) - 2 = int (length (base64_text full)) + 2" "int (length T) - 1 = int (length (base64_text full)) + 3" unfolding split by simp_all
    note at = pair_at [of "length (base64_text full)" T a b, folded l]
    have t: "length (base64_text full) + 4 \<le> length T" "take 4 (drop (length (base64_text full)) T) = base64_pair a b" by (simp_all add: split)
    have "base64_decoded_len T = Some (3 * (int (length T) div 4) - 1)"
      by (rule decoded_len_by_pad(2) [OF at(4) [OF t] refl at(3) [OF t]]) (rule word_small64, rule pair_hextets(3))
    moreover have "3 * (int (length T) div 4) - 1 = int (length s)" "int (length s) mod 3 = 2" 
      using pair unfolding T_def length_base64_text by simp_all presburger+
    moreover have "take (3 * (length s div 3)) s = full" using full [OF pair] by simp
    moreover have "base64_put (int (length s)) full [a, b] = Some s" using pair by (simp add: base64_put_def)
    moreover have "base64_remainder T (int (length s)) full = map_option Some (base64_put (int (length s)) full [a, b])"
      if "int (length s) mod 3 = 2"
      using remainder_padded(2) [OF at [OF t] pair_hextets(1,2) that pair_hextets(3) refl, of full] unfolding pair_word byte_c_byte .
    ultimately show ?thesis by simp
  next
    case (single full a)
    then have split: "T = base64_text full @ base64_single a" by (simp add: T_def base64_text_append)
    have l: "int (length T) - 4 = int (length (base64_text full))" "int (length T) - 3 = int (length (base64_text full)) + 1"
      "int (length T) - 2 = int (length (base64_text full)) + 2" "int (length T) - 1 = int (length (base64_text full)) + 3" unfolding split by simp_all
    note at = single_at [of "length (base64_text full)" T a, folded l]
    have t: "length (base64_text full) + 4 \<le> length T" "take 4 (drop (length (base64_text full)) T) = base64_single a" by (simp_all add: split)
    have "base64_decoded_len T = Some (3 * (int (length T) div 4) - 2)"
      by (rule decoded_len_by_pad(3) [OF at(4) [OF t] refl at(3) [OF t] at(2) [OF t]]) (rule word_small64, rule pair_hextets(4))
    moreover have "3 * (int (length T) div 4) - 2 = int (length s)" "int (length s) mod 3 = 1"
      using single unfolding T_def length_base64_text by simp_all presburger+
    moreover have "take (3 * (length s div 3)) s = full" using full [OF single] by simp
    moreover have "base64_put (int (length s)) full [a] = Some s" using single by (simp add: base64_put_def)
    moreover have "base64_remainder T (int (length s)) full = map_option Some (base64_put (int (length s)) full [a])"
      if "int (length s) mod 3 = 1"
      using remainder_padded(1) [OF at [OF t] pair_hextets(1,4) that refl refl, of full] unfolding single_word .
    ultimately show ?thesis by simp
  qed
  then have len: "base64_decoded_len T = Some (int (length s))"
    and rem: "base64_remainder T (int (length s)) (take (3 * (length s div 3)) s) = Some (Some s)" by blast+
  have "3 * (length s div 3) \<le> length s" by simp
  then have cap: "int (length ([] :: string) + 3 * (length s div 3)) \<le> int (length s) + 1" unfolding list.size add_0 by linarith
  have "\<exists>h. base64_decode_loop T (int (length s)) (length ([] :: string)) None [] =
      Some (Some h, [] @ take (3 * (length s div 3)) s) \<and> unat h \<le> 64"
    by (rule decode_loop_text [OF T(1,2) _ cap]) (simp_all add: T_def assms(1))
  then obtain h where loop: "base64_decode_loop T (int (length s)) 0 None [] = Some (Some h, take (3 * (length s div 3)) s)" "unat h \<le> 64"
    unfolding list.size append_Nil by blast
  have "\<not> h > 64" using loop(2) by (simp add: word_less_nat_alt)
  then show ?thesis using T(3) unfolding T_def [symmetric] by (simp add: base64_decode_def len loop(1) rem base64_put_def)
qed


section \<open>Where the decoder stays in its buffer\<close>

lemma base64_inv_ascii: "(of_char c :: nat) < 128 \<Longrightarrow> \<exists>h. base64_inv c = Some h \<and> unat h \<le> 65"
proof -
  assume c: "(of_char c :: nat) < 128"
  have "list_all (\<lambda>n. n \<le> 65) base64_invcharmap" "length base64_invcharmap = 256" by (simp_all add: base64_invcharmap_def list_all_iff)
  then have "base64_invcharmap ! of_char c \<le> 65" using c by (simp add: list_all_length)
  then have "base64_invcharmap ! of_char c mod 4294967296 \<le> 65" by (simp add: mod_less)
  then show ?thesis using c by (simp add: base64_inv_def c_schar_def Let_def unat_of_nat)
qed

lemma decode_at_ascii:
  assumes "c_ascii buffer" "0 \<le> i" "i < int (length buffer)"
  obtains h where "base64_decode_at buffer i = Some h" "unat h \<le> 65"
proof -
  have "(of_char (buffer ! nat i) :: nat) < 128" using assms by (simp add: c_ascii_def list_all_length)
  from base64_inv_ascii [OF this] show ?thesis using assms(2,3) that by (auto simp: base64_decode_at_def)
qed

lemma quartet_ascii:
  assumes "c_ascii buffer" "0 \<le> i" "i + 3 < int (length buffer)"
  obtains h where "base64_quartet buffer i = Some (h, None)" "unat h \<le> 65"
    | h bs where "base64_quartet buffer i = Some (h, Some bs)" "length bs = 3" "base64_decode_at buffer (i + 3) = Some h" "h AND 0xC0 = 0" "unat h \<le> 65"
proof -
  obtain h0 where 0: "base64_decode_at buffer i = Some h0" "unat h0 \<le> 65" by (rule decode_at_ascii [OF assms(1), of i]) (use assms in auto)
  obtain h1 where 1: "base64_decode_at buffer (i + 1) = Some h1" "unat h1 \<le> 65" by (rule decode_at_ascii [OF assms(1), of "i + 1"]) (use assms in auto)
  obtain h2 where 2: "base64_decode_at buffer (i + 2) = Some h2" "unat h2 \<le> 65" by (rule decode_at_ascii [OF assms(1), of "i + 2"]) (use assms in auto)
  obtain h3 where 3: "base64_decode_at buffer (i + 3) = Some h3" "unat h3 \<le> 65" by (rule decode_at_ascii [OF assms(1), of "i + 3"]) (use assms in auto)
  note eq = base64_quartet_def 0(1) 1(1) 2(1) 3(1) Option.bind.bind_lunit Let_def
  consider "h0 AND 0xC0 \<noteq> 0" | "h0 AND 0xC0 = 0" "h1 AND 0xC0 \<noteq> 0" | "h0 AND 0xC0 = 0" "h1 AND 0xC0 = 0" "h2 AND 0xC0 \<noteq> 0"
    | "h0 AND 0xC0 = 0" "h1 AND 0xC0 = 0" "h2 AND 0xC0 = 0" "h3 AND 0xC0 \<noteq> 0"
    | "h0 AND 0xC0 = 0" "h1 AND 0xC0 = 0" "h2 AND 0xC0 = 0" "h3 AND 0xC0 = 0" by blast
  then show ?thesis
  proof cases
    case 1 with 0(2) that(1) [of h0] show ?thesis unfolding eq by simp
  next
    case 2 with 1(2) that(1) [of h1] show ?thesis unfolding eq by simp
  next
    case 3 with 2(2) that(1) [of h2] show ?thesis unfolding eq by simp
  next
    case 4 with 3(2) that(1) [of h3] show ?thesis unfolding eq by simp
  next
    case 5 with 3 that(2) [of h3] show ?thesis unfolding eq by simp
  qed
qed


text \<open>The loop needs room for the sets of 4 before the first that breaks.\<close>

lemma decode_loop_defined:
  assumes "c_ascii buffer" "length buffer < 2 ^ 32" "length buffer = 4 * q" "0 < q"
    and bad: "\<And>j. m \<le> j \<Longrightarrow> j < q \<Longrightarrow> \<exists>h. base64_quartet buffer (int (4 * j)) = Some (h, None)" and "m \<le> q"
  shows "k \<le> m \<Longrightarrow> int (length out + 3 * (m - k)) \<le> dlen + 1 \<Longrightarrow> k < q \<or> hextet \<noteq> None \<Longrightarrow>
    \<exists>h out'. base64_decode_loop buffer dlen (4 * k) hextet out = Some (Some h, out') \<and> length out' \<le> length out + 3 * (m - k)"
proof (induction "q - k" arbitrary: k hextet out rule: less_induct)
  case less
  have c: "(word_of_nat (4 * k) :: 32 word) < word_of_nat (length buffer) - 3 \<longleftrightarrow> k < q"
    using word_less_minus [of "4 * k" "length buffer" 3] assms(2-4,6) less.prems(1) by auto
  show ?case
  proof (cases "k < q")
    case False
    with less.prems(3) c show ?thesis by (subst base64_decode_loop.simps) auto
  next
    case True
    have "0 \<le> int (4 * k)" "int (4 * k) + 3 < int (length buffer)" using True assms(3) by auto
    from quartet_ascii [OF assms(1) this] show ?thesis
    proof cases
      case (1 h)
      with True c assms(3) show ?thesis by (subst base64_decode_loop.simps) auto
    next
      case (2 h bs)
      have "k < m" using bad [of k] 2(1) True less.prems(1) by (cases "k < m") auto
      then have r: "length out + 3 + 3 * (m - Suc k) = length out + 3 * (m - k)" by simp
      with less.prems(2) have put: "base64_put dlen out bs = Some (out @ bs)" using 2(2) by (simp add: base64_put_def)
      have "\<exists>h' out'. base64_decode_loop buffer dlen (4 * Suc k) (Some h) (out @ bs) = Some (Some h', out') \<and>
          length out' \<le> length (out @ bs) + 3 * (m - Suc k)"
        by (rule less.hyps) (use True \<open>k < m\<close> r less.prems(2) 2(2) in \<open>simp_all del: mult_Suc_right\<close>)
      moreover have "4 * k + 4 = 4 * Suc k" by simp
      ultimately show ?thesis using True c 2(1,2) put r assms(3) by (subst base64_decode_loop.simps) (auto simp del: mult_Suc_right)
    qed
  qed
qed

lemma remainder_defined:
  assumes "c_ascii buffer" "4 \<le> length buffer" "dlen mod 3 = 0 \<and> int (length out) \<le> dlen \<or> int (length out) + dlen mod 3 \<le> dlen"
  shows "\<exists>r. base64_remainder buffer dlen out = Some r \<and> (\<forall>out'. r = Some out' \<longrightarrow> int (length out') \<le> dlen)"
proof -
  obtain h0 where 0: "base64_decode_at buffer (int (length buffer) - 4) = Some h0" by (rule decode_at_ascii [OF assms(1), of "int (length buffer) - 4"]) (use assms in auto)
  obtain h1 where 1: "base64_decode_at buffer (int (length buffer) - 3) = Some h1" by (rule decode_at_ascii [OF assms(1), of "int (length buffer) - 3"]) (use assms in auto)
  obtain h2 where 2: "base64_decode_at buffer (int (length buffer) - 2) = Some h2" by (rule decode_at_ascii [OF assms(1), of "int (length buffer) - 2"]) (use assms in auto)
  obtain h3 where 3: "base64_decode_at buffer (int (length buffer) - 1) = Some h3" by (rule decode_at_ascii [OF assms(1), of "int (length buffer) - 1"]) (use assms in auto)
  have m: "dlen mod 3 = 0 \<or> dlen mod 3 = 1 \<or> dlen mod 3 = 2" by presburger
  show ?thesis unfolding base64_remainder_def Let_def 0 1 2 3 Option.bind.bind_lunit
    using assms(3) m by (auto simp: base64_put_def)
qed


lemma decode_defined:
  assumes "c_ascii buffer" "4 \<le> length buffer" "length buffer mod 4 = 0" "base64_decoded_len buffer = Some dlen"
    and "base64_decode_loop buffer dlen 0 None [] = Some (Some h, out)"
    and "dlen mod 3 = 0 \<and> int (length out) \<le> dlen \<or> int (length out) + dlen mod 3 \<le> dlen"
  shows "base64_decode buffer \<noteq> None"
proof -
  obtain r where "base64_remainder buffer dlen out = Some r" "\<forall>out'. r = Some out' \<longrightarrow> int (length out') \<le> dlen"
    using remainder_defined [OF assms(1,2,6)] by blast
  then show ?thesis using assms(3-5) by (cases r) (auto simp: base64_decode_def base64_put_def)
qed

section \<open>Properties\<close>

text \<open>The encoder produces Base64, group by group, for every input of at least 2 bytes, and its text has exactly the length for
  which it allocates; shorter inputs make it read and write outside its buffers, because \<open>len - 2\<close> wraps around.\<close>

theorem base64_encode_spec:
  assumes "length buffer < 2 ^ 30"
  shows "base64_encode buffer = (if 2 \<le> length buffer then Some (base64_text buffer) else None) \<and>
    length (base64_text buffer) = unat (base64_encoded_len (word_of_nat (length buffer)))"
proof -
  have short: "base64_encode buffer = None" if "\<not> 2 \<le> length buffer"
  proof -
    from that consider "length buffer = 0" | "length buffer = 1" by linarith
    then show ?thesis by cases (simp_all add: base64_encode_def base64_encode_loop.simps Let_def word_gt_0)
  qed
  have "unat (push_bit 2 ((word_of_nat (length buffer) + 2 :: 32 word) div 3)) = 4 * ((length buffer + 2) div 3)"
  proof -
    have l: "unat (word_of_nat (length buffer) + 2 :: 32 word) = length buffer + 2"
      using assms by (simp add: unat_word_ariths unat_of_nat)
    have "unat ((word_of_nat (length buffer) + 2 :: 32 word) div 3) = (length buffer + 2) div 3" by (simp add: unat_div l)
    moreover have "(length buffer + 2) div 3 * 4 < 2 ^ 32" using assms by simp
    ultimately show ?thesis by (simp add: push_bit_eq_mult unat_word_ariths)
  qed
  then show ?thesis using short encode_eq [of buffer] assms by (simp add: base64_encoded_len_def length_base64_text)
qed

theorem base64_encode_spec_witness:
  "base64_encode ''hi!'' = Some ''aGkh'' \<and> base64_encode ''h'' = None"
  using base64_encode_spec [of "''hi!''"] base64_encode_spec [of "''h''"] 
  by (simp add: base64_triple_def base64_encode_at_def base64_charmap_def c_byte_def)



text \<open>C40: The decoder writes past its buffer exactly when the input does not end as Base64 must (the length computed is then 0)
  but begins with 4 characters of the alphabet; on every other ASCII input it stays inside.\<close>

theorem base64_decode_overflow:
  assumes "c_ascii buffer" "buffer \<noteq> []" "length buffer mod 4 = 0" "length buffer < 2 ^ 31"
  shows "base64_decode buffer = None \<longleftrightarrow> base64_decoded_len buffer = Some 0 \<and> (\<exists>h bytes. base64_quartet buffer 0 = Some (h, Some bytes))"
proof -
  obtain q where q0: "length buffer = 4 * q" using assms(3) by (auto simp: mod_eq_0_iff_dvd elim: dvdE)
  with assms(2) have "0 < q" by (cases q) auto
  with q0 have q: "length buffer = 4 * q" "0 < q" "4 \<le> length buffer" by simp_all
  obtain c1 where c1: "base64_decode_at buffer (int (length buffer) - 1) = Some c1"
    by (rule decode_at_ascii [OF assms(1), of "int (length buffer) - 1"]) (use q in auto)
  obtain c2 where c2: "base64_decode_at buffer (int (length buffer) - 2) = Some c2"
    by (rule decode_at_ascii [OF assms(1), of "int (length buffer) - 2"]) (use q in auto)
  obtain c3 where c3: "base64_decode_at buffer (int (length buffer) - 3) = Some c3"
    by (rule decode_at_ascii [OF assms(1), of "int (length buffer) - 3"]) (use q in auto)
  note loop = decode_loop_defined [OF assms(1) _ q(1,2), where k = 0 and out = "[]" and hextet = None, simplified]
  have last_bad: "\<exists>h. base64_quartet buffer (int (4 * j)) = Some (h, None)" if "c1 = 64" "q - 1 \<le> j" "j < q" for j
  proof -
    have j: "int (4 * j) + 3 = int (length buffer) - 1" using that q by simp
    have "0 \<le> int (4 * j)" "int (4 * j) + 3 < int (length buffer)" unfolding j by simp_all
    from quartet_ascii [OF assms(1) this] show ?thesis
    proof cases
      case (2 h bs)
      with c1 that(1) have "h = 64" unfolding j by simp
      with 2(4) show ?thesis by simp
    qed blast
  qed
  have no_pad: "base64_decoded_len buffer = Some 0" if "\<not> c1 < 64" "\<not> (c1 = 64 \<and> c2 < 64)" "\<not> (c1 = 64 \<and> c2 = 64 \<and> c3 < 64)"
    unfolding base64_decoded_len_def Let_def c1 c2 c3 Option.bind.bind_lunit using that by auto
  consider (full) "c1 < 64" | (one) "c1 = 64" "c2 < 64" | (two) "c1 = 64" "c2 = 64" "c3 < 64"
    | (none) "base64_decoded_len buffer = Some 0"
    using no_pad by blast
  then show ?thesis
  proof cases
    case full
    have len: "base64_decoded_len buffer = Some (3 * int q)" using decoded_len_by_pad(1) [OF c1 full] q by simp
    obtain h out where l: "base64_decode_loop buffer (3 * int q) 0 None [] = Some (Some h, out)" "length out \<le> 3 * q"
      using loop [of q "3 * int q"] assms(4) q by auto
    have "base64_decode buffer \<noteq> None" by (rule decode_defined [OF assms(1) q(3) assms(3) len l(1)]) (use l(2) in auto)
    then show ?thesis using len q by simp
  next
    case one
    have len: "base64_decoded_len buffer = Some (3 * int q - 1)" using decoded_len_by_pad(2) [OF c1 one(1) c2 one(2)] q by simp
    obtain h out where l: "base64_decode_loop buffer (3 * int q - 1) 0 None [] = Some (Some h, out)" "length out \<le> 3 * (q - 1)"
      using loop [of "q - 1" "3 * int q - 1"] last_bad [OF one(1)] assms(4) q by auto
    have m: "(3 * int q - 1) mod 3 = 2" by presburger
    have "base64_decode buffer \<noteq> None" by (rule decode_defined [OF assms(1) q(3) assms(3) len l(1)]) (unfold m, use l(2) q in auto)
    then show ?thesis using len q by simp
  next
    case two
    have len: "base64_decoded_len buffer = Some (3 * int q - 2)"
      using decoded_len_by_pad(3) [OF c1 two(1) _ c3 two(3)] c2 two(2) q by simp
    obtain h out where l: "base64_decode_loop buffer (3 * int q - 2) 0 None [] = Some (Some h, out)" "length out \<le> 3 * (q - 1)"
      using loop [of "q - 1" "3 * int q - 2"] last_bad [OF two(1)] assms(4) q by auto
    have m: "(3 * int q - 2) mod 3 = 1" by presburger
    have "base64_decode buffer \<noteq> None" by (rule decode_defined [OF assms(1) q(3) assms(3) len l(1)]) (unfold m, use l(2) q in auto)
    then show ?thesis using len q by simp
  next
    case none
    have c: "(word_of_nat 0 :: 32 word) < word_of_nat (length buffer) - 3" using word_less_minus [of 0 "length buffer" 3] assms(4) q by simp
    have "(0 :: int) \<le> 0" "0 + 3 < int (length buffer)" using q by auto
    from quartet_ascii [OF assms(1) this] show ?thesis
    proof cases
      case (1 h)
      have "base64_decode_loop buffer 0 0 None [] = Some (Some h, [])"
        using c 1(1) assms(2) by (subst base64_decode_loop.simps) simp
      from decode_defined [OF assms(1) q(3) assms(3) none this] 1(1) show ?thesis by simp
    next
      case (2 h bs)
      have "base64_decode_loop buffer 0 0 None [] = None"
        using c 2(1,2) assms(2) by (subst base64_decode_loop.simps) (simp add: base64_put_def)
      then show ?thesis using 2(1) assms(3) none by (simp add: base64_decode_def)
    qed
  qed
qed

theorem base64_decode_overflow_witness:
  "base64_decode ''AAAAAAA!'' = None \<and> base64_decode ''AA==AA=='' \<noteq> None"
proof -
  note table = base64_decoded_len_def base64_quartet_def base64_decode_at_def base64_inv_def base64_invcharmap_def c_schar_def Let_def
  have "base64_decoded_len ''AAAAAAA!'' = Some 0" "base64_decoded_len ''AA==AA=='' = Some 4" by (simp_all add: table)
  moreover have "\<exists>h bytes. base64_quartet ''AAAAAAA!'' 0 = Some (h, Some bytes)" by (simp add: table)
  moreover have "c_ascii ''AAAAAAA!''" "c_ascii ''AA==AA==''" by (simp_all add: c_ascii_def)
  ultimately show ?thesis using base64_decode_overflow [of "''AAAAAAA!''"] base64_decode_overflow [of "''AA==AA==''"] by simp
qed

end
