(* ===== verification/Strophe_Md5.thy ===== *)
theory Strophe_Md5
  imports Strophe_Base64
begin

text \<open>
  MD5 (\<^verbatim>\<open>src/libs/c/libstrophe/src/md5.c\<close>), with which the login proves the password. A context holds the chaining
  values, the number of bits as two words, and a block of 64 bytes that is filled as data arrive.

  Shown: however a message is cut into pieces, the updates and the final step compute the same digest, that of the whole
  message padded and taken block by block.
\<close>

section \<open>Words and bytes\<close>

definition GET_32BIT_LSB_FIRST :: "string \<Rightarrow> nat \<Rightarrow> 32 word" where
  "GET_32BIT_LSB_FIRST cp i = c_byte (cp ! i) OR push_bit 8 (c_byte (cp ! (i + 1))) OR push_bit 16 (c_byte (cp ! (i + 2))) OR
     push_bit 24 (c_byte (cp ! (i + 3)))"

definition PUT_32BIT_LSB_FIRST :: "32 word \<Rightarrow> string" where
  "PUT_32BIT_LSB_FIRST value = [byte_c (value AND 0xFF), byte_c (drop_bit 8 value AND 0xFF), byte_c (drop_bit 16 value AND 0xFF),
     byte_c (drop_bit 24 value AND 0xFF)]"

text \<open>Copying bytes to an offset of a buffer.\<close>

definition c_memcpy :: "string \<Rightarrow> nat \<Rightarrow> string \<Rightarrow> string" where
  "c_memcpy dst p src = take p dst @ src @ drop (p + length src) dst"

section \<open>The transformation of a block\<close>

type_synonym md5_buf = "32 word \<times> 32 word \<times> 32 word \<times> 32 word"

datatype md5_function = F1 | F2 | F3 | F4

definition md5_F1 :: "32 word \<Rightarrow> 32 word \<Rightarrow> 32 word \<Rightarrow> 32 word" where
  "md5_F1 x y z = z XOR (x AND (y XOR z))"

fun md5_f :: "md5_function \<Rightarrow> 32 word \<Rightarrow> 32 word \<Rightarrow> 32 word \<Rightarrow> 32 word" where
  "md5_f F1 x y z = md5_F1 x y z"
| "md5_f F2 x y z = md5_F1 z x y"
| "md5_f F3 x y z = x XOR y XOR z"
| "md5_f F4 x y z = y XOR (x OR NOT z)"

text \<open>The registers are written in the order the step names them, so that every step has the same form: after it the last
  register comes first.\<close>

fun MD5STEP :: "(nat \<Rightarrow> 32 word) \<Rightarrow> md5_buf \<Rightarrow> md5_function \<times> nat \<times> 32 word \<times> nat \<Rightarrow> md5_buf" where
  "MD5STEP in_words (w, x, y, z) (f, k, c, s) =
     (let w = w + (md5_f f x y z + (in_words k + c)); w = push_bit s w OR drop_bit (32 - s) w; w = w + x
      in (z, w, x, y))"

definition md5_steps :: "(md5_function \<times> nat \<times> 32 word \<times> nat) list" where
  "md5_steps = [
     (F1, 0, 0xd76aa478, 7), (F1, 1, 0xe8c7b756, 12), (F1, 2, 0x242070db, 17), (F1, 3, 0xc1bdceee, 22),
     (F1, 4, 0xf57c0faf, 7), (F1, 5, 0x4787c62a, 12), (F1, 6, 0xa8304613, 17), (F1, 7, 0xfd469501, 22),
     (F1, 8, 0x698098d8, 7), (F1, 9, 0x8b44f7af, 12), (F1, 10, 0xffff5bb1, 17), (F1, 11, 0x895cd7be, 22),
     (F1, 12, 0x6b901122, 7), (F1, 13, 0xfd987193, 12), (F1, 14, 0xa679438e, 17), (F1, 15, 0x49b40821, 22),
     (F2, 1, 0xf61e2562, 5), (F2, 6, 0xc040b340, 9), (F2, 11, 0x265e5a51, 14), (F2, 0, 0xe9b6c7aa, 20),
     (F2, 5, 0xd62f105d, 5), (F2, 10, 0x02441453, 9), (F2, 15, 0xd8a1e681, 14), (F2, 4, 0xe7d3fbc8, 20),
     (F2, 9, 0x21e1cde6, 5), (F2, 14, 0xc33707d6, 9), (F2, 3, 0xf4d50d87, 14), (F2, 8, 0x455a14ed, 20),
     (F2, 13, 0xa9e3e905, 5), (F2, 2, 0xfcefa3f8, 9), (F2, 7, 0x676f02d9, 14), (F2, 12, 0x8d2a4c8a, 20),
     (F3, 5, 0xfffa3942, 4), (F3, 8, 0x8771f681, 11), (F3, 11, 0x6d9d6122, 16), (F3, 14, 0xfde5380c, 23),
     (F3, 1, 0xa4beea44, 4), (F3, 4, 0x4bdecfa9, 11), (F3, 7, 0xf6bb4b60, 16), (F3, 10, 0xbebfbc70, 23),
     (F3, 13, 0x289b7ec6, 4), (F3, 0, 0xeaa127fa, 11), (F3, 3, 0xd4ef3085, 16), (F3, 6, 0x04881d05, 23),
     (F3, 9, 0xd9d4d039, 4), (F3, 12, 0xe6db99e5, 11), (F3, 15, 0x1fa27cf8, 16), (F3, 2, 0xc4ac5665, 23),
     (F4, 0, 0xf4292244, 6), (F4, 7, 0x432aff97, 10), (F4, 14, 0xab9423a7, 15), (F4, 5, 0xfc93a039, 21),
     (F4, 12, 0x655b59c3, 6), (F4, 3, 0x8f0ccc92, 10), (F4, 10, 0xffeff47d, 15), (F4, 1, 0x85845dd1, 21),
     (F4, 8, 0x6fa87e4f, 6), (F4, 15, 0xfe2ce6e0, 10), (F4, 6, 0xa3014314, 15), (F4, 13, 0x4e0811a1, 21),
     (F4, 4, 0xf7537e82, 6), (F4, 11, 0xbd3af235, 10), (F4, 2, 0x2ad7d2bb, 15), (F4, 9, 0xeb86d391, 21)]"

definition MD5Transform :: "md5_buf \<Rightarrow> string \<Rightarrow> md5_buf" where
  "MD5Transform buf inext =
     (case buf of (a0, b0, c0, d0) \<Rightarrow>
        case foldl (MD5STEP (\<lambda>i. GET_32BIT_LSB_FIRST inext (4 * i))) buf md5_steps of (a, b, c, d) \<Rightarrow> (a0 + a, b0 + b, c0 + c, d0 + d))"

section \<open>Contexts\<close>

record md5_context =
  md_buf :: md5_buf
  md_bits :: "32 word \<times> 32 word"
  md_in :: string

definition MD5Init :: md5_context where
  "MD5Init = \<lparr>md_buf = (0x67452301, 0xefcdab89, 0x98badcfe, 0x10325476), md_bits = (0, 0), md_in = replicate 64 (CHR 0x00)\<rparr>"

definition md5_block :: "md5_context \<Rightarrow> md5_context" where
  "md5_block ctx = ctx\<lparr>md_buf := MD5Transform (md_buf ctx) (md_in ctx)\<rparr>"

text \<open>The loop over whole blocks, and the copy of what is left.\<close>

function md5_blocks :: "md5_context \<Rightarrow> string \<Rightarrow> md5_context" where
  "md5_blocks ctx buf =
     (if 64 \<le> length buf then md5_blocks (md5_block (ctx\<lparr>md_in := c_memcpy (md_in ctx) 0 (take 64 buf)\<rparr>)) (drop 64 buf)
      else ctx\<lparr>md_in := c_memcpy (md_in ctx) 0 buf\<rparr>)"
  by pat_completeness auto
termination
  by (relation "measure (\<lambda>(ctx, buf). length buf)") auto

declare md5_blocks.simps [simp del]

definition MD5Update :: "md5_context \<Rightarrow> string \<Rightarrow> md5_context" where
  "MD5Update ctx buf =
     (let len = word_of_nat (length buf) :: 32 word;
          (t, high) = md_bits ctx;
          low = t + push_bit 3 len;
          high = (if low < t then high + 1 else high) + drop_bit 29 len;
          ctx = ctx\<lparr>md_bits := (low, high)\<rparr>;
          t = unat (drop_bit 3 t AND 0x3f)
      in if t \<noteq> 0
         then if length buf < 64 - t then ctx\<lparr>md_in := c_memcpy (md_in ctx) t buf\<rparr>
              else md5_blocks (md5_block (ctx\<lparr>md_in := c_memcpy (md_in ctx) t (take (64 - t) buf)\<rparr>)) (drop (64 - t) buf)
         else md5_blocks ctx buf)"

definition MD5Final :: "md5_context \<Rightarrow> string" where
  "MD5Final ctx =
     (let (low, high) = md_bits ctx;
          count = unat (drop_bit 3 low AND 0x3F);
          ctx = ctx\<lparr>md_in := c_memcpy (md_in ctx) count [CHR 0x80]\<rparr>;
          p = count + 1;
          count = 64 - 1 - count;
          ctx = (if count < 8
            then let ctx = md5_block (ctx\<lparr>md_in := c_memcpy (md_in ctx) p (replicate count (CHR 0x00))\<rparr>)
                 in ctx\<lparr>md_in := c_memcpy (md_in ctx) 0 (replicate 56 (CHR 0x00))\<rparr>
            else ctx\<lparr>md_in := c_memcpy (md_in ctx) p (replicate (count - 8) (CHR 0x00))\<rparr>);
          ctx = ctx\<lparr>md_in := c_memcpy (md_in ctx) 56 (PUT_32BIT_LSB_FIRST low)\<rparr>;
          ctx = ctx\<lparr>md_in := c_memcpy (md_in ctx) 60 (PUT_32BIT_LSB_FIRST high)\<rparr>
      in case md_buf (md5_block ctx) of (a, b, c, d) \<Rightarrow>
           PUT_32BIT_LSB_FIRST a @ PUT_32BIT_LSB_FIRST b @ PUT_32BIT_LSB_FIRST c @ PUT_32BIT_LSB_FIRST d)"

section \<open>Reference\<close>

text \<open>MD5 of a whole message (RFC 1321): pad with a one bit, zeros and the number of bits to a multiple of 64 bytes, and take the
  blocks in order.\<close>

function md5_whole :: "md5_buf \<Rightarrow> string \<Rightarrow> md5_buf" where
  "md5_whole st msg = (if 64 \<le> length msg then md5_whole (MD5Transform st (take 64 msg)) (drop 64 msg) else st)"
  by pat_completeness auto
termination
  by (relation "measure (\<lambda>(st, msg). length msg)") auto

declare md5_whole.simps [simp del]

definition md5_length :: "nat \<Rightarrow> string" where
  "md5_length n = PUT_32BIT_LSB_FIRST (word_of_nat (8 * n)) @ PUT_32BIT_LSB_FIRST (word_of_nat (8 * n div 2 ^ 32))"

definition md5_pad :: "string \<Rightarrow> string" where
  "md5_pad msg = msg @ [CHR 0x80] @ replicate ((119 - length msg mod 64) mod 64) (CHR 0x00) @ md5_length (length msg)"

definition md5_reference :: "string \<Rightarrow> string" where
  "md5_reference msg = (case md5_whole (md_buf MD5Init) (md5_pad msg) of (a, b, c, d) \<Rightarrow>
     PUT_32BIT_LSB_FIRST a @ PUT_32BIT_LSB_FIRST b @ PUT_32BIT_LSB_FIRST c @ PUT_32BIT_LSB_FIRST d)"

section \<open>Updates keep the context true to the message\<close>

definition md5_inv :: "md5_context \<Rightarrow> string \<Rightarrow> bool" where
  "md5_inv ctx msg \<longleftrightarrow> md_buf ctx = md5_whole (md_buf MD5Init) msg \<and> length (md_in ctx) = 64 \<and>
     take (length msg mod 64) (md_in ctx) = drop (64 * (length msg div 64)) msg \<and>
     md_bits ctx = (word_of_nat (8 * length msg), word_of_nat (8 * length msg div 2 ^ 32))"

lemma length_PUT [simp]: "length (PUT_32BIT_LSB_FIRST v) = 4"
  by (simp add: PUT_32BIT_LSB_FIRST_def)

lemma length_memcpy: "p + length src \<le> length dst \<Longrightarrow> length (c_memcpy dst p src) = length dst"
  by (simp add: c_memcpy_def)

lemma md5_whole_short [simp]: "length msg < 64 \<Longrightarrow> md5_whole st msg = st"
  by (simp add: md5_whole.simps)

lemma md5_whole_step [simp]: "length a = 64 \<Longrightarrow> md5_whole st (a @ b) = md5_whole (MD5Transform st a) b"
  by (subst md5_whole.simps) simp

lemma md5_whole_append:
  "length a mod 64 = 0 \<Longrightarrow> md5_whole st (a @ b) = md5_whole (md5_whole st a) b"
proof (induction st a rule: md5_whole.induct)
  case (1 st a)
  show ?case
  proof (cases "64 \<le> length a")
    case True
    then have a: "a = take 64 a @ drop 64 a" "length (take 64 a) = 64" by simp_all
    have "length (drop 64 a) mod 64 = 0" using 1(2) True by (simp add: mod_if)
    with 1(1) True have "md5_whole (MD5Transform st (take 64 a)) (drop 64 a @ b) =
        md5_whole (md5_whole (MD5Transform st (take 64 a)) (drop 64 a)) b" by simp
    then show ?thesis using md5_whole_step [OF a(2)] by (metis a(1) append.assoc)
  next
    case False
    with 1(2) have "a = []" by (cases a) auto
    then show ?thesis by simp
  qed
qed

lemma md5_whole_prefix:
  "md5_whole st (msg @ data) = md5_whole (md5_whole st msg) (drop (64 * (length msg div 64)) msg @ data)"
proof -
  let ?k = "64 * (length msg div 64)"
  have "?k \<le> length msg" by simp
  then have "length (take ?k msg) = ?k" by simp
  then have l: "length (take ?k msg) mod 64 = 0" "length (drop ?k msg) < 64" by (simp_all add: minus_mult_div_eq_mod)
  have "md5_whole st (take ?k msg @ drop ?k msg @ data) = md5_whole (md5_whole st (take ?k msg)) (drop ?k msg @ data)"
    by (rule md5_whole_append [OF l(1)])
  moreover have "md5_whole st (take ?k msg @ drop ?k msg) = md5_whole st (take ?k msg)"
    unfolding md5_whole_append [OF l(1)] using l(2) by simp
  moreover have "take ?k msg @ drop ?k msg @ data = msg @ data" by (simp add: append.assoc [symmetric] del: append.assoc)
  ultimately show ?thesis by simp
qed

lemma md5_blocks_inv:
  assumes "length (md_in ctx) = 64"
  shows "length (md_in (md5_blocks ctx data)) = 64 \<and> md_buf (md5_blocks ctx data) = md5_whole (md_buf ctx) data \<and>
    md_bits (md5_blocks ctx data) = md_bits ctx \<and>
    take (length data mod 64) (md_in (md5_blocks ctx data)) = drop (64 * (length data div 64)) data"
  using assms
proof (induction ctx data rule: md5_blocks.induct)
  case (1 ctx data)
  show ?case
  proof (cases "64 \<le> length data")
    case True
    let ?ctx = "md5_block (ctx\<lparr>md_in := c_memcpy (md_in ctx) 0 (take 64 data)\<rparr>)"
    have c: "md_in ?ctx = take 64 data" "md_buf ?ctx = MD5Transform (md_buf ctx) (take 64 data)" "md_bits ?ctx = md_bits ctx"
      using 1(2) True by (simp_all add: md5_block_def c_memcpy_def)
    have e: "md5_blocks ctx data = md5_blocks ?ctx (drop 64 data)" using True by (subst md5_blocks.simps) simp
    have w: "md5_whole (md_buf ctx) data = md5_whole (md_buf ?ctx) (drop 64 data)" using True c(2) by (subst md5_whole.simps) simp
    have d: "length data mod 64 = length (drop 64 data) mod 64" "64 * (length data div 64) = 64 + 64 * (length (drop 64 data) div 64)"
      using True by (simp_all add: mod_if div_if)
    have "length (md_in ?ctx) = 64" using c(1) True by simp
    moreover have "drop (64 + k) data = drop k (drop 64 data)" for k by (simp add: add.commute)
    ultimately show ?thesis using 1(1) [OF True] c(3) unfolding e w d by presburger
  next
    case False
    then show ?thesis using 1(2) by (subst md5_blocks.simps, subst (1 2 3) md5_blocks.simps) (simp add: c_memcpy_def)
  qed
qed


lemma md5_count: "unat (drop_bit 3 (word_of_nat (8 * n) :: 32 word) AND 0x3f) = n mod 64"
proof -
  have "drop_bit 3 (word_of_nat (8 * n) :: 32 word) AND 0x3f = take_bit 6 (drop_bit 3 (word_of_nat (8 * n)))"
    by (simp add: take_bit_eq_mask mask_eq_exp_minus_1)
  also have "unat \<dots> = take_bit 6 (unat (drop_bit 3 (word_of_nat (8 * n) :: 32 word)))" by (simp only: unsigned_take_bit_eq)
  also have "\<dots> = (8 * n mod 2 ^ 32) div 8 mod 64"
    unfolding unat_drop_bit_eq unfolding take_bit_eq_mod drop_bit_eq_div unat_of_nat by simp
  also have "\<dots> = n mod 64"
  proof -
    have "8 * n mod 2 ^ 32 = 8 * (n mod 2 ^ 29)" using mult_mod_right [of 8 n "2 ^ 29"] by simp
    then show ?thesis by (simp add: mod_mod_cancel)
  qed
  finally show ?thesis .
qed

lemma div_carry:
  fixes a b N :: nat
  assumes "0 < N"
  shows "(a + b) div N = a div N + b div N + (if (a + b) mod N < a mod N then 1 else 0)"
proof -
  let ?r = "a mod N + b mod N"
  have m: "(a + b) mod N = ?r mod N" by (simp add: mod_add_eq)
  have lt: "a mod N < N" "b mod N < N" using assms by simp_all
  show ?thesis
  proof (cases "?r < N")
    case True
    then show ?thesis unfolding div_add1_eq [of a b] m by simp
  next
    case False
    then have "N \<le> ?r" by simp
    then have "?r div N = Suc ((?r - N) div N)" "?r mod N = (?r - N) mod N" using assms by (rule le_div_geq [rotated], intro le_mod_geq)
    moreover have "?r - N < N" using lt by linarith
    ultimately have "?r div N = 1" "?r mod N = ?r - N" by simp_all
    then show ?thesis unfolding div_add1_eq [of a b] m using lt False by simp
  qed
qed

lemma md5_bits_add:
  fixes m n :: nat
  assumes "n < 2 ^ 32"
  defines "t \<equiv> word_of_nat (8 * m) :: 32 word" and "low \<equiv> word_of_nat (8 * m) + push_bit 3 (word_of_nat n) :: 32 word"
  shows "low = word_of_nat (8 * (m + n))"
    "(if word_of_nat (8 * (m + n)) < t then word_of_nat (8 * m div 2 ^ 32) + 1 else word_of_nat (8 * m div 2 ^ 32)) + drop_bit 29 (word_of_nat n :: 32 word) =
       (word_of_nat (8 * (m + n) div 2 ^ 32) :: 32 word)"
proof -
  show l: "low = word_of_nat (8 * (m + n))" by (simp add: low_def push_bit_eq_mult algebra_simps)
  define a b where "a = 8 * m" "b = 8 * n"
  have d: "drop_bit 29 (word_of_nat n :: 32 word) = word_of_nat (b div 2 ^ 32)"
  proof -
    have "unat (drop_bit 29 (word_of_nat n :: 32 word)) = n div 2 ^ 29" using assms(1) unfolding unat_drop_bit_eq unfolding drop_bit_eq_div unat_of_nat by simp
    also have "\<dots> = b div 2 ^ 32" by (simp add: a_b_def)
    finally show ?thesis using assms(1) by (simp add: word_unat_eq_iff unat_of_nat a_b_def)
  qed
  have ab: "8 * (m + n) = a + b" "8 * m = a" by (simp_all add: a_b_def)
  have "unat low = (a + b) mod 2 ^ 32" "unat t = a mod 2 ^ 32" unfolding l t_def unat_of_nat ab by simp_all
  then have c: "low < t \<longleftrightarrow> (a + b) mod 2 ^ 32 < a mod 2 ^ 32" by (simp only: word_less_nat_alt)
  have "(a + b) div 2 ^ 32 = a div 2 ^ 32 + b div 2 ^ 32 + (if (a + b) mod 2 ^ 32 < a mod 2 ^ 32 then 1 else 0)"
    by (rule div_carry) simp
  then show "(if word_of_nat (8 * (m + n)) < t then word_of_nat (8 * m div 2 ^ 32) + 1 else word_of_nat (8 * m div 2 ^ 32)) + drop_bit 29 (word_of_nat n :: 32 word) =
       (word_of_nat (8 * (m + n) div 2 ^ 32) :: 32 word)"
    unfolding l [symmetric] c d using a_b_def by (simp add: algebra_simps)
qed

lemma drop_blocks:
  assumes "length a = 64 * k"
  shows "length (a @ b) mod 64 = length b mod 64" "drop (64 * (length (a @ b) div 64)) (a @ b) = drop (64 * (length b div 64)) b"
  using assms by (simp_all add: add_mult_distrib2)

lemma MD5Update_inv:
  assumes "md5_inv ctx msg" "length data < 2 ^ 32"
  shows "md5_inv (MD5Update ctx data) (msg @ data)"
proof -
  define t where "t = length msg mod 64"
  define tail where "tail = drop (64 * (length msg div 64)) msg"
  define ctx1 where "ctx1 = ctx\<lparr>md_bits := (word_of_nat (8 * length (msg @ data)), word_of_nat (8 * length (msg @ data) div 2 ^ 32))\<rparr>"
  have t: "length tail = t" "t < 64" by (simp_all add: t_def tail_def minus_mult_div_eq_mod)
  have c: "md_buf ctx1 = md5_whole (md_buf MD5Init) msg" "length (md_in ctx1) = 64" "take t (md_in ctx1) = tail"
    using assms(1) by (simp_all add: md5_inv_def ctx1_def t_def tail_def)
  have e: "MD5Update ctx data = (if t \<noteq> 0
         then if length data < 64 - t then ctx1\<lparr>md_in := c_memcpy (md_in ctx1) t data\<rparr>
              else md5_blocks (md5_block (ctx1\<lparr>md_in := c_memcpy (md_in ctx1) t (take (64 - t) data)\<rparr>)) (drop (64 - t) data)
         else md5_blocks ctx1 data)"
  proof -
    have b: "md_bits ctx = (word_of_nat (8 * length msg), word_of_nat (8 * length msg div 2 ^ 32))" using assms(1) by (simp add: md5_inv_def)
    show ?thesis unfolding MD5Update_def Let_def b prod.case md5_count md5_bits_add [OF assms(2)] ctx1_def t_def length_append by (simp only:)
  qed
  have w: "md5_whole (md_buf MD5Init) (msg @ data) = md5_whole (md_buf ctx1) (tail @ data)"
    unfolding c(1) tail_def by (rule md5_whole_prefix)
  have len: "length (msg @ data) mod 64 = length (tail @ data) mod 64"
    "drop (64 * (length (msg @ data) div 64)) (msg @ data) = drop (64 * (length (tail @ data) div 64)) (tail @ data)"
  proof -
    have "msg @ data = take (64 * (length msg div 64)) msg @ tail @ data" by (simp add: tail_def append.assoc [symmetric] del: append.assoc)
    moreover have "length (take (64 * (length msg div 64)) msg) = 64 * (length msg div 64)" by simp
    ultimately show "length (msg @ data) mod 64 = length (tail @ data) mod 64"
      "drop (64 * (length (msg @ data) div 64)) (msg @ data) = drop (64 * (length (tail @ data) div 64)) (tail @ data)"
      using drop_blocks by metis+
  qed
  have "md_buf (MD5Update ctx data) = md5_whole (md_buf ctx1) (tail @ data) \<and> length (md_in (MD5Update ctx data)) = 64 \<and>
     take (length (tail @ data) mod 64) (md_in (MD5Update ctx data)) = drop (64 * (length (tail @ data) div 64)) (tail @ data) \<and>
     md_bits (MD5Update ctx data) = md_bits ctx1"
  proof -
    consider "t = 0" | "t \<noteq> 0" "length data < 64 - t" | "t \<noteq> 0" "64 - t \<le> length data" by linarith
    then show ?thesis
    proof cases
      case 1
      then show ?thesis using md5_blocks_inv [OF c(2), of data] t(1) unfolding e by simp
    next
      case 2
      then show ?thesis using c t unfolding e by (simp add: c_memcpy_def)
    next
      case 3
      let ?in = "tail @ take (64 - t) data"
      have i: "c_memcpy (md_in ctx1) t (take (64 - t) data) = ?in" using 3 c(2,3) by (simp add: c_memcpy_def)
      have l: "length ?in = 64" using 3 t by simp
      let ?ctx = "md5_block (ctx1\<lparr>md_in := ?in\<rparr>)"
      have f: "md_buf ?ctx = MD5Transform (md_buf ctx1) ?in" "length (md_in ?ctx) = 64" "md_bits ?ctx = md_bits ctx1"
        using l by (simp_all add: md5_block_def)
      have s: "tail @ data = ?in @ drop (64 - t) data" by simp
      have "length ?in = 64 * 1" using l by simp
      note r = drop_blocks [OF this, of "drop (64 - t) data", folded s]
      have w: "md5_whole (md_buf ctx1) (tail @ data) = md5_whole (MD5Transform (md_buf ctx1) ?in) (drop (64 - t) data)"
        by (subst s) (rule md5_whole_step [OF l])
      have u: "MD5Update ctx data = md5_blocks ?ctx (drop (64 - t) data)" using 3 unfolding e i by simp
      show ?thesis unfolding u r w using md5_blocks_inv [OF f(2), of "drop (64 - t) data"] unfolding f(1,3) by blast
    qed
  qed
  then show ?thesis unfolding md5_inv_def w len by (simp add: ctx1_def)
qed

lemma MD5Init_inv: "md5_inv MD5Init []"
  by (simp add: md5_inv_def MD5Init_def)

lemma memcpy_at: "length a = p \<Longrightarrow> length src = length b \<Longrightarrow> c_memcpy (a @ b @ c) p src = a @ src @ c"
  by (simp add: c_memcpy_def)

text \<open>The block the final step transforms last ends with the number of bits; before it there may be one more.\<close>

lemma MD5Final_eq:
  assumes "md5_inv ctx msg"
  shows "MD5Final ctx = md5_reference msg"
proof -
  define t where "t = length msg mod 64"
  define tail where "tail = drop (64 * (length msg div 64)) msg"
  define low where "low = (word_of_nat (8 * length msg) :: 32 word)"
  define high where "high = (word_of_nat (8 * length msg div 2 ^ 32) :: 32 word)"
  have t: "length tail = t" "t < 64" by (simp_all add: t_def tail_def minus_mult_div_eq_mod)
  have c: "md_buf ctx = md5_whole (md_buf MD5Init) msg" "length (md_in ctx) = 64" "take t (md_in ctx) = tail" "md_bits ctx = (low, high)"
    using assms by (simp_all add: md5_inv_def t_def tail_def low_def high_def)
  have count: "unat (drop_bit 3 low AND 0x3F) = t" unfolding low_def t_def by (rule md5_count)
  define rest where "rest = drop (Suc t) (md_in ctx)"
  have rest: "length rest = 63 - t" using c(2) by (simp add: rest_def)
  have in1: "c_memcpy (md_in ctx) t [CHR 0x80] = tail @ [CHR 0x80] @ rest" using c(3) by (simp add: c_memcpy_def rest_def)
  have len: "md5_length (length msg) = PUT_32BIT_LSB_FIRST low @ PUT_32BIT_LSB_FIRST high" by (simp add: md5_length_def low_def high_def)
  note final = MD5Final_def Let_def c(4) prod.case count
  have pad: "md5_whole (md_buf MD5Init) (md5_pad msg) = md5_whole (md_buf ctx)
      (tail @ [CHR 0x80] @ replicate ((119 - t) mod 64) (CHR 0x00) @ PUT_32BIT_LSB_FIRST low @ PUT_32BIT_LSB_FIRST high)"
    using md5_whole_prefix [of "md_buf MD5Init" msg] unfolding md5_pad_def len c(1) tail_def t_def by blast
  show ?thesis
  proof (cases "63 - t < 8")
    case True
    let ?b1 = "tail @ [CHR 0x80] @ replicate (63 - t) (CHR 0x00)"
    let ?b2 = "replicate 56 (CHR 0x00) @ PUT_32BIT_LSB_FIRST low @ PUT_32BIT_LSB_FIRST high"
    have z: "(119 - t) mod 64 = (63 - t) + 56" using True t(2) by simp
    have "md5_whole (md_buf MD5Init) (md5_pad msg) = md5_whole (md_buf ctx) (?b1 @ ?b2 @ [])"
      unfolding pad z replicate_add by simp
    also have "\<dots> = MD5Transform (MD5Transform (md_buf ctx) ?b1) ?b2"
      using t by (subst md5_whole_step, simp, subst md5_whole_step) simp_all
    finally have ref: "md5_whole (md_buf MD5Init) (md5_pad msg) = MD5Transform (MD5Transform (md_buf ctx) ?b1) ?b2" .
    have i2: "c_memcpy (tail @ [CHR 0x80] @ rest) (t + 1) (replicate (63 - t) (CHR 0x00)) = ?b1"
      using t rest by (simp add: c_memcpy_def)
    have i3: "c_memcpy (c_memcpy (c_memcpy ?b1 0 (replicate 56 (CHR 0x00))) 56 (PUT_32BIT_LSB_FIRST low)) 60 (PUT_32BIT_LSB_FIRST high) = ?b2"
      using t by (simp add: c_memcpy_def)
    have "md_buf (md5_block (md5_block (ctx\<lparr>md_in := ?b1\<rparr>)\<lparr>md_in := ?b2\<rparr>)) = MD5Transform (MD5Transform (md_buf ctx) ?b1) ?b2"
      by (simp add: md5_block_def)
    then show ?thesis using True unfolding final md5_reference_def ref by (simp add: in1 i2 [simplified] i3 [simplified] md5_block_def)
  next
    case False
    let ?b = "tail @ [CHR 0x80] @ replicate (55 - t) (CHR 0x00) @ PUT_32BIT_LSB_FIRST low @ PUT_32BIT_LSB_FIRST high"
    have "(119 - t) mod 64 = 55 - t" using False t(2) by (simp add: mod_if)
    then have "md5_whole (md_buf MD5Init) (md5_pad msg) = md5_whole (md_buf ctx) (?b @ [])" unfolding pad by simp
    also have "\<dots> = MD5Transform (md_buf ctx) ?b" using t False by (subst md5_whole_step) simp_all
    finally have ref: "md5_whole (md_buf MD5Init) (md5_pad msg) = MD5Transform (md_buf ctx) ?b" .
    obtain r0 r1 r2 where r: "rest = r0 @ r1 @ r2" "length r0 = 55 - t" "length r1 = 4" "length r2 = 4"
    proof (rule that [of "take (55 - t) rest" "take 4 (drop (55 - t) rest)" "drop 4 (drop (55 - t) rest)"])
      show "rest = take (55 - t) rest @ take 4 (drop (55 - t) rest) @ drop 4 (drop (55 - t) rest)" by (simp only: append_take_drop_id)
    qed (use rest False in auto)
    let ?z = "replicate (55 - t) (CHR 0x00)"
    have "c_memcpy ((tail @ [CHR 0x80]) @ r0 @ r1 @ r2) (t + 1) ?z = (tail @ [CHR 0x80]) @ ?z @ r1 @ r2"
      using t r(2) by (intro memcpy_at) simp_all
    moreover have "c_memcpy ((tail @ [CHR 0x80] @ ?z) @ r1 @ r2) 56 (PUT_32BIT_LSB_FIRST low) = (tail @ [CHR 0x80] @ ?z) @ PUT_32BIT_LSB_FIRST low @ r2"
      using t r(3) False by (intro memcpy_at) simp_all
    moreover have "c_memcpy ((tail @ [CHR 0x80] @ ?z @ PUT_32BIT_LSB_FIRST low) @ r2 @ []) 60 (PUT_32BIT_LSB_FIRST high) =
        (tail @ [CHR 0x80] @ ?z @ PUT_32BIT_LSB_FIRST low) @ PUT_32BIT_LSB_FIRST high @ []"
      using t r(4) False by (intro memcpy_at) simp_all
    ultimately have i3: "c_memcpy (c_memcpy (c_memcpy (tail @ [CHR 0x80] @ rest) (t + 1) (replicate (63 - t - 8) (CHR 0x00))) 56
        (PUT_32BIT_LSB_FIRST low)) 60 (PUT_32BIT_LSB_FIRST high) = ?b"
      using r(1) False by simp
    show ?thesis using False unfolding final md5_reference_def ref by (simp add: in1 i3 [simplified] md5_block_def)
  qed
qed

lemma md5_incremental_pieces:
  assumes "list_all (\<lambda>p. length p < 2 ^ 32) pieces"
  shows "MD5Final (foldl MD5Update MD5Init pieces) = md5_reference (concat pieces)"
proof (rule MD5Final_eq)
  have "md5_inv (foldl MD5Update ctx ps) (msg @ concat ps)" if "list_all (\<lambda>p. length p < 2 ^ 32) ps" "md5_inv ctx msg" for ctx ps msg
    using that
  proof (induction ps arbitrary: ctx msg)
    case (Cons p ps)
    then have "md5_inv (MD5Update ctx p) (msg @ p)" by (intro MD5Update_inv) simp_all
    from Cons.IH [OF _ this] Cons.prems(1) show ?case by simp
  qed simp
  from this [OF assms MD5Init_inv] show "md5_inv (foldl MD5Update MD5Init pieces) (concat pieces)" by simp
qed

section \<open>Properties\<close>

text \<open>C19: The digest does not depend on how the message was cut into pieces: initialising, updating with the pieces in order and
  finishing gives MD5 of the whole message.\<close>

theorem md5_incremental:
  assumes "list_all (\<lambda>p. length p < 2 ^ 32) pieces"
  shows "MD5Final (foldl MD5Update MD5Init pieces) = md5_reference (concat pieces)"
  by (rule md5_incremental_pieces [OF assms])

theorem md5_incremental_witness:
  "MD5Final (MD5Update (MD5Update MD5Init ''user:'') ''realm'') = MD5Final (MD5Update MD5Init ''user:realm'')"
  using md5_incremental [of "[''user:'', ''realm'']"] md5_incremental [of "[''user:realm'']"] by simp

end
