(* ===== verification/Strophe_Jid.thy ===== *)
theory Strophe_Jid
  imports Mio_Prelude
begin

text \<open>
  JIDs, the addresses of XMPP (\<^verbatim>\<open>src/libs/c/libstrophe/src/jid.c\<close>): \<open>node@domain/resource\<close>, built from their parts and taken
  apart again. Pointers into a string are the suffixes they point to, and a difference of pointers is a difference of
  lengths.

  Shown: the parts of a JID that was built come back, whatever the resource contains, when there is a node; without a node
  an \<open>@\<close> in the resource is taken for the separator of the node.
\<close>

section \<open>Operations\<close>

definition c_strchr :: "string \<Rightarrow> char \<Rightarrow> string option" where
  "c_strchr s c = (case dropWhile (\<lambda>x. x \<noteq> c) s of [] \<Rightarrow> None | t \<Rightarrow> Some t)"

definition xmpp_jid_new :: "cptr \<Rightarrow> cptr \<Rightarrow> cptr \<Rightarrow> cptr" where
  "xmpp_jid_new node domain resource = (case domain of
     None \<Rightarrow> None
   | Some d \<Rightarrow> Some ((case node of None \<Rightarrow> '''' | Some n \<Rightarrow> n @ ''@'') @ d @ (case resource of None \<Rightarrow> '''' | Some r \<Rightarrow> ''/'' @ r)))"

definition xmpp_jid_bare :: "string \<Rightarrow> string" where
  "xmpp_jid_bare jid = (case c_strchr jid (CHR ''/'') of
     None \<Rightarrow> jid
   | Some c \<Rightarrow> take (length jid - length c) jid)"

definition xmpp_jid_node :: "string \<Rightarrow> cptr" where
  "xmpp_jid_node jid = (case c_strchr jid (CHR ''@'') of
     None \<Rightarrow> None
   | Some c \<Rightarrow> Some (take (length jid - length c) jid))"

definition xmpp_jid_domain :: "string \<Rightarrow> string" where
  "xmpp_jid_domain jid =
     (let c = (case c_strchr jid (CHR ''@'') of None \<Rightarrow> jid | Some c \<Rightarrow> tl c)
      in case c_strchr c (CHR ''/'') of
           None \<Rightarrow> c
         | Some s \<Rightarrow> take (length c - length s) c)"

definition xmpp_jid_resource :: "string \<Rightarrow> cptr" where
  "xmpp_jid_resource jid = map_option tl (c_strchr jid (CHR ''/''))"

section \<open>Properties\<close>

lemma c_strchr_append [simp]: "c \<notin> set a \<Longrightarrow> c_strchr (a @ b) c = c_strchr b c"
proof -
  assume "c \<notin> set a"
  then have "dropWhile (\<lambda>x. x \<noteq> c) (a @ b) = dropWhile (\<lambda>x. x \<noteq> c) b" by (induction a) auto
  then show ?thesis by (simp add: c_strchr_def)
qed

lemma c_strchr_simps [simp]: "c_strchr (c # s) c = Some (c # s)" "c_strchr [] c = None"
  "x \<noteq> c \<Longrightarrow> c_strchr (x # s) c = c_strchr s c"
  by (simp_all add: c_strchr_def)

lemma c_strchr_None [simp]: "c \<notin> set s \<Longrightarrow> c_strchr s c = None"
  using c_strchr_append [of c s "[]"] by simp

lemma xmpp_jid_node_NULL: "xmpp_jid_node jid = None \<longleftrightarrow> CHR ''@'' \<notin> set jid"
proof (cases "dropWhile (\<lambda>x. x \<noteq> CHR ''@'') jid")
  case Nil
  then have "CHR ''@'' \<notin> set jid" by (induction jid) (simp_all split: if_splits)
  with Nil show ?thesis unfolding xmpp_jid_node_def c_strchr_def by (simp del: dropWhile_eq_Nil_conv)
next
  case (Cons c t)
  then have "CHR ''@'' \<in> set jid" by (induction jid) (simp_all split: if_splits)
  with Cons show ?thesis unfolding xmpp_jid_node_def c_strchr_def by simp
qed

text \<open>The parts of a JID come back: when the node and the domain hold neither \<open>@\<close> nor \<open>/\<close>, the resource may hold anything; when
  there is no node, the resource must not hold an \<open>@\<close>.\<close>

theorem jid_parts:
  assumes "\<forall>n. node = Some n \<longrightarrow> CHR ''@'' \<notin> set n \<and> CHR ''/'' \<notin> set n" "CHR ''@'' \<notin> set d" "CHR ''/'' \<notin> set d"
    and "node = None \<longrightarrow> (\<forall>r. resource = Some r \<longrightarrow> CHR ''@'' \<notin> set r)"
  shows "\<exists>jid. xmpp_jid_new node (Some d) resource = Some jid \<and> xmpp_jid_node jid = node \<and> xmpp_jid_domain jid = d \<and>
     xmpp_jid_resource jid = resource \<and> Some (xmpp_jid_bare jid) = xmpp_jid_new node (Some d) None"
  using assms
  by (cases node; cases resource)
    (auto simp: xmpp_jid_new_def xmpp_jid_node_def xmpp_jid_domain_def xmpp_jid_resource_def xmpp_jid_bare_def)

theorem jid_parts_witness:
  "\<exists>jid. xmpp_jid_new (Some ''sensor'') (Some ''example.org'') (Some ''lab/a@b'') = Some jid \<and> xmpp_jid_node jid = Some ''sensor'' \<and>
     xmpp_jid_domain jid = ''example.org'' \<and> xmpp_jid_resource jid = Some ''lab/a@b''"
  using jid_parts [of "Some ''sensor''" "''example.org''" "Some ''lab/a@b''"] by auto

text \<open>Without a node, an \<open>@\<close> in the resource is taken for the end of a node, and what follows it for the domain.\<close>

theorem jid_resource_at:
  assumes "CHR ''@'' \<notin> set d" "CHR ''@'' \<notin> set r" "CHR ''/'' \<notin> set s"
  shows "\<exists>jid. xmpp_jid_new None (Some d) (Some (r @ ''@'' @ s)) = Some jid \<and> xmpp_jid_node jid = Some (d @ ''/'' @ r) \<and>
     xmpp_jid_domain jid = s"
proof -
  have "c_strchr (d @ ''/'' @ r @ ''@'' @ s) (CHR ''@'') = Some (''@'' @ s)" using assms(1,2) by simp
  then show ?thesis using assms(3) by (simp add: xmpp_jid_new_def xmpp_jid_node_def xmpp_jid_domain_def)
qed

theorem jid_resource_at_witness:
  "\<exists>jid. xmpp_jid_new None (Some ''example.org'') (Some ''user@phone'') = Some jid \<and> xmpp_jid_node jid = Some ''example.org/user'' \<and>
     xmpp_jid_domain jid = ''phone''"
  using jid_resource_at [of "''example.org''" "''user''" "''phone''"] by auto

end
