(* ===== verification/Strophe_Sasl.thy ===== *)
theory Strophe_Sasl
  imports Strophe_Md5 Strophe_Jid
begin

text \<open>
  The messages of the SASL login (\<^verbatim>\<open>src/libs/c/libstrophe/src/sasl.c\<close>): PLAIN, and the answer to a DIGEST-MD5 challenge. The
  fields of a challenge go into a hash table with 10 buckets. \<open>None\<close> stands for undefined behaviour, \<open>Some None\<close> for a NULL
  result.

  Shown: the answer carries the response value that RFC 2831 prescribes for the fields of the challenge; a challenge without a
  nonce makes the client read through a NULL pointer; the reader of challenges gives back the fields a challenge was
  written from; the PLAIN message decodes to the name and the password.
\<close>

section \<open>PLAIN\<close>

definition sasl_plain :: "string \<Rightarrow> string \<Rightarrow> string option" where
  "sasl_plain authid password = base64_encode ([CHR 0x00] @ authid @ [CHR 0x00] @ password)"

section \<open>Challenges\<close>

text \<open>A value in quotes of either kind, or up to a comma; and where reading goes on.\<close>

definition challenge_value :: "string \<Rightarrow> string \<times> string" where
  "challenge_value s = (case s of
     [] \<Rightarrow> ([], [])
   | q # t \<Rightarrow>
       if q = CHR 0x27 \<or> q = CHR 0x22
       then (takeWhile (\<lambda>c. c \<noteq> q) t, (case dropWhile (\<lambda>c. c \<noteq> q) t of [] \<Rightarrow> [] | _ # u \<Rightarrow> u))
       else (takeWhile (\<lambda>c. c \<noteq> CHR '','') s, dropWhile (\<lambda>c. c \<noteq> CHR '','') s))"

definition challenge_skip :: "string \<Rightarrow> string" where
  "challenge_skip s = dropWhile (\<lambda>c. c = CHR '','' \<or> c = CHR '' '') s"

definition challenge_key :: "string \<Rightarrow> string" where
  "challenge_key s = takeWhile (\<lambda>c. c \<noteq> CHR ''='') s"

definition challenge_rest :: "string \<Rightarrow> string" where
  "challenge_rest s = dropWhile (\<lambda>c. c \<noteq> CHR ''='') s"

lemma length_challenge_value: "length (snd (challenge_value s)) \<le> length s"
proof (cases s)
  case (Cons q t)
  have "length (case dropWhile (\<lambda>c. c \<noteq> q) t of [] \<Rightarrow> [] | _ # u \<Rightarrow> u) \<le> length t"
    using length_dropWhile_le [of "\<lambda>c. c \<noteq> q" t] by (auto split: list.split)
  with Cons show ?thesis using length_dropWhile_le [of "\<lambda>c. c \<noteq> CHR '',''" s] by (simp add: challenge_value_def del: dropWhile.simps)
qed (simp add: challenge_value_def)

lemma challenge_shorter:
  assumes "challenge_rest (challenge_skip s) \<noteq> []"
  shows "length (snd (challenge_value (tl (challenge_rest (challenge_skip s))))) < length s"
proof -
  have "length (challenge_rest (challenge_skip s)) \<le> length s"
    unfolding challenge_rest_def challenge_skip_def by (meson length_dropWhile_le order_trans)
  moreover have "length (tl (challenge_rest (challenge_skip s))) < length (challenge_rest (challenge_skip s))" using assms by simp
  ultimately show ?thesis using length_challenge_value [of "tl (challenge_rest (challenge_skip s))"] by linarith
qed

function parse_challenge_loop :: "string \<Rightarrow> hash_t \<Rightarrow> hash_t option" where
  "parse_challenge_loop s table =
     (if s = [] \<or> challenge_rest (challenge_skip s) = [] then Some table
      else do {
        let (value, s') = challenge_value (tl (challenge_rest (challenge_skip s)));
        (_, table) \<leftarrow> hash_add table (challenge_key (challenge_skip s)) value;
        parse_challenge_loop s' table })"
  by pat_completeness auto
termination
proof (relation "measure (\<lambda>(s, table). length s)", goal_cases)
  case (2 s table x v s' y z table')
  then show ?case using challenge_shorter [of s] by (metis in_measure old.prod.case snd_conv)
qed simp

declare parse_challenge_loop.simps [simp del]

definition parse_digest_challenge :: "string \<Rightarrow> hash_t option option" where
  "parse_digest_challenge msg = do {
     text \<leftarrow> base64_decode msg;
     (case text of
        None \<Rightarrow> Some None
      | Some t \<Rightarrow> map_option Some (parse_challenge_loop (takeWhile (\<lambda>c. c \<noteq> CHR 0x00) t) (hash_new 10))) }"

section \<open>DIGEST-MD5\<close>

definition hexdigit :: string where "hexdigit = ''0123456789abcdef''"

definition digest_to_hex :: "string \<Rightarrow> string" where
  "digest_to_hex digest = concat (map (\<lambda>c. [hexdigit ! unat (drop_bit 4 (c_byte c) AND 0x0F), hexdigit ! unat (c_byte c AND 0x0F)]) digest)"

definition make_quoted :: "string \<Rightarrow> string" where
  "make_quoted s = [CHR 0x22] @ s @ [CHR 0x22]"

definition add_key :: "hash_t \<Rightarrow> string \<Rightarrow> string option \<Rightarrow> bool \<Rightarrow> string option" where
  "add_key table key buf quote = do {
     let buf = (case buf of None \<Rightarrow> [] | Some b \<Rightarrow> b);
     value \<leftarrow> hash_get table key;
     let value = (case value of None \<Rightarrow> [] | Some v \<Rightarrow> v);
     let qvalue = (if quote then make_quoted value else value);
     Some (buf @ (if buf \<noteq> [] then '','' else []) @ key @ ''='' @ qvalue) }"

text \<open>A value that must be there: \<open>strlen\<close> of NULL is undefined.\<close>

definition hash_need :: "hash_t \<Rightarrow> string \<Rightarrow> string option" where
  "hash_need table key = do { value \<leftarrow> hash_get table key; value }"

definition md5_of :: "string list \<Rightarrow> string" where
  "md5_of pieces = MD5Final (foldl MD5Update MD5Init pieces)"

definition hash_set :: "hash_t \<Rightarrow> string \<Rightarrow> string \<Rightarrow> hash_t option" where
  "hash_set table key value = map_option snd (hash_add table key value)"

definition sasl_digest_md5 :: "string \<Rightarrow> string \<Rightarrow> string \<Rightarrow> string option option" where
  "sasl_digest_md5 challenge jid password = do {
     parsed \<leftarrow> parse_digest_challenge challenge;
     (case parsed of None \<Rightarrow> Some None | Some table \<Rightarrow> do {
       let node = xmpp_jid_node jid;
       let domain = xmpp_jid_domain jid;
       realm \<leftarrow> hash_get table ''realm'';
       table \<leftarrow> (if realm = None \<or> realm = Some [] then hash_set table ''realm'' domain else Some table);
       realm \<leftarrow> hash_need table ''realm'';
       node \<leftarrow> node;
       table \<leftarrow> hash_set table ''username'' node;
       table \<leftarrow> hash_set table ''cnonce'' ''00DEADBEEF00'';
       table \<leftarrow> hash_set table ''nc'' ''00000001'';
       table \<leftarrow> hash_set table ''qop'' ''auth'';
       table \<leftarrow> hash_set table ''digest-uri'' (''xmpp/'' @ domain);
       let digest = md5_of [node, '':'', realm, '':'', password];
       nonce \<leftarrow> hash_need table ''nonce'';
       cnonce \<leftarrow> hash_need table ''cnonce'';
       let HA1 = md5_of [digest, '':'', nonce, '':'', cnonce];
       uri \<leftarrow> hash_need table ''digest-uri'';
       qop \<leftarrow> hash_need table ''qop'';
       let HA2 = md5_of ([''AUTHENTICATE:'', uri] @ (if qop \<noteq> ''auth'' then ['':00000000000000000000000000000000''] else []));
       nc \<leftarrow> hash_need table ''nc'';
       let digest = md5_of [digest_to_hex HA1, '':'', nonce, '':'', nc, '':'', cnonce, '':'', qop, '':'', digest_to_hex HA2];
       table \<leftarrow> hash_set table ''response'' (digest_to_hex digest);
       result \<leftarrow> add_key table ''username'' None True;
       result \<leftarrow> add_key table ''realm'' (Some result) True;
       result \<leftarrow> add_key table ''nonce'' (Some result) True;
       result \<leftarrow> add_key table ''cnonce'' (Some result) True;
       result \<leftarrow> add_key table ''nc'' (Some result) False;
       result \<leftarrow> add_key table ''qop'' (Some result) False;
       result \<leftarrow> add_key table ''digest-uri'' (Some result) True;
       result \<leftarrow> add_key table ''response'' (Some result) False;
       result \<leftarrow> add_key table ''charset'' (Some result) False;
       map_option Some (base64_encode result) }) }"

section \<open>The table of fields\<close>

interpretation fields10: attr_store "hash_new 10" hash_add hash_lookup hash_wf c_ascii
proof unfold_locales
  fix t k v assume a: "hash_wf t" "c_ascii k"
  have b: "hash_bucket t k = Some (nat (hash_key (h_length t) k))"
    using a by (intro hash_bucket_ascii) (simp_all add: hash_wf_def)
  note add = hash_add_spec [OF a(1) b, of v]
  have "hash_lookup t' = (hash_lookup t)(k \<mapsto> v)" if "hash_add t k v = Some (0, t')" for t'
    using hash_lookup_add [OF a(1) b that] by (intro ext) simp
  with add hash_add_wf [OF a(1) b, of v]
  show "\<exists>t'. hash_add t k v = Some (0, t') \<and> hash_wf t' \<and> hash_lookup t' = (hash_lookup t)(k \<mapsto> v)" by auto
qed (simp_all add: hash_new_wf hash_lookup_new)

lemma hash_get_lookup: "hash_wf t \<Longrightarrow> c_ascii k \<Longrightarrow> hash_get t k = Some (hash_lookup t k)"
  using hash_bucket_ascii [of k t] by (simp add: hash_lookup_def hash_get_def hash_wf_def)

lemma hash_need_lookup: "hash_wf t \<Longrightarrow> c_ascii k \<Longrightarrow> hash_need t k = hash_lookup t k"
  by (simp add: hash_need_def hash_get_lookup)

lemma hash_set_ok:
  assumes "hash_wf t" "c_ascii k"
  obtains t' where "hash_set t k v = Some t'" "hash_wf t'" "hash_lookup t' = (hash_lookup t)(k \<mapsto> v)"
  using fields10.add_ok [OF assms, of v] that by (auto simp: hash_set_def)

section \<open>The fields of a challenge\<close>

function challenge_fields :: "string \<Rightarrow> (string \<times> string) list" where
  "challenge_fields s =
     (if s = [] \<or> challenge_rest (challenge_skip s) = [] then []
      else (challenge_key (challenge_skip s), fst (challenge_value (tl (challenge_rest (challenge_skip s))))) #
        challenge_fields (snd (challenge_value (tl (challenge_rest (challenge_skip s))))))"
  by pat_completeness auto
termination
  by (relation "measure length") (simp_all add: challenge_shorter)

declare challenge_fields.simps [simp del]

lemma parse_loop_fields: "parse_challenge_loop s t = fields10.add_all t (challenge_fields s)"
proof (induction s arbitrary: t rule: challenge_fields.induct)
  case (1 s)
  show ?case
  proof (cases "s = [] \<or> challenge_rest (challenge_skip s) = []")
    case True
    then show ?thesis by (subst parse_challenge_loop.simps, subst challenge_fields.simps) auto
  next
    case False
    then show ?thesis using 1 [OF False]
      by (subst parse_challenge_loop.simps, subst challenge_fields.simps,
          cases "hash_add t (challenge_key (challenge_skip s)) (fst (challenge_value (tl (challenge_rest (challenge_skip s)))))")
        (auto simp: split_beta)
  qed
qed

lemma length_challenge_value_fst: "length (fst (challenge_value s)) \<le> length s"
  using length_takeWhile_le [of _ s] length_takeWhile_le by (cases s) (auto simp: challenge_value_def intro: le_SucI)

lemma challenge_fields_length: "(k, v) \<in> set (challenge_fields s) \<Longrightarrow> length v \<le> length s"
proof (induction s rule: challenge_fields.induct)
  case (1 s)
  have ne: "\<not> (s = [] \<or> challenge_rest (challenge_skip s) = [])" using 1(2) by (subst (asm) challenge_fields.simps) (auto split: if_splits)
  let ?t = "tl (challenge_rest (challenge_skip s))"
  have "length (challenge_rest (challenge_skip s)) \<le> length s"
    unfolding challenge_rest_def challenge_skip_def by (meson length_dropWhile_le order_trans)
  then have "length (fst (challenge_value ?t)) \<le> length s" using length_challenge_value_fst [of ?t] by simp
  moreover have "length (snd (challenge_value ?t)) \<le> length s" using challenge_shorter [of s] ne by simp
  ultimately show ?case using 1(1) [OF ne] 1(2) ne by (subst (asm) (2) challenge_fields.simps) (auto split: if_splits)
qed


section \<open>The answer of RFC 2831\<close>

definition digest_kd :: "string \<Rightarrow> string \<Rightarrow> string" where
  "digest_kd k s = md5_reference (k @ '':'' @ s)"

definition digest_response :: "string \<Rightarrow> string \<Rightarrow> string \<Rightarrow> string \<Rightarrow> string \<Rightarrow> string" where
  "digest_response node realm password nonce domain =
     (let cnonce = ''00DEADBEEF00'';
          A1 = md5_reference (node @ '':'' @ realm @ '':'' @ password) @ '':'' @ nonce @ '':'' @ cnonce;
          A2 = ''AUTHENTICATE:'' @ ''xmpp/'' @ domain
      in digest_to_hex (digest_kd (digest_to_hex (md5_reference A1))
           (nonce @ '':00000001:'' @ cnonce @ '':auth:'' @ digest_to_hex (md5_reference A2))))"

definition digest_reply :: "string \<Rightarrow> string \<Rightarrow> string \<Rightarrow> string \<Rightarrow> string \<Rightarrow> string \<Rightarrow> string" where
  "digest_reply node realm nonce domain response charset =
     ''username='' @ make_quoted node @ '',realm='' @ make_quoted realm @ '',nonce='' @ make_quoted nonce @
     '',cnonce='' @ make_quoted ''00DEADBEEF00'' @ '',nc=00000001,qop=auth,digest-uri='' @ make_quoted (''xmpp/'' @ domain) @
     '',response='' @ response @ '',charset='' @ charset"

definition digest_realm :: "(string \<times> string) list \<Rightarrow> string \<Rightarrow> string" where
  "digest_realm fs domain = (case map_of (rev fs) ''realm'' of None \<Rightarrow> domain | Some r \<Rightarrow> if r = [] then domain else r)"

lemma md5_of_reference: "list_all (\<lambda>p. length p < 2 ^ 32) pieces \<Longrightarrow> md5_of pieces = md5_reference (concat pieces)"
  unfolding md5_of_def by (rule md5_incremental_pieces)

lemma length_md5_reference [simp]: "length (md5_reference m) = 16"
  by (simp add: md5_reference_def split: prod.split)

lemma length_digest_to_hex [simp]: "length (digest_to_hex d) = 2 * length d"
  by (induction d) (simp_all add: digest_to_hex_def)

lemma ascii_keys [simp]: "c_ascii ''realm''" "c_ascii ''username''" "c_ascii ''cnonce''" "c_ascii ''nc''" "c_ascii ''qop''" "c_ascii ''digest-uri''"
  "c_ascii ''nonce''" "c_ascii ''response''" "c_ascii ''charset''"
  by (simp_all add: c_ascii_def)

lemma length_jid_parts: "xmpp_jid_node jid = Some node \<Longrightarrow> length node \<le> length jid" "length (xmpp_jid_domain jid) \<le> length jid"
proof -
  show "length node \<le> length jid" if "xmpp_jid_node jid = Some node" using that by (auto simp: xmpp_jid_node_def split: option.splits)
  have "length c \<le> length s" if "c_strchr s x = Some c" for s x c
    using that by (auto simp: c_strchr_def split: list.splits intro: length_dropWhile_le)
  then show "length (xmpp_jid_domain jid) \<le> length jid"
    by (auto simp: xmpp_jid_domain_def Let_def split: option.split intro: le_trans [OF diff_le_self] le_trans [OF min.cobounded1])
qed


text \<open>The table with the fields of the answer.\<close>

lemma digest_table:
  assumes "hash_wf t0" "realm = (case hash_lookup t0 ''realm'' of None \<Rightarrow> domain | Some r \<Rightarrow> if r = [] then domain else r)"
  obtains t1 t2 t3 t4 t5 t6 where
    "(if hash_lookup t0 ''realm'' = None \<or> hash_lookup t0 ''realm'' = Some [] then hash_set t0 ''realm'' domain else Some t0) = Some t1"
    "hash_need t1 ''realm'' = Some realm" "hash_set t1 ''username'' node = Some t2" "hash_set t2 ''cnonce'' ''00DEADBEEF00'' = Some t3"
    "hash_set t3 ''nc'' ''00000001'' = Some t4" "hash_set t4 ''qop'' ''auth'' = Some t5" "hash_set t5 ''digest-uri'' (''xmpp/'' @ domain) = Some t6"
    "hash_wf t6" "hash_lookup t6 = (hash_lookup t0)(''realm'' \<mapsto> realm, ''username'' \<mapsto> node, ''cnonce'' \<mapsto> ''00DEADBEEF00'', ''nc'' \<mapsto> ''00000001'',
      ''qop'' \<mapsto> ''auth'', ''digest-uri'' \<mapsto> ''xmpp/'' @ domain)"
proof -
  obtain t1 where t1: "(if hash_lookup t0 ''realm'' = None \<or> hash_lookup t0 ''realm'' = Some [] then hash_set t0 ''realm'' domain else Some t0) = Some t1"
    "hash_wf t1" "hash_lookup t1 = (hash_lookup t0)(''realm'' \<mapsto> realm)"
  proof (cases "hash_lookup t0 ''realm'' = None \<or> hash_lookup t0 ''realm'' = Some []")
    case True
    obtain t1 where "hash_set t0 ''realm'' domain = Some t1" "hash_wf t1" "hash_lookup t1 = (hash_lookup t0)(''realm'' \<mapsto> domain)"
      by (rule hash_set_ok [OF assms(1), of "''realm''" domain]) simp_all
    with True assms(2) show ?thesis by (intro that [of t1]) auto
  next
    case False
    with assms show ?thesis by (intro that [of t0]) (auto split: option.splits)
  qed
  obtain t2 where t2: "hash_set t1 ''username'' node = Some t2" "hash_wf t2" "hash_lookup t2 = (hash_lookup t1)(''username'' \<mapsto> node)"
    by (rule hash_set_ok [OF t1(2), of "''username''" node]) simp_all
  obtain t3 where t3: "hash_set t2 ''cnonce'' ''00DEADBEEF00'' = Some t3" "hash_wf t3" "hash_lookup t3 = (hash_lookup t2)(''cnonce'' \<mapsto> ''00DEADBEEF00'')"
    by (rule hash_set_ok [OF t2(2), of "''cnonce''" "''00DEADBEEF00''"]) simp_all
  obtain t4 where t4: "hash_set t3 ''nc'' ''00000001'' = Some t4" "hash_wf t4" "hash_lookup t4 = (hash_lookup t3)(''nc'' \<mapsto> ''00000001'')"
    by (rule hash_set_ok [OF t3(2), of "''nc''" "''00000001''"]) simp_all
  obtain t5 where t5: "hash_set t4 ''qop'' ''auth'' = Some t5" "hash_wf t5" "hash_lookup t5 = (hash_lookup t4)(''qop'' \<mapsto> ''auth'')"
    by (rule hash_set_ok [OF t4(2), of "''qop''" "''auth''"]) simp_all
  obtain t6 where t6: "hash_set t5 ''digest-uri'' (''xmpp/'' @ domain) = Some t6" "hash_wf t6"
    "hash_lookup t6 = (hash_lookup t5)(''digest-uri'' \<mapsto> ''xmpp/'' @ domain)"
    by (rule hash_set_ok [OF t5(2), of "''digest-uri''" "''xmpp/'' @ domain"]) simp_all
  have "hash_need t1 ''realm'' = Some realm" using t1 by (simp add: hash_need_lookup)
  with t1 t2 t3 t4 t5 t6 show ?thesis by (intro that [of t1 t2 t3 t4 t5 t6]) simp_all
qed

lemma digest_md5_eq:
  assumes "parse_digest_challenge challenge = Some (Some t0)" "hash_wf t0" "xmpp_jid_node jid = Some node"
    and "realm = (case hash_lookup t0 ''realm'' of None \<Rightarrow> xmpp_jid_domain jid | Some r \<Rightarrow> if r = [] then xmpp_jid_domain jid else r)"
  shows "hash_lookup t0 ''nonce'' = None \<Longrightarrow> sasl_digest_md5 challenge jid password = None"
    "hash_lookup t0 ''nonce'' = Some nonce \<Longrightarrow> list_all (\<lambda>p. length p < 2 ^ 28) [nonce, realm, jid, password] \<Longrightarrow>
     sasl_digest_md5 challenge jid password = map_option Some (base64_encode (digest_reply node realm nonce (xmpp_jid_domain jid)
       (digest_response node realm password nonce (xmpp_jid_domain jid)) (case hash_lookup t0 ''charset'' of None \<Rightarrow> [] | Some c \<Rightarrow> c)))"
proof -
  let ?dom = "xmpp_jid_domain jid"
  obtain t1 t2 t3 t4 t5 t6 where t: 
    "(if hash_lookup t0 ''realm'' = None \<or> hash_lookup t0 ''realm'' = Some [] then hash_set t0 ''realm'' ?dom else Some t0) = Some t1"
    "hash_need t1 ''realm'' = Some realm" "hash_set t1 ''username'' node = Some t2" "hash_set t2 ''cnonce'' ''00DEADBEEF00'' = Some t3"
    "hash_set t3 ''nc'' ''00000001'' = Some t4" "hash_set t4 ''qop'' ''auth'' = Some t5" "hash_set t5 ''digest-uri'' (''xmpp/'' @ ?dom) = Some t6"
    and t6: "hash_wf t6" "hash_lookup t6 = (hash_lookup t0)(''realm'' \<mapsto> realm, ''username'' \<mapsto> node, ''cnonce'' \<mapsto> ''00DEADBEEF00'', ''nc'' \<mapsto> ''00000001'',
      ''qop'' \<mapsto> ''auth'', ''digest-uri'' \<mapsto> ''xmpp/'' @ ?dom)"
    by (rule digest_table [OF assms(2,4)])
  have "hash_get t0 ''realm'' = Some (hash_lookup t0 ''realm'')" using assms(2) by (simp add: hash_get_lookup)
  note steps = assms(1,3) this t Option.bind.bind_lunit Let_def option.case
  {
    assume "hash_lookup t0 ''nonce'' = None"
    then have "hash_need t6 ''nonce'' = None" using t6 by (simp add: hash_need_lookup)
    then show "sasl_digest_md5 challenge jid password = None" unfolding sasl_digest_md5_def steps by simp
  }
  assume nonce: "hash_lookup t0 ''nonce'' = Some nonce" and bounds: "list_all (\<lambda>p. length p < 2 ^ 28) [nonce, realm, jid, password]"
  let ?resp = "digest_response node realm password nonce ?dom"
  obtain t7 where t7: "hash_set t6 ''response'' ?resp = Some t7" "hash_wf t7" "hash_lookup t7 = (hash_lookup t6)(''response'' \<mapsto> ?resp)"
    by (rule hash_set_ok [OF t6(1), of "''response''" ?resp]) simp_all
  have need: "hash_need t6 ''nonce'' = Some nonce" "hash_need t6 ''cnonce'' = Some ''00DEADBEEF00''" "hash_need t6 ''digest-uri'' = Some (''xmpp/'' @ ?dom)"
    "hash_need t6 ''qop'' = Some ''auth''" "hash_need t6 ''nc'' = Some ''00000001''"
    using nonce t6 by (simp_all add: hash_need_lookup)
  have key: "add_key t7 k buf q = Some ((case buf of None \<Rightarrow> [] | Some b \<Rightarrow> b) @
      (if (case buf of None \<Rightarrow> [] | Some b \<Rightarrow> b) \<noteq> [] then '','' else []) @ k @ ''='' @
      (if q then make_quoted (case hash_lookup t7 k of None \<Rightarrow> [] | Some v \<Rightarrow> v) else case hash_lookup t7 k of None \<Rightarrow> [] | Some v \<Rightarrow> v))"
    if "c_ascii k" for k buf q
    using t7(2) that by (simp add: add_key_def hash_get_lookup Let_def)
  have len: "length node < 2 ^ 28" "length ?dom < 2 ^ 28" using bounds length_jid_parts [of jid] assms(3) by auto
  have md: "md5_of [node, '':'', realm, '':'', password] = md5_reference (node @ '':'' @ realm @ '':'' @ password)"
    "md5_of [md5_reference x, '':'', nonce, '':'', ''00DEADBEEF00''] = md5_reference (md5_reference x @ '':'' @ nonce @ '':'' @ ''00DEADBEEF00'')"
    "md5_of [''AUTHENTICATE:'', ''xmpp/'' @ ?dom] = md5_reference (''AUTHENTICATE:'' @ ''xmpp/'' @ ?dom)"
    "md5_of [digest_to_hex (md5_reference x), '':'', nonce, '':'', ''00000001'', '':'', ''00DEADBEEF00'', '':'', ''auth'', '':'', digest_to_hex (md5_reference y)] =
       md5_reference (digest_to_hex (md5_reference x) @ '':'' @ nonce @ '':00000001:'' @ ''00DEADBEEF00'' @ '':auth:'' @ digest_to_hex (md5_reference y))" for x y
    using bounds len by (subst md5_of_reference; simp)+
  have r: "digest_to_hex (md5_reference (digest_to_hex (md5_reference (md5_reference (node @ '':'' @ realm @ '':'' @ password) @ '':'' @ nonce @ '':'' @ ''00DEADBEEF00'')) @
      '':'' @ nonce @ '':00000001:'' @ ''00DEADBEEF00'' @ '':auth:'' @ digest_to_hex (md5_reference (''AUTHENTICATE:'' @ ''xmpp/'' @ ?dom)))) = ?resp"
    by (simp add: digest_response_def digest_kd_def Let_def)
  have qop: "(if ''auth'' \<noteq> ''auth'' then [p] else []) = []" for p :: string by simp
  show "sasl_digest_md5 challenge jid password = map_option Some (base64_encode (digest_reply node realm nonce ?dom
       ?resp (case hash_lookup t0 ''charset'' of None \<Rightarrow> [] | Some c \<Rightarrow> c)))"
    unfolding sasl_digest_md5_def steps need qop append_Nil2 md r t7(1) by (simp add: key t7(3) t6(2) nonce digest_reply_def)
qed


lemma parse_fields:
  assumes "base64_decode challenge = Some (Some plain)" "fs = challenge_fields (takeWhile (\<lambda>c. c \<noteq> CHR 0x00) plain)"
    "list_all (\<lambda>kv. c_ascii (fst kv)) fs"
  obtains t where "parse_digest_challenge challenge = Some (Some t)" "hash_wf t" "hash_lookup t = map_of (rev fs)"
proof -
  obtain t where "fields10.add_all (hash_new 10) fs = Some t" "hash_wf t" "hash_lookup t = hash_lookup (hash_new 10) ++ map_of (rev fs)"
    using fields10.add_all_ok [OF fields10.invar_new assms(3)] by blast
  moreover have "hash_lookup (hash_new 10) = Map.empty" by (intro ext) (simp add: hash_lookup_new)
  ultimately show ?thesis using assms(1,2) by (intro that [of t]) (simp_all add: parse_digest_challenge_def parse_loop_fields)
qed

text \<open>A challenge as servers write it.\<close>

fun challenge_text :: "(string \<times> string) list \<Rightarrow> string" where
  "challenge_text [] = []"
| "challenge_text ((k, v) # fs) = k @ ''='' @ make_quoted v @ (if fs = [] then [] else '','' @ challenge_text fs)"

definition field_ok :: "string \<times> string \<Rightarrow> bool" where
  "field_ok kv \<longleftrightarrow> fst kv \<noteq> [] \<and> CHR ''='' \<notin> set (fst kv) \<and> hd (fst kv) \<noteq> CHR '','' \<and> hd (fst kv) \<noteq> CHR '' '' \<and> CHR 0x22 \<notin> set (snd kv) \<and>
     CHR 0x00 \<notin> set (fst kv) \<union> set (snd kv) \<and> c_ascii (fst kv)"

lemma takeWhile_stop: "x \<notin> set a \<Longrightarrow> takeWhile (\<lambda>c. c \<noteq> x) (a @ x # b) = a" "x \<notin> set a \<Longrightarrow> dropWhile (\<lambda>c. c \<noteq> x) (a @ x # b) = x # b"
  by (induction a) auto

lemma challenge_fields_comma: "challenge_fields (CHR '','' # s) = challenge_fields s"
proof (cases "s = []")
  case True
  then show ?thesis by (simp add: challenge_fields.simps [of "[CHR '','']"] challenge_fields.simps [of "[]"] challenge_skip_def challenge_rest_def)
next
  case False
  have "challenge_skip (CHR '','' # s) = challenge_skip s" by (simp add: challenge_skip_def)
  with False show ?thesis by (simp add: challenge_fields.simps [of "CHR '','' # s"] challenge_fields.simps [of s])
qed

lemma challenge_fields_one:
  assumes "field_ok (k, v)"
  shows "challenge_fields (k @ ''='' @ make_quoted v @ s) = (k, v) # challenge_fields s"
proof -
  have k: "k \<noteq> []" "CHR ''='' \<notin> set k" "CHR 0x22 \<notin> set v" using assms by (simp_all add: field_ok_def)
  have skip: "challenge_skip (k @ ''='' @ make_quoted v @ s) = k @ ''='' @ make_quoted v @ s"
    using assms by (cases k) (simp_all add: challenge_skip_def field_ok_def)
  have rest: "challenge_key (k @ ''='' @ make_quoted v @ s) = k" "challenge_rest (k @ ''='' @ make_quoted v @ s) = ''='' @ make_quoted v @ s"
    using takeWhile_stop [OF k(2)] by (simp_all add: challenge_key_def challenge_rest_def)
  have val: "challenge_value (make_quoted v @ s) = (v, s)"
    using takeWhile_stop [OF k(3)] by (simp add: challenge_value_def make_quoted_def)
  have ne: "k @ ''='' @ make_quoted v @ s \<noteq> []" "''='' @ make_quoted v @ s \<noteq> []" "tl (''='' @ make_quoted v @ s) = make_quoted v @ s" by simp_all
  show ?thesis by (subst challenge_fields.simps) (simp only: skip rest ne val fst_conv snd_conv if_False simp_thms)
qed

lemma challenge_fields_text: "list_all field_ok fs \<Longrightarrow> challenge_fields (challenge_text fs) = fs"
proof (induction fs rule: challenge_text.induct)
  case 1
  show ?case by (simp add: challenge_fields.simps [of "[]"])
next
  case (2 k v fs)
  have "challenge_text fs \<noteq> []" if "fs \<noteq> []" using that by (cases fs rule: challenge_text.cases) (auto simp: field_ok_def)
  then have "challenge_fields (if fs = [] then [] else '','' @ challenge_text fs) = fs"
    using 2 challenge_fields_comma [of "challenge_text fs"] by (cases "fs = []") (auto simp: challenge_fields.simps [of "[]"])
  with challenge_fields_one [of k v] 2(2) show ?case by simp
qed

lemma challenge_text_nul: "list_all field_ok fs \<Longrightarrow> CHR 0x00 \<notin> set (challenge_text fs)"
  by (induction fs rule: challenge_text.induct) (auto simp: field_ok_def make_quoted_def)

section \<open>Properties\<close>

text \<open>The reader of challenges is right on the challenges servers write: the text of a list of fields, encoded, is read
  into a table that gives each key its last value.\<close>

theorem challenge_roundtrip:
  assumes "list_all field_ok fs" "fs \<noteq> []" "length (challenge_text fs) < 2 ^ 28"
  shows "\<exists>challenge t. base64_encode (challenge_text fs) = Some challenge \<and> parse_digest_challenge challenge = Some (Some t) \<and>
    hash_wf t \<and> hash_lookup t = map_of (rev fs)"
proof -
  have len: "2 \<le> length (challenge_text fs)" using assms(2) by (cases fs rule: challenge_text.cases) (auto simp: make_quoted_def)
  have nul: "takeWhile (\<lambda>c. c \<noteq> CHR 0x00) (challenge_text fs) = challenge_text fs"
    using challenge_text_nul [OF assms(1)] by (auto simp: takeWhile_eq_all_conv)
  have "base64_decode (base64_text (challenge_text fs)) = Some (Some (challenge_text fs))"
    by (rule decode_text) (use assms(2,3) len in auto)
  moreover have "fs = challenge_fields (takeWhile (\<lambda>c. c \<noteq> CHR 0x00) (challenge_text fs))"
    unfolding nul by (rule challenge_fields_text [OF assms(1), symmetric])
  moreover have "list_all (\<lambda>kv. c_ascii (fst kv)) fs" using assms(1) by (auto simp: list_all_iff field_ok_def)
  ultimately obtain t where "parse_digest_challenge (base64_text (challenge_text fs)) = Some (Some t)" "hash_wf t" "hash_lookup t = map_of (rev fs)"
    by (rule parse_fields)
  moreover have "base64_encode (challenge_text fs) = Some (base64_text (challenge_text fs))" by (rule encode_eq) (use assms(3) len in simp_all)
  ultimately show ?thesis by blast
qed

text \<open>A realm and a nonce that holds a comma.\<close>

theorem challenge_roundtrip_witness:
  "\<exists>challenge t. base64_encode (challenge_text [(''realm'', ''mio''), (''nonce'', ''a,b'')]) = Some challenge \<and>
     parse_digest_challenge challenge = Some (Some t) \<and> hash_wf t \<and> hash_lookup t = map_of (rev [(''realm'', ''mio''), (''nonce'', ''a,b'')])"
  by (rule challenge_roundtrip) (simp_all add: field_ok_def c_ascii_def make_quoted_def)

text \<open>The PLAIN message is the name and the password, each after a NUL byte.\<close>

theorem sasl_plain_message:
  assumes "length authid + length password < 2 ^ 30"
  shows "\<exists>msg. sasl_plain authid password = Some msg \<and> base64_decode msg = Some (Some ([CHR 0x00] @ authid @ [CHR 0x00] @ password))"
  using encode_eq [of "[CHR 0x00] @ authid @ [CHR 0x00] @ password"] decode_text [of "[CHR 0x00] @ authid @ [CHR 0x00] @ password"] assms
  by (simp add: sasl_plain_def)

theorem sasl_plain_message_witness:
  "\<exists>msg. sasl_plain ''u'' ''secret'' = Some msg \<and> base64_decode msg = Some (Some ([CHR 0x00] @ ''u'' @ [CHR 0x00] @ ''secret''))"
  by (rule sasl_plain_message) simp

lemma digest_md5_fields:
  assumes "base64_decode challenge = Some (Some plain)" "fs = challenge_fields (takeWhile (\<lambda>c. c \<noteq> CHR 0x00) plain)"
    "list_all (\<lambda>kv. c_ascii (fst kv)) fs" "xmpp_jid_node jid = Some node"
    and "length plain < 2 ^ 28" "length jid < 2 ^ 28" "length password < 2 ^ 28"
  shows "sasl_digest_md5 challenge jid password = (case map_of (rev fs) ''nonce'' of
     None \<Rightarrow> None
   | Some nonce \<Rightarrow> let domain = xmpp_jid_domain jid; realm = digest_realm fs domain
       in Some (Some (base64_text (digest_reply node realm nonce domain (digest_response node realm password nonce domain)
            (case map_of (rev fs) ''charset'' of None \<Rightarrow> [] | Some c \<Rightarrow> c)))))"
proof -
  obtain t where t: "parse_digest_challenge challenge = Some (Some t)" "hash_wf t" "hash_lookup t = map_of (rev fs)"
    using parse_fields [OF assms(1-3)] .
  let ?dom = "xmpp_jid_domain jid" and ?realm = "digest_realm fs (xmpp_jid_domain jid)"
  have r: "?realm = (case hash_lookup t ''realm'' of None \<Rightarrow> ?dom | Some r \<Rightarrow> if r = [] then ?dom else r)"
    by (simp add: digest_realm_def t(3))
  have v: "length v < 2 ^ 28" if "map_of (rev fs) k = Some v" for k v
  proof -
    have "(k, v) \<in> set fs" using map_of_SomeD [OF that] by simp
    then have "length v \<le> length (takeWhile (\<lambda>c. c \<noteq> CHR 0x00) plain)" unfolding assms(2) by (rule challenge_fields_length)
    then show ?thesis using assms(5) length_takeWhile_le [of "\<lambda>c. c \<noteq> CHR 0x00" plain] by linarith
  qed
  have d: "length ?dom < 2 ^ 28" "length node < 2 ^ 28" using length_jid_parts [of jid] assms(4,6) by auto
  have lr: "length ?realm < 2 ^ 28" using v d unfolding digest_realm_def by (auto split: option.splits)
  note eq = digest_md5_eq [OF t(1,2) assms(4) r]
  show ?thesis
  proof (cases "map_of (rev fs) ''nonce''")
    case None
    with eq(1) t(3) show ?thesis by simp
  next
    case (Some nonce)
    let ?cs = "case map_of (rev fs) ''charset'' of None \<Rightarrow> [] | Some c \<Rightarrow> c"
    have cs: "length ?cs < 2 ^ 28" using v by (auto split: option.splits)
    let ?reply = "digest_reply node ?realm nonce ?dom (digest_response node ?realm password nonce ?dom) ?cs"
    have "length (digest_response node ?realm password nonce ?dom) = 32" by (simp add: digest_response_def digest_kd_def Let_def)
    then have "length ?reply < 2 ^ 32" "2 \<le> length ?reply" using d lr cs v [OF Some] by (simp_all add: digest_reply_def make_quoted_def)
    then have "base64_encode ?reply = Some (base64_text ?reply)" by (intro encode_eq)
    with eq(2) [of nonce password] t(3) Some v [OF Some] lr assms(6,7) show ?thesis by (simp add: Let_def)
  qed
qed

text \<open>C18: The answer to a DIGEST-MD5 challenge: its fields are those of the challenge and of the client, and its response value is the
  one of RFC 2831 for the name, the realm, the password and the nonce, the domain standing in for a missing realm. A
  challenge without a nonce has no answer: the client computes the length of a NULL string.\<close>

theorem digest_md5_response:
  assumes "base64_decode challenge = Some (Some plain)" "fs = challenge_fields (takeWhile (\<lambda>c. c \<noteq> CHR 0x00) plain)"
    "list_all (\<lambda>kv. c_ascii (fst kv)) fs" "xmpp_jid_node jid = Some node"
    and "length plain < 2 ^ 28" "length jid < 2 ^ 28" "length password < 2 ^ 28"
  shows "sasl_digest_md5 challenge jid password = (case map_of (rev fs) ''nonce'' of
     None \<Rightarrow> None
   | Some nonce \<Rightarrow> let domain = xmpp_jid_domain jid; realm = digest_realm fs domain
       in Some (Some (base64_text (digest_reply node realm nonce domain (digest_response node realm password nonce domain)
            (case map_of (rev fs) ''charset'' of None \<Rightarrow> [] | Some c \<Rightarrow> c)))))"
  by (rule digest_md5_fields [OF assms])

text \<open>A challenge with a realm, a nonce and a character set.\<close>

theorem digest_md5_response_witness:
  "\<exists>challenge. base64_encode (challenge_text [(''realm'', ''mio''), (''nonce'', ''a,b''), (''charset'', ''utf-8'')]) = Some challenge \<and>
     sasl_digest_md5 challenge ''u@h'' ''secret'' = Some (Some (base64_text (digest_reply ''u'' ''mio'' ''a,b'' ''h''
       (digest_response ''u'' ''mio'' ''secret'' ''a,b'' ''h'') ''utf-8'')))"
proof -
  let ?fs = "[(''realm'', ''mio''), (''nonce'', ''a,b''), (''charset'', ''utf-8'')]"
  have plain: "takeWhile (\<lambda>c. c \<noteq> CHR 0x00) (challenge_text ?fs) = challenge_text ?fs" "2 \<le> length (challenge_text ?fs)"
    "length (challenge_text ?fs) < 2 ^ 28" by (simp_all add: make_quoted_def)
  have d: "base64_encode (challenge_text ?fs) = Some (base64_text (challenge_text ?fs))" 
    by (rule encode_eq) (use plain in simp_all)
  have e: "base64_decode (base64_text (challenge_text ?fs)) = Some (Some (challenge_text ?fs))"
    by (rule decode_text) (use plain in auto)
  have f: "?fs = challenge_fields (takeWhile (\<lambda>c. c \<noteq> CHR 0x00) (challenge_text ?fs))"
    unfolding plain(1) by (rule challenge_fields_text [symmetric]) (simp add: field_ok_def c_ascii_def)
  have j: "xmpp_jid_node ''u@h'' = Some ''u''" "xmpp_jid_domain ''u@h'' = ''h''" by (simp_all add: xmpp_jid_node_def xmpp_jid_domain_def)
  have "list_all (\<lambda>kv. c_ascii (fst kv)) ?fs" by (simp add: c_ascii_def)
  from digest_md5_response [OF e f this j(1) plain(3), of "''secret''"] d show ?thesis by (simp add: j digest_realm_def Let_def)
qed

end
