(* ===== verification/Strophe_Conn.thy ===== *)
theory Strophe_Conn
  imports Strophe_Sasl Strophe_Handler
begin

text \<open>
  A connection of libstrophe (\<^verbatim>\<open>src/libs/c/libstrophe/src/conn.c\<close>): its state, its send queue, opening and closing. A handler
  of the library is a value of \<open>strophe_fn\<close>. \<open>cx_now\<close> is the clock, which stands still while one event is handled.
  \<open>cx_events\<close> are the calls of the application's connection handler, and \<open>cx_wire\<close> the bytes written to the network, with
  a mark for those that went through TLS. The functions that \<open>Mio_Conn\<close> and \<open>Mio_Connect\<close> model on the
  connection of libMIO have the prefix \<open>strophe_\<close> here. \<open>None\<close> stands for undefined behaviour.
\<close>

section \<open>Data\<close>

datatype xmpp_conn_type_t = XMPP_UNKNOWN | XMPP_CLIENT | XMPP_COMPONENT
datatype xmpp_conn_state_t = XMPP_STATE_DISCONNECTED | XMPP_STATE_CONNECTING | XMPP_STATE_CONNECTED
datatype xmpp_conn_event_t = XMPP_CONN_CONNECT | XMPP_CONN_DISCONNECT | XMPP_CONN_FAIL

datatype xmpp_error_type_t =
  XMPP_SE_BAD_FORMAT | XMPP_SE_BAD_NS_PREFIX | XMPP_SE_CONFLICT | XMPP_SE_CONN_TIMEOUT | XMPP_SE_HOST_GONE
| XMPP_SE_HOST_UNKNOWN | XMPP_SE_IMPROPER_ADDR | XMPP_SE_INTERNAL_SERVER_ERROR | XMPP_SE_INVALID_FROM | XMPP_SE_INVALID_ID
| XMPP_SE_INVALID_NS | XMPP_SE_INVALID_XML | XMPP_SE_NOT_AUTHORIZED | XMPP_SE_POLICY_VIOLATION | XMPP_SE_REMOTE_CONN_FAILED
| XMPP_SE_RESOURCE_CONSTRAINT | XMPP_SE_RESTRICTED_XML | XMPP_SE_SEE_OTHER_HOST | XMPP_SE_SYSTEM_SHUTDOWN
| XMPP_SE_UNDEFINED_CONDITION | XMPP_SE_UNSUPPORTED_ENCODING | XMPP_SE_UNSUPPORTED_STANZA_TYPE | XMPP_SE_UNSUPPORTED_VERSION
| XMPP_SE_XML_NOT_WELL_FORMED

record xmpp_stream_error_t =
  xse_type :: xmpp_error_type_t
  xse_text :: cptr
  xse_stanza :: xmpp_stanza

datatype strophe_fn =
  Handle_error | Handle_features | Handle_proceedtls_default | Handle_sasl_result | Handle_digestmd5_challenge
| Handle_digestmd5_rspauth | Handle_features_sasl | Handle_bind | Handle_session | Handle_legacy
| Handle_missing_features | Handle_missing_features_sasl | Handle_missing_bind | Handle_missing_session | Handle_missing_legacy
| Disconnect_cleanup

datatype xmpp_open_handler = Auth_handle_open | Handle_open_sasl

type_synonym strophe_item = "(strophe_fn, cptr) xmpp_handlist"

text \<open>A pointer to memory the connection owns; after a free that is not followed by an assignment it dangles.\<close>

datatype owned_ptr = Null | Owned string | Dangling

record xmpp_send_queue_t =
  sq_data :: string
  sq_written :: nat

record parser_t =
  pa_depth :: int
  pa_stanza :: "xmpp_stanza list"   \<comment> \<open>the open stanzas, innermost first; [] is NULL\<close>

record xmpp_conn =
  cx_type :: xmpp_conn_type_t
  cx_state :: xmpp_conn_state_t
  cx_timeout_stamp :: "64 word"
  cx_error :: int
  cx_stream_error :: "xmpp_stream_error_t option"
  cx_tls :: bool                     \<comment> \<open>\<open>conn->tls\<close> is not NULL\<close>
  cx_tls_support :: bool
  cx_tls_disabled :: bool
  cx_tls_failed :: bool
  cx_sasl_support :: "32 word"
  cx_secured :: bool
  cx_bind_required :: bool
  cx_session_required :: bool
  cx_lang :: string
  cx_domain :: cptr
  cx_jid :: cptr
  cx_pass :: cptr
  cx_bound_jid :: cptr
  cx_stream_id :: owned_ptr
  cx_send_queue :: "xmpp_send_queue_t list"
  cx_send_queue_len :: int
  cx_reset_parser :: bool
  cx_parser :: parser_t
  cx_connect_timeout :: "64 word"
  cx_open_handler :: xmpp_open_handler
  cx_authenticated :: bool
  cx_timed_handlers :: "strophe_item list"
  cx_id_handlers :: "(strophe_fn, cptr) id_handlers"
  cx_handlers :: "strophe_item list"
  cx_now :: "64 word"
  cx_events :: "(xmpp_conn_event_t \<times> int) list"
  cx_wire :: "(bool \<times> string) list"

definition DISCONNECT_TIMEOUT :: "64 word" where "DISCONNECT_TIMEOUT = 2000"
definition CONNECT_TIMEOUT :: "64 word" where "CONNECT_TIMEOUT = 5000"
definition ECONNABORTED :: int where "ECONNABORTED = 103"

definition XMPP_NS_CLIENT :: string where "XMPP_NS_CLIENT = ''jabber:client''"
definition XMPP_NS_COMPONENT :: string where "XMPP_NS_COMPONENT = ''jabber:component:accept''"
definition XMPP_NS_STREAMS :: string where "XMPP_NS_STREAMS = ''http://etherx.jabber.org/streams''"
definition XMPP_NS_STREAMS_IETF :: string where "XMPP_NS_STREAMS_IETF = ''urn:ietf:params:xml:ns:xmpp-streams''"
definition XMPP_NS_TLS :: string where "XMPP_NS_TLS = ''urn:ietf:params:xml:ns:xmpp-tls''"
definition XMPP_NS_SASL :: string where "XMPP_NS_SASL = ''urn:ietf:params:xml:ns:xmpp-sasl''"
definition XMPP_NS_BIND :: string where "XMPP_NS_BIND = ''urn:ietf:params:xml:ns:xmpp-bind''"
definition XMPP_NS_SESSION :: string where "XMPP_NS_SESSION = ''urn:ietf:params:xml:ns:xmpp-session''"
definition XMPP_NS_AUTH :: string where "XMPP_NS_AUTH = ''jabber:iq:auth''"

section \<open>Handlers of a connection\<close>

text \<open>The registrations of \<open>Strophe_Handler\<close>, on the lists of the connection; the library's own handlers are no user handlers.\<close>

definition conn_handler_add :: "strophe_fn \<Rightarrow> cptr \<Rightarrow> cptr \<Rightarrow> cptr \<Rightarrow> cptr \<Rightarrow> xmpp_conn \<Rightarrow> xmpp_conn" where
  "conn_handler_add h ns name type u conn = conn\<lparr>cx_handlers := handler_add (cx_handlers conn) h ns name type u False\<rparr>"

definition conn_handler_add_id :: "strophe_fn \<Rightarrow> string \<Rightarrow> cptr \<Rightarrow> xmpp_conn \<Rightarrow> xmpp_conn" where
  "conn_handler_add_id h i u conn = conn\<lparr>cx_id_handlers := id_handler_add (cx_id_handlers conn) h i u False\<rparr>"

definition conn_handler_add_timed :: "strophe_fn \<Rightarrow> 64 word \<Rightarrow> cptr \<Rightarrow> xmpp_conn \<Rightarrow> xmpp_conn" where
  "conn_handler_add_timed h period u conn =
     conn\<lparr>cx_timed_handlers := timed_handler_add (cx_timed_handlers conn) h period u False (cx_now conn)\<rparr>"

definition conn_timed_delete :: "strophe_fn \<Rightarrow> xmpp_conn \<Rightarrow> xmpp_conn" where
  "conn_timed_delete h conn = conn\<lparr>cx_timed_handlers := xmpp_timed_handler_delete (cx_timed_handlers conn) h\<rparr>"

section \<open>Sending\<close>

definition strophe_send_raw :: "string \<Rightarrow> nat \<Rightarrow> xmpp_conn \<Rightarrow> xmpp_conn option" where
  "strophe_send_raw data len conn =
     (if cx_state conn \<noteq> XMPP_STATE_CONNECTED then Some conn
      else if length data < len then None
      else Some (conn\<lparr>cx_send_queue := cx_send_queue conn @ [\<lparr>sq_data = take len data, sq_written = 0\<rparr>],
             cx_send_queue_len := cx_send_queue_len conn + 1\<rparr>))"

text \<open>
  The text is printed into a buffer of 1024 bytes, the last of them NUL; when that is too small, into one of the right size.
\<close>

definition strophe_send_raw_string :: "string \<Rightarrow> xmpp_conn \<Rightarrow> xmpp_conn option" where
  "strophe_send_raw_string txt conn =
     (let len = length txt; buf = take 1023 txt in
      if len \<ge> 1024 then (let len = len + 1; bigbuf = take (len - 1) txt in strophe_send_raw bigbuf (len - 1) conn)
      else strophe_send_raw buf len conn)"

definition strophe_send :: "xmpp_stanza \<Rightarrow> xmpp_conn \<Rightarrow> xmpp_conn option" where
  "strophe_send stanza conn =
     (if cx_state conn = XMPP_STATE_CONNECTED then
        (case xmpp_stanza_to_text stanza of Inl _ \<Rightarrow> Some conn | Inr buf \<Rightarrow> strophe_send_raw buf (length buf) conn)
      else Some conn)"

definition conn_open_stream :: "xmpp_conn \<Rightarrow> xmpp_conn option" where
  "conn_open_stream conn = do {
     domain \<leftarrow> cx_domain conn;
     let q = [CHR 0x22];
     strophe_send_raw_string (''<?xml version='' @ q @ ''1.0'' @ q @ ''?><stream:stream to='' @ q @ domain @ q @ '' xml:lang='' @ q @ cx_lang conn @ q @
       '' version='' @ q @ ''1.0'' @ q @ '' xmlns='' @ q @ (if cx_type conn = XMPP_CLIENT then XMPP_NS_CLIENT else XMPP_NS_COMPONENT) @ q @
       '' xmlns:stream='' @ q @ XMPP_NS_STREAMS @ q @ ''>'') conn }"

section \<open>Closing\<close>

definition conn_disconnect :: "xmpp_conn \<Rightarrow> xmpp_conn" where
  "conn_disconnect conn = conn\<lparr>cx_state := XMPP_STATE_DISCONNECTED, cx_tls := False,
     cx_events := cx_events conn @ [(XMPP_CONN_DISCONNECT, cx_error conn)]\<rparr>"

definition conn_disconnect_clean :: "xmpp_conn \<Rightarrow> xmpp_conn" where
  "conn_disconnect_clean conn = conn_disconnect (conn_timed_delete Disconnect_cleanup conn)"

definition strophe_disconnect :: "xmpp_conn \<Rightarrow> xmpp_conn option" where
  "strophe_disconnect conn =
     (if cx_state conn \<noteq> XMPP_STATE_CONNECTING \<and> cx_state conn \<noteq> XMPP_STATE_CONNECTED then Some conn
      else do {
        conn \<leftarrow> strophe_send_raw_string ''</stream:stream>'' conn;
        Some (conn_handler_add_timed Disconnect_cleanup DISCONNECT_TIMEOUT None conn) })"

definition disconnect_cleanup :: "xmpp_conn \<Rightarrow> bool \<times> xmpp_conn" where
  "disconnect_cleanup conn = (False, conn_disconnect conn)"

definition disconnect_mem_error :: "xmpp_conn \<Rightarrow> xmpp_conn option" where
  "disconnect_mem_error conn = strophe_disconnect conn"

section \<open>Opening\<close>

definition conn_prepare_reset :: "xmpp_open_handler \<Rightarrow> xmpp_conn \<Rightarrow> xmpp_conn" where
  "conn_prepare_reset h conn = conn\<lparr>cx_reset_parser := True, cx_open_handler := h\<rparr>"

definition conn_parser_reset :: "xmpp_conn \<Rightarrow> xmpp_conn" where
  "conn_parser_reset conn = conn\<lparr>cx_reset_parser := False, cx_parser := \<lparr>pa_depth = 0, pa_stanza = []\<rparr>\<rparr>"

definition xmpp_conn_new :: xmpp_conn where
  "xmpp_conn_new = conn_prepare_reset Auth_handle_open
     \<lparr>cx_type = XMPP_UNKNOWN, cx_state = XMPP_STATE_DISCONNECTED, cx_timeout_stamp = 0, cx_error = 0, cx_stream_error = None,
      cx_tls = False, cx_tls_support = False, cx_tls_disabled = False, cx_tls_failed = False, cx_sasl_support = 0, cx_secured = False,
      cx_bind_required = False, cx_session_required = False, cx_lang = ''en'', cx_domain = None, cx_jid = None, cx_pass = None,
      cx_bound_jid = None, cx_stream_id = Null, cx_send_queue = [], cx_send_queue_len = 0, cx_reset_parser = False,
      cx_parser = \<lparr>pa_depth = 0, pa_stanza = []\<rparr>, cx_connect_timeout = CONNECT_TIMEOUT, cx_open_handler = Auth_handle_open,
      cx_authenticated = False, cx_timed_handlers = [], cx_id_handlers = (\<lambda>_. []), cx_handlers = [], cx_now = 0,
      cx_events = [], cx_wire = []\<rparr>"

definition xmpp_conn_set_jid :: "string \<Rightarrow> xmpp_conn \<Rightarrow> xmpp_conn" where
  "xmpp_conn_set_jid jid conn = conn\<lparr>cx_jid := Some jid\<rparr>"

definition xmpp_conn_set_pass :: "string \<Rightarrow> xmpp_conn \<Rightarrow> xmpp_conn" where
  "xmpp_conn_set_pass pass conn = conn\<lparr>cx_pass := Some pass\<rparr>"

definition xmpp_conn_disable_tls :: "xmpp_conn \<Rightarrow> xmpp_conn" where
  "xmpp_conn_disable_tls conn = conn\<lparr>cx_tls_disabled := True\<rparr>"

text \<open>
  \<open>srv\<close> is the lookup of the service of a domain, which writes at most 2048 bytes, and \<open>connect\<close> tells whether a socket to a
  host and port could be had. Copying a longer name into \<open>connectdomain\<close> is undefined.
\<close>

definition xmpp_connect_client :: "(string \<Rightarrow> (string \<times> nat) option) \<Rightarrow> (string \<Rightarrow> nat \<Rightarrow> bool) \<Rightarrow> cptr \<Rightarrow> nat \<Rightarrow> xmpp_conn
    \<Rightarrow> (int \<times> xmpp_conn) option" where
  "xmpp_connect_client srv connect altdomain altport conn = do {
     jid \<leftarrow> cx_jid conn;
     let conn = conn\<lparr>cx_type := XMPP_CLIENT, cx_domain := Some (xmpp_jid_domain jid)\<rparr>;
     let port = (if altport \<noteq> 0 then altport else 5222);
     (host, port) \<leftarrow> (case altdomain of
        Some d \<Rightarrow> if length d < 2048 then Some (d, port) else None
      | None \<Rightarrow> (case srv (xmpp_jid_domain jid) of
           Some r \<Rightarrow> Some r
         | None \<Rightarrow> if length (xmpp_jid_domain jid) < 2048 then Some (xmpp_jid_domain jid, port) else None));
     if \<not> connect host port then Some (-1, conn)
     else Some (0, conn\<lparr>cx_state := XMPP_STATE_CONNECTING, cx_timeout_stamp := cx_now conn\<rparr>) }"

section \<open>Writing the queue\<close>

text \<open>
  What the socket, or TLS, answers to a write: bytes taken, try again, or an error, whose number is not 0. The call
  \<open>tls_clear_pending_write\<close> before the loop does nothing in the build with OpenSSL.
\<close>

datatype write_result = W_wrote nat | W_again | W_error int

text \<open>
  The loop over the queue, one answer per item; a socket that is not asked any more has answered \<open>W_again\<close>. More bytes than
  offered are not taken.
\<close>

fun write_queue :: "write_result list \<Rightarrow> bool \<Rightarrow> xmpp_send_queue_t list \<Rightarrow> xmpp_send_queue_t list \<times> (bool \<times> string) list \<times> int" where
  "write_queue rs tls [] = ([], [], 0)"
| "write_queue [] tls (sq # next) = (sq # next, [], 0)"
| "write_queue (r # rs) tls (sq # next) =
     (let rest = drop (sq_written sq) (sq_data sq); towrite = length rest in
      case r of
        W_error e \<Rightarrow> (sq # next, [], e)
      | W_again \<Rightarrow> (sq # next, [], 0)
      | W_wrote n \<Rightarrow>
          if n < towrite then (sq\<lparr>sq_written := sq_written sq + n\<rparr> # next, [(tls, take n rest)], 0)
          else (case write_queue rs tls next of (q, wire, e) \<Rightarrow> (q, (tls, rest) # wire, e)))"

definition conn_write :: "write_result list \<Rightarrow> xmpp_conn \<Rightarrow> xmpp_conn" where
  "conn_write rs conn =
     (if cx_state conn \<noteq> XMPP_STATE_CONNECTED then conn
      else case write_queue rs (cx_tls conn) (cx_send_queue conn) of (q, wire, e) \<Rightarrow>
        let conn = conn\<lparr>cx_send_queue := q, cx_wire := cx_wire conn @ wire, cx_error := (if e \<noteq> 0 then e else cx_error conn)\<rparr>
        in if cx_error conn \<noteq> 0 then conn_disconnect (conn\<lparr>cx_error := ECONNABORTED\<rparr>) else conn)"

end
