(* ===== verification/Mio_Connect.thy ===== *)
theory Mio_Connect
  imports Mio_Requests Strophe_Conn
begin

text \<open>
  Opening and closing a connection (\<^verbatim>\<open>mio.c\<close>: \<open>mio_connect\<close>, \<open>_mio_run\<close>, \<open>mio_disconnect\<close>; \<^verbatim>\<open>mio_handlers.c\<close>:
  \<open>mio_handler_conn_generic\<close>, the presence and keepalive handlers; \<^verbatim>\<open>conn.c\<close> of libstrophe: what it does around the
  connection handler). The application's thread creates the handler data, starts the thread of the event loop and waits
  until that thread has announced a connection or a failure. A session is the connection, the handler data both threads
  share, and the place of the event loop; the steps of the two threads interleave. The response in the handler data is
  created by the handler and freed by \<open>mio_connect\<close>.

  Shown: a connect that returns MIO_OK was announced; without spurious wake-ups it reads nothing that is not there; when the
  announcement comes before the test of the predicate, connect returns MIO_ERROR_PREDICATE, keeps the mutex and frees the data
  the handler uses; after a successful connect every further event of the connection writes to the freed response; and a
  connection that was closed cannot be opened again.
\<close>

section \<open>Events\<close>

definition MIO_CONNECTION_RETRIES :: int where "MIO_CONNECTION_RETRIES = 0"
definition MIO_ERROR_RUN_THREAD :: int where "MIO_ERROR_RUN_THREAD = -1"
definition MIO_ERRROR_EVENT_LOOP_NOT_STARTED :: int where "MIO_ERRROR_EVENT_LOOP_NOT_STARTED = -22"
definition KEEPALIVE_PERIOD :: "64 word" where "KEEPALIVE_PERIOD = 300000"

datatype mio_conn_event = MIO_CONN_CONNECT | MIO_CONN_DISCONNECT | MIO_CONN_FAIL
datatype xmpp_loop_status_t = XMPP_LOOP_NOTSTARTED | XMPP_LOOP_RUNNING | XMPP_LOOP_QUIT

text \<open>The application's connection handler gets the event and the response, and may use the connection.\<close>

type_synonym mio_handler_conn = "mio_conn \<Rightarrow> mio_conn_event \<Rightarrow> mio_response \<Rightarrow> mio_conn option"

definition mio_conn_handler_presence_send :: "mio_conn \<Rightarrow> mio_conn_event \<Rightarrow> mio_response \<Rightarrow> (int \<times> mio_conn) option" where
  "mio_conn_handler_presence_send conn event response =
     (if event = MIO_CONN_CONNECT then do { pres \<leftarrow> presence_stanza None; Some (MIO_OK, xmpp_send conn pres) }
      else Some (MIO_ERROR_DISCONNECTED, conn))"

datatype response_cell = NoResponse | Live mio_response | Freed

datatype run_pc =
  RN_none             \<comment> \<open>no thread\<close>
| RN_start            \<comment> \<open>before \<open>xmpp_connect_client\<close>\<close>
| RN_keepalive        \<comment> \<open>before the keepalive handler is added\<close>
| RN_test             \<comment> \<open>before the test of the loop status\<close>
| RN_once             \<comment> \<open>in \<open>xmpp_run_once\<close>\<close>
| RN_broadcast        \<comment> \<open>in the connection handler, before the broadcast\<close>
| RN_send             \<comment> \<open>in the wait for something to send\<close>
| RN_exit int
| RN_undefined

record session =
  se_conn :: mio_conn
  se_loop :: xmpp_loop_status_t
  se_response :: response_cell   \<comment> \<open>\<open>shd->response\<close>\<close>
  se_freed :: bool               \<comment> \<open>the handler data were freed\<close>
  se_cond :: cond_state          \<comment> \<open>\<open>conn_cond\<close>\<close>
  se_run :: run_pc

text \<open>The handler wants to announce the event, or to disconnect and connect again.\<close>

datatype conn_generic_result = Announce session | Reconnect session

definition conn_cell :: "response_cell \<Rightarrow> response_cell" where
  "conn_cell c = (if c = NoResponse then Live mio_response_new else c)"

definition live_response :: "response_cell \<Rightarrow> mio_response option" where
  "live_response c = (case c of Live r \<Rightarrow> Some r | _ \<Rightarrow> None)"

definition mio_handler_conn_generic :: "mio_handler_conn option \<Rightarrow> xmpp_conn_event_t \<Rightarrow> session \<Rightarrow> conn_generic_result option" where
  "mio_handler_conn_generic conn_handler status s =
     (if se_freed s then None
      else let cell = conn_cell (se_response s); conn = se_conn s in
        if status = XMPP_CONN_CONNECT then do {
          r \<leftarrow> live_response cell;
          let r = r\<lparr>rsp_response_type := MIO_RESPONSE_OK\<rparr>;
          let conn = conn\<lparr>cn_retries := 0\<rparr>;
          conn \<leftarrow> (case conn_handler of None \<Rightarrow> Some conn | Some f \<Rightarrow> f conn MIO_CONN_CONNECT r);
          Some (Announce (s\<lparr>se_conn := conn, se_response := Live r\<rparr>)) }
        else if cn_retries conn < MIO_CONNECTION_RETRIES then
          Some (Reconnect (s\<lparr>se_conn := conn\<lparr>cn_retries := cn_retries conn + 1\<rparr>, se_response := cell\<rparr>))
        else do {
          r \<leftarrow> live_response cell;
          Some (Announce (s\<lparr>se_response := Live (r\<lparr>rsp_response := RError \<lparr>err_num = Some MIO_ERROR_CONNECTION,
            err_description = Some ''MIO_ERROR_CONNECTION''\<rparr>, rsp_response_type := MIO_RESPONSE_ERROR\<rparr>)\<rparr>)) })"

text \<open>libstrophe changes its connection before it calls the handler: \<open>authenticated\<close> is set and never cleared.\<close>

definition xmpp_conn_event :: "xmpp_conn_event_t \<Rightarrow> session \<Rightarrow> session" where
  "xmpp_conn_event status s = s\<lparr>se_conn := (if status = XMPP_CONN_CONNECT
     then (se_conn s)\<lparr>cn_authenticated := True, cn_connected := True\<rparr> else (se_conn s)\<lparr>cn_connected := False\<rparr>)\<rparr>"

definition mio_cond_broadcast :: "session \<Rightarrow> session" where
  "mio_cond_broadcast s = s\<lparr>se_conn := (se_conn s)\<lparr>cn_conn_predicate := True\<rparr>,
     se_cond := (if se_cond s = Cond_waiting then Cond_woken else se_cond s)\<rparr>"

section \<open>The keepalive\<close>

definition mio_handler_keepalive :: "mio_conn \<Rightarrow> int \<times> mio_conn" where
  "mio_handler_keepalive conn = (MIO_HANDLER_KEEP, xmpp_send_raw conn '' '')"

text \<open>A timed handler is called without a stanza; \<open>call\<close> is the handler by name. \<open>True\<close> keeps it.\<close>

definition mio_handler_generic_timed :: "(mio_handler_fn \<Rightarrow> mio_conn \<Rightarrow> (int \<times> mio_conn) option) \<Rightarrow> mio_handler_data \<Rightarrow> mio_conn
    \<Rightarrow> (bool \<times> mio_conn) option" where
  "mio_handler_generic_timed call shd conn = do {
     h \<leftarrow> hd_handler shd;
     (ret, conn) \<leftarrow> call h conn;
     Some (ret = MIO_HANDLER_KEEP, conn) }"

section \<open>Disconnecting\<close>

definition xmpp_disconnect :: "64 word \<Rightarrow> mio_conn \<Rightarrow> mio_conn" where
  "xmpp_disconnect now conn =
     (if \<not> cn_connected conn then conn
      else (xmpp_send_raw conn ''</stream:stream>'')\<lparr>cn_timed_handlers := timed_handler_add (cn_timed_handlers conn)
        G_disconnect_cleanup DISCONNECT_TIMEOUT mio_handler_data_new False now\<rparr>)"

definition xmpp_stop :: "xmpp_loop_status_t \<Rightarrow> xmpp_loop_status_t" where
  "xmpp_stop st = (if st = XMPP_LOOP_RUNNING then XMPP_LOOP_QUIT else st)"

definition mio_disconnect :: "64 word \<Rightarrow> session \<Rightarrow> (int \<times> session) option" where
  "mio_disconnect now s = do {
     (e1, conn) \<leftarrow> mio_listen_stop (se_conn s);
     let (e2, conn) = mio_pubsub_data_listen_stop conn;
     let s = s\<lparr>se_loop := xmpp_stop (se_loop s)\<rparr>;
     let conn = (if cn_authenticated conn then xmpp_disconnect now conn else conn);
     Some (MIO_OK, s\<lparr>se_conn := conn\<rparr>) }"

section \<open>The two threads\<close>

datatype connect_pc =
  CO_start            \<comment> \<open>at the entry\<close>
| CO_lock             \<comment> \<open>before \<open>conn_mutex\<close> is locked\<close>
| CO_test             \<comment> \<open>before the test of \<open>conn_predicate\<close>, the mutex is locked\<close>
| CO_wait             \<comment> \<open>in the wait\<close>
| CO_woken            \<comment> \<open>the wait has returned without an error, the mutex is locked\<close>
| CO_return int
| CO_undefined

type_synonym connect_state = "session \<times> connect_pc"

text \<open>The thread of the event loop.\<close>

inductive run_step :: "mio_handler_conn option \<Rightarrow> session \<Rightarrow> session \<Rightarrow> bool" for conn_handler :: "mio_handler_conn option" where
  start_freed: "se_run s \<in> {RN_start, RN_keepalive} \<Longrightarrow> se_freed s \<Longrightarrow> run_step conn_handler s (s\<lparr>se_run := RN_undefined\<rparr>)"
| start_failed: "se_run s = RN_start \<Longrightarrow> \<not> se_freed s \<Longrightarrow> run_step conn_handler s (s\<lparr>se_run := RN_exit MIO_ERROR_CONNECTION\<rparr>)"
| start: "se_run s = RN_start \<Longrightarrow> \<not> se_freed s \<Longrightarrow>
    run_step conn_handler s (s\<lparr>se_conn := (se_conn s)\<lparr>cn_connected := False\<rparr>, se_run := RN_keepalive\<rparr>)"
| not_started: "se_run s = RN_keepalive \<Longrightarrow> \<not> se_freed s \<Longrightarrow> se_loop s \<noteq> XMPP_LOOP_NOTSTARTED \<Longrightarrow>
    run_step conn_handler s (s\<lparr>se_conn := (snd (mio_handler_timed_add (se_conn s) H_keepalive KEEPALIVE_PERIOD now))\<lparr>cn_presence_status :=
      MIO_PRESENCE_UNKNOWN\<rparr>, se_run := RN_exit MIO_ERRROR_EVENT_LOOP_NOT_STARTED\<rparr>)"
| keepalive: "se_run s = RN_keepalive \<Longrightarrow> \<not> se_freed s \<Longrightarrow> se_loop s = XMPP_LOOP_NOTSTARTED \<Longrightarrow>
    run_step conn_handler s (s\<lparr>se_conn := (snd (mio_handler_timed_add (se_conn s) H_keepalive KEEPALIVE_PERIOD now))\<lparr>cn_presence_status :=
      MIO_PRESENCE_UNKNOWN\<rparr>, se_loop := XMPP_LOOP_RUNNING, se_run := RN_test\<rparr>)"
| again: "se_run s = RN_test \<Longrightarrow> se_loop s = XMPP_LOOP_RUNNING \<Longrightarrow> run_step conn_handler s (s\<lparr>se_run := RN_once\<rparr>)"
| finished: "se_run s = RN_test \<Longrightarrow> se_loop s \<noteq> XMPP_LOOP_RUNNING \<Longrightarrow> run_step conn_handler s (s\<lparr>se_run := RN_exit MIO_OK\<rparr>)"
| event: "se_run s = RN_once \<Longrightarrow> mio_handler_conn_generic conn_handler status (xmpp_conn_event status s) = Some (Announce s') \<Longrightarrow>
    run_step conn_handler s (s'\<lparr>se_run := RN_broadcast\<rparr>)"
| event_undefined: "se_run s = RN_once \<Longrightarrow> mio_handler_conn_generic conn_handler status (xmpp_conn_event status s) = None \<Longrightarrow>
    run_step conn_handler s (s\<lparr>se_run := RN_undefined\<rparr>)"
| broadcast: "se_run s = RN_broadcast \<Longrightarrow> \<not> cn_conn_mutex (se_conn s) \<Longrightarrow> run_step conn_handler s ((mio_cond_broadcast s)\<lparr>se_run := RN_once\<rparr>)"
| once_done: "se_run s = RN_once \<Longrightarrow> run_step conn_handler s (s\<lparr>se_run := RN_send\<rparr>)"
| send_wait: "se_run s = RN_send \<Longrightarrow>
    run_step conn_handler s (s\<lparr>se_conn := (se_conn s)\<lparr>cn_send_request_predicate := False\<rparr>, se_run := RN_test\<rparr>)"

text \<open>What \<open>mio_connect\<close> does when its wait has ended without an error.\<close>

definition connect_result :: "response_cell \<Rightarrow> int option" where
  "connect_result cell = do {
     r \<leftarrow> live_response cell;
     if rsp_response_type r = MIO_RESPONSE_OK then Some MIO_OK
     else (case rsp_response r of RError e \<Rightarrow> err_num e | _ \<Rightarrow> None) }"

definition connect_leave :: "response_cell \<Rightarrow> bool \<Rightarrow> session \<Rightarrow> session" where
  "connect_leave cell freed s = s\<lparr>se_conn := (se_conn s)\<lparr>cn_conn_mutex := False, cn_conn_predicate := False\<rparr>,
     se_response := cell, se_freed := freed, se_cond := Cond_idle\<rparr>"

inductive connect_own :: "bool \<Rightarrow> string \<Rightarrow> connect_state \<Rightarrow> connect_state \<Rightarrow> bool" for spurious :: bool and jid :: string where
  spawned: "connect_own spurious jid (s, CO_start)
    (s\<lparr>se_conn := (se_conn s)\<lparr>cn_open_requests := MIO_MAX_OPEN_REQUESTS, cn_jid := Some jid\<rparr>, se_response := NoResponse, se_freed := False,
       se_cond := Cond_idle, se_run := RN_start\<rparr>, CO_lock)"
| not_spawned: "connect_own spurious jid (s, CO_start)
    (s\<lparr>se_conn := (se_conn s)\<lparr>cn_open_requests := MIO_MAX_OPEN_REQUESTS, cn_jid := Some jid\<rparr>\<rparr>, CO_return MIO_ERROR_RUN_THREAD)"
| lock: "\<not> cn_conn_mutex (se_conn s) \<Longrightarrow>
    connect_own spurious jid (s, CO_lock) (s\<lparr>se_conn := (se_conn s)\<lparr>cn_conn_mutex := True\<rparr>\<rparr>, CO_test)"
| early: "cn_conn_predicate (se_conn s) \<Longrightarrow>
    connect_own spurious jid (s, CO_test) (s\<lparr>se_freed := True\<rparr>, CO_return MIO_ERROR_PREDICATE)"
| block: "\<not> cn_conn_predicate (se_conn s) \<Longrightarrow>
    connect_own spurious jid (s, CO_test) (s\<lparr>se_conn := (se_conn s)\<lparr>cn_conn_mutex := False\<rparr>, se_cond := Cond_waiting\<rparr>, CO_wait)"
| wake: "se_cond s = Cond_woken \<or> spurious \<Longrightarrow> \<not> cn_conn_mutex (se_conn s) \<Longrightarrow>
    connect_own spurious jid (s, CO_wait) (s\<lparr>se_conn := (se_conn s)\<lparr>cn_conn_mutex := True\<rparr>, se_cond := Cond_idle\<rparr>, CO_woken)"
| timeout: "se_cond s \<noteq> Cond_woken \<Longrightarrow> \<not> cn_conn_mutex (se_conn s) \<Longrightarrow>
    connect_own spurious jid (s, CO_wait) (connect_leave (se_response s) True s, CO_return MIO_ERROR_TIMEOUT)"
| wait_error: "se_cond s \<noteq> Cond_woken \<Longrightarrow> \<not> cn_conn_mutex (se_conn s) \<Longrightarrow>
    connect_own spurious jid (s, CO_wait) (connect_leave (se_response s) True s, CO_return MIO_ERROR_COND_WAIT)"
| finish: "connect_result (se_response s) = Some e \<Longrightarrow>
    connect_own spurious jid (s, CO_woken) (connect_leave Freed (se_freed s) s, CO_return e)"
| crash: "connect_result (se_response s) = None \<Longrightarrow>
    connect_own spurious jid (s, CO_woken) (s, CO_undefined)"

inductive connect_step :: "bool \<Rightarrow> mio_handler_conn option \<Rightarrow> string \<Rightarrow> connect_state \<Rightarrow> connect_state \<Rightarrow> bool"
  for spurious :: bool and conn_handler :: "mio_handler_conn option" and jid :: string where
  own: "connect_own spurious jid s s' \<Longrightarrow> connect_step spurious conn_handler jid s s'"
| run: "run_step conn_handler s s' \<Longrightarrow> connect_step spurious conn_handler jid (s, pc) (s', pc)"

abbreviation connect_steps :: "bool \<Rightarrow> mio_handler_conn option \<Rightarrow> string \<Rightarrow> connect_state \<Rightarrow> connect_state \<Rightarrow> bool" where
  "connect_steps spurious conn_handler jid \<equiv> (connect_step spurious conn_handler jid)\<^sup>*\<^sup>*"

section \<open>Invariants\<close>

text \<open>The application's handler leaves the accounts of the connecting threads alone.\<close>

definition polite :: "mio_handler_conn option \<Rightarrow> bool" where
  "polite conn_handler \<longleftrightarrow> (\<forall>f conn event r conn'. conn_handler = Some f \<longrightarrow> f conn event r = Some conn' \<longrightarrow>
     cn_conn_mutex conn' = cn_conn_mutex conn \<and> cn_conn_predicate conn' = cn_conn_predicate conn \<and> cn_retries conn' = cn_retries conn)"

text \<open>A response of the handler: success, which presupposes \<open>P\<close>, or the error of a lost connection.\<close>

definition announced :: "bool \<Rightarrow> response_cell \<Rightarrow> bool" where
  "announced P cell \<longleftrightarrow> (\<exists>r. cell = Live r \<and> (rsp_response_type r = MIO_RESPONSE_OK \<and> P \<or>
     rsp_response_type r = MIO_RESPONSE_ERROR \<and> (\<exists>e. rsp_response r = RError e \<and> err_num e = Some MIO_ERROR_CONNECTION)))"

lemma announced_result: "announced P cell \<Longrightarrow> \<exists>e. connect_result cell = Some e \<and> (e = MIO_OK \<longrightarrow> P)"
  by (auto simp: announced_def connect_result_def live_response_def MIO_OK_def MIO_ERROR_CONNECTION_def)

lemma conn_generic_announces:
  assumes "mio_handler_conn_generic conn_handler status s = Some (Announce s')" "polite conn_handler" "0 \<le> cn_retries (se_conn s)"
    "status = XMPP_CONN_CONNECT \<longrightarrow> P"
  shows "announced P (se_response s')" "se_freed s' = se_freed s" "\<not> se_freed s" "se_response s \<noteq> Freed" "se_cond s' = se_cond s"
    "se_loop s' = se_loop s" "se_run s' = se_run s" "cn_conn_mutex (se_conn s') = cn_conn_mutex (se_conn s)"
    "cn_conn_predicate (se_conn s') = cn_conn_predicate (se_conn s)" "0 \<le> cn_retries (se_conn s')"
proof -
  have p: "cn_conn_mutex c' = cn_conn_mutex c" "cn_conn_predicate c' = cn_conn_predicate c" "cn_retries c' = cn_retries c"
    if "(case conn_handler of None \<Rightarrow> Some c | Some f \<Rightarrow> f c MIO_CONN_CONNECT r) = Some c'" for c c' r
    using that assms(2) by (auto simp: polite_def split: option.splits)
  show "announced P (se_response s')" "se_freed s' = se_freed s" "\<not> se_freed s" "se_cond s' = se_cond s"
    "se_loop s' = se_loop s" "se_run s' = se_run s"
    using assms by (auto simp: mio_handler_conn_generic_def Let_def announced_def MIO_CONNECTION_RETRIES_def split: if_splits Option.bind_splits)
  show "se_response s \<noteq> Freed"
    using assms(1,3) by (auto simp: mio_handler_conn_generic_def Let_def conn_cell_def live_response_def MIO_CONNECTION_RETRIES_def
        split: if_splits Option.bind_splits)
  show "cn_conn_mutex (se_conn s') = cn_conn_mutex (se_conn s)" "cn_conn_predicate (se_conn s') = cn_conn_predicate (se_conn s)"
    "0 \<le> cn_retries (se_conn s')"
    using assms(1,3) p by (auto simp: mio_handler_conn_generic_def Let_def MIO_CONNECTION_RETRIES_def split: if_splits Option.bind_splits)
qed

text \<open>A session in which nothing has been started.\<close>

definition connect_ready :: "session \<Rightarrow> bool" where
  "connect_ready s \<longleftrightarrow> se_run s = RN_none \<and> \<not> cn_conn_mutex (se_conn s) \<and> \<not> cn_conn_predicate (se_conn s) \<and> 0 \<le> cn_retries (se_conn s) \<and>
     se_cond s = Cond_idle"

definition connect_inv :: "bool \<Rightarrow> connect_state \<Rightarrow> bool" where
  "connect_inv P t \<longleftrightarrow> (case t of (s, pc) \<Rightarrow> 0 \<le> cn_retries (se_conn s) \<and> pc \<noteq> CO_undefined \<and>
     (pc = CO_start \<longrightarrow> connect_ready s) \<and>
     (pc \<in> {CO_lock, CO_wait} \<longrightarrow> \<not> cn_conn_mutex (se_conn s)) \<and>
     (pc \<in> {CO_lock, CO_test, CO_wait, CO_woken} \<longrightarrow> \<not> se_freed s \<and> se_response s \<noteq> Freed \<and>
        (cn_conn_predicate (se_conn s) \<or> se_run s = RN_broadcast \<longrightarrow> announced P (se_response s))) \<and>
     (pc \<in> {CO_lock, CO_test} \<longrightarrow> se_cond s = Cond_idle) \<and>
     (pc = CO_wait \<and> se_cond s = Cond_woken \<or> pc = CO_woken \<longrightarrow> announced P (se_response s)) \<and>
     (pc = CO_return MIO_OK \<longrightarrow> P \<and> se_response s = Freed \<and> \<not> se_freed s))"

lemma connect_own_inv:
  assumes "connect_own False jid t t'" "connect_inv P t"
  shows "connect_inv P t'"
  using assms
proof (induction rule: connect_own.induct)
  case (finish s e)
  then have "announced P (se_response s)" by (simp add: connect_inv_def)
  from announced_result [OF this] finish show ?case by (auto simp: connect_inv_def connect_leave_def)
next
  case (crash s)
  then have "announced P (se_response s)" by (simp add: connect_inv_def)
  from announced_result [OF this] crash show ?case by simp
qed (auto simp: connect_inv_def connect_ready_def connect_leave_def MIO_OK_def MIO_ERROR_RUN_THREAD_def MIO_ERROR_PREDICATE_def
    MIO_ERROR_TIMEOUT_def MIO_ERROR_COND_WAIT_def)

lemma xmpp_conn_event_fields [simp]:
  "se_freed (xmpp_conn_event status s) = se_freed s" "se_response (xmpp_conn_event status s) = se_response s"
  "se_cond (xmpp_conn_event status s) = se_cond s" "se_loop (xmpp_conn_event status s) = se_loop s"
  "se_run (xmpp_conn_event status s) = se_run s" "cn_conn_mutex (se_conn (xmpp_conn_event status s)) = cn_conn_mutex (se_conn s)"
  "cn_conn_predicate (se_conn (xmpp_conn_event status s)) = cn_conn_predicate (se_conn s)"
  "cn_retries (se_conn (xmpp_conn_event status s)) = cn_retries (se_conn s)"
  by (simp_all add: xmpp_conn_event_def)

lemma timed_add_fields [simp]:
  "cn_conn_mutex (snd (mio_handler_timed_add conn h p now)) = cn_conn_mutex conn"
  "cn_conn_predicate (snd (mio_handler_timed_add conn h p now)) = cn_conn_predicate conn"
  "cn_retries (snd (mio_handler_timed_add conn h p now)) = cn_retries conn"
  by (simp_all add: mio_handler_timed_add_def)

lemma run_step_inv:
  assumes "run_step conn_handler s s'" "polite conn_handler" "connect_inv P (s, pc)"
    and "\<And>u. se_run s = RN_once \<Longrightarrow> mio_handler_conn_generic conn_handler XMPP_CONN_CONNECT (xmpp_conn_event XMPP_CONN_CONNECT s) = Some (Announce u) \<Longrightarrow> P"
  shows "connect_inv P (s', pc)"
  using assms
proof (induction rule: run_step.induct)
  case (event s status s')
  have r: "0 \<le> cn_retries (se_conn (xmpp_conn_event status s))" using event.prems(2) by (simp add: connect_inv_def)
  have "status = XMPP_CONN_CONNECT \<longrightarrow> P" using event.hyps event.prems(3) by blast
  note a = conn_generic_announces [OF event.hyps(2) event.prems(1) r this]
  have "se_run s \<noteq> RN_none" "se_response s' \<noteq> Freed" using event.hyps(1) a(1) by (auto simp: announced_def)
  then show ?case using a event.prems(2) by (cases pc) (simp_all add: connect_inv_def connect_ready_def)
qed (cases pc; auto simp: connect_inv_def connect_ready_def mio_cond_broadcast_def)+

text \<open>The runs of a connecting thread; what \<open>P\<close> stands for is that the handler has announced a connection on the way.\<close>

definition connection_announced :: "bool \<Rightarrow> mio_handler_conn option \<Rightarrow> string \<Rightarrow> session \<Rightarrow> bool" where
  "connection_announced spurious conn_handler jid s0 \<longleftrightarrow> (\<exists>s u pc. connect_steps spurious conn_handler jid (s0, CO_start) (s, pc) \<and> se_run s = RN_once \<and>
     mio_handler_conn_generic conn_handler XMPP_CONN_CONNECT (xmpp_conn_event XMPP_CONN_CONNECT s) = Some (Announce u))"

lemma connect_steps_inv:
  assumes "connect_steps False conn_handler jid (s0, CO_start) t" "polite conn_handler" "connect_ready s0"
  shows "connect_inv (connection_announced False conn_handler jid s0) t"
  using assms
proof (induction rule: rtranclp_induct)
  case base
  then show ?case by (simp add: connect_inv_def connect_ready_def)
next
  case (step t t')
  from step.hyps(2) step.IH [OF step.prems] show ?case
  proof cases
    case own
    then show ?thesis using step.IH [OF step.prems] connect_own_inv by blast
  next
    case (run s s' pc)
    have "connection_announced False conn_handler jid s0"
      if "se_run s = RN_once" "mio_handler_conn_generic conn_handler XMPP_CONN_CONNECT (xmpp_conn_event XMPP_CONN_CONNECT s) = Some (Announce u)" for u
      using that step.hyps(1) run(1) unfolding connection_announced_def by blast
    then show ?thesis using run_step_inv [OF run(3) step.prems(1)] step.IH [OF step.prems] run(1,2) by simp
  qed
qed

text \<open>A status of the event loop that is not the initial one is never left for it, and no events are handled.\<close>

definition connect_dead :: "connect_state \<Rightarrow> bool" where
  "connect_dead t \<longleftrightarrow> (case t of (s, pc) \<Rightarrow> se_loop s \<noteq> XMPP_LOOP_NOTSTARTED \<and> \<not> cn_conn_predicate (se_conn s) \<and>
     (se_run s \<in> {RN_none, RN_start, RN_keepalive, RN_undefined} \<or> (\<exists>e. se_run s = RN_exit e)) \<and> pc \<notin> {CO_woken, CO_undefined} \<and> se_cond s \<noteq> Cond_woken \<and>
     (\<forall>e. pc = CO_return e \<longrightarrow> e \<in> {MIO_ERROR_TIMEOUT, MIO_ERROR_COND_WAIT, MIO_ERROR_RUN_THREAD}))"

lemma connect_steps_dead:
  assumes "connect_steps False conn_handler jid (s0, CO_start) t" "connect_ready s0" "se_loop s0 \<noteq> XMPP_LOOP_NOTSTARTED"
  shows "connect_dead t"
  using assms
proof (induction rule: rtranclp_induct)
  case base
  then show ?case by (simp add: connect_dead_def connect_ready_def)
next
  case (step t t')
  from step.hyps(2) step.IH [OF step.prems] show ?case
  proof cases
    case own
    then show ?thesis using step.IH [OF step.prems]
      by cases (auto simp: connect_dead_def connect_leave_def)
  next
    case (run s s' pc)
    from run(3) show ?thesis using step.IH [OF step.prems] run(1,2)
      by cases (auto simp: connect_dead_def)
  qed
qed

section \<open>Examples\<close>

definition fresh_session :: session where
  "fresh_session = \<lparr>se_conn = mio_conn_new, se_loop = XMPP_LOOP_NOTSTARTED, se_response = NoResponse, se_freed = False,
     se_cond = Cond_idle, se_run = RN_none\<rparr>"

lemma fresh_ready: "connect_ready fresh_session" "se_loop fresh_session = XMPP_LOOP_NOTSTARTED"
  by (simp_all add: connect_ready_def fresh_session_def mio_conn_new_def)

lemma polite_none: "polite None"
  by (simp add: polite_def)

text \<open>The event loop starts and handles a connection, up to before the broadcast; the program counter of connect stays.\<close>

lemma run_to_announcement:
  assumes "se_run s = RN_start" "\<not> se_freed s" "se_loop s = XMPP_LOOP_NOTSTARTED" "se_response s = NoResponse"
  shows "\<exists>u. connect_steps spurious None jid (s, pc) (u, pc) \<and> se_run u = RN_broadcast \<and> \<not> se_freed u \<and> se_cond u = se_cond s \<and>
     cn_conn_mutex (se_conn u) = cn_conn_mutex (se_conn s) \<and> cn_conn_predicate (se_conn u) = cn_conn_predicate (se_conn s) \<and>
     se_response u = Live (mio_response_new\<lparr>rsp_response_type := MIO_RESPONSE_OK\<rparr>) \<and> cn_retries (se_conn u) = 0 \<and>
     se_loop u = XMPP_LOOP_RUNNING \<and> cn_authenticated (se_conn u)"
proof -
  let ?s1 = "s\<lparr>se_conn := (se_conn s)\<lparr>cn_connected := False\<rparr>, se_run := RN_keepalive\<rparr>"
  let ?s2 = "?s1\<lparr>se_conn := (snd (mio_handler_timed_add (se_conn ?s1) H_keepalive KEEPALIVE_PERIOD 0))\<lparr>cn_presence_status :=
      MIO_PRESENCE_UNKNOWN\<rparr>, se_loop := XMPP_LOOP_RUNNING, se_run := RN_test\<rparr>"
  let ?s3 = "?s2\<lparr>se_run := RN_once\<rparr>"
  let ?e = "xmpp_conn_event XMPP_CONN_CONNECT ?s3"
  let ?u = "?e\<lparr>se_conn := (se_conn ?e)\<lparr>cn_retries := 0\<rparr>, se_response := Live (mio_response_new\<lparr>rsp_response_type := MIO_RESPONSE_OK\<rparr>)\<rparr>"
  have 1: "run_step None s ?s1" using assms by (intro run_step.start)
  have 2: "run_step None ?s1 ?s2" using assms by (intro run_step.keepalive) simp_all
  have 3: "run_step None ?s2 ?s3" by (intro run_step.again) simp_all
  have "mio_handler_conn_generic None XMPP_CONN_CONNECT ?e = Some (Announce ?u)"
    using assms by (simp add: mio_handler_conn_generic_def conn_cell_def live_response_def Let_def)
  then have 4: "run_step None ?s3 (?u\<lparr>se_run := RN_broadcast\<rparr>)" by (intro run_step.event) simp_all
  note st = connect_step.run [of None _ _ spurious jid pc]
  have "connect_steps spurious None jid (s, pc) (?u\<lparr>se_run := RN_broadcast\<rparr>, pc)"
    by (rule converse_rtranclp_into_rtranclp, rule st [OF 1], rule converse_rtranclp_into_rtranclp, rule st [OF 2],
        rule converse_rtranclp_into_rtranclp, rule st [OF 3], rule converse_rtranclp_into_rtranclp, rule st [OF 4]) simp
  then show ?thesis using assms by (intro exI [of _ "?u\<lparr>se_run := RN_broadcast\<rparr>"]) (simp add: xmpp_conn_event_def)
qed

lemma connect_can_succeed:
  assumes "connect_ready s0" "se_loop s0 = XMPP_LOOP_NOTSTARTED"
  shows "\<exists>s. connect_steps spurious None jid (s0, CO_start) (s, CO_return MIO_OK) \<and> se_loop s = XMPP_LOOP_RUNNING"
proof -
  let ?s1 = "s0\<lparr>se_conn := (se_conn s0)\<lparr>cn_open_requests := MIO_MAX_OPEN_REQUESTS, cn_jid := Some jid\<rparr>, se_response := NoResponse,
    se_freed := False, se_cond := Cond_idle, se_run := RN_start\<rparr>"
  let ?s2 = "?s1\<lparr>se_conn := (se_conn ?s1)\<lparr>cn_conn_mutex := True\<rparr>\<rparr>"
  let ?s3 = "?s2\<lparr>se_conn := (se_conn ?s2)\<lparr>cn_conn_mutex := False\<rparr>, se_cond := Cond_waiting\<rparr>"
  have r: "\<not> cn_conn_mutex (se_conn ?s1)" "\<not> cn_conn_predicate (se_conn ?s2)" using assms(1) by (simp_all add: connect_ready_def)
  obtain u where u: "connect_steps spurious None jid (?s3, CO_wait) (u, CO_wait)" "se_run u = RN_broadcast" "se_cond u = Cond_waiting"
    "\<not> cn_conn_mutex (se_conn u)" "se_response u = Live (mio_response_new\<lparr>rsp_response_type := MIO_RESPONSE_OK\<rparr>)" "se_loop u = XMPP_LOOP_RUNNING"
    using run_to_announcement [of ?s3 spurious jid CO_wait] assms by auto
  let ?u2 = "(mio_cond_broadcast u)\<lparr>se_run := RN_once\<rparr>"
  let ?u3 = "?u2\<lparr>se_conn := (se_conn ?u2)\<lparr>cn_conn_mutex := True\<rparr>, se_cond := Cond_idle\<rparr>"
  have 1: "connect_own spurious jid (s0, CO_start) (?s1, CO_lock)" by (rule connect_own.spawned)
  have 2: "connect_own spurious jid (?s1, CO_lock) (?s2, CO_test)" by (rule connect_own.lock [OF r(1)])
  have 3: "connect_own spurious jid (?s2, CO_test) (?s3, CO_wait)" by (rule connect_own.block [OF r(2)])
  have 4: "run_step None u ?u2" by (rule run_step.broadcast [OF u(2,4)])
  have 5: "connect_own spurious jid (?u2, CO_wait) (?u3, CO_woken)"
    using u(3,4) by (intro connect_own.wake) (simp_all add: mio_cond_broadcast_def)
  have "connect_result (se_response ?u3) = Some MIO_OK" using u(5) by (simp add: mio_cond_broadcast_def connect_result_def live_response_def)
  then have 6: "connect_own spurious jid (?u3, CO_woken) (connect_leave Freed (se_freed ?u3) ?u3, CO_return MIO_OK)" by (rule connect_own.finish)
  note st = connect_step.own [of spurious jid _ _ None]
  have "connect_steps spurious None jid (s0, CO_start) (?s3, CO_wait)"
    by (rule converse_rtranclp_into_rtranclp, rule st [OF 1], rule converse_rtranclp_into_rtranclp, rule st [OF 2],
        rule converse_rtranclp_into_rtranclp, rule st [OF 3]) simp
  also note u(1)
  also have "connect_steps spurious None jid (u, CO_wait) (connect_leave Freed (se_freed ?u3) ?u3, CO_return MIO_OK)"
    by (rule converse_rtranclp_into_rtranclp, rule connect_step.run [OF 4], rule converse_rtranclp_into_rtranclp, rule st [OF 5],
        rule converse_rtranclp_into_rtranclp, rule st [OF 6]) simp
  finally show ?thesis using u(6) by (intro exI [of _ "connect_leave Freed (se_freed ?u3) ?u3"]) (simp add: connect_leave_def mio_cond_broadcast_def)
qed

section \<open>Properties\<close>



text \<open>A fast connection is reported as an error and breaks the session: the event loop can announce the connection before
  \<open>mio_connect\<close> tests the predicate; then it returns MIO_ERROR_PREDICATE, leaves \<open>conn_mutex\<close> locked, and has freed the data of the
  connection handler, so that every further event of the connection is undefined.\<close>

theorem connect_fast_error:
  assumes "connect_ready s0" "se_loop s0 = XMPP_LOOP_NOTSTARTED"
  shows "\<exists>s. connect_steps spurious None jid (s0, CO_start) (s, CO_return MIO_ERROR_PREDICATE) \<and> cn_authenticated (se_conn s) \<and>
     cn_conn_mutex (se_conn s) \<and> (\<forall>status. mio_handler_conn_generic conn_handler status (xmpp_conn_event status s) = None)"
proof -
  let ?s1 = "s0\<lparr>se_conn := (se_conn s0)\<lparr>cn_open_requests := MIO_MAX_OPEN_REQUESTS, cn_jid := Some jid\<rparr>, se_response := NoResponse,
    se_freed := False, se_cond := Cond_idle, se_run := RN_start\<rparr>"
  obtain u where u: "connect_steps spurious None jid (?s1, CO_lock) (u, CO_lock)" "se_run u = RN_broadcast" "\<not> cn_conn_mutex (se_conn u)"
    "cn_authenticated (se_conn u)"
    using run_to_announcement [of ?s1 spurious jid CO_lock] assms by (auto simp: connect_ready_def)
  let ?u2 = "(mio_cond_broadcast u)\<lparr>se_run := RN_once\<rparr>"
  let ?u3 = "?u2\<lparr>se_conn := (se_conn ?u2)\<lparr>cn_conn_mutex := True\<rparr>\<rparr>"
  let ?u4 = "?u3\<lparr>se_freed := True\<rparr>"
  have 1: "connect_own spurious jid (s0, CO_start) (?s1, CO_lock)" by (rule connect_own.spawned)
  have 2: "run_step None u ?u2" by (rule run_step.broadcast [OF u(2,3)])
  have 3: "connect_own spurious jid (?u2, CO_lock) (?u3, CO_test)" using u(3) by (intro connect_own.lock) (simp add: mio_cond_broadcast_def)
  have 4: "connect_own spurious jid (?u3, CO_test) (?u4, CO_return MIO_ERROR_PREDICATE)"
    by (intro connect_own.early) (simp add: mio_cond_broadcast_def)
  note st = connect_step.own [of spurious jid _ _ None]
  have "connect_steps spurious None jid (s0, CO_start) (?s1, CO_lock)" using st [OF 1] by (rule r_into_rtranclp)
  also note u(1)
  also have "connect_steps spurious None jid (u, CO_lock) (?u4, CO_return MIO_ERROR_PREDICATE)"
    by (rule converse_rtranclp_into_rtranclp, rule connect_step.run [OF 2], rule converse_rtranclp_into_rtranclp, rule st [OF 3],
        rule converse_rtranclp_into_rtranclp, rule st [OF 4]) simp
  finally show ?thesis using u(4)
    by (intro exI [of _ ?u4]) (simp add: mio_handler_conn_generic_def mio_cond_broadcast_def)
qed

theorem connect_fast_error_witness:
  "\<exists>s. connect_steps False None ''u@h'' (fresh_session, CO_start) (s, CO_return MIO_ERROR_PREDICATE) \<and> cn_authenticated (se_conn s) \<and>
     cn_conn_mutex (se_conn s)"
  using connect_fast_error [OF fresh_ready, of False "''u@h''"] by blast

text \<open>A lost connection corrupts memory: once \<open>mio_connect\<close> has returned MIO_OK it has freed the response that the connection handler
  still points to, so whatever event the connection sees next, its handler writes to freed memory.\<close>

theorem event_after_connect_undefined:
  assumes "connect_steps False conn_handler jid (s0, CO_start) (s, CO_return MIO_OK)" "polite conn_handler" "connect_ready s0"
  shows "mio_handler_conn_generic conn_handler status (xmpp_conn_event status s) = None"
proof -
  have "se_response s = Freed" "0 \<le> cn_retries (se_conn s)"
    using connect_steps_inv [OF assms] by (simp_all add: connect_inv_def)
  then show ?thesis
    by (simp add: mio_handler_conn_generic_def conn_cell_def live_response_def MIO_CONNECTION_RETRIES_def Let_def)
qed

theorem event_after_connect_undefined_witness:
  "\<exists>s. connect_steps False None ''u@h'' (fresh_session, CO_start) (s, CO_return MIO_OK) \<and>
     mio_handler_conn_generic None XMPP_CONN_DISCONNECT (xmpp_conn_event XMPP_CONN_DISCONNECT s) = None"
proof -
  obtain s where s: "connect_steps False None ''u@h'' (fresh_session, CO_start) (s, CO_return MIO_OK)"
    using connect_can_succeed [OF fresh_ready, of False "''u@h''"] by blast
  from event_after_connect_undefined [OF s polite_none fresh_ready(1)] s show ?thesis by blast
qed

text \<open>A connection works once: \<open>mio_disconnect\<close> stops the event loop for good, because its status is never set back, so that a
  later \<open>mio_connect\<close> of the same connection never returns MIO_OK: it times out, or the wait or the start of the thread
  fails.\<close>

theorem reconnect_fails:
  assumes "se_loop s = XMPP_LOOP_RUNNING" "mio_disconnect now s = Some (err, s1)" "connect_ready (s1\<lparr>se_run := RN_none\<rparr>)"
    and "connect_steps False conn_handler jid (s1\<lparr>se_run := RN_none\<rparr>, CO_start) (s', CO_return e)"
  shows "e \<in> {MIO_ERROR_TIMEOUT, MIO_ERROR_COND_WAIT, MIO_ERROR_RUN_THREAD} \<and> e \<noteq> MIO_OK"
proof -
  have "se_loop s1 = XMPP_LOOP_QUIT"
    using assms(1,2) by (auto simp: mio_disconnect_def xmpp_stop_def Let_def split: Option.bind_splits prod.splits)
  then have "connect_dead (s', CO_return e)" using connect_steps_dead [OF assms(4,3)] by simp
  then show ?thesis by (auto simp: connect_dead_def MIO_OK_def MIO_ERROR_TIMEOUT_def MIO_ERROR_COND_WAIT_def MIO_ERROR_RUN_THREAD_def)
qed

theorem reconnect_fails_witness:
  "\<exists>s1 s'. mio_disconnect 0 (fresh_session\<lparr>se_loop := XMPP_LOOP_RUNNING\<rparr>) = Some (MIO_OK, s1) \<and>
     connect_steps False None ''u@h'' (s1\<lparr>se_run := RN_none\<rparr>, CO_start) (s', CO_return MIO_ERROR_RUN_THREAD) \<and> MIO_ERROR_RUN_THREAD \<noteq> MIO_OK"
proof -
  let ?s = "fresh_session\<lparr>se_loop := XMPP_LOOP_RUNNING\<rparr>" and ?s1 = "fresh_session\<lparr>se_loop := XMPP_LOOP_QUIT\<rparr>"
  have d: "mio_disconnect 0 ?s = Some (MIO_OK, ?s1)"
    by (simp add: mio_disconnect_def fresh_session_def mio_conn_new_def mio_listen_stop_def mio_pubsub_data_listen_stop_def
        mio_request_get_def request_find_def xmpp_stop_def)
  have r: "connect_ready (?s1\<lparr>se_run := RN_none\<rparr>)" using fresh_ready(1) by (simp add: connect_ready_def)
  have st: "connect_steps False None ''u@h'' (?s1\<lparr>se_run := RN_none\<rparr>, CO_start)
    (?s1\<lparr>se_run := RN_none, se_conn := (se_conn ?s1)\<lparr>cn_open_requests := MIO_MAX_OPEN_REQUESTS, cn_jid := Some ''u@h''\<rparr>\<rparr>, CO_return MIO_ERROR_RUN_THREAD)"
    using connect_step.own [OF connect_own.not_spawned [of False "''u@h''" "?s1\<lparr>se_run := RN_none\<rparr>"], of None] by (intro r_into_rtranclp) simp
  from reconnect_fails [OF _ d r st] d st show ?thesis by auto
qed

end
