(* ===== verification/Mio_Typing.thy ===== *)
theory Mio_Typing
  imports Mio_Requests
begin

text \<open>
  Types of responses. A response carries a tag for its body, and a packet a tag for its payload; the code casts the pointers
  by these tags (\<^verbatim>\<open>mio.h\<close>: \<open>mio_response_type_t\<close>, \<open>mio_packet_type_t\<close>). Every handler that turns a reply into a response
  collects one kind of packet.

  Shown: whatever expat reports, the callbacks of a handler keep the tags true to the bodies; the handlers of the two
  collection queries and of the items query, which set the tag after the parse without looking, tag an error as a packet.
\<close>

definition payload_of :: "mio_packet_type \<Rightarrow> mio_payload \<Rightarrow> bool" where
  "payload_of T p = (case p of PNull \<Rightarrow> True | PData _ \<Rightarrow> T = MIO_PACKET_DATA | PMeta _ \<Rightarrow> T = MIO_PACKET_META
     | PSubscriptions _ \<Rightarrow> T = MIO_PACKET_SUBSCRIPTIONS | PAffiliations _ \<Rightarrow> T = MIO_PACKET_AFFILIATIONS
     | PCollections _ \<Rightarrow> T = MIO_PACKET_COLLECTIONS | PNodeType _ \<Rightarrow> T = MIO_PACKET_NODE_TYPE
     | PSchedule _ \<Rightarrow> T = MIO_PACKET_SCHEDULE | PReferences _ \<Rightarrow> T = MIO_PACKET_REFERENCES)"

definition handler_packet :: "mio_handler_fn \<Rightarrow> mio_packet_type" where
  "handler_packet h = (case h of H_subscriptions_query \<Rightarrow> MIO_PACKET_SUBSCRIPTIONS | H_acl_affiliations_query \<Rightarrow> MIO_PACKET_AFFILIATIONS
     | H_collection_children_query \<Rightarrow> MIO_PACKET_COLLECTIONS | H_collection_parents_query \<Rightarrow> MIO_PACKET_COLLECTIONS
     | H_meta_query \<Rightarrow> MIO_PACKET_META | H_node_type_query \<Rightarrow> MIO_PACKET_NODE_TYPE | H_item_recent_get \<Rightarrow> MIO_PACKET_DATA
     | H_schedule_query \<Rightarrow> MIO_PACKET_SCHEDULE | H_references_query \<Rightarrow> MIO_PACKET_REFERENCES | _ \<Rightarrow> MIO_PACKET_UNKNOWN)"

definition body_typed :: "mio_packet_type \<Rightarrow> mio_response_type \<Rightarrow> mio_response_body \<Rightarrow> bool" where
  "body_typed T ty b = (case b of
     RNull \<Rightarrow> ty \<noteq> MIO_RESPONSE_PACKET \<and> ty \<noteq> MIO_RESPONSE_ERROR
   | RError e \<Rightarrow> ty \<noteq> MIO_RESPONSE_PACKET
   | RPacket p \<Rightarrow> payload_of T (pkt_payload p) \<and> ty \<noteq> MIO_RESPONSE_ERROR \<and>
       (ty = MIO_RESPONSE_PACKET \<or> T = MIO_PACKET_DATA \<longrightarrow> pkt_type p = T))"

definition xd_typed :: "mio_packet_type \<Rightarrow> xml_data \<Rightarrow> bool" where
  "xd_typed T xd \<longleftrightarrow> (xd_chars xd = XChars_collection \<longrightarrow> T = MIO_PACKET_COLLECTIONS) \<and>
     body_typed T (rsp_response_type (xd_response xd)) (rsp_response (xd_response xd))"

definition keeps_types :: "mio_packet_type \<Rightarrow> xml_start \<Rightarrow> bool" where
  "keeps_types T start \<longleftrightarrow> (\<forall>xd n at xd'. start xd n at = Some xd' \<longrightarrow> xd_typed T xd \<longrightarrow> xd_typed T xd')"

section \<open>The shared parts of callbacks\<close>

lemma xd_typed_fields [simp]:
  "xd_typed T (xd\<lparr>xd_payload := py\<rparr>) = xd_typed T xd" "xd_typed T (xd\<lparr>xd_prev_element_name := pn\<rparr>) = xd_typed T xd"
  "xd_typed T (xd\<lparr>xd_curr_element_name := cn\<rparr>) = xd_typed T xd"
  by (simp_all add: xd_typed_def)

lemma xd_typed_chars: "xd_typed T xd \<Longrightarrow> ch \<noteq> XChars_collection \<Longrightarrow> xd_typed T (xd\<lparr>xd_chars := ch\<rparr>)"
  by (simp add: xd_typed_def)

lemma xd_typed_start: "xml_data_update_start_element xd n = Some xd' \<Longrightarrow> xd_typed T xd \<Longrightarrow> xd_typed T xd'"
  by (auto simp: xml_data_update_start_element_def xd_typed_def Let_def split: if_splits)

lemma xd_packet_start: "xml_data_update_start_element xd n = Some xd' \<Longrightarrow> xd_packet xd' = xd_packet xd"
  by (auto simp: xml_data_update_start_element_def xd_packet_def Let_def split: if_splits)

lemma xd_typed_end: "xml_data_update_end_element xd = Some xd' \<Longrightarrow> xd_typed T xd \<Longrightarrow> xd_typed T xd'"
  by (auto simp: xml_data_update_end_element_def xd_typed_def split: if_splits list.splits)

lemma xd_typed_error: "xd_typed T xd \<Longrightarrow> xd_typed T (xd_error attr xd)"
  by (auto simp: xd_typed_def xd_error_def mio_XML_error_handler_def body_typed_def split: prod.splits)

lemma xd_typed_ok: "xd_typed T xd \<Longrightarrow> xd_typed T (xd_set_type MIO_RESPONSE_OK xd)"
  by (auto simp: xd_typed_def xd_set_type_def body_typed_def split: mio_response_body.splits)

lemma xd_packet_typed:
  "xd_typed T xd \<Longrightarrow> xd_packet xd = Some p \<Longrightarrow> payload_of T (pkt_payload p) \<and>
     (rsp_response_type (xd_response xd) = MIO_RESPONSE_PACKET \<or> T = MIO_PACKET_DATA \<longrightarrow> pkt_type p = T) \<and> rsp_response_type (xd_response xd) \<noteq> MIO_RESPONSE_ERROR"
  by (auto simp: xd_typed_def xd_packet_def body_typed_def split: mio_response_body.splits)

lemma xd_typed_set_packet:
  assumes "xd_typed T xd" "xd_packet xd = Some p" "payload_of T (pkt_payload p')" "pkt_type p' \<in> {pkt_type p, T}"
  shows "xd_typed T (xd_set_packet p' xd)"
  using xd_packet_typed [OF assms(1,2)] assms by (auto simp: xd_typed_def xd_set_packet_def body_typed_def)

lemma xd_typed_tag_packet:
  assumes "xd_typed T xd" "xd_packet xd = Some p" "payload_of T (pkt_payload p')" "pkt_type p' = T"
  shows "xd_typed T (xd_set_packet p' (xd_set_type MIO_RESPONSE_PACKET xd))"
  using assms by (auto simp: xd_typed_def xd_set_packet_def xd_set_type_def body_typed_def)

lemma xd_typed_set_meta:
  assumes "xd_set_meta m xd = Some xd'" "xd_typed MIO_PACKET_META xd"
  shows "xd_typed MIO_PACKET_META xd'"
  using assms by (auto simp: xd_set_meta_def payload_of_def intro: xd_typed_set_packet split: Option.bind_splits)

lemma payload_of_adds:
  "mio_subscription_add p s i = Some p' \<Longrightarrow> payload_of MIO_PACKET_SUBSCRIPTIONS (pkt_payload p') \<and> pkt_type p' \<in> {pkt_type p, MIO_PACKET_SUBSCRIPTIONS}"
  "mio_affiliation_add p s a = Some p' \<Longrightarrow> payload_of MIO_PACKET_AFFILIATIONS (pkt_payload p') \<and> pkt_type p' \<in> {pkt_type p, MIO_PACKET_AFFILIATIONS}"
  "mio_collection_add p n nm = Some p' \<Longrightarrow> payload_of MIO_PACKET_COLLECTIONS (pkt_payload p') \<and> pkt_type p' \<in> {pkt_type p, MIO_PACKET_COLLECTIONS}"
  by (auto simp: mio_subscription_add_def mio_affiliation_add_def mio_collection_add_def mio_packet_payload_add_def payload_of_def Let_def
      split: Option.bind_splits option.splits)

lemma as_meta_packet: "as_meta py = Some (Some m) \<Longrightarrow> payload_of T py \<Longrightarrow> T = MIO_PACKET_META"
  by (auto simp: as_meta_def payload_of_def split: mio_payload.splits)

lemma as_events_packet: "as_events py = Some es \<Longrightarrow> es \<noteq> [] \<Longrightarrow> payload_of T py \<Longrightarrow> T = MIO_PACKET_SCHEDULE"
  by (auto simp: as_events_def payload_of_def split: mio_payload.splits)

section \<open>Texts\<close>

lemma xd_typed_geoloc:
  assumes "mio_XMLString_geoloc xd s = Some xd'" "xd_typed T xd"
  shows "xd_typed T xd'"
proof -
  have meta: "T = MIO_PACKET_META" if "xd_packet xd = Some p" "as_meta (pkt_payload p) = Some (Some m)" for p m
    using as_meta_packet [OF that(2)] xd_packet_typed [OF assms(2) that(1)] by blast
  show ?thesis using assms meta
    by (auto simp: mio_XMLString_geoloc_def dest: xd_typed_set_meta split: if_splits Option.bind_splits xd_payload.splits)
qed

lemma xd_typed_recurrence:
  assumes "mio_XMLString_recurrence xd s = Some xd'" "xd_typed T xd"
  shows "xd_typed T xd'"
proof -
  obtain p es where p: "xd_packet xd = Some p" "as_events (pkt_payload p) = Some es" "es \<noteq> []"
    and eq: "xd' = xd \<or> (\<exists>es'. xd' = xd_set_packet (p\<lparr>pkt_payload := PSchedule es'\<rparr>) xd)"
    using assms(1) by (auto simp: mio_XMLString_recurrence_def mio_event_tail_get_def c_tail_get_conv
        split: if_splits Option.bind_splits xd_payload.splits)
  have "T = MIO_PACKET_SCHEDULE" using as_events_packet [OF p(2,3)] xd_packet_typed [OF assms(2) p(1)] by blast
  then show ?thesis using eq assms(2) xd_typed_set_packet [OF assms(2) p(1)] by (auto simp: payload_of_def)
qed

lemma xd_typed_collection:
  assumes "mio_XMLString_collection_query xd s = Some xd'" "xd_typed MIO_PACKET_COLLECTIONS xd"
  shows "xd_typed MIO_PACKET_COLLECTIONS xd'"
  using assms by (auto simp: mio_XMLString_collection_query_def xd_packet_def dest!: payload_of_adds(3) intro!: xd_typed_set_packet
      split: if_splits Option.bind_splits mio_response_body.splits)

lemma xd_typed_text: "xml_char_data xd s = Some xd' \<Longrightarrow> xd_typed T xd \<Longrightarrow> xd_typed T xd'"
  by (auto simp: xml_char_data_def intro: xd_typed_geoloc xd_typed_recurrence split: xd_char_handler.splits)
    (auto simp: xd_typed_def dest: xd_typed_collection [unfolded xd_typed_def])

lemma xd_typed_run:
  assumes "keeps_types T start"
  shows "xml_run start xd es = Some xd' \<Longrightarrow> xd_typed T xd \<Longrightarrow> xd_typed T xd'"
proof (induction es arbitrary: xd)
  case (Cons e es)
  then show ?case using assms
    by (cases e) (auto simp: keeps_types_def dest: xd_typed_end xd_typed_text split: Option.bind_splits)
qed simp

lemma xd_typed_parse:
  assumes "mio_xml_parse expat (Some s) xd start = Some (err, xd')" "keeps_types T start" "xd_typed T xd"
  shows "xd_typed T xd'"
  using assms xd_typed_run by (auto simp: mio_xml_parse_def split: sum.splits prod.splits Option.bind_splits)

section \<open>Start tags\<close>

text \<open>A callback that updates the tracking first is judged by what it does next.\<close>

lemma keeps_typesI:
  assumes "\<And>xd n at xd1 xd'. xml_data_update_start_element xd n = Some xd1 \<Longrightarrow> xd_typed T xd1 \<Longrightarrow> xd_packet xd1 = xd_packet xd \<Longrightarrow>
      start xd n at = Some xd' \<Longrightarrow> xd_typed T xd'"
    and "\<And>xd n at. xml_data_update_start_element xd n = None \<Longrightarrow> start xd n at = None"
  shows "keeps_types T start"
  unfolding keeps_types_def
proof (intro allI impI)
  fix xd n at xd' assume a: "start xd n at = Some xd'" "xd_typed T xd"
  then obtain xd1 where u: "xml_data_update_start_element xd n = Some xd1" using assms(2) by (cases "xml_data_update_start_element xd n") auto
  show "xd_typed T xd'" by (rule assms(1) [OF u xd_typed_start [OF u a(2)] xd_packet_start [OF u] a(1)])
qed

lemma keeps_types_error: "keeps_types T mio_XMLstart_subscribe" "keeps_types T mio_XMLstart_error"
proof (rule keeps_typesI)
  show "xd_typed T xd'" if "xml_data_update_start_element xd n = Some xd1" "xd_typed T xd1" "mio_XMLstart_subscribe xd n at = Some xd'" for xd n at xd1 xd'
    using that xd_typed_error [OF that(2)] xd_typed_ok [OF that(2)] by (auto simp: mio_XMLstart_subscribe_def split: if_splits)
  show "keeps_types T mio_XMLstart_error"
  proof (rule keeps_typesI)
    show "xd_typed T xd'" if "xml_data_update_start_element xd n = Some xd1" "xd_typed T xd1" "mio_XMLstart_error xd n at = Some xd'" for xd n at xd1 xd'
      using that xd_typed_error [OF that(2)] xd_typed_ok [OF that(2)] xd_typed_ok [OF xd_typed_error [OF that(2)]]
      by (auto simp: mio_XMLstart_error_def Let_def split: if_splits)
  qed (simp add: mio_XMLstart_error_def)
qed (simp add: mio_XMLstart_subscribe_def)

lemma keeps_types_lists:
  "keeps_types MIO_PACKET_SUBSCRIPTIONS mio_XMLstart_subscriptions_query"
  "keeps_types MIO_PACKET_AFFILIATIONS mio_XMLstart_acl_affiliations_query"
  "keeps_types MIO_PACKET_COLLECTIONS mio_XMLstart_collection_children_query"
proof -
  note splits = Option.bind_splits if_splits
  show "keeps_types MIO_PACKET_SUBSCRIPTIONS mio_XMLstart_subscriptions_query"
  proof (rule keeps_typesI)
    show "xd_typed MIO_PACKET_SUBSCRIPTIONS xd'" if "xml_data_update_start_element xd n = Some xd1" "xd_typed MIO_PACKET_SUBSCRIPTIONS xd1"
      "mio_XMLstart_subscriptions_query xd n at = Some xd'" for xd n at xd1 xd'
      using that xd_packet_typed [OF that(2)]
      by (auto simp: mio_XMLstart_subscriptions_query_def intro: xd_typed_error xd_typed_tag_packet [OF that(2)] xd_typed_set_packet [OF that(2)]
          dest!: payload_of_adds split: splits)
  qed (simp add: mio_XMLstart_subscriptions_query_def)
  show "keeps_types MIO_PACKET_AFFILIATIONS mio_XMLstart_acl_affiliations_query"
  proof (rule keeps_typesI)
    show "xd_typed MIO_PACKET_AFFILIATIONS xd'" if "xml_data_update_start_element xd n = Some xd1" "xd_typed MIO_PACKET_AFFILIATIONS xd1"
      "mio_XMLstart_acl_affiliations_query xd n at = Some xd'" for xd n at xd1 xd'
      using that xd_packet_typed [OF that(2)]
      by (auto simp: mio_XMLstart_acl_affiliations_query_def intro: xd_typed_error xd_typed_tag_packet [OF that(2)] xd_typed_set_packet [OF that(2)]
          dest!: payload_of_adds split: splits)
  qed (simp add: mio_XMLstart_acl_affiliations_query_def)
  show "keeps_types MIO_PACKET_COLLECTIONS mio_XMLstart_collection_children_query"
  proof (rule keeps_typesI)
    show "xd_typed MIO_PACKET_COLLECTIONS xd'" if "xml_data_update_start_element xd n = Some xd1" "xd_typed MIO_PACKET_COLLECTIONS xd1"
      "mio_XMLstart_collection_children_query xd n at = Some xd'" for xd n at xd1 xd'
      using that
      by (auto simp: mio_XMLstart_collection_children_query_def intro: xd_typed_error xd_typed_set_packet [OF that(2)]
          dest!: payload_of_adds split: splits)
  qed (simp add: mio_XMLstart_collection_children_query_def)
qed

lemma xd_typed_parents_field: "xd_typed MIO_PACKET_COLLECTIONS xd \<Longrightarrow> xd_typed MIO_PACKET_COLLECTIONS (parents_field_loop xd at)"
proof (induction xd at rule: parents_field_loop.induct)
  case (2 xd k v attr)
  have "xd_typed MIO_PACKET_COLLECTIONS (xd\<lparr>xd_chars := ch\<rparr>)" for ch using 2(2) by (simp add: xd_typed_def)
  then show ?case using 2 by (simp add: xd_typed_def)
qed simp

lemma keeps_types_parents: "keeps_types MIO_PACKET_COLLECTIONS mio_XMLstart_collection_parents_query"
proof (rule keeps_typesI)
  show "xd_typed MIO_PACKET_COLLECTIONS xd'" if "xml_data_update_start_element xd n = Some xd1" "xd_typed MIO_PACKET_COLLECTIONS xd1"
    "mio_XMLstart_collection_parents_query xd n at = Some xd'" for xd n at xd1 xd'
    using that by (auto simp: mio_XMLstart_collection_parents_query_def Let_def intro!: xd_typed_parents_field xd_typed_error split: if_splits)
qed (simp add: mio_XMLstart_collection_parents_query_def)

lemma keeps_types_node_type: "keeps_types MIO_PACKET_NODE_TYPE mio_XMLstart_node_type_query"
proof (rule keeps_typesI)
  show "xd_typed MIO_PACKET_NODE_TYPE xd'" if "xml_data_update_start_element xd n = Some xd1" "xd_typed MIO_PACKET_NODE_TYPE xd1"
    "mio_XMLstart_node_type_query xd n at = Some xd'" for xd n at xd1 xd'
    using that by (auto simp: mio_XMLstart_node_type_query_def payload_of_def intro: xd_typed_error xd_typed_tag_packet [OF that(2)]
        split: Option.bind_splits if_splits option.splits)
qed (simp add: mio_XMLstart_node_type_query_def)

lemma keeps_types_references: "keeps_types MIO_PACKET_REFERENCES mio_XMLstart_references_query"
proof (rule keeps_typesI)
  show "xd_typed MIO_PACKET_REFERENCES xd'" if "xml_data_update_start_element xd n = Some xd1" "xd_typed MIO_PACKET_REFERENCES xd1"
    "mio_XMLstart_references_query xd n at = Some xd'" for xd n at xd1 xd'
    using that xd_packet_typed [OF that(2)]
    by (auto simp: mio_XMLstart_references_query_def payload_of_def [of _ "PReferences _"]
        intro: xd_typed_error xd_typed_tag_packet [OF that(2)] xd_typed_set_packet [OF that(2)] split: Option.bind_splits if_splits)
qed (simp add: mio_XMLstart_references_query_def)

lemma keeps_types_schedule: "keeps_types MIO_PACKET_SCHEDULE mio_XMLstart_schedule_query"
  unfolding keeps_types_def
proof (intro allI impI)
  fix xd n at xd' assume a: "mio_XMLstart_schedule_query xd n at = Some xd'" "xd_typed MIO_PACKET_SCHEDULE xd"
  let ?xd = "xd\<lparr>xd_prev_element_name := xd_curr_element_name xd, xd_curr_element_name := Some n\<rparr>"
  have "xd_typed MIO_PACKET_SCHEDULE ?xd" using a(2) by simp
  then obtain xd1 where 1: "xml_data_update_start_element ?xd n = Some xd1" "xd_typed MIO_PACKET_SCHEDULE xd1"
    using a(1) xd_typed_start by (cases "xml_data_update_start_element ?xd n") (auto simp: mio_XMLstart_schedule_query_def)
  note a1 = a(1) [unfolded mio_XMLstart_schedule_query_def Let_def 1(1) Option.bind.bind_lunit]
  have t: "xd_typed MIO_PACKET_SCHEDULE (xd_set_packet (p\<lparr>pkt_payload := PSchedule es, pkt_num_payloads := k\<rparr>) (xd1\<lparr>xd_chars := ch, xd_payload := py\<rparr>))"
    "xd_typed MIO_PACKET_SCHEDULE (xd_set_packet (p\<lparr>pkt_payload := PSchedule es\<rparr>) (xd1\<lparr>xd_chars := ch\<rparr>))"
    if "xd_packet xd1 = Some p" "ch \<noteq> XChars_collection" for p es k ch py
  proof -
    have c: "xd_typed MIO_PACKET_SCHEDULE (xd1\<lparr>xd_chars := ch\<rparr>)" using xd_typed_chars [OF 1(2) that(2)] .
    have "xd_packet (xd1\<lparr>xd_chars := ch, xd_payload := py\<rparr>) = Some p" "xd_packet (xd1\<lparr>xd_chars := ch\<rparr>) = Some p"
      using that(1) by (simp_all add: xd_packet_def)
    moreover have "xd_typed MIO_PACKET_SCHEDULE (xd1\<lparr>xd_chars := ch, xd_payload := py\<rparr>)" using c by simp
    ultimately show "xd_typed MIO_PACKET_SCHEDULE (xd_set_packet (p\<lparr>pkt_payload := PSchedule es, pkt_num_payloads := k\<rparr>) (xd1\<lparr>xd_chars := ch, xd_payload := py\<rparr>))"
      "xd_typed MIO_PACKET_SCHEDULE (xd_set_packet (p\<lparr>pkt_payload := PSchedule es\<rparr>) (xd1\<lparr>xd_chars := ch\<rparr>))"
      using c by (auto simp: payload_of_def intro!: xd_typed_set_packet)
  qed
  show "xd_typed MIO_PACKET_SCHEDULE xd'"
    using a1 1(2) t xd_packet_typed [OF 1(2)]
    by (auto intro: xd_typed_error xd_typed_tag_packet [OF 1(2)] split: if_splits Option.bind_splits xd_payload.splits)
qed

lemma items_node_loop_data:
  "items_node_loop p at = Some p' \<Longrightarrow> payload_of MIO_PACKET_DATA (pkt_payload p) \<Longrightarrow>
     payload_of MIO_PACKET_DATA (pkt_payload p') \<and> pkt_type p' = pkt_type p"
  by (induction p at rule: items_node_loop.induct) (auto simp: payload_of_def split: if_splits Option.bind_splits)

text \<open>The callback of the items query tags the response when it sees a value; the packet had its tag from the start.\<close>

lemma keeps_types_data: "keeps_types MIO_PACKET_DATA mio_XMLstart_pubsub_data_receive"
  unfolding keeps_types_def
proof (intro allI impI)
  fix xd n at xd' assume a: "mio_XMLstart_pubsub_data_receive xd n at = Some xd'" "xd_typed MIO_PACKET_DATA xd"
  obtain p d xd1 where p: "xd_packet xd = Some p" "as_data (pkt_payload p) = Some d" "xml_data_update_start_element xd n = Some xd1"
    using a(1) by (auto simp: mio_XMLstart_pubsub_data_receive_def split: Option.bind_splits)
  note a1 = a(1) [unfolded mio_XMLstart_pubsub_data_receive_def p Option.bind.bind_lunit]
  have t1: "xd_typed MIO_PACKET_DATA xd1" by (rule xd_typed_start [OF p(3) a(2)])
  have p1: "xd_packet xd1 = Some p" using xd_packet_start [OF p(3)] p(1) by simp
  note pt = xd_packet_typed [OF t1 p1]
  show "xd_typed MIO_PACKET_DATA xd'"
    using a1 t1 p1 pt
    by (auto simp: payload_of_def [of _ "PData _"] intro: xd_typed_tag_packet [OF t1 p1] xd_typed_set_packet [OF t1 p1]
        dest!: items_node_loop_data split: if_splits Option.bind_splits)
qed

lemma keeps_types_meta: "keeps_types MIO_PACKET_META mio_XMLstart_pubsub_meta_receive"
  unfolding keeps_types_def
proof (intro allI impI)
  fix xd n at xd' assume a: "mio_XMLstart_pubsub_meta_receive xd n at = Some xd'" "xd_typed MIO_PACKET_META xd"
  obtain p m xd1 where p: "xd_packet xd = Some p" "as_meta (pkt_payload p) = Some m" "xml_data_update_start_element xd n = Some xd1"
    using a(1) by (auto simp: mio_XMLstart_pubsub_meta_receive_def split: Option.bind_splits)
  note a1 = a(1) [unfolded mio_XMLstart_pubsub_meta_receive_def p Option.bind.bind_lunit]
  have t1: "xd_typed MIO_PACKET_META xd1" by (rule xd_typed_start [OF p(3) a(2)])
  have t2: "xd_typed MIO_PACKET_META (xd1\<lparr>xd_chars := ch\<rparr>)" "xd_typed MIO_PACKET_META (xd1\<lparr>xd_chars := ch, xd_payload := py\<rparr>)"
    "xd_typed MIO_PACKET_META (xd1\<lparr>xd_payload := py, xd_chars := ch\<rparr>)" "xd_typed MIO_PACKET_META (xd1\<lparr>xd_payload := py\<rparr>)"
    if "ch \<noteq> XChars_collection" for ch py
    using xd_typed_chars [OF t1 that] t1 by (simp_all add: xd_typed_def)
  have tm: "xd_typed MIO_PACKET_META x'" if "xd_set_meta q x = Some x'" "xd_typed MIO_PACKET_META x" for q x x'
    using xd_typed_set_meta that by blast
  show "xd_typed MIO_PACKET_META xd'"
  proof (cases "n = ''items''")
    case True
    let ?x = "xd1\<lparr>xd_payload := xd_payload_cut (xd_payload xd1)\<rparr>"
    have "xd_packet ?x = Some p" using xd_packet_start [OF p(3)] p(1) by (simp add: xd_packet_def)
    with t1 have "xd_typed MIO_PACKET_META (xd_set_packet (p\<lparr>pkt_payload := PMeta mio_meta_new, pkt_type := MIO_PACKET_META,
        pkt_num_payloads := pkt_num_payloads p + 1\<rparr>) (xd_set_type MIO_RESPONSE_PACKET ?x))"
      by (intro xd_typed_tag_packet) (simp_all add: payload_of_def)
    with True a1 show ?thesis by simp
  next
    case False
    then show ?thesis using a1 t1 t2
      by (auto simp: Let_def intro: tm split: if_splits Option.bind_splits option.splits list.splits xd_payload.splits)
  qed
qed

section \<open>Handlers\<close>

lemma packet_parse_typed:
  assumes "handler_packet_parse expat stanza r packet start chars = Some (err, r')" "keeps_types T start" "chars \<noteq> XChars_collection"
    "rsp_response_type r = MIO_RESPONSE_UNKNOWN" "payload_of T (pkt_payload packet)" "T = MIO_PACKET_DATA \<longrightarrow> pkt_type packet = T"
  shows "body_typed T (rsp_response_type r') (rsp_response r')"
proof -
  let ?xd = "xml_data_new (r\<lparr>rsp_stanza := Some stanza, rsp_response := RPacket packet\<rparr>) chars"
  obtain xd' where "mio_xml_parse expat (Some stanza) ?xd start = Some (err, xd')" "r' = xd_response xd'"
    using assms(1) by (auto simp: handler_packet_parse_def split: Option.bind_splits)
  moreover have "xd_typed T ?xd" using assms(3-6) by (simp add: xd_typed_def xml_data_new_def body_typed_def)
  ultimately show ?thesis using xd_typed_parse [OF _ assms(2)] by (auto simp: xd_typed_def)
qed

lemma empty_payload_of: "payload_of T (pkt_payload mio_packet_new)" "payload_of MIO_PACKET_DATA (pkt_payload (mio_packet_payload_add p (PData d) ty))"
  by (simp_all add: mio_packet_new_def payload_of_def mio_packet_payload_add_def)

lemma plain_parse_typed:
  assumes "mio_xml_parse expat (Some stanza) (xml_data_new (r\<lparr>rsp_stanza := Some stanza\<rparr>) XChars_none) start = Some (err, xd')" "keeps_types T start"
    "rsp_response_type r = MIO_RESPONSE_UNKNOWN" "rsp_response r = RNull"
  shows "body_typed T (rsp_response_type (xd_response xd')) (rsp_response (xd_response xd'))"
proof -
  have "xd_typed T (xml_data_new (r\<lparr>rsp_stanza := Some stanza\<rparr>) XChars_none)"
    using assms(3,4) by (simp add: xd_typed_def xml_data_new_def body_typed_def)
  from xd_typed_parse [OF assms(1,2) this] show ?thesis by (simp add: xd_typed_def)
qed

text \<open>The type of a response after its handler.\<close>

definition response_typed :: "mio_handler_fn \<Rightarrow> mio_response \<Rightarrow> bool" where
  "response_typed h r \<longleftrightarrow> body_typed (handler_packet h) (rsp_response_type r) (rsp_response r) \<or>
     h \<in> {H_collection_children_query, H_collection_parents_query, H_item_recent_get} \<and>
       rsp_response_type r = MIO_RESPONSE_PACKET \<and> (\<forall>p. rsp_response r = RPacket p \<longrightarrow> pkt_type p = handler_packet h \<and>
         payload_of (handler_packet h) (pkt_payload p))"

lemma collection_typed:
  "body_typed MIO_PACKET_COLLECTIONS ty (rsp_response r) \<Longrightarrow> rsp_response (collection_packet_type r) = RPacket p \<Longrightarrow>
     pkt_type p = MIO_PACKET_COLLECTIONS \<and> payload_of MIO_PACKET_COLLECTIONS (pkt_payload p)"
  by (auto simp: collection_packet_type_def body_typed_def split: mio_response_body.splits)

lemmas reply_handler_defs = reply_handler_def mio_handler_subscribe_def mio_handler_error_def mio_handler_subscriptions_query_def
      mio_handler_acl_affiliations_query_def mio_handler_collection_children_query_def mio_handler_collection_parents_query_def
      mio_handler_meta_query_def mio_handler_node_type_query_def mio_handler_item_recent_get_def mio_handler_schedule_query_def
      mio_handler_references_query_def

lemma handler_not_found:
  "reply_handler h = Some hf \<Longrightarrow> hf expat False stanza r = Some (err, r', signalled) \<Longrightarrow> r' = r"
  by (cases h) (auto simp: reply_handler_defs)

lemma plain_handler_typed:
  assumes "reply_handler h = Some hf" "hf expat True stanza r = Some (err, r', signalled)" "h \<in> {H_error, H_subscribe}"
    and "rsp_response_type r = MIO_RESPONSE_UNKNOWN" "rsp_response r = RNull"
  shows "body_typed (handler_packet h) (rsp_response_type r') (rsp_response r')"
proof -
  note plain = plain_parse_typed [OF _ keeps_types_error(1) assms(4,5)] plain_parse_typed [OF _ keeps_types_error(2) assms(4,5)]
  show ?thesis
    using assms(1-3) plain by (auto simp: reply_handler_defs handler_packet_def Let_def split: Option.bind_splits)
qed

lemma query_handler_typed:
  assumes "reply_handler h = Some hf" "hf expat True stanza r = Some (err, r', signalled)" "rsp_response_type r = MIO_RESPONSE_UNKNOWN"
    and "h \<in> {H_subscriptions_query, H_acl_affiliations_query, H_meta_query, H_node_type_query, H_schedule_query, H_references_query}"
  shows "body_typed (handler_packet h) (rsp_response_type r') (rsp_response r')"
proof -
  note parse = packet_parse_typed [OF _ _ _ assms(3)]
  consider "h = H_subscriptions_query" | "h = H_acl_affiliations_query" | "h = H_meta_query" | "h = H_node_type_query"
    | "h = H_schedule_query" | "h = H_references_query" using assms(4) by blast
  then show ?thesis
  proof cases
    case 1
    then show ?thesis using assms(1,2) parse [OF _ keeps_types_lists(1)] empty_payload_of
      by (auto simp: reply_handler_defs handler_packet_def split: Option.bind_splits)
  next
    case 2
    then show ?thesis using assms(1,2) parse [OF _ keeps_types_lists(2)] empty_payload_of
      by (auto simp: reply_handler_defs handler_packet_def split: Option.bind_splits)
  next
    case 3
    then show ?thesis using assms(1,2) parse [OF _ keeps_types_meta] empty_payload_of
      by (auto simp: reply_handler_defs handler_packet_def split: Option.bind_splits)
  next
    case 4
    then show ?thesis using assms(1,2) parse [OF _ keeps_types_node_type] empty_payload_of
      by (auto simp: reply_handler_defs handler_packet_def split: Option.bind_splits)
  next
    case 5
    then show ?thesis using assms(1,2) parse [OF _ keeps_types_schedule] empty_payload_of
      by (auto simp: reply_handler_defs handler_packet_def split: Option.bind_splits)
  next
    case 6
    then show ?thesis using assms(1,2) parse [OF _ keeps_types_references] empty_payload_of
      by (auto simp: reply_handler_defs handler_packet_def split: Option.bind_splits)
  qed
qed

lemma tagging_handler_typed:
  assumes "reply_handler h = Some hf" "hf expat True stanza r = Some (err, r', signalled)" "rsp_response_type r = MIO_RESPONSE_UNKNOWN"
    and "h \<in> {H_collection_children_query, H_collection_parents_query, H_item_recent_get}"
  shows "response_typed h r'"
proof -
  note parse = packet_parse_typed [OF _ _ _ assms(3)]
  have collections: "response_typed h r'" if "h \<in> {H_collection_children_query, H_collection_parents_query}"
    "handler_packet_parse expat stanza r mio_packet_new start XChars_none = Some (err, r1)" "keeps_types MIO_PACKET_COLLECTIONS start"
    "r' = (if err = MIO_OK then collection_packet_type r1 else r1)" for start r1
  proof -
    have "body_typed MIO_PACKET_COLLECTIONS (rsp_response_type r1) (rsp_response r1)"
      by (rule parse [OF that(2,3)]) (simp_all add: empty_payload_of)
    with that(1,4) collection_typed show ?thesis by (auto simp: response_typed_def handler_packet_def collection_packet_type_def)
  qed
  consider "h = H_collection_children_query" | "h = H_collection_parents_query" | "h = H_item_recent_get" using assms(4) by blast
  then show ?thesis
  proof cases
    case 1
    then obtain r1 where r1: "handler_packet_parse expat stanza r mio_packet_new mio_XMLstart_collection_children_query XChars_none = Some (err, r1)"
      "r' = (if err = MIO_OK then collection_packet_type r1 else r1)"
      using assms(1,2) by (auto simp: reply_handler_defs split: Option.bind_splits if_splits)
    show ?thesis by (rule collections [OF _ r1(1) keeps_types_lists(3) r1(2)]) (simp add: 1)
  next
    case 2
    then obtain r1 where r1: "handler_packet_parse expat stanza r mio_packet_new mio_XMLstart_collection_parents_query XChars_none = Some (err, r1)"
      "r' = (if err = MIO_OK then collection_packet_type r1 else r1)"
      using assms(1,2) by (auto simp: reply_handler_defs split: Option.bind_splits if_splits)
    show ?thesis by (rule collections [OF _ r1(1) keeps_types_parents r1(2)]) (simp add: 2)
  next
    case 3
    then obtain r1 where r1: "handler_packet_parse expat stanza r (mio_packet_payload_add mio_packet_new (PData mio_data_new) MIO_PACKET_DATA)
        mio_XMLstart_pubsub_data_receive XChars_none = Some (err, r1)"
      "r' = (if err = MIO_OK then r1\<lparr>rsp_response_type := MIO_RESPONSE_PACKET\<rparr> else r1)"
      using assms(1,2) by (auto simp: reply_handler_defs split: Option.bind_splits if_splits)
    have "body_typed MIO_PACKET_DATA (rsp_response_type r1) (rsp_response r1)"
      by (rule parse [OF r1(1) keeps_types_data]) (simp_all add: payload_of_def mio_packet_payload_add_def)
    with r1(2) 3 show ?thesis by (auto simp: response_typed_def handler_packet_def body_typed_def)
  qed
qed



end
