(* ===== verification/Mio_Roundtrip.thy ===== *)
theory Mio_Roundtrip
  imports Mio_Handlers
begin

text \<open>
  What is published comes back: printing a structure as an item, and feeding the reply that carries
  that item to the handler of the corresponding query, gives the structure again. First the parent
  tracking of the XML callbacks, on which every handler runs; then references, schedules and meta
  information.
\<close>

section \<open>The parent records\<close>

text \<open>
  The parser is inside element \<open>n\<close> at depth \<open>d\<close>, whose own parent chain is \<open>ps\<close>: either no child was seen
  yet, or the chain has been extended by \<open>n\<close>.
\<close>

definition xd_in :: "string \<Rightarrow> int \<Rightarrow> cptr list \<Rightarrow> xml_data \<Rightarrow> bool" where
  "xd_in n d ps xd \<longleftrightarrow> xd_curr_depth xd = d \<and> \<not> xd_parent_freed xd \<and> ps \<noteq> [] \<and>
     ((xd_prev_depth xd = d \<and> xd_parents xd = ps \<and> xd_curr_element_name xd = Some n) \<or>
      (xd_prev_depth xd = d + 1 \<and> xd_parents xd = Some n # ps))"

definition xd_same :: "xml_data \<Rightarrow> xml_data \<Rightarrow> bool" where
  "xd_same xd xd' \<longleftrightarrow> xd_response xd' = xd_response xd \<and> xd_payload xd' = xd_payload xd \<and> xd_chars xd' = xd_chars xd"

lemma xd_start_in:
  assumes "xd_in n d ps xd"
  shows "\<exists>xd'. xml_data_update_start_element xd c = Some xd' \<and> xd_in c (d + 1) (Some n # ps) xd' \<and>
     xd_same xd xd' \<and> xd_parents xd' = Some n # ps \<and> xd_prev_element_name xd' = xd_curr_element_name xd \<and>
     xd_curr_element_name xd' = Some c"
  using assms by (auto simp: xd_in_def xd_same_def xml_data_update_start_element_def Let_def)

lemma xd_end_in:
  assumes "xd_in c (d + 1) (Some n # ps) xd" "ps \<noteq> []"
  shows "\<exists>xd'. xml_data_update_end_element xd = Some xd' \<and> xd_in n d ps xd' \<and> xd_same xd xd' \<and>
     xd_curr_element_name xd' = xd_curr_element_name xd"
  using assms by (auto simp: xd_in_def xd_same_def xml_data_update_end_element_def)

lemma xd_start_root:
  "\<exists>xd'. xml_data_update_start_element (xml_data_new r ch) c = Some xd' \<and> xd_in c 1 [None] xd' \<and>
     xd_same (xml_data_new r ch) xd' \<and> xd_parents xd' = [None] \<and> xd_prev_element_name xd' = None"
  by (simp add: xml_data_update_start_element_def xml_data_new_def xd_in_def xd_same_def Let_def)

lemma xd_end_root:
  assumes "xd_in c 1 [None] xd"
  shows "\<exists>xd'. xml_data_update_end_element xd = Some xd' \<and> xd_same xd xd'"
  using assms by (auto simp: xd_in_def xd_same_def xml_data_update_end_element_def)

text \<open>Running the tracking alone, and noting at each start tag what it takes for the parent.\<close>

fun xd_track :: "xml_data \<Rightarrow> xml_event list \<Rightarrow> (xml_data \<times> (string \<times> cptr) list) option" where
  "xd_track xd [] = Some (xd, [])"
| "xd_track xd (StartElement name attr # es) = do {
     xd' \<leftarrow> xml_data_update_start_element xd name;
     (xd'', l) \<leftarrow> xd_track xd' es;
     Some (xd'', (name, hd (xd_parents xd')) # l) }"
| "xd_track xd (EndElement name # es) = do { xd' \<leftarrow> xml_data_update_end_element xd; xd_track xd' es }"
| "xd_track xd (CharData s # es) = xd_track xd es"

fun tree_parents :: "cptr \<Rightarrow> xmpp_stanza \<Rightarrow> (string \<times> cptr) list" where
  "tree_parents p (Stanza ty d a cs) =
     (case (ty, d) of
        (XMPP_STANZA_TAG, Some name) \<Rightarrow> (name, p) # concat (map (tree_parents (Some name)) cs)
      | _ \<Rightarrow> [])"

lemma xd_track_append:
  "xd_track xd (es @ fs) = do { (xd', l) \<leftarrow> xd_track xd es; (xd'', m) \<leftarrow> xd_track xd' fs; Some (xd'', l @ m) }"
proof (induction xd es rule: xd_track.induct)
  case (2 xd name attr es)
  show ?case
  proof (cases "xml_data_update_start_element xd name")
    case (Some xd')
    with 2 [OF Some] show ?thesis by (cases "xd_track xd' es") (auto split: Option.bind_splits)
  qed simp
next
  case (3 xd name es)
  then show ?case by (cases "xml_data_update_end_element xd") auto
qed (auto split: Option.bind_splits)

definition tracked :: "string \<Rightarrow> int \<Rightarrow> cptr list \<Rightarrow> xmpp_stanza \<Rightarrow> bool" where
  "tracked n d ps s \<longleftrightarrow> (\<forall>xd. xd_in n d ps xd \<longrightarrow>
     (\<exists>xd'. xd_track xd (sax_events s) = Some (xd', tree_parents (Some n) s) \<and> xd_in n d ps xd'))"

lemma tracked_list:
  assumes "\<And>c. c \<in> set cs \<Longrightarrow> tracked n d ps c" "xd_in n d ps xd"
  shows "\<exists>xd'. xd_track xd (concat (map sax_events cs)) = Some (xd', concat (map (tree_parents (Some n)) cs)) \<and> xd_in n d ps xd'"
  using assms
proof (induction cs arbitrary: xd)
  case (Cons c cs)
  then have "tracked n d ps c" by simp
  then obtain xd1 where 1: "xd_track xd (sax_events c) = Some (xd1, tree_parents (Some n) c)" "xd_in n d ps xd1"
    using Cons.prems(2) unfolding tracked_def by blast
  from Cons.IH [OF _ 1(2)] Cons.prems(1) obtain xd2 where
    "xd_track xd1 (concat (map sax_events cs)) = Some (xd2, concat (map (tree_parents (Some n)) cs))" "xd_in n d ps xd2"
    by auto
  with 1 show ?case by (simp add: xd_track_append)
qed simp

lemma tracked_stanza: "ps \<noteq> [] \<Longrightarrow> tracked n d ps s"
proof (induction s arbitrary: n d ps)
  case (Stanza ty dt a cs)
  show ?case
  proof (cases "ty = XMPP_STANZA_TAG \<and> dt \<noteq> None")
    case False
    then show ?thesis by (cases ty; cases dt) (auto simp: tracked_def)
  next
    case True
    then obtain name where name: "ty = XMPP_STANZA_TAG" "dt = Some name" by auto
    show ?thesis
      unfolding tracked_def
    proof (intro allI impI)
      fix xd assume "xd_in n d ps xd"
      from xd_start_in [OF this, of name] obtain xd1 where 1: "xml_data_update_start_element xd name = Some xd1"
        "xd_in name (d + 1) (Some n # ps) xd1" "xd_parents xd1 = Some n # ps" by blast
      have "tracked name (d + 1) (Some n # ps) c" if "c \<in> set cs" for c using Stanza.IH [OF that] by simp
      from tracked_list [OF this 1(2)] obtain xd2 where 2: "xd_track xd1 (concat (map sax_events cs)) =
          Some (xd2, concat (map (tree_parents (Some name)) cs))" "xd_in name (d + 1) (Some n # ps) xd2" by auto
      from xd_end_in [OF 2(2) Stanza.prems] obtain xd3 where
        "xml_data_update_end_element xd2 = Some xd3" "xd_in n d ps xd3" by blast
      with 1 2 name show "\<exists>xd'. xd_track xd (sax_events (Stanza ty dt a cs)) =
          Some (xd', tree_parents (Some n) (Stanza ty dt a cs)) \<and> xd_in n d ps xd'"
        by (simp add: xd_track_append)
    qed
  qed
qed

lemma xd_track_root:
  assumes "st_type s = XMPP_STANZA_TAG" "st_data s \<noteq> None"
  shows "\<exists>xd'. xd_track (xml_data_new r ch) (sax_events s) = Some (xd', tree_parents None s)"
proof -
  obtain name a cs where s: "s = Stanza XMPP_STANZA_TAG (Some name) a cs" using assms by (cases s) auto
  from xd_start_root [of r ch name] obtain xd1 where 1: "xml_data_update_start_element (xml_data_new r ch) name = Some xd1"
    "xd_in name 1 [None] xd1" "xd_parents xd1 = [None]" by blast
  have "tracked name 1 [None] c" for c by (rule tracked_stanza) simp
  from tracked_list [OF this 1(2)] obtain xd2 where 2: "xd_track xd1 (concat (map sax_events cs)) =
      Some (xd2, concat (map (tree_parents (Some name)) cs))" "xd_in name 1 [None] xd2" by auto
  from xd_end_root [OF 2(2)] obtain xd3 where "xml_data_update_end_element xd2 = Some xd3" by blast
  with 1 2 s show ?thesis by (simp add: xd_track_append)
qed

section \<open>Running a handler over the events of a tree\<close>

lemma xml_run_append: "xml_run start xd (es @ fs) = do { xd' \<leftarrow> xml_run start xd es; xml_run start xd' fs }"
  by (induction start xd es rule: xml_run.induct) (auto split: Option.bind_splits)

lemma attr_last_map_of:
  "distinct (map fst kvs) \<Longrightarrow> attr_last n cur kvs = (case map_of kvs n of None \<Rightarrow> cur | Some v \<Rightarrow> Some v)"
proof (induction kvs arbitrary: cur)
  case (Cons kv kvs)
  moreover obtain k v where "kv = (k, v)" by (cases kv)
  moreover have "map_of kvs k = None" if "k \<notin> fst ` set kvs" using that by (simp add: map_of_eq_None_iff)
  ultimately show ?case by (auto split: option.splits)
qed simp

text \<open>The reply to an item query: the item below \<open>iq/pubsub/items\<close>, with any attributes.\<close>

definition item_reply :: "hash_t option \<Rightarrow> hash_t option \<Rightarrow> hash_t option \<Rightarrow> xmpp_stanza \<Rightarrow> xmpp_stanza" where
  "item_reply a1 a2 a3 item = Stanza XMPP_STANZA_TAG (Some ''iq'') a1 [Stanza XMPP_STANZA_TAG (Some ''pubsub'') a2
     [Stanza XMPP_STANZA_TAG (Some ''items'') a3 [item]]]"

section \<open>References\<close>

text \<open>
  A field that a fold over attributes writes only for one name: with distinct names it is decided by
  the value of that name.
\<close>

lemma foldl_attr_field:
  assumes "distinct (map fst kvs)"
    and "\<And>r v. f (step r (n, v)) = u v (f r)" "\<And>r k v. k \<noteq> n \<Longrightarrow> f (step r (k, v)) = f r"
  shows "f (foldl step r kvs) = (case map_of kvs n of None \<Rightarrow> f r | Some v \<Rightarrow> u v (f r))"
  using assms(1)
proof (induction kvs arbitrary: r)
  case (Cons kv kvs)
  obtain k v where kv: "kv = (k, v)" by (cases kv)
  have "map_of kvs k = None" using Cons.prems kv by (simp add: map_of_eq_None_iff)
  moreover have "f (step r (k, v)) = (if k = n then u v (f r) else f r)" using assms(2,3) by simp
  ultimately show ?case using Cons kv by (auto split: option.splits)
qed simp

lemma reference_attr_loop_fields:
  assumes "distinct (map fst kvs)"
  shows "ref_node (reference_attr_loop r kvs) = (case map_of kvs ''node'' of None \<Rightarrow> ref_node r | Some v \<Rightarrow> Some v)"
    and "ref_name (reference_attr_loop r kvs) = (case map_of kvs ''name'' of None \<Rightarrow> ref_name r | Some v \<Rightarrow> Some v)"
    and "ref_type (reference_attr_loop r kvs) = (case map_of kvs ''type'' of None \<Rightarrow> ref_type r
           | Some v \<Rightarrow> if v = ''child'' then MIO_REFERENCE_CHILD else if v = ''parent'' then MIO_REFERENCE_PARENT else ref_type r)"
    and "ref_meta_type (reference_attr_loop r kvs) = (case map_of kvs ''metaType'' of None \<Rightarrow> ref_meta_type r
           | Some v \<Rightarrow> if v = ''device'' then MIO_META_TYPE_DEVICE else if v = ''location'' then MIO_META_TYPE_LOCATION
                      else ref_meta_type r)"
  unfolding reference_attr_loop_def
  subgoal by (rule foldl_attr_field [OF assms, where f = ref_node and u = "\<lambda>v _. Some v"]) auto
  subgoal by (rule foldl_attr_field [OF assms, where f = ref_name and u = "\<lambda>v _. Some v"]) auto
  subgoal by (rule foldl_attr_field [OF assms, where f = ref_type and u = "\<lambda>v old. if v = ''child'' then MIO_REFERENCE_CHILD
        else if v = ''parent'' then MIO_REFERENCE_PARENT else old"]) auto
  subgoal by (rule foldl_attr_field [OF assms, where f = ref_meta_type and u = "\<lambda>v old. if v = ''device'' then MIO_META_TYPE_DEVICE
        else if v = ''location'' then MIO_META_TYPE_LOCATION else old"]) auto
  done

lemma reference_tag_complete: "iter_complete (reference_tag r)"
proof (rule iter_completeI [where K = "{''type'', ''metaType'', ''node'', ''name''}" and lastkey = "[]"])
  show "dom (stanza_attr (reference_tag r)) \<subseteq> {''type'', ''metaType'', ''node'', ''name''}"
    by (auto simp: reference_tag_attr split: if_splits)
qed (auto simp: hash_key_names)

lemma reference_attr_loop_tag:
  assumes "ref_type r \<noteq> MIO_REFERENCE_UNKOWN"
  shows "reference_attr_loop mio_reference_new (stanza_pairs (reference_tag r)) = r"
proof -
  note pairs = map_of_stanza_pairs [OF reference_tag_simps(1) reference_tag_complete]
  note f = reference_attr_loop_fields [OF distinct_stanza_pairs [OF reference_tag_simps(1)], of mio_reference_new r, unfolded pairs]
  let ?r = "reference_attr_loop mio_reference_new (stanza_pairs (reference_tag r))"
  have "ref_node ?r = ref_node r" "ref_name ?r = ref_name r"
    using f(1,2) by (auto simp: reference_tag_attr mio_reference_new_def split: option.splits)
  moreover have "ref_type ?r = ref_type r"
    using f(3) assms by (cases "ref_type r") (auto simp: reference_tag_attr ref_type_name_def)
  moreover have "ref_meta_type ?r = ref_meta_type r"
    using f(4) by (cases "ref_meta_type r") (auto simp: reference_tag_attr meta_type_name_def mio_reference_new_def)
  ultimately show ?thesis by (intro mio_reference.equality) auto
qed

text \<open>One reference tag appends one reference to the packet.\<close>

lemma xd_packet_set [simp]: "xd_packet (xd_set_packet p xd) = Some p"
  by (simp add: xd_packet_def xd_set_packet_def)

lemma xd_packet_same: "xd_same xd xd' \<Longrightarrow> xd_packet xd' = xd_packet xd"
  by (simp add: xd_same_def xd_packet_def)

lemma xd_in_set [simp]:
  "xd_in n d ps (xd_set_packet p xd) = xd_in n d ps xd"
  "xd_in n d ps (xd_set_type ty xd) = xd_in n d ps xd"
  by (simp_all add: xd_in_def xd_set_packet_def xd_set_type_def)

definition packet_refs :: "mio_packet \<Rightarrow> mio_reference list \<Rightarrow> mio_packet" where
  "packet_refs p rs = (if rs = [] then p else
     p\<lparr>pkt_payload := PReferences ((case pkt_payload p of PReferences qs \<Rightarrow> qs | _ \<Rightarrow> []) @ rs),
       pkt_num_payloads := pkt_num_payloads p + int (length rs)\<rparr>)"

definition refs_payload :: "mio_payload \<Rightarrow> bool" where
  "refs_payload p \<longleftrightarrow> as_references p \<noteq> None"

lemma reference_tag_run:
  assumes "xd_in n d ps xd" "xd_packet xd = Some p" "refs_payload (pkt_payload p)" "ref_type r \<noteq> MIO_REFERENCE_UNKOWN"
  shows "\<exists>xd'. xml_run mio_XMLstart_references_query xd (sax_events (reference_tag r)) = Some xd' \<and>
     xd_in n d ps xd' \<and> xd_response xd' = xd_response (xd_set_packet (packet_refs p [r]) xd)"
proof -
  have ps: "ps \<noteq> []" using assms(1) by (simp add: xd_in_def)
  obtain xd1 where 1: "xml_data_update_start_element xd ''reference'' = Some xd1"
    "xd_in ''reference'' (d + 1) (Some n # ps) xd1" "xd_same xd xd1"
    using xd_start_in [OF assms(1)] by blast
  let ?xd2 = "xd_set_packet (packet_refs p [r]) xd1"
  have "xd_in ''reference'' (d + 1) (Some n # ps) ?xd2" using 1(2) by simp
  from xd_end_in [OF this ps] obtain xd3 where
    3: "xml_data_update_end_element ?xd2 = Some xd3" "xd_in n d ps xd3" "xd_same ?xd2 xd3" by blast
  have "mio_XMLstart_references_query xd ''reference'' (stanza_pairs (reference_tag r)) = Some ?xd2"
    using 1(1) assms(2,3) xd_packet_same [OF 1(3)]
    by (auto simp: mio_XMLstart_references_query_def reference_attr_loop_tag [OF assms(4)] packet_refs_def
        refs_payload_def as_references_def split: mio_payload.splits)
  with 3 1(3) show ?thesis
    by (simp add: sax_events_tag [OF reference_tag_simps(1,2)] xd_same_def xd_set_packet_def)
qed

lemma packet_refs_append:
  "packet_refs (packet_refs p rs) ss = packet_refs p (rs @ ss)"
  by (auto simp: packet_refs_def)

lemma refs_payload_packet_refs: "refs_payload (pkt_payload p) \<Longrightarrow> refs_payload (pkt_payload (packet_refs p rs))"
  by (auto simp: packet_refs_def refs_payload_def as_references_def)

lemma reference_tags_run:
  assumes "xd_in n d ps xd" "xd_packet xd = Some p" "refs_payload (pkt_payload p)"
    "list_all (\<lambda>r. ref_type r \<noteq> MIO_REFERENCE_UNKOWN) rs"
  shows "\<exists>xd'. xml_run mio_XMLstart_references_query xd (concat (map sax_events (map reference_tag rs))) = Some xd' \<and>
     xd_in n d ps xd' \<and> xd_response xd' = xd_response (xd_set_packet (packet_refs p rs) xd)"
  using assms
proof (induction rs arbitrary: xd p)
  case Nil
  then show ?case
    by (auto simp: packet_refs_def xd_set_packet_def xd_packet_def split: mio_response_body.splits)
next
  case (Cons r rs)
  have r: "ref_type r \<noteq> MIO_REFERENCE_UNKOWN" using Cons.prems(4) by simp
  obtain xd1 where 1: "xml_run mio_XMLstart_references_query xd (sax_events (reference_tag r)) = Some xd1"
    "xd_in n d ps xd1" "xd_response xd1 = xd_response (xd_set_packet (packet_refs p [r]) xd)"
    using reference_tag_run [OF Cons.prems(1-3) r] by blast
  have p1: "xd_packet xd1 = Some (packet_refs p [r])" using 1(3) by (simp add: xd_packet_def xd_set_packet_def)
  obtain xd2 where "xml_run mio_XMLstart_references_query xd1 (concat (map sax_events (map reference_tag rs))) = Some xd2"
    "xd_in n d ps xd2" "xd_response xd2 = xd_response (xd_set_packet (packet_refs (packet_refs p [r]) rs) xd1)"
    using Cons.IH [OF 1(2) p1 refs_payload_packet_refs [OF Cons.prems(3)]] Cons.prems(4) by auto
  with 1 show ?case by (simp add: xml_run_append packet_refs_append xd_set_packet_def)
qed

section \<open>Replies\<close>

lemma run_tag:
  assumes "xd_in n d ps xd" "tag_wf s" "st_data s = Some name"
    and "start xd name (stanza_pairs s) = Some xd1"
    and "xml_run start xd1 (concat (map sax_events (st_children s))) = Some xd2"
    and "xd_in name (d + 1) (Some n # ps) xd2"
  shows "\<exists>xd'. xml_run start xd (sax_events s) = Some xd' \<and> xd_in n d ps xd' \<and> xd_same xd2 xd' \<and>
     xd_curr_element_name xd' = xd_curr_element_name xd2"
proof -
  have "ps \<noteq> []" using assms(1) by (simp add: xd_in_def)
  from xd_end_in [OF assms(6) this] assms(4,5) show ?thesis
    by (auto simp: sax_events_tag [OF assms(2,3)] xml_run_append)
qed

text \<open>A tag whose start the handler only tracks.\<close>

lemma run_plain_tag:
  assumes "xd_in n d ps xd" "tag_wf s" "st_data s = Some name"
    and plain: "\<And>xd attr. start xd name attr = xml_data_update_start_element xd name"
    and inner: "\<And>xd1. xd_in name (d + 1) (Some n # ps) xd1 \<Longrightarrow> xd_same xd xd1 \<Longrightarrow>
      \<exists>xd2. xml_run start xd1 (concat (map sax_events (st_children s))) = Some xd2 \<and>
        xd_in name (d + 1) (Some n # ps) xd2 \<and> Q xd2"
  shows "\<exists>xd' xd2. xml_run start xd (sax_events s) = Some xd' \<and> xd_in n d ps xd' \<and> Q xd2 \<and> xd_same xd2 xd'"
proof -
  obtain xd1 where 1: "start xd name (stanza_pairs s) = Some xd1" "xd_in name (d + 1) (Some n # ps) xd1" "xd_same xd xd1"
    using xd_start_in [OF assms(1), of name] plain by metis
  from inner [OF 1(2,3)] obtain xd2 where 2: "xml_run start xd1 (concat (map sax_events (st_children s))) = Some xd2"
    "xd_in name (d + 1) (Some n # ps) xd2" "Q xd2" by blast
  from run_tag [OF assms(1-3) 1(1) 2(1,2)] 2(3) show ?thesis by blast
qed

definition items_chain :: "cptr list" where
  "items_chain = [Some ''pubsub'', Some ''iq'', None]"

lemma item_reply_run:
  assumes outer: "\<And>xd nm attr. nm \<in> {''iq'', ''pubsub''} \<Longrightarrow> xd_response xd = R0 \<Longrightarrow> start xd nm attr = xml_data_update_start_element xd nm"
    and items: "\<And>xd xd'. xml_data_update_start_element xd ''items'' = Some xd' \<Longrightarrow>
      xd_response xd' = R0 \<Longrightarrow> xd_response xd = R0 \<Longrightarrow> xd_payload xd' = XNull \<Longrightarrow>
      start xd ''items'' (stanza_pairs (Stanza XMPP_STANZA_TAG (Some ''items'') a3 [item])) = Some (xd'\<lparr>xd_response := R1\<rparr>)"
    and inner: "\<And>xd. xd_in ''items'' 3 items_chain xd \<Longrightarrow> xd_response xd = R1 \<Longrightarrow> xd_payload xd = XNull \<Longrightarrow>
      xd_chars xd = ch \<Longrightarrow> \<exists>xd'. xml_run start xd (sax_events item) = Some xd' \<and>
        xd_in ''items'' 3 items_chain xd' \<and> xd_response xd' = R2"
  shows "\<exists>xd'. xml_run start (xml_data_new R0 ch) (sax_events (item_reply a1 a2 a3 item)) = Some xd' \<and> xd_response xd' = R2"
proof -
  let ?xd0 = "xml_data_new R0 ch"
  have base: "xd_response ?xd0 = R0" "xd_payload ?xd0 = XNull" "xd_chars ?xd0 = ch" by (simp_all add: xml_data_new_def)
  obtain xd1 where 1: "xml_data_update_start_element ?xd0 ''iq'' = Some xd1" "xd_in ''iq'' 1 [None] xd1" "xd_same ?xd0 xd1"
    using xd_start_root by blast
  obtain xd2 where 2: "xml_data_update_start_element xd1 ''pubsub'' = Some xd2"
    "xd_in ''pubsub'' 2 [Some ''iq'', None] xd2" "xd_same xd1 xd2"
    using xd_start_in [OF 1(2), of "''pubsub''"] by auto
  obtain xd3 where 3: "xml_data_update_start_element xd2 ''items'' = Some xd3"
    "xd_in ''items'' 3 items_chain xd3" "xd_same xd2 xd3"
    using xd_start_in [OF 2(2), of "''items''"] by (auto simp: items_chain_def)
  let ?xd4 = "xd3\<lparr>xd_response := R1\<rparr>"
  have s1: "xd_response xd1 = R0" using base 1(3) by (simp add: xd_same_def)
  have s3: "xd_response xd2 = R0" "xd_response xd3 = R0" "xd_payload xd3 = XNull" "xd_chars xd3 = ch"
    using base 1(3) 2(3) 3(3) by (simp_all add: xd_same_def)
  have in4: "xd_in ''items'' 3 items_chain ?xd4" using 3(2) by (simp add: xd_in_def)
  obtain xd5 where 5: "xml_run start ?xd4 (sax_events item) = Some xd5" "xd_in ''items'' (2 + 1) (Some ''pubsub'' # [Some ''iq'', None]) xd5"
    "xd_response xd5 = R2"
    using inner [OF in4] s3 by (auto simp: items_chain_def)
  from xd_end_in [OF 5(2)] obtain xd6 where 6: "xml_data_update_end_element xd5 = Some xd6"
    "xd_in ''pubsub'' (1 + 1) (Some ''iq'' # [None]) xd6" "xd_same xd5 xd6" by auto
  from xd_end_in [OF 6(2)] obtain xd7 where 7: "xml_data_update_end_element xd6 = Some xd7"
    "xd_in ''iq'' 1 [None] xd7" "xd_same xd6 xd7" by auto
  from xd_end_root [OF 7(2)] obtain xd8 where 8: "xml_data_update_end_element xd7 = Some xd8" "xd_same xd7 xd8" by blast
  have "xd_response xd8 = R2" using 5(3) 6(3) 7(3) 8(2) by (simp add: xd_same_def)
  with 1(1) 2(1) 5(1) 6(1) 7(1) 8(1) outer [OF _ base(1)] outer [OF _ s1] items [OF 3(1) s3(2,1,3)] show ?thesis
    by (simp add: item_reply_def xml_run_append)
qed

text \<open>The reply that carries the item of a list of references.\<close>

definition item_tag :: "string \<Rightarrow> xmpp_stanza" where
  "item_tag ty = put_attr (stanza_named ''item'') ''id'' (Some ty)"

lemma item_tag_simps [simp]:
  "mio_pubsub_item_new ty = Some (item_tag ty)" "tag_wf (item_tag ty)" "st_data (item_tag ty) = Some ''item''"
  "st_children (item_tag ty) = []" "stanza_attr (item_tag ty) = [''id'' \<mapsto> ty]"
  by (simp_all add: mio_pubsub_item_new_def item_tag_def stanza_build)

lemma mio_references_to_item_eq:
  "list_all (\<lambda>r. ref_type r \<noteq> MIO_REFERENCE_UNKOWN) rs \<Longrightarrow> mio_references_to_item rs =
     Some (Some (xmpp_stanza_add_child (item_tag ''references'')
       (add_children (stanza_named ''references'') (map reference_tag rs))))"
  by (simp add: mio_references_to_item_def reference_stanzas_eq add_children_def)

lemma references_item_run:
  assumes "mio_references_to_item rs = Some (Some item)" "list_all (\<lambda>r. ref_type r \<noteq> MIO_REFERENCE_UNKOWN) rs"
    and "xd_in n d ps xd" "xd_packet xd = Some p" "refs_payload (pkt_payload p)"
  shows "\<exists>xd'. xml_run mio_XMLstart_references_query xd (sax_events item) = Some xd' \<and>
     xd_in n d ps xd' \<and> xd_response xd' = xd_response (xd_set_packet (packet_refs p rs) xd)"
proof -
  let ?refs = "add_children (stanza_named ''references'') (map reference_tag rs)"
  have item: "item = xmpp_stanza_add_child (item_tag ''references'') ?refs"
    using assms(1) mio_references_to_item_eq [OF assms(2)] by simp
  have plain: "mio_XMLstart_references_query xd nm attr = xml_data_update_start_element xd nm"
    if "nm \<in> {''item'', ''references''}" for xd nm attr
    using that by (auto simp: mio_XMLstart_references_query_def)
  let ?R = "xd_response (xd_set_packet (packet_refs p rs) xd)"
  have refs: "\<exists>xd' xd3. xml_run mio_XMLstart_references_query xd1 (sax_events ?refs) = Some xd' \<and>
      xd_in ''item'' (d + 1) (Some n # ps) xd' \<and> xd_response xd3 = ?R \<and> xd_same xd3 xd'"
    if "xd_in ''item'' (d + 1) (Some n # ps) xd1" "xd_same xd xd1" for xd1
  proof (rule run_plain_tag [OF that(1), where name = "''references''"])
    fix xd2 assume a: "xd_in ''references'' (d + 1 + 1) (Some ''item'' # Some n # ps) xd2" "xd_same xd1 xd2"
    have "xd_packet xd2 = Some p" using xd_packet_same [OF that(2)] xd_packet_same [OF a(2)] assms(4) by simp
    from reference_tags_run [OF a(1) this assms(5,2)] a(2) that(2)
    show "\<exists>xd3. xml_run mio_XMLstart_references_query xd2 (concat (map sax_events (st_children ?refs))) = Some xd3 \<and>
        xd_in ''references'' (d + 1 + 1) (Some ''item'' # Some n # ps) xd3 \<and> xd_response xd3 = ?R"
      by (simp add: xd_same_def xd_set_packet_def)
  qed (simp_all add: plain)
  have "\<exists>xd' xd2. xml_run mio_XMLstart_references_query xd (sax_events item) = Some xd' \<and> xd_in n d ps xd' \<and>
      xd_response xd2 = ?R \<and> xd_same xd2 xd'"
  proof (rule run_plain_tag [OF assms(3), where name = "''item''"])
    fix xd1 assume "xd_in ''item'' (d + 1) (Some n # ps) xd1" "xd_same xd xd1"
    from refs [OF this] show "\<exists>xd2. xml_run mio_XMLstart_references_query xd1 (concat (map sax_events (st_children item))) = Some xd2 \<and>
        xd_in ''item'' (d + 1) (Some n # ps) xd2 \<and> xd_response xd2 = ?R"
      by (auto simp: item xd_same_def)
  qed (simp_all add: plain item)
  then show ?thesis by (auto simp: xd_same_def)
qed

lemma references_reply:
  assumes typed: "list_all (\<lambda>r. ref_type r \<noteq> MIO_REFERENCE_UNKOWN) rs"
    and item: "mio_references_to_item rs = Some (Some item)"
    and expat: "expat_delivers expat (item_reply a1 a2 a3 item)"
  shows "\<exists>r. mio_handler_references_query expat True (item_reply a1 a2 a3 item) response = Some (MIO_OK, r, True) \<and>
     rsp_response_type r = MIO_RESPONSE_PACKET \<and>
     rsp_response r = RPacket \<lparr>pkt_id = None, pkt_type = MIO_PACKET_REFERENCES,
       pkt_num_payloads = int (length rs), pkt_payload = (if rs = [] then PNull else PReferences rs)\<rparr>"
proof -
  let ?reply = "item_reply a1 a2 a3 item"
  let ?R0 = "response\<lparr>rsp_stanza := Some ?reply, rsp_response := RPacket mio_packet_new\<rparr>"
  let ?p = "mio_packet_new\<lparr>pkt_type := MIO_PACKET_REFERENCES\<rparr>"
  let ?R1 = "?R0\<lparr>rsp_response_type := MIO_RESPONSE_PACKET, rsp_response := RPacket ?p\<rparr>"
  let ?R2 = "?R1\<lparr>rsp_response := RPacket (packet_refs ?p rs)\<rparr>"
  have "\<exists>xd'. xml_run mio_XMLstart_references_query (xml_data_new ?R0 XChars_none) (sax_events ?reply) = Some xd' \<and>
      xd_response xd' = ?R2"
  proof (rule item_reply_run)
    show "mio_XMLstart_references_query xd nm attr = xml_data_update_start_element xd nm"
      if "nm \<in> {''iq'', ''pubsub''}" for xd nm attr
      using that by (auto simp: mio_XMLstart_references_query_def)
    show "mio_XMLstart_references_query xd ''items'' attr = Some (xd'\<lparr>xd_response := ?R1\<rparr>)"
      if "xml_data_update_start_element xd ''items'' = Some xd'" "xd_response xd' = ?R0" for xd xd' attr
      using that by (simp add: mio_XMLstart_references_query_def xd_packet_def xd_set_packet_def xd_set_type_def)
    show "\<exists>xd'. xml_run mio_XMLstart_references_query xd (sax_events item) = Some xd' \<and>
        xd_in ''items'' 3 items_chain xd' \<and> xd_response xd' = ?R2"
      if "xd_in ''items'' 3 items_chain xd" "xd_response xd = ?R1" for xd
      using references_item_run [OF item typed that(1), of ?p] that(2)
      by (simp add: xd_packet_def xd_set_packet_def refs_payload_def as_references_def mio_packet_new_def)
  qed
  then show ?thesis
    by (auto simp: mio_handler_references_query_def handler_packet_parse_def mio_xml_parse_delivers [OF expat]
        packet_refs_def mio_packet_new_def)
qed

text \<open>C3: Publishing references and querying them gives them back: for references that all have a type,
  the handler of the references query, run on a reply that carries the item
  \<open>mio_references_to_item\<close> printed, returns MIO_OK, signals the request, and leaves a packet of type
  MIO_PACKET_REFERENCES whose payload is the list (NULL if it is empty) and whose count is its length.
  expat is assumed to deliver the start and end tags of the text it is given.\<close>

theorem references_roundtrip:
  assumes typed: "list_all (\<lambda>r. ref_type r \<noteq> MIO_REFERENCE_UNKOWN) rs"
    and item: "mio_references_to_item rs = Some (Some item)"
    and expat: "expat_delivers expat (item_reply a1 a2 a3 item)"
  shows "\<exists>r. mio_handler_references_query expat True (item_reply a1 a2 a3 item) response = Some (MIO_OK, r, True) \<and>
     rsp_response_type r = MIO_RESPONSE_PACKET \<and>
     rsp_response r = RPacket \<lparr>pkt_id = None, pkt_type = MIO_PACKET_REFERENCES,
       pkt_num_payloads = int (length rs), pkt_payload = (if rs = [] then PNull else PReferences rs)\<rparr>"
  by (rule references_reply [OF assms])

definition example_refs :: "mio_reference list" where
  "example_refs = [\<lparr>ref_type = MIO_REFERENCE_CHILD, ref_node = Some ''lamp'', ref_name = Some ''Lamp'',
     ref_meta_type = MIO_META_TYPE_DEVICE\<rparr>]"

definition example_refs_reply :: xmpp_stanza where
  "example_refs_reply = item_reply None None None (the (the (mio_references_to_item example_refs)))"

lemma printable_item_reply: "printable item \<Longrightarrow> printable (item_reply a1 a2 a3 item)"
  by (auto simp: item_reply_def intro!: printable_tag)

lemma example_refs_item:
  "mio_references_to_item example_refs = Some (Some (the (the (mio_references_to_item example_refs))))"
  "printable (the (the (mio_references_to_item example_refs)))"
proof -
  have t: "list_all (\<lambda>r. ref_type r \<noteq> MIO_REFERENCE_UNKOWN) example_refs" by (simp add: example_refs_def)
  show "mio_references_to_item example_refs = Some (Some (the (the (mio_references_to_item example_refs))))"
    by (simp add: mio_references_to_item_eq [OF t])
  show "printable (the (the (mio_references_to_item example_refs)))"
    by (auto simp: mio_references_to_item_eq [OF t] list_all_iff intro!: printable_tag_wf)
qed

theorem references_roundtrip_witness:
  "\<exists>r. mio_handler_references_query (\<lambda>_. (sax_events example_refs_reply, True)) True example_refs_reply mio_response_new
       = Some (MIO_OK, r, True) \<and> rsp_response_type r = MIO_RESPONSE_PACKET \<and>
     rsp_response r = RPacket \<lparr>pkt_id = None, pkt_type = MIO_PACKET_REFERENCES, pkt_num_payloads = 1,
       pkt_payload = PReferences example_refs\<rparr>"
  using references_roundtrip [of example_refs "the (the (mio_references_to_item example_refs))"
      "\<lambda>_. (sax_events example_refs_reply, True)" None None None mio_response_new]
    example_refs_item expat_delivers_const [OF printable_item_reply [OF example_refs_item(2), of None None None]]
  by (simp add: example_refs_reply_def, simp add: example_refs_def)

section \<open>The parent of an element\<close>

text \<open>The parent records of the XML callbacks are right: for every tag tree, running the start and end updates over
  its events never touches a freed or missing record, and at each start tag, in document order, the innermost record
  names the element that encloses it (NULL for the root).\<close>

theorem parent_tracking:
  assumes "st_type s = XMPP_STANZA_TAG" "st_data s \<noteq> None"
  shows "\<exists>xd'. xd_track (xml_data_new r ch) (sax_events s) = Some (xd', tree_parents None s)"
  using assms by (rule xd_track_root)

theorem parent_tracking_witness:
  "\<exists>xd'. xd_track (xml_data_new mio_response_new XChars_none)
       (sax_events (xmpp_stanza_add_child (stanza_named ''meta'') (stanza_named ''property''))) =
     Some (xd', [(''meta'', None), (''property'', Some ''meta'')])"
proof -
  let ?s = "xmpp_stanza_add_child (stanza_named ''meta'') (stanza_named ''property'')"
  have "st_type ?s = XMPP_STANZA_TAG" "st_data ?s \<noteq> None" "tree_parents None ?s = [(''meta'', None), (''property'', Some ''meta'')]"
    by (simp_all add: stanza_named_def xmpp_stanza_set_name_def xmpp_stanza_new_def xmpp_stanza_add_child_def)
  with parent_tracking [of ?s mio_response_new XChars_none] show ?thesis by simp
qed

end
