(* ===== verification/Mio_Items.thy ===== *)
theory Mio_Items
  imports Mio_Handlers Mio_Stanzas
begin

text \<open>
  Items that carry measurements (\<^verbatim>\<open>mio.c\<close>, \<open>mio_item_device_add\<close> to \<open>_mio_item_transducer_value_add\<close>): an item
  holds \<open>device\<close> elements with \<open>transducer\<close> elements, or one \<open>data\<close> element with the values below it. The item is
  changed in place; the functions give the return code and the item. An item is its stanza, \<open>None\<close> for NULL.
  Setting an attribute of an element that was just named cannot fail, so its code is dropped.

  Shown: a value added to a data item overwrites the value with its identifier or is appended; a data item that is
  printed and received gives the values back; a third device cannot be added.
\<close>

section \<open>Searching and updating below a stanza\<close>

text \<open>A pointer to a child is its position: the first child for which the test, which may be undefined, holds.\<close>

fun find_child :: "(xmpp_stanza \<Rightarrow> bool option) \<Rightarrow> xmpp_stanza list \<Rightarrow> nat option option" where
  "find_child test [] = Some None"
| "find_child test (c # cs) = do {
     hit \<leftarrow> test c;
     if hit then Some (Some 0) else map_option (map_option Suc) (find_child test cs) }"

definition update_child :: "nat \<Rightarrow> (xmpp_stanza \<Rightarrow> xmpp_stanza option) \<Rightarrow> xmpp_stanza \<Rightarrow> xmpp_stanza option" where
  "update_child n f s = (if n < length (st_children s) then
       map_option (\<lambda>c. Stanza (st_type s) (st_data s) (st_attributes s) ((st_children s)[n := c])) (f (st_children s ! n))
     else None)"

definition is_named :: "string \<Rightarrow> xmpp_stanza \<Rightarrow> bool option" where
  "is_named name s = c_streq (xmpp_stanza_get_name s) (Some name)"

definition has_id :: "cptr \<Rightarrow> xmpp_stanza \<Rightarrow> bool option" where
  "has_id i s = do { a \<leftarrow> xmpp_stanza_get_attribute s ''id''; c_streq a i }"

definition named_with_id :: "string \<Rightarrow> cptr \<Rightarrow> xmpp_stanza \<Rightarrow> bool option" where
  "named_with_id name i s = do { n \<leftarrow> is_named name s; if n then has_id i s else Some False }"

fun set_attrs_opt :: "(string \<times> cptr) list \<Rightarrow> xmpp_stanza \<Rightarrow> xmpp_stanza option" where
  "set_attrs_opt [] s = Some s"
| "set_attrs_opt ((k, v) # kvs) s = do { s \<leftarrow> set_attr_opt s k v; set_attrs_opt kvs s }"

section \<open>Devices\<close>

definition mio_ns :: string where "mio_ns = ''http://jabber.org/protocol/mio''"

text \<open>The loop over the children: whether a device with the identifier was met, and whether the namespace is written.\<close>

fun device_scan :: "cptr \<Rightarrow> bool \<Rightarrow> xmpp_stanza list \<Rightarrow> (bool \<times> bool) option" where
  "device_scan i write_ns [] = Some (False, write_ns)"
| "device_scan i write_ns (device # next) = do {
     dev \<leftarrow> is_named ''device'' device;
     if dev then do {
       ns \<leftarrow> xmpp_stanza_get_ns device;
       mio \<leftarrow> c_streq ns (Some mio_ns);
       let write_ns = (if mio then False else write_ns);
       dup \<leftarrow> has_id i device;
       if dup then Some (True, write_ns) else device_scan i write_ns next }
     else device_scan i write_ns next }"

definition mio_item_device_add :: "xmpp_stanza option \<Rightarrow> cptr \<Rightarrow> cptr \<Rightarrow> cptr \<Rightarrow> cptr \<Rightarrow> cptr
    \<Rightarrow> (int \<times> xmpp_stanza option) option" where
  "mio_item_device_add item i type description serial timestamp = (case item of
     None \<Rightarrow> Some (-1, None)
   | Some s \<Rightarrow> do {
       (dup, write_ns) \<leftarrow> device_scan i True (xmpp_stanza_get_children s);
       if dup then Some (-1, item)
       else do {
         let device = stanza_named ''device'';
         device \<leftarrow> (if write_ns then set_attr device ''xmlns'' (Some mio_ns) else Some device);
         device \<leftarrow> set_attr device ''id'' i;
         device \<leftarrow> set_attrs_opt [(''type'', type), (''description'', description), (''serial'', serial)] device;
         device \<leftarrow> set_attr device ''timestamp'' timestamp;
         Some (0, Some (xmpp_stanza_add_child s device)) } })"

section \<open>Transducers\<close>

text \<open>The serial number is written under the condition that a part number was given.\<close>

definition mio_item_transducer_add :: "xmpp_stanza option \<Rightarrow> cptr \<Rightarrow> cptr \<Rightarrow> cptr \<Rightarrow> cptr \<Rightarrow> cptr \<Rightarrow> cptr \<Rightarrow> cptr \<Rightarrow> cptr
    \<Rightarrow> cptr \<Rightarrow> cptr \<Rightarrow> cptr \<Rightarrow> cptr \<Rightarrow> cptr \<Rightarrow> cptr \<Rightarrow> cptr \<Rightarrow> cptr \<Rightarrow> (int \<times> xmpp_stanza option) option" where
  "mio_item_transducer_add item device_id name i canActuate units unit_scalar has_own_event_node
     transducer_type_name manufacturer part_number serial min_value max_value resolution precision accuracy =
   (case item of
     None \<Rightarrow> Some (-1, None)
   | Some s \<Rightarrow> do {
       n \<leftarrow> find_child (named_with_id ''device'' device_id) (xmpp_stanza_get_children s);
       (case n of
          None \<Rightarrow> Some (-1, item)
        | Some n \<Rightarrow> do {
            let device = st_children s ! n;
            t \<leftarrow> find_child (named_with_id ''transducer'' i) (xmpp_stanza_get_children device);
            if t \<noteq> None then Some (-1, item)
            else do {
              transducer \<leftarrow> set_attr (stanza_named ''transducer'') ''id'' i;
              transducer \<leftarrow> set_attrs_opt [(''name'', name), (''canActuate'', canActuate), (''units'', units),
                 (''unitScalar'', unit_scalar), (''hasOwnEventNode'', has_own_event_node),
                 (''transducerTypeName'', transducer_type_name), (''manufacturer'', manufacturer),
                 (''partNumber'', part_number)] transducer;
              transducer \<leftarrow> (if part_number \<noteq> None then set_attr transducer ''serial'' serial else Some transducer);
              transducer \<leftarrow> set_attrs_opt [(''minValue'', min_value), (''maxValue'', max_value),
                 (''resolution'', resolution), (''precision'', precision), (''accuracy'', accuracy)] transducer;
              s' \<leftarrow> update_child n (\<lambda>d. Some (xmpp_stanza_add_child d transducer)) s;
              Some (0, Some s') } }) })"

section \<open>Values\<close>

text \<open>The element of the value is written through its pointer, a new one after it was attached.\<close>

definition value_attributes :: "cptr \<Rightarrow> cptr \<Rightarrow> cptr \<Rightarrow> cptr \<Rightarrow> xmpp_stanza \<Rightarrow> xmpp_stanza option" where
  "value_attributes i typed_val raw_val timestamp v = do {
     v \<leftarrow> set_attr_opt v ''id'' i;
     v \<leftarrow> set_attr v ''typedValue'' typed_val;
     set_attrs_opt [(''rawValue'', raw_val), (''timestamp'', timestamp)] v }"

definition value_new :: "bool \<Rightarrow> xmpp_stanza" where
  "value_new actuate = stanza_named (if actuate then ''transducerSetValue'' else ''transducerValue'')"

text \<open>The test for a value with the identifier; a value without one is passed over.\<close>

definition is_value_with_id :: "string \<Rightarrow> xmpp_stanza \<Rightarrow> bool option" where
  "is_value_with_id i v = do {
     a \<leftarrow> is_named ''transducerValue'' v;
     b \<leftarrow> (if a then Some True else is_named ''transducerSetValue'' v);
     if b then do {
       vi \<leftarrow> xmpp_stanza_get_attribute v ''id'';
       if vi \<noteq> None then c_streq vi (Some i) else Some False }
     else Some False }"

definition item_transducer_value_add :: "xmpp_stanza option \<Rightarrow> cptr \<Rightarrow> cptr \<Rightarrow> cptr \<Rightarrow> cptr \<Rightarrow> cptr \<Rightarrow> bool
    \<Rightarrow> (int \<times> xmpp_stanza option) option" where
  "item_transducer_value_add item deviceID i typed_val raw_val timestamp actuate = (case item of
     None \<Rightarrow> Some (-1, None)
   | Some s \<Rightarrow> (case xmpp_stanza_get_children s of
       [] \<Rightarrow> Some (-1, item)
     | child # rest \<Rightarrow> do {
         data \<leftarrow> is_named ''data'' child;
         if \<not> data then do {
           n \<leftarrow> find_child (named_with_id ''device'' deviceID) (child # rest);
           (case n of
              None \<Rightarrow> Some (-1, item)
            | Some n \<Rightarrow> do {
                t \<leftarrow> find_child (named_with_id ''transducer'' i) (xmpp_stanza_get_children (st_children s ! n));
                (case t of
                   None \<Rightarrow> Some (-1, item)
                 | Some t \<Rightarrow> do {
                     v \<leftarrow> value_attributes i typed_val raw_val timestamp (value_new actuate);
                     s' \<leftarrow> update_child n (update_child t (\<lambda>tr. Some (xmpp_stanza_add_child tr v))) s;
                     Some (MIO_OK, Some s') }) }) }
         else do {
           p \<leftarrow> (case i of None \<Rightarrow> Some None | Some i \<Rightarrow> find_child (is_value_with_id i) (xmpp_stanza_get_children child));
           s' \<leftarrow> (case p of
              Some p \<Rightarrow> update_child 0 (update_child p (value_attributes i typed_val raw_val timestamp)) s
            | None \<Rightarrow> do {
                v \<leftarrow> value_attributes i typed_val raw_val timestamp (value_new actuate);
                update_child 0 (\<lambda>d. Some (xmpp_stanza_add_child d v)) s });
           Some (MIO_OK, Some s') } }))"

definition mio_item_transducer_value_actuate_add :: "xmpp_stanza option \<Rightarrow> cptr \<Rightarrow> cptr \<Rightarrow> cptr \<Rightarrow> cptr \<Rightarrow> cptr
    \<Rightarrow> (int \<times> xmpp_stanza option) option" where
  "mio_item_transducer_value_actuate_add item deviceID i typed_val raw_val timestamp =
     item_transducer_value_add item deviceID i typed_val raw_val timestamp True"

definition mio_item_transducer_value_add :: "xmpp_stanza option \<Rightarrow> cptr \<Rightarrow> cptr \<Rightarrow> cptr \<Rightarrow> cptr \<Rightarrow> cptr
    \<Rightarrow> (int \<times> xmpp_stanza option) option" where
  "mio_item_transducer_value_add item deviceID i typed_val raw_val timestamp =
     item_transducer_value_add item deviceID i typed_val raw_val timestamp False"

text \<open>The loop of \<open>mio_transducer_value_merge_publish\<close> that fills an item with the values of a list; the codes are ignored.\<close>

fun item_values_loop :: "xmpp_stanza option \<Rightarrow> mio_transducer_value list \<Rightarrow> xmpp_stanza option option" where
  "item_values_loop item [] = Some item"
| "item_values_loop item (cur # next) = do {
     (err, item) \<leftarrow> mio_item_transducer_value_add item None (tv_name cur) (tv_typed_value cur) (tv_raw_value cur) (tv_timestamp cur);
     item_values_loop item next }"

section \<open>Lemmas\<close>

lemma find_child_eq:
  "(\<And>c. c \<in> set cs \<Longrightarrow> test c = Some (P c)) \<Longrightarrow>
   find_child test cs = Some (if \<exists>c \<in> set cs. P c then Some (length (takeWhile (\<lambda>c. \<not> P c) cs)) else None)"
  by (induction cs) auto

lemma is_named_tag: "tag_wf s \<Longrightarrow> st_data s = Some n \<Longrightarrow> is_named m s = Some (n = m)"
  by (simp add: is_named_def xmpp_stanza_get_name_def tag_wf_def)

lemma has_id_tag: "tag_wf s \<Longrightarrow> has_id i s = c_streq (stanza_attr s ''id'') i"
  by (simp add: has_id_def get_attribute_attr)

lemma get_ns_attr: "tag_wf s \<Longrightarrow> xmpp_stanza_get_ns s = Some (stanza_attr s ''xmlns'')"
  using get_attribute_attr [of s "''xmlns''"] by (simp add: xmpp_stanza_get_ns_def xmpp_stanza_get_attribute_def)

lemma set_attrs_opt_tag:
  "tag_wf s \<Longrightarrow> list_all (\<lambda>kv. c_ascii (fst kv)) kvs \<Longrightarrow>
   set_attrs_opt kvs s = Some (foldl (\<lambda>s (k, v). put_attr s k v) s kvs)"
  by (induction kvs arbitrary: s) (auto simp: set_attr_opt_tag put_attr_tag)

definition value_put :: "cptr \<Rightarrow> cptr \<Rightarrow> cptr \<Rightarrow> cptr \<Rightarrow> xmpp_stanza \<Rightarrow> xmpp_stanza" where
  "value_put i tv raw ts v = put_attr (put_attr (put_attr (put_attr v ''id'' i) ''typedValue'' tv) ''rawValue'' raw) ''timestamp'' ts"

lemma value_attributes_eq:
  "tag_wf v \<Longrightarrow> value_attributes i (Some tv) raw ts v = Some (value_put i (Some tv) raw ts v)"
  by (simp add: value_attributes_def value_put_def set_attrs_opt_tag stanza_build)

lemma value_put_simps [simp]:
  assumes "tag_wf v"
  shows "tag_wf (value_put i tv raw ts v)" "st_data (value_put i tv raw ts v) = st_data v"
    "st_children (value_put i tv raw ts v) = st_children v"
  using assms by (simp_all add: value_put_def put_attr_tag)

lemma value_put_attr:
  assumes "tag_wf v"
  shows "stanza_attr (value_put i tv raw ts v) k =
     (if k = ''id'' then c_overwrite (stanza_attr v k) i
      else if k = ''typedValue'' then c_overwrite (stanza_attr v k) tv
      else if k = ''rawValue'' then c_overwrite (stanza_attr v k) raw
      else if k = ''timestamp'' then c_overwrite (stanza_attr v k) ts else stanza_attr v k)"
  using assms by (auto simp: value_put_def put_attr_tag c_overwrite_def split: option.splits)

lemma value_new_simps [simp]:
  "tag_wf (value_new a)" "st_data (value_new a) = Some (if a then ''transducerSetValue'' else ''transducerValue'')"
  "st_children (value_new a) = []" "stanza_attr (value_new a) = Map.empty"
  by (simp_all add: value_new_def)

text \<open>An item with one \<open>data\<close> element and the values below it.\<close>

definition is_value :: "xmpp_stanza \<Rightarrow> bool" where
  "is_value v \<longleftrightarrow> tag_wf v \<and> st_data v \<in> {Some ''transducerValue'', Some ''transducerSetValue''}"

definition data_item :: "xmpp_stanza \<Rightarrow> xmpp_stanza list \<Rightarrow> bool" where
  "data_item s vs \<longleftrightarrow> (\<exists>d. st_children s = [d] \<and> tag_wf d \<and> st_data d = Some ''data'' \<and> st_children d = vs) \<and> list_all is_value vs"

definition value_find :: "string \<Rightarrow> xmpp_stanza list \<Rightarrow> xmpp_stanza option" where
  "value_find i vs = find (\<lambda>v. stanza_attr v ''id'' = Some i) vs"

lemma is_value_with_id_eq: "is_value v \<Longrightarrow> is_value_with_id i v = Some (stanza_attr v ''id'' = Some i)"
  by (auto simp: is_value_def is_value_with_id_def is_named_tag get_attribute_attr)

fun value_upsert :: "string \<Rightarrow> (xmpp_stanza \<Rightarrow> xmpp_stanza) \<Rightarrow> xmpp_stanza \<Rightarrow> xmpp_stanza list \<Rightarrow> xmpp_stanza list" where
  "value_upsert i f new [] = [new]"
| "value_upsert i f new (v # vs) = (if stanza_attr v ''id'' = Some i then f v # vs else v # value_upsert i f new vs)"

lemma value_upsert_new: "value_find i vs = None \<Longrightarrow> value_upsert i f new vs = vs @ [new]"
  by (induction vs) (auto simp: value_find_def split: if_splits)

lemma value_upsert_old:
  "value_find i vs = Some v \<Longrightarrow> n = length (takeWhile (\<lambda>c. stanza_attr c ''id'' \<noteq> Some i) vs) \<Longrightarrow>
     n < length vs \<and> vs ! n = v \<and> value_upsert i f new vs = vs[n := f v]"
  by (induction vs arbitrary: n) (auto simp: value_find_def split: if_splits)

lemma value_find_None: "value_find i vs = None \<longleftrightarrow> \<not> (\<exists>c \<in> set vs. stanza_attr c ''id'' = Some i)"
  by (auto simp: value_find_def find_None_iff)

lemma value_add_upsert:
  assumes "data_item s vs"
  shows "\<exists>s'. item_transducer_value_add (Some s) dev (Some i) (Some tv) raw ts act = Some (MIO_OK, Some s') \<and>
     st_type s' = st_type s \<and> st_data s' = st_data s \<and> st_attributes s' = st_attributes s \<and>
     data_item s' (value_upsert i (value_put (Some i) (Some tv) raw ts) (value_put (Some i) (Some tv) raw ts (value_new act)) vs)"
proof -
  obtain d where d: "st_children s = [d]" "tag_wf d" "st_data d = Some ''data''" "st_children d = vs"
    and vs: "list_all is_value vs"
    using assms by (auto simp: data_item_def)
  let ?put = "value_put (Some i) (Some tv) raw ts" and ?new = "value_put (Some i) (Some tv) raw ts (value_new act)"
  have new: "is_value ?new" by (simp add: is_value_def)
  have find: "find_child (is_value_with_id i) vs = Some (if value_find i vs = None then None
      else Some (length (takeWhile (\<lambda>c. stanza_attr c ''id'' \<noteq> Some i) vs)))"
    using find_child_eq [of vs "is_value_with_id i" "\<lambda>v. stanza_attr v ''id'' = Some i"] vs
    by (auto simp: list_all_iff is_value_with_id_eq value_find_None)
  show ?thesis
  proof (cases "value_find i vs")
    case None
    let ?d = "xmpp_stanza_add_child d ?new"
    have "item_transducer_value_add (Some s) dev (Some i) (Some tv) raw ts act =
        Some (MIO_OK, Some (Stanza (st_type s) (st_data s) (st_attributes s) [?d]))"
      using d find None
      by (simp add: item_transducer_value_add_def xmpp_stanza_get_children_def is_named_tag value_attributes_eq update_child_def)
    with d vs new None show ?thesis by (auto simp: data_item_def value_upsert_new)
  next
    case (Some v)
    define n where "n = length (takeWhile (\<lambda>c. stanza_attr c ''id'' \<noteq> Some i) vs)"
    have n: "n < length vs" "vs ! n = v" "value_upsert i ?put ?new vs = vs[n := ?put v]"
      using value_upsert_old [OF Some n_def] by auto
    have v: "is_value v" using vs n(1,2) by (auto simp: list_all_length)
    then have tv: "tag_wf v" by (simp add: is_value_def)
    let ?d = "Stanza (st_type d) (st_data d) (st_attributes d) (vs[n := ?put v])"
    have "item_transducer_value_add (Some s) dev (Some i) (Some tv) raw ts act =
        Some (MIO_OK, Some (Stanza (st_type s) (st_data s) (st_attributes s) [?d]))"
      using d find Some n tv
      by (simp add: item_transducer_value_add_def xmpp_stanza_get_children_def is_named_tag value_attributes_eq
          update_child_def n_def [symmetric])
    moreover have "list_all is_value (vs[n := ?put v])"
      using vs v tv set_update_subset_insert [of vs n "?put v"] by (auto simp: list_all_iff is_value_def)
    moreover have "tag_wf ?d" using d(2) by (simp add: tag_wf_def)
    ultimately show ?thesis using d n by (auto simp: data_item_def)
  qed
qed

lemma value_find_upsert_other:
  assumes "j \<noteq> i" "\<And>v. v \<in> set vs \<Longrightarrow> stanza_attr (f v) ''id'' = Some i" "stanza_attr new ''id'' = Some i"
  shows "value_find j (value_upsert i f new vs) = value_find j vs"
  using assms(2) by (induction vs) (use assms(1,3) in \<open>auto simp: value_find_def\<close>)

lemma value_find_upsert_same:
  assumes "\<And>v. v \<in> set vs \<Longrightarrow> stanza_attr (f v) ''id'' = Some i" "stanza_attr new ''id'' = Some i"
  shows "value_find i (value_upsert i f new vs) = Some (case value_find i vs of None \<Rightarrow> new | Some v \<Rightarrow> f v)"
  using assms(1) by (induction vs) (use assms(2) in \<open>auto simp: value_find_def\<close>)

lemma length_value_upsert:
  "length (value_upsert i f new vs) = length vs + (if value_find i vs = None then 1 else 0)"
  by (induction vs) (auto simp: value_find_def)

section \<open>Properties\<close>

text \<open>Adding a value to a data item is an update by identifier: the value with the identifier gets the new typed
  value, and the raw value and the time stamp if they are given; if there is none it is appended as a set value or a
  plain value. All other values stay as they are.\<close>

theorem value_add_spec:
  assumes "data_item s vs"
  shows "\<exists>s' vs' v'. item_transducer_value_add (Some s) dev (Some i) (Some tv) raw ts act = Some (MIO_OK, Some s') \<and>
     data_item s' vs' \<and> length vs' = length vs + (if value_find i vs = None then 1 else 0) \<and>
     (\<forall>j. j \<noteq> i \<longrightarrow> value_find j vs' = value_find j vs) \<and> value_find i vs' = Some v' \<and>
     (let v = (case value_find i vs of None \<Rightarrow> value_new act | Some v \<Rightarrow> v) in
        st_data v' = st_data v \<and> stanza_attr v' ''typedValue'' = Some tv \<and>
        stanza_attr v' ''rawValue'' = c_overwrite (stanza_attr v ''rawValue'') raw \<and>
        stanza_attr v' ''timestamp'' = c_overwrite (stanza_attr v ''timestamp'') ts)"
proof -
  let ?put = "value_put (Some i) (Some tv) raw ts"
  let ?vs = "value_upsert i ?put (?put (value_new act)) vs"
  let ?v = "case value_find i vs of None \<Rightarrow> value_new act | Some v \<Rightarrow> v"
  have wf: "tag_wf v" if "v \<in> set vs" for v
    using assms that by (auto simp: data_item_def list_all_iff is_value_def)
  have ids: "\<And>v. v \<in> set vs \<Longrightarrow> stanza_attr (?put v) ''id'' = Some i" "stanza_attr (?put (value_new act)) ''id'' = Some i"
    using value_put_attr [OF wf] value_put_attr [OF value_new_simps(1)] by simp_all
  have tv: "tag_wf ?v"
  proof (cases "value_find i vs")
    case (Some v)
    then have "v \<in> set vs" by (auto simp: value_find_def find_Some_iff)
    with wf Some show ?thesis by simp
  qed simp
  obtain s' where s': "item_transducer_value_add (Some s) dev (Some i) (Some tv) raw ts act = Some (MIO_OK, Some s')" "data_item s' ?vs"
    using value_add_upsert [OF assms] by blast
  have find: "value_find i ?vs = Some (?put ?v)"
    using value_find_upsert_same [OF ids, of vs] by (cases "value_find i vs") simp_all
  have others: "\<forall>j. j \<noteq> i \<longrightarrow> value_find j ?vs = value_find j vs"
    by (intro allI impI value_find_upsert_other ids)
  have "st_data (?put ?v) = st_data ?v \<and> stanza_attr (?put ?v) ''typedValue'' = Some tv \<and>
      stanza_attr (?put ?v) ''rawValue'' = c_overwrite (stanza_attr ?v ''rawValue'') raw \<and>
      stanza_attr (?put ?v) ''timestamp'' = c_overwrite (stanza_attr ?v ''timestamp'') ts"
    by (simp add: value_put_attr [OF tv] value_put_simps [OF tv])
  with s' find others length_value_upsert [of i ?put "?put (value_new act)" vs] show ?thesis
    unfolding Let_def by blast
qed

definition example_data_item :: xmpp_stanza where
  "example_data_item = the mio_pubsub_item_data_new"

lemma data_item_example: "data_item example_data_item []"
  by (auto simp: data_item_def example_data_item_def mio_pubsub_item_data_new_def mio_pubsub_item_new_def stanza_build)

theorem value_add_spec_witness:
  "\<exists>s' vs' v'. item_transducer_value_add (Some example_data_item) None (Some ''t'') (Some ''21'') None None False =
       Some (MIO_OK, Some s') \<and> data_item s' vs' \<and> length vs' = 1 \<and> value_find ''t'' vs' = Some v' \<and>
     stanza_attr v' ''typedValue'' = Some ''21''"
  using value_add_spec [OF data_item_example, of None "''t''" "''21''" None None False]
  by (simp add: value_find_def Let_def) metis

lemma device_scan_tag:
  "tag_wf d \<Longrightarrow> st_data d = Some ''device'' \<Longrightarrow> device_scan i w (d # ds) =
     (if stanza_attr d ''xmlns'' = None then None else do {
        dup \<leftarrow> c_streq (stanza_attr d ''id'') i;
        let w' = (if stanza_attr d ''xmlns'' = Some mio_ns then False else w);
        if dup then Some (True, w') else device_scan i w' ds })"
  by (cases "stanza_attr d ''xmlns''") (auto simp: is_named_tag get_ns_attr has_id_tag Let_def split: Option.bind_splits)

lemma device_add_scan:
  assumes "device_scan (Some i) True (st_children s) = Some (False, w)"
  shows "\<exists>d. mio_item_device_add (Some s) (Some i) ty descr serial (Some ts) = Some (0, Some (xmpp_stanza_add_child s d)) \<and>
     tag_wf d \<and> st_data d = Some ''device'' \<and> stanza_attr d ''id'' = Some i \<and>
     stanza_attr d ''xmlns'' = (if w then Some mio_ns else None)"
  using assms
  by (cases w) (auto simp: mio_item_device_add_def xmpp_stanza_get_children_def set_attrs_opt_tag stanza_build split: option.splits)

text \<open>An item holds at most two devices: the first one added gets the namespace and the second one does not; adding a
  third passes the missing namespace of the second to \<open>strcmp\<close>, which is undefined.\<close>

theorem third_device_undefined:
  assumes "st_children s = []" "i1 \<noteq> i2" "i3 \<noteq> i1"
  shows "\<exists>s1 s2. mio_item_device_add (Some s) (Some i1) ty descr serial (Some ts) = Some (0, Some s1) \<and>
     mio_item_device_add (Some s1) (Some i2) ty descr serial (Some ts) = Some (0, Some s2) \<and>
     mio_item_device_add (Some s2) (Some i3) ty descr serial (Some ts) = None"
proof -
  have "device_scan (Some i1) True (st_children s) = Some (False, True)" using assms(1) by simp
  from device_add_scan [OF this, of ty descr serial ts] obtain d1 where d1:
    "mio_item_device_add (Some s) (Some i1) ty descr serial (Some ts) = Some (0, Some (xmpp_stanza_add_child s d1))"
    "tag_wf d1" "st_data d1 = Some ''device''" "stanza_attr d1 ''id'' = Some i1" "stanza_attr d1 ''xmlns'' = Some mio_ns"
    by auto
  let ?s1 = "xmpp_stanza_add_child s d1"
  have "device_scan (Some i2) True (st_children ?s1) = Some (False, False)"
    using d1 assms by (simp add: device_scan_tag Let_def del: device_scan.simps(2))
  from device_add_scan [OF this, of ty descr serial ts] obtain d2 where d2:
    "mio_item_device_add (Some ?s1) (Some i2) ty descr serial (Some ts) = Some (0, Some (xmpp_stanza_add_child ?s1 d2))"
    "tag_wf d2" "st_data d2 = Some ''device''" "stanza_attr d2 ''xmlns'' = None"
    by auto
  let ?s2 = "xmpp_stanza_add_child ?s1 d2"
  have "device_scan (Some i3) True (st_children ?s2) = None"
    using d1 d2 assms by (simp add: device_scan_tag Let_def del: device_scan.simps(2))
  then have "mio_item_device_add (Some ?s2) (Some i3) ty descr serial (Some ts) = None"
    by (simp add: mio_item_device_add_def xmpp_stanza_get_children_def)
  with d1(1) d2(1) show ?thesis by blast
qed

theorem third_device_undefined_witness:
  "\<exists>s1 s2. mio_item_device_add (Some (stanza_named ''item'')) (Some ''a'') None None None (Some ''now'') = Some (0, Some s1) \<and>
     mio_item_device_add (Some s1) (Some ''b'') None None None (Some ''now'') = Some (0, Some s2) \<and>
     mio_item_device_add (Some s2) (Some ''c'') None None None (Some ''now'') = None"
  by (rule third_device_undefined) simp_all

end
