(* ===== verification/Mio_Roundtrip_Data.thy ===== *)
theory Mio_Roundtrip_Data
  imports Mio_Roundtrip Mio_Items
begin

text \<open>
  What is published comes back, continued: the values that \<open>mio_item_transducer_value_add\<close> puts into a data item are the
  values \<open>mio_handler_item_recent_get\<close> collects from the reply that carries the item.
\<close>

section \<open>The item of a list of values\<close>

definition value_tag :: "mio_transducer_value \<Rightarrow> xmpp_stanza" where
  "value_tag t = value_put (tv_name t) (tv_typed_value t) (tv_raw_value t) (tv_timestamp t) (value_new False)"

definition value_ok :: "mio_transducer_value \<Rightarrow> bool" where
  "value_ok t \<longleftrightarrow> tv_name t \<noteq> None \<and> tv_typed_value t \<noteq> None"

lemma value_tag_simps [simp]:
  "tag_wf (value_tag t)" "st_data (value_tag t) = Some ''transducerValue''" "st_children (value_tag t) = []"
  by (simp_all add: value_tag_def)

lemma value_tag_attr:
  "stanza_attr (value_tag t) k =
     (if k = ''id'' then tv_name t else if k = ''typedValue'' then tv_typed_value t
      else if k = ''rawValue'' then tv_raw_value t else if k = ''timestamp'' then tv_timestamp t else None)"
  by (simp add: value_tag_def value_put_attr)

lemma item_values_loop_ok:
  assumes "data_item s vs" "list_all value_ok ts" "distinct (map tv_name ts)"
    and "\<forall>t \<in> set ts. value_find (the (tv_name t)) vs = None"
  shows "\<exists>s'. item_values_loop (Some s) ts = Some (Some s') \<and> st_type s' = st_type s \<and> st_data s' = st_data s \<and>
     st_attributes s' = st_attributes s \<and> data_item s' (vs @ map value_tag ts)"
  using assms
proof (induction ts arbitrary: s vs)
  case (Cons t ts)
  obtain i tv where t: "tv_name t = Some i" "tv_typed_value t = Some tv" using Cons.prems(2) by (auto simp: value_ok_def)
  have "value_find i vs = None" using Cons.prems(4) t by simp
  then obtain s1 where s1: "item_transducer_value_add (Some s) None (tv_name t) (tv_typed_value t) (tv_raw_value t) (tv_timestamp t) False =
      Some (MIO_OK, Some s1)" "st_type s1 = st_type s" "st_data s1 = st_data s" "st_attributes s1 = st_attributes s"
    "data_item s1 (vs @ [value_tag t])"
    using value_add_upsert [OF Cons.prems(1), of None i tv "tv_raw_value t" "tv_timestamp t" False] t
    by (auto simp: value_upsert_new value_tag_def)
  have "value_find (the (tv_name u)) (vs @ [value_tag t]) = None" if u: "u \<in> set ts" for u
  proof -
    have "tv_name u \<noteq> tv_name t" using Cons.prems(3) u imageI [OF u, of tv_name] by force
    moreover have "tv_name u \<noteq> None" using Cons.prems(2) u by (auto simp: list_all_iff value_ok_def)
    ultimately have "the (tv_name u) \<noteq> i" using t by auto
    then show ?thesis using Cons.prems(4) u t by (auto simp: value_find_None value_tag_attr)
  qed
  then obtain s2 where "item_values_loop (Some s1) ts = Some (Some s2)" "st_type s2 = st_type s1" "st_data s2 = st_data s1"
    "st_attributes s2 = st_attributes s1" "data_item s2 ((vs @ [value_tag t]) @ map value_tag ts)"
    using Cons.IH [OF s1(5)] Cons.prems(2,3) by auto
  with s1 show ?case by (simp add: mio_item_transducer_value_add_def)
qed simp

section \<open>Receiving the values\<close>

definition plain_value :: "mio_transducer_value \<Rightarrow> mio_transducer_value" where
  "plain_value t = t\<lparr>tv_type := MIO_TRANSDUCER_VALUE, tv_id := 0\<rparr>"

definition data_extend :: "mio_data \<Rightarrow> mio_transducer_value list \<Rightarrow> mio_data" where
  "data_extend d ts = d\<lparr>dt_transducers := dt_transducers d @ map plain_value ts,
     dt_num_transducers := dt_num_transducers d + int (length ts)\<rparr>"

definition resp_data :: "mio_response \<Rightarrow> mio_packet \<Rightarrow> mio_data \<Rightarrow> mio_transducer_value list \<Rightarrow> mio_response" where
  "resp_data R p d ts = (if ts = [] then R
     else R\<lparr>rsp_response := RPacket (p\<lparr>pkt_payload := PData (data_extend d ts)\<rparr>), rsp_response_type := MIO_RESPONSE_PACKET\<rparr>)"

lemma value_tag_complete: "iter_complete (value_tag t)"
proof (rule iter_completeI [where K = "{''id'', ''typedValue'', ''rawValue'', ''timestamp''}" and lastkey = "''timestamp''"])
  show "dom (stanza_attr (value_tag t)) \<subseteq> {''id'', ''typedValue'', ''rawValue'', ''timestamp''}"
    by (auto simp: value_tag_attr split: if_splits)
qed (auto simp: hash_key_names)

lemma value_tag_received:
  "mio_data_transducer_value_add d MIO_TRANSDUCER_VALUE 0 (attr_last ''id'' None (stanza_pairs (value_tag t)))
     (attr_last ''typedValue'' None (stanza_pairs (value_tag t))) (attr_last ''rawValue'' None (stanza_pairs (value_tag t)))
     (attr_last ''timestamp'' None (stanza_pairs (value_tag t))) = data_extend d [t]"
proof -
  have "attr_last k None (stanza_pairs (value_tag t)) = stanza_attr (value_tag t) k" for k
    using attr_last_map_of [OF distinct_stanza_pairs, of "value_tag t" k None]
    by (simp add: map_of_stanza_pairs value_tag_complete split: option.splits)
  then show ?thesis
    by (simp add: value_tag_attr mio_data_transducer_value_add_eq data_extend_def plain_value_def)
qed

lemma value_tag_run:
  assumes "xd_in n d ps xd" "xd_packet xd = Some p" "pkt_payload p = PData dt"
  shows "\<exists>xd'. xml_run mio_XMLstart_pubsub_data_receive xd (sax_events (value_tag t)) = Some xd' \<and> xd_in n d ps xd' \<and>
     xd_response xd' = resp_data (xd_response xd) p dt [t]"
proof -
  obtain xd1 where 1: "xml_data_update_start_element xd ''transducerValue'' = Some xd1"
    "xd_in ''transducerValue'' (d + 1) (Some n # ps) xd1" "xd_same xd xd1"
    using xd_start_in [OF assms(1)] by blast
  let ?xd2 = "xd_set_packet (p\<lparr>pkt_payload := PData (data_extend dt [t])\<rparr>) (xd_set_type MIO_RESPONSE_PACKET xd1)"
  have "mio_XMLstart_pubsub_data_receive xd ''transducerValue'' (stanza_pairs (value_tag t)) = Some ?xd2"
    using 1(1) assms(2,3)
    by (simp add: mio_XMLstart_pubsub_data_receive_def as_data_def value_tag_received)
  moreover have "xd_in ''transducerValue'' (d + 1) (Some n # ps) ?xd2" using 1(2) by simp
  ultimately obtain xd3 where "xml_run mio_XMLstart_pubsub_data_receive xd (sax_events (value_tag t)) = Some xd3"
    "xd_in n d ps xd3" "xd_same ?xd2 xd3"
    using run_tag [OF assms(1) value_tag_simps(1,2), of mio_XMLstart_pubsub_data_receive t ?xd2 ?xd2] by auto
  with 1(3) show ?thesis by (auto simp: xd_same_def resp_data_def xd_set_packet_def xd_set_type_def)
qed

lemma value_tags_run:
  assumes "xd_in n d ps xd" "xd_packet xd = Some p" "pkt_payload p = PData dt"
  shows "\<exists>xd'. xml_run mio_XMLstart_pubsub_data_receive xd (concat (map sax_events (map value_tag ts))) = Some xd' \<and>
     xd_in n d ps xd' \<and> xd_response xd' = resp_data (xd_response xd) p dt ts"
  using assms
proof (induction ts arbitrary: xd p dt)
  case (Cons t ts)
  obtain xd1 where 1: "xml_run mio_XMLstart_pubsub_data_receive xd (sax_events (value_tag t)) = Some xd1"
    "xd_in n d ps xd1" "xd_response xd1 = resp_data (xd_response xd) p dt [t]"
    using value_tag_run [OF Cons.prems] by blast
  let ?p = "p\<lparr>pkt_payload := PData (data_extend dt [t])\<rparr>"
  have "xd_packet xd1 = Some ?p" using 1(3) by (simp add: xd_packet_def resp_data_def)
  then obtain xd2 where "xml_run mio_XMLstart_pubsub_data_receive xd1 (concat (map sax_events (map value_tag ts))) = Some xd2"
    "xd_in n d ps xd2" "xd_response xd2 = resp_data (xd_response xd1) ?p (data_extend dt [t]) ts"
    using Cons.IH [OF 1(2)] by fastforce
  moreover from this(3) 1(3) have "xd_response xd2 = resp_data (xd_response xd) p dt (t # ts)"
    by (cases "ts = []") (simp_all add: resp_data_def data_extend_def)
  ultimately show ?case using 1(1) by (simp add: xml_run_append)
qed (simp add: resp_data_def)

section \<open>The reply\<close>

lemma data_plain:
  assumes "nm \<notin> {''items'', ''transducerValue'', ''transducerSetValue''}" "xd_packet xd = Some p" "pkt_payload p = PData dt"
  shows "mio_XMLstart_pubsub_data_receive xd nm attr = xml_data_update_start_element xd nm"
  using assms by (simp add: mio_XMLstart_pubsub_data_receive_def as_data_def)

lemma run_data_tag:
  assumes "xd_in n d ps xd" "xd_packet xd = Some p" "pkt_payload p = PData dt" "tag_wf s" "st_data s = Some nm"
    and "nm \<notin> {''items'', ''transducerValue'', ''transducerSetValue''}"
    and inner: "\<And>xd1. xd_in nm (d + 1) (Some n # ps) xd1 \<Longrightarrow> xd_response xd1 = xd_response xd \<Longrightarrow>
      \<exists>xd2. xml_run mio_XMLstart_pubsub_data_receive xd1 (concat (map sax_events (st_children s))) = Some xd2 \<and>
        xd_in nm (d + 1) (Some n # ps) xd2 \<and> xd_response xd2 = R"
  shows "\<exists>xd'. xml_run mio_XMLstart_pubsub_data_receive xd (sax_events s) = Some xd' \<and> xd_in n d ps xd' \<and> xd_response xd' = R"
proof -
  obtain xd1 where 1: "mio_XMLstart_pubsub_data_receive xd nm (stanza_pairs s) = Some xd1"
    "xd_in nm (d + 1) (Some n # ps) xd1" "xd_response xd1 = xd_response xd"
    using xd_start_in [OF assms(1), of nm] data_plain [OF assms(6,2,3)] by (auto simp: xd_same_def)
  from inner [OF 1(2,3)] obtain xd2 where 2: "xml_run mio_XMLstart_pubsub_data_receive xd1 (concat (map sax_events (st_children s))) = Some xd2"
    "xd_in nm (d + 1) (Some n # ps) xd2" "xd_response xd2 = R" by blast
  from run_tag [OF assms(1,4,5) 1(1) 2(1,2)] 2(3) show ?thesis by (auto simp: xd_same_def)
qed

lemma data_item_run:
  assumes "data_item s (map value_tag ts)" "tag_wf s" "st_data s = Some ''item''"
    and "xd_in n d ps xd" "xd_packet xd = Some p" "pkt_payload p = PData dt"
  shows "\<exists>xd'. xml_run mio_XMLstart_pubsub_data_receive xd (sax_events s) = Some xd' \<and> xd_in n d ps xd' \<and>
     xd_response xd' = resp_data (xd_response xd) p dt ts"
proof (rule run_data_tag [OF assms(4-6,2,3)])
  obtain da where da: "st_children s = [da]" "tag_wf da" "st_data da = Some ''data''" "st_children da = map value_tag ts"
    using assms(1) by (auto simp: data_item_def)
  fix xd1 assume 1: "xd_in ''item'' (d + 1) (Some n # ps) xd1" "xd_response xd1 = xd_response xd"
  then have p1: "xd_packet xd1 = Some p" using assms(5) by (simp add: xd_packet_def)
  have "\<exists>xd2. xml_run mio_XMLstart_pubsub_data_receive xd1 (sax_events da) = Some xd2 \<and>
      xd_in ''item'' (d + 1) (Some n # ps) xd2 \<and> xd_response xd2 = resp_data (xd_response xd) p dt ts"
  proof (rule run_data_tag [OF 1(1) p1 assms(6) da(2,3)])
    fix xd2 assume 2: "xd_in ''data'' (d + 1 + 1) (Some ''item'' # Some n # ps) xd2" "xd_response xd2 = xd_response xd1"
    then have "xd_packet xd2 = Some p" using p1 by (simp add: xd_packet_def)
    from value_tags_run [OF 2(1) this assms(6), of ts] 1(2) 2(2) da(4)
    show "\<exists>xd3. xml_run mio_XMLstart_pubsub_data_receive xd2 (concat (map sax_events (st_children da))) = Some xd3 \<and>
        xd_in ''data'' (d + 1 + 1) (Some ''item'' # Some n # ps) xd3 \<and> xd_response xd3 = resp_data (xd_response xd) p dt ts"
      by simp
  qed simp
  with da(1) show "\<exists>xd2. xml_run mio_XMLstart_pubsub_data_receive xd1 (concat (map sax_events (st_children s))) = Some xd2 \<and>
      xd_in ''item'' (d + 1) (Some n # ps) xd2 \<and> xd_response xd2 = resp_data (xd_response xd) p dt ts"
    by simp
qed simp

lemma map_of_single:
  assumes "distinct (map fst xs)" "map_of xs = [k \<mapsto> v]"
  shows "xs = [(k, v)]"
proof (cases xs)
  case Nil
  with assms(2) have "map_of [] k = [k \<mapsto> v] k" by metis
  then show ?thesis by simp
next
  case (Cons x ys)
  obtain a b where x: "x = (a, b)" by (cases x)
  have m: "[k \<mapsto> v] a = Some b" using assms(2) Cons x by (metis map_of_Cons_code(2))
  have "ys = []"
  proof (cases ys)
    case (Cons y zs)
    obtain c e where y: "y = (c, e)" by (cases y)
    have "map_of xs c = Some e" "c \<noteq> a" using assms(1) \<open>xs = x # ys\<close> x y Cons by auto
    then show ?thesis using m assms(2) by (auto split: if_splits)
  qed
  with m Cons x show ?thesis by (auto split: if_splits)
qed

text \<open>The attributes of an \<open>items\<close> element that names its node.\<close>

definition items_attrs :: "string \<Rightarrow> hash_t option" where
  "items_attrs node = st_attributes (put_attr (stanza_named ''items'') ''node'' (Some node))"

lemma items_attrs_pairs: "stanza_pairs (Stanza XMPP_STANZA_TAG (Some ''items'') (items_attrs node) cs) = [(''node'', node)]"
proof -
  let ?s = "put_attr (stanza_named ''items'') ''node'' (Some node)"
  have wf: "tag_wf ?s" and at: "stanza_attr ?s = [''node'' \<mapsto> node]" by (simp_all add: put_attr_tag)
  have "iter_complete ?s"
    by (rule iter_completeI [OF wf, where K = "{''node''}" and lastkey = "[]"]) (auto simp: at hash_key_names)
  then have m: "map_of (stanza_pairs ?s) = [''node'' \<mapsto> node]" using map_of_stanza_pairs [OF wf] at by simp
  have ds: "distinct (map fst (stanza_pairs ?s))" by (rule distinct_stanza_pairs [OF wf])
  have "stanza_pairs ?s = [(''node'', node)]" by (rule map_of_single [OF ds m])
  then show ?thesis by (simp add: stanza_pairs_def items_attrs_def)
qed

lemma data_reply:
  assumes "mio_pubsub_item_data_new = Some s0" "item_values_loop (Some s0) ts = Some (Some item)"
    and "list_all value_ok ts" "distinct (map tv_name ts)"
    and expat: "expat_delivers expat (item_reply a1 a2 (items_attrs node) item)"
  shows "\<exists>r. mio_handler_item_recent_get expat True (item_reply a1 a2 (items_attrs node) item) response = Some (MIO_OK, r, True) \<and>
     rsp_response_type r = MIO_RESPONSE_PACKET \<and>
     rsp_response r = RPacket \<lparr>pkt_id = None, pkt_type = MIO_PACKET_DATA, pkt_num_payloads = 1,
       pkt_payload = PData \<lparr>dt_event = Some node, dt_num_transducers = int (length ts), dt_transducers = map plain_value ts\<rparr>\<rparr>"
proof -
  let ?reply = "item_reply a1 a2 (items_attrs node) item"
  let ?q = "mio_packet_payload_add mio_packet_new (PData mio_data_new) MIO_PACKET_DATA"
  let ?d = "mio_data_new\<lparr>dt_event := Some node\<rparr>"
  let ?p = "?q\<lparr>pkt_payload := PData ?d, pkt_num_payloads := 1\<rparr>"
  let ?R0 = "response\<lparr>rsp_stanza := Some ?reply, rsp_response := RPacket ?q\<rparr>"
  let ?R1 = "?R0\<lparr>rsp_response := RPacket ?p\<rparr>"
  have s0: "data_item s0 []" "tag_wf s0" "st_data s0 = Some ''item''"
    using assms(1) by (auto simp: mio_pubsub_item_data_new_def data_item_def)
  have item: "data_item item (map value_tag ts)" "tag_wf item" "st_data item = Some ''item''"
    using item_values_loop_ok [OF s0(1) assms(3,4)] assms(2) s0(2,3) by (auto simp: value_find_def tag_wf_def)
  have "\<exists>xd'. xml_run mio_XMLstart_pubsub_data_receive (xml_data_new ?R0 XChars_none) (sax_events ?reply) = Some xd' \<and>
      xd_response xd' = resp_data ?R1 ?p ?d ts"
  proof -
    have p0: "pkt_payload ?q = PData mio_data_new" "pkt_num_payloads ?q = 0"
      by (simp_all add: mio_packet_payload_add_def mio_packet_new_def)
    have outer: "mio_XMLstart_pubsub_data_receive xd nm attr = xml_data_update_start_element xd nm"
      if "nm \<in> {''iq'', ''pubsub''}" "xd_response xd = ?R0" for xd nm attr
      using data_plain [of nm xd ?q mio_data_new attr] that p0 by (auto simp: xd_packet_def)
    have items: "mio_XMLstart_pubsub_data_receive xd ''items'' (stanza_pairs (Stanza XMPP_STANZA_TAG (Some ''items'') (items_attrs node) [item])) =
        Some (xd'\<lparr>xd_response := ?R1\<rparr>)"
      if "xml_data_update_start_element xd ''items'' = Some xd'" "xd_response xd' = ?R0" "xd_response xd = ?R0" for xd xd'
      using that p0 by (simp add: mio_XMLstart_pubsub_data_receive_def items_attrs_pairs xd_packet_def as_data_def xd_set_packet_def)
    have inner: "\<exists>xd'. xml_run mio_XMLstart_pubsub_data_receive xd (sax_events item) = Some xd' \<and>
        xd_in ''items'' 3 items_chain xd' \<and> xd_response xd' = resp_data ?R1 ?p ?d ts"
      if "xd_in ''items'' 3 items_chain xd" "xd_response xd = ?R1" for xd
      using data_item_run [OF item that(1), of ?p ?d] that(2) by (simp add: xd_packet_def)
    show ?thesis by (rule item_reply_run [OF outer items inner])
  qed
  then show ?thesis
    by (auto simp: mio_handler_item_recent_get_def handler_packet_parse_def mio_xml_parse_delivers [OF expat]
        resp_data_def data_extend_def mio_packet_payload_add_def mio_packet_new_def mio_data_new_def)
qed

section \<open>Property\<close>

text \<open>C11: Publishing measurements and fetching them gives them back: for values with distinct names that all have a typed
  value, the handler of the item query, run on a reply that carries the data item filled with them, returns MIO_OK and
  leaves a data packet with the name of the node, the values in their order (as plain values, with the numeric identifier
  0), and their number.\<close>

theorem data_roundtrip:
  assumes "mio_pubsub_item_data_new = Some s0" "item_values_loop (Some s0) ts = Some (Some item)"
    and "list_all value_ok ts" "distinct (map tv_name ts)"
    and "expat_delivers expat (item_reply a1 a2 (items_attrs node) item)"
  shows "\<exists>r. mio_handler_item_recent_get expat True (item_reply a1 a2 (items_attrs node) item) response = Some (MIO_OK, r, True) \<and>
     rsp_response_type r = MIO_RESPONSE_PACKET \<and>
     rsp_response r = RPacket \<lparr>pkt_id = None, pkt_type = MIO_PACKET_DATA, pkt_num_payloads = 1,
       pkt_payload = PData \<lparr>dt_event = Some node, dt_num_transducers = int (length ts), dt_transducers = map plain_value ts\<rparr>\<rparr>"
  by (rule data_reply [OF assms])

definition example_values :: "mio_transducer_value list" where
  "example_values = [mio_transducer_value_new\<lparr>tv_name := Some ''t'', tv_typed_value := Some ''21''\<rparr>,
     mio_transducer_value_new\<lparr>tv_name := Some ''h'', tv_typed_value := Some ''40'', tv_raw_value := Some ''40.2''\<rparr>]"

definition example_values_item :: xmpp_stanza where
  "example_values_item = the (the (item_values_loop mio_pubsub_item_data_new example_values))"

lemma example_values_ok:
  "mio_pubsub_item_data_new = Some example_data_item" "list_all value_ok example_values" "distinct (map tv_name example_values)"
  "item_values_loop (Some example_data_item) example_values = Some (Some example_values_item)"
  "printable example_values_item"
proof -
  show 1: "mio_pubsub_item_data_new = Some example_data_item"
    by (simp add: example_data_item_def mio_pubsub_item_data_new_def)
  show 2: "list_all value_ok example_values" "distinct (map tv_name example_values)"
    by (simp_all add: example_values_def value_ok_def)
  obtain s where s: "item_values_loop (Some example_data_item) example_values = Some (Some s)"
    "st_type s = st_type example_data_item" "st_data s = st_data example_data_item" "data_item s (map value_tag example_values)"
    using item_values_loop_ok [OF data_item_example 2] by (auto simp: value_find_def)
  have s_eq: "s = example_values_item" using s(1) by (simp add: example_values_item_def 1)
  show "item_values_loop (Some example_data_item) example_values = Some (Some example_values_item)" using s s_eq by simp
  obtain d where d: "st_children s = [d]" "tag_wf d" "st_children d = map value_tag example_values"
    using s(4) by (auto simp: data_item_def)
  have "printable d" using d by (auto simp: list_all_iff intro!: printable_tag_wf)
  moreover have "tag_wf example_data_item" by (simp add: example_data_item_def mio_pubsub_item_data_new_def)
  then have "st_type s = XMPP_STANZA_TAG" "st_data s \<noteq> None" using s(2,3) by (simp_all add: tag_wf_def)
  ultimately show "printable example_values_item" using d(1) s_eq by (auto intro!: printable_tag)
qed

theorem data_roundtrip_witness:
  "\<exists>expat r. mio_handler_item_recent_get expat True (item_reply None None (items_attrs ''lamp'') example_values_item) mio_response_new =
       Some (MIO_OK, r, True) \<and>
     rsp_response r = RPacket \<lparr>pkt_id = None, pkt_type = MIO_PACKET_DATA, pkt_num_payloads = 1,
       pkt_payload = PData \<lparr>dt_event = Some ''lamp'', dt_num_transducers = 2, dt_transducers = example_values\<rparr>\<rparr>"
proof -
  have "map plain_value example_values = example_values" "length example_values = 2"
    by (simp_all add: example_values_def plain_value_def mio_transducer_value_new_def)
  with data_roundtrip [OF example_values_ok(1,4,2,3) expat_delivers_const [OF printable_item_reply [OF example_values_ok(5)]],
      of None None "''lamp''" mio_response_new] show ?thesis by (auto simp: numeral_2_eq_2)
qed

end
