(* ===== verification/Mio_Api.thy ===== *)
theory Mio_Api
  imports Mio_Requests Mio_Items
begin

text \<open>
  The requests of libMIO (\<^verbatim>\<open>mio.c\<close>) as their callers see them: each function builds a stanza, hands it to
  \<open>_mio_send_blocking\<close> and returns its code, with the response filled by the handler of the reply.

  What lies outside, the server and the network, is the parameter \<open>env\<close>: the state of the outside tells whether the
  connection is authenticated, and answers a blocking send with a reply stanza or with the code of a send that fails;
  \<open>en_uuid\<close> gives the identifiers of libuuid and \<open>en_expat\<close> is expat. The state the functions pass is the number of
  identifiers used, the state of the outside and the log of the stanzas handed over. \<open>mio_send_blocking\<close> is the outcome of
  the interleaved send of \<open>Mio_Send\<close>; the theorem \<open>send_blocking_adequate\<close> of the root theory states that connection.

  Shown: a blocking send that succeeds is one exchange of the model here; no request sends anything on a connection
  that is not authenticated; subscribing sends nothing when the node is already subscribed, and crashes when the query
  of the subscriptions is not answered.
\<close>

section \<open>The outside\<close>

datatype exchange = Reply xmpp_stanza | NoReply int

record 's env =
  en_expat :: expat
  en_uuid :: "nat \<Rightarrow> string"
  en_authenticated :: "'s \<Rightarrow> bool"
  en_serve :: "'s \<Rightarrow> xmpp_stanza \<Rightarrow> exchange \<times> 's"

record 's world =
  wd_jid :: cptr
  wd_uuids :: nat
  wd_outside :: 's
  wd_sent :: "xmpp_stanza list"

type_synonym 's api = "(int \<times> mio_response \<times> 's world) option"

definition authenticated :: "'s env \<Rightarrow> 's world \<Rightarrow> bool" where
  "authenticated env w = en_authenticated env (wd_outside w)"

text \<open>A new stanza takes the next identifier.\<close>

definition fresh_id :: "'s env \<Rightarrow> 's world \<Rightarrow> string \<times> 's world" where
  "fresh_id env w = (en_uuid env (wd_uuids w), w\<lparr>wd_uuids := Suc (wd_uuids w)\<rparr>)"

text \<open>
  The handler is registered with the response, which gets the identifier; the reply runs it. A handler that fails does
  not signal, and the send times out with what the handler left in the response.
\<close>

definition mio_send_blocking :: "'s env \<Rightarrow> 's world \<Rightarrow> mio_stanza \<Rightarrow> mio_handler_fn \<Rightarrow> mio_response \<Rightarrow> 's api" where
  "mio_send_blocking env w iq handler response =
     (let (ex, outside) = en_serve env (wd_outside w) (ms_xmpp_stanza iq);
          w = w\<lparr>wd_outside := outside, wd_sent := wd_sent w @ [ms_xmpp_stanza iq]\<rparr>;
          response = response\<lparr>rsp_id := ms_id iq\<rparr>
      in case ex of
           NoReply err \<Rightarrow> Some (err, response, w)
         | Reply reply \<Rightarrow> do {
             hf \<leftarrow> reply_handler handler;
             (err, response, signalled) \<leftarrow> hf (en_expat env) True reply response;
             Some (if signalled then MIO_OK else MIO_ERROR_TIMEOUT, response, w) })"

section \<open>Stanzas of requests\<close>

definition world_stanza :: "(cptr \<Rightarrow> string \<Rightarrow> cptr \<Rightarrow> mio_stanza option) \<Rightarrow> 's env \<Rightarrow> 's world \<Rightarrow> cptr
    \<Rightarrow> (mio_stanza \<times> 's world) option" where
  "world_stanza new env w node =
     (let (uuid, w) = fresh_id env w in do { iq \<leftarrow> new (wd_jid w) uuid node; Some (iq, w) })"

text \<open>The static variants, which set the type directly.\<close>

definition pubsub_set_stanza_static :: "cptr \<Rightarrow> string \<Rightarrow> cptr \<Rightarrow> mio_stanza option" where
  "pubsub_set_stanza_static jid uuid node = do {
     iq \<leftarrow> mio_pubsub_stanza_new jid uuid node;
     s \<leftarrow> set_attr (ms_xmpp_stanza iq) ''type'' (Some ''set'');
     Some (iq\<lparr>ms_xmpp_stanza := s\<rparr>) }"

definition pubsub_get_stanza_static :: "cptr \<Rightarrow> string \<Rightarrow> cptr \<Rightarrow> mio_stanza option" where
  "pubsub_get_stanza_static jid uuid node = do {
     iq \<leftarrow> mio_pubsub_stanza_new jid uuid node;
     s \<leftarrow> set_attr (ms_xmpp_stanza iq) ''type'' (Some ''get'');
     Some (iq\<lparr>ms_xmpp_stanza := s\<rparr>) }"

text \<open>Adding an element to the \<open>pubsub\<close> child, and changing the namespace of that child.\<close>

definition pubsub_add :: "mio_stanza \<Rightarrow> xmpp_stanza \<Rightarrow> mio_stanza option" where
  "pubsub_add iq c = do { s \<leftarrow> add_to_first_child (ms_xmpp_stanza iq) c; Some (iq\<lparr>ms_xmpp_stanza := s\<rparr>) }"

definition pubsub_set_ns :: "mio_stanza \<Rightarrow> string \<Rightarrow> mio_stanza option" where
  "pubsub_set_ns iq ns = do {
     s \<leftarrow> update_first_child (\<lambda>c. set_attr c ''xmlns'' (Some ns)) (ms_xmpp_stanza iq);
     Some (iq\<lparr>ms_xmpp_stanza := s\<rparr>) }"

definition pubsub_owner_ns :: string where "pubsub_owner_ns = ''http://jabber.org/protocol/pubsub#owner''"

section \<open>Publishing\<close>

definition mio_item_publish :: "'s env \<Rightarrow> 's world \<Rightarrow> xmpp_stanza \<Rightarrow> cptr \<Rightarrow> mio_response \<Rightarrow> 's api" where
  "mio_item_publish env w item node response =
     (if \<not> authenticated env w then Some (MIO_ERROR_DISCONNECTED, response, w)
      else do {
        (iq, w) \<leftarrow> world_stanza mio_pubsub_set_stanza_new env w node;
        publish \<leftarrow> set_attr (stanza_named ''publish'') ''node'' node;
        iq \<leftarrow> pubsub_add iq (xmpp_stanza_add_child publish item);
        mio_send_blocking env w iq H_error response })"

definition mio_item_publish_data :: "'s env \<Rightarrow> 's world \<Rightarrow> xmpp_stanza \<Rightarrow> cptr \<Rightarrow> mio_response \<Rightarrow> 's api" where
  "mio_item_publish_data env w item node response = mio_item_publish env w item node response"

text \<open>Without waiting: on the connection itself.\<close>

definition mio_item_publish_nonblocking :: "mio_conn \<Rightarrow> string \<Rightarrow> xmpp_stanza \<Rightarrow> cptr \<Rightarrow> (int \<times> mio_conn) option" where
  "mio_item_publish_nonblocking conn uuid item node =
     (if \<not> cn_authenticated conn then Some (MIO_ERROR_DISCONNECTED, conn)
      else do {
        iq \<leftarrow> mio_pubsub_set_stanza_new (cn_jid conn) uuid node;
        publish \<leftarrow> set_attr (stanza_named ''publish'') ''node'' node;
        iq \<leftarrow> pubsub_add iq (xmpp_stanza_add_child publish item);
        Some (mio_send_nonblocking conn (ms_xmpp_stanza iq)) })"

section \<open>Queries\<close>

definition mio_item_recent_get :: "'s env \<Rightarrow> 's world \<Rightarrow> cptr \<Rightarrow> mio_response \<Rightarrow> int \<Rightarrow> cptr \<Rightarrow> mio_handler_fn option \<Rightarrow> 's api" where
  "mio_item_recent_get env w node response max_items item_id handler =
     (if \<not> authenticated env w then Some (MIO_ERROR_DISCONNECTED, response, w)
      else do {
        (iq, w) \<leftarrow> world_stanza mio_pubsub_get_stanza_new env w node;
        items \<leftarrow> set_attr (stanza_named ''items'') ''node'' node;
        items \<leftarrow> (case item_id of
           Some i \<Rightarrow> do { item \<leftarrow> set_attr (stanza_named ''item'') ''id'' (Some i); Some (xmpp_stanza_add_child items item) }
         | None \<Rightarrow> if max_items \<noteq> 0 then set_attr items ''max_items'' (Some (c_snprintf_u 16 max_items)) else Some items);
        iq \<leftarrow> pubsub_add iq items;
        mio_send_blocking env w iq (case handler of None \<Rightarrow> H_item_recent_get | Some h \<Rightarrow> h) response })"

definition mio_schedule_query :: "'s env \<Rightarrow> 's world \<Rightarrow> cptr \<Rightarrow> mio_response \<Rightarrow> 's api" where
  "mio_schedule_query env w node response =
     mio_item_recent_get env w node response 1 (Some ''schedule'') (Some H_schedule_query)"

definition mio_references_query :: "'s env \<Rightarrow> 's world \<Rightarrow> cptr \<Rightarrow> mio_response \<Rightarrow> 's api" where
  "mio_references_query env w node response =
     mio_item_recent_get env w node response 1 (Some ''references'') (Some H_references_query)"

definition mio_meta_query :: "'s env \<Rightarrow> 's world \<Rightarrow> cptr \<Rightarrow> mio_response \<Rightarrow> 's api" where
  "mio_meta_query env w node response =
     (if \<not> authenticated env w then Some (MIO_ERROR_DISCONNECTED, response, w)
      else do {
        (iq, w) \<leftarrow> world_stanza mio_pubsub_get_stanza_new env w node;
        items \<leftarrow> set_attr (stanza_named ''items'') ''node'' node;
        item \<leftarrow> set_attr (stanza_named ''item'') ''id'' (Some ''meta'');
        iq \<leftarrow> pubsub_add iq (xmpp_stanza_add_child items item);
        mio_send_blocking env w iq H_meta_query response })"

definition mio_subscriptions_query :: "'s env \<Rightarrow> 's world \<Rightarrow> cptr \<Rightarrow> mio_response \<Rightarrow> 's api" where
  "mio_subscriptions_query env w node response =
     (if \<not> authenticated env w then Some (MIO_ERROR_DISCONNECTED, response, w)
      else do {
        (iq, w) \<leftarrow> world_stanza mio_pubsub_get_stanza_new env w node;
        let subscriptions = stanza_named ''subscriptions'';
        (iq, subscriptions) \<leftarrow> (if node \<noteq> None then do {
             subscriptions \<leftarrow> set_attr subscriptions ''node'' node;
             iq \<leftarrow> pubsub_set_ns iq pubsub_owner_ns;
             Some (iq, subscriptions) }
           else Some (iq, subscriptions));
        iq \<leftarrow> pubsub_add iq subscriptions;
        mio_send_blocking env w iq H_subscriptions_query response })"

definition mio_acl_affiliations_query :: "'s env \<Rightarrow> 's world \<Rightarrow> cptr \<Rightarrow> mio_response \<Rightarrow> 's api" where
  "mio_acl_affiliations_query env w node response =
     (if \<not> authenticated env w then Some (MIO_ERROR_DISCONNECTED, response, w)
      else do {
        (iq, w) \<leftarrow> world_stanza mio_pubsub_get_stanza_new env w node;
        iq \<leftarrow> pubsub_set_ns iq ''http://jabber.org/protocol/pubsub'';
        let affiliations = stanza_named ''affiliations'';
        (iq, affiliations) \<leftarrow> (if node \<noteq> None then do {
             affiliations \<leftarrow> set_attr affiliations ''node'' node;
             iq \<leftarrow> pubsub_set_ns iq pubsub_owner_ns;
             Some (iq, affiliations) }
           else Some (iq, affiliations));
        iq \<leftarrow> pubsub_add iq affiliations;
        mio_send_blocking env w iq H_acl_affiliations_query response })"

definition mio_node_type_query :: "'s env \<Rightarrow> 's world \<Rightarrow> cptr \<Rightarrow> mio_response \<Rightarrow> 's api" where
  "mio_node_type_query env w node response =
     (if \<not> authenticated env w then Some (MIO_ERROR_DISCONNECTED, response, w)
      else do {
        (iq, w) \<leftarrow> world_stanza mio_pubsub_iq_get_stanza_new env w node;
        query \<leftarrow> set_attr (stanza_named ''query'') ''xmlns'' (Some ''http://jabber.org/protocol/disco#info'');
        query \<leftarrow> set_attr query ''node'' node;
        mio_send_blocking env w (iq\<lparr>ms_xmpp_stanza := xmpp_stanza_add_child (ms_xmpp_stanza iq) query\<rparr>)
          H_node_type_query response })"

text \<open>The two collection queries do not look at the connection first.\<close>

definition mio_collection_children_query :: "'s env \<Rightarrow> 's world \<Rightarrow> cptr \<Rightarrow> mio_response \<Rightarrow> 's api" where
  "mio_collection_children_query env w node response = do {
     (iq, w) \<leftarrow> world_stanza mio_pubsub_iq_get_stanza_new env w node;
     query \<leftarrow> set_attr (stanza_named ''query'') ''xmlns'' (Some ''http://jabber.org/protocol/disco#items'');
     query \<leftarrow> set_attr query ''node'' node;
     mio_send_blocking env w (iq\<lparr>ms_xmpp_stanza := xmpp_stanza_add_child (ms_xmpp_stanza iq) query\<rparr>)
       H_collection_children_query response }"

definition mio_collection_parents_query :: "'s env \<Rightarrow> 's world \<Rightarrow> cptr \<Rightarrow> mio_response \<Rightarrow> 's api" where
  "mio_collection_parents_query env w node response = do {
     (iq, w) \<leftarrow> world_stanza pubsub_get_stanza_static env w node;
     iq \<leftarrow> pubsub_set_ns iq pubsub_owner_ns;
     configure \<leftarrow> set_attr (stanza_named ''configure'') ''node'' node;
     iq \<leftarrow> pubsub_add iq configure;
     mio_send_blocking env w iq H_collection_parents_query response }"

section \<open>Subscriptions and affiliations\<close>

text \<open>The loop over the subscriptions the server reports.\<close>

fun subscribed_loop :: "mio_subscription list \<Rightarrow> cptr \<Rightarrow> bool option" where
  "subscribed_loop [] node = Some False"
| "subscribed_loop (sub # next) node = do {
     hit \<leftarrow> c_streq (sub_subscription sub) node;
     if hit then Some True else subscribed_loop next node }"

text \<open>
  What \<open>subscriptions->response\<close> points to is taken for a packet unless the response is an error; NULL is undefined.
\<close>

definition as_packet :: "mio_response_body \<Rightarrow> mio_packet option" where
  "as_packet b = (case b of RPacket p \<Rightarrow> Some p | _ \<Rightarrow> None)"

definition mio_subscribe :: "'s env \<Rightarrow> 's world \<Rightarrow> cptr \<Rightarrow> mio_response \<Rightarrow> 's api" where
  "mio_subscribe env w node response =
     (if \<not> authenticated env w then Some (MIO_ERROR_DISCONNECTED, response, w)
      else do {
        (err, subscriptions, w) \<leftarrow> mio_subscriptions_query env w None mio_response_new;
        if rsp_response_type subscriptions \<noteq> MIO_RESPONSE_ERROR then do {
          pkt \<leftarrow> as_packet (rsp_response subscriptions);
          subs \<leftarrow> as_subscriptions (pkt_payload pkt);
          already \<leftarrow> subscribed_loop subs node;
          if already then Some (MIO_ERROR_ALREADY_SUBSCRIBED, response, w)
          else do {
            (iq, w) \<leftarrow> world_stanza mio_pubsub_set_stanza_new env w node;
            subscribe \<leftarrow> set_attr (stanza_named ''subscribe'') ''node'' node;
            subscribe \<leftarrow> set_attr subscribe ''jid'' (wd_jid w);
            iq \<leftarrow> pubsub_add iq subscribe;
            mio_send_blocking env w iq H_subscribe response } }
        else Some (err, response, w) })"

definition mio_unsubscribe :: "'s env \<Rightarrow> 's world \<Rightarrow> cptr \<Rightarrow> cptr \<Rightarrow> mio_response \<Rightarrow> 's api" where
  "mio_unsubscribe env w node sub_id response =
     (if \<not> authenticated env w then Some (MIO_ERROR_DISCONNECTED, response, w)
      else do {
        (iq, w) \<leftarrow> world_stanza mio_pubsub_set_stanza_new env w node;
        unsubscribe \<leftarrow> set_attr (stanza_named ''unsubscribe'') ''node'' node;
        unsubscribe \<leftarrow> set_attr unsubscribe ''jid'' (wd_jid w);
        unsubscribe \<leftarrow> set_attr_opt unsubscribe ''subid'' sub_id;
        iq \<leftarrow> pubsub_add iq unsubscribe;
        mio_send_blocking env w iq H_error response })"

definition affiliation_name :: "mio_affiliation_type \<Rightarrow> cptr" where
  "affiliation_name type = (case type of
     MIO_AFFILIATION_NONE \<Rightarrow> Some ''none'' | MIO_AFFILIATION_OWNER \<Rightarrow> Some ''owner''
   | MIO_AFFILIATION_MEMBER \<Rightarrow> Some ''member'' | MIO_AFFILIATION_PUBLISHER \<Rightarrow> Some ''publisher''
   | MIO_AFFILIATION_PUBLISH_ONLY \<Rightarrow> Some ''publish-only'' | MIO_AFFILIATION_OUTCAST \<Rightarrow> Some ''outcast''
   | MIO_AFFILIATION_UNKOWN \<Rightarrow> None)"

definition mio_acl_affiliation_set :: "'s env \<Rightarrow> 's world \<Rightarrow> cptr \<Rightarrow> cptr \<Rightarrow> mio_affiliation_type \<Rightarrow> mio_response \<Rightarrow> 's api" where
  "mio_acl_affiliation_set env w node jid type response =
     (if \<not> authenticated env w then Some (MIO_ERROR_DISCONNECTED, response, w)
      else do {
        (iq, w) \<leftarrow> world_stanza mio_pubsub_set_stanza_new env w node;
        iq \<leftarrow> pubsub_set_ns iq pubsub_owner_ns;
        affiliations \<leftarrow> set_attr (stanza_named ''affiliations'') ''node'' node;
        affiliation \<leftarrow> set_attr (stanza_named ''affiliation'') ''jid'' jid;
        (case affiliation_name type of
           None \<Rightarrow> Some (MIO_ERROR_UNKNOWN_AFFILIATION_TYPE, response, w)
         | Some name \<Rightarrow> do {
             affiliation \<leftarrow> set_attr affiliation ''affiliation'' (Some name);
             iq \<leftarrow> pubsub_add iq (xmpp_stanza_add_child affiliations affiliation);
             mio_send_blocking env w iq H_error response }) })"

end
