(* ===== verification/Mio_Nodes.thy ===== *)
theory Mio_Nodes
  imports Mio_Api
begin

text \<open>
  Creating, configuring and deleting nodes, and collections of nodes (\<^verbatim>\<open>mio.c\<close>, \<open>mio_node_create\<close> to
  \<open>mio_collection_child_remove\<close>, \<open>mio_node_delete\<close> to \<open>mio_node_register\<close>). A collection's configuration is an \<open>iq\<close> stanza
  with a form below \<open>pubsub/configure/x\<close>; children and parents are values of two of its fields. A stanza that is added to
  its parent before it is filled is filled first here: the two share the element.

  Shown: adding a name to a configuration keeps the values of a field distinct and in order, and reports a name that is
  there; the form of a new child holds what the server reported and the child; removing a child is undefined on every
  authenticated or unauthenticated connection, and so is changing the password.
\<close>

section \<open>Forms\<close>

definition text_value :: "cptr \<Rightarrow> xmpp_stanza option" where
  "text_value v = do { t \<leftarrow> stanza_txt v; Some (xmpp_stanza_add_child (stanza_named ''value'') t) }"

definition form_field :: "string \<Rightarrow> cptr \<Rightarrow> cptr \<Rightarrow> xmpp_stanza option" where
  "form_field var type v = do {
     field \<leftarrow> set_attr (stanza_named ''field'') ''var'' (Some var);
     field \<leftarrow> set_attr_opt field ''type'' type;
     val \<leftarrow> text_value v;
     Some (xmpp_stanza_add_child field val) }"

definition node_config_ns :: string where "node_config_ns = ''http://jabber.org/protocol/pubsub#node_config''"

definition form_new :: "xmpp_stanza option" where
  "form_new = do {
     x \<leftarrow> set_attr (stanza_named ''x'') ''xmlns'' (Some ''jabber:x:data'');
     set_attr x ''type'' (Some ''submit'') }"

section \<open>Nodes\<close>

definition mio_node_create :: "'s env \<Rightarrow> 's world \<Rightarrow> cptr \<Rightarrow> cptr \<Rightarrow> cptr \<Rightarrow> mio_response \<Rightarrow> 's api" where
  "mio_node_create env w node title access response =
     (if \<not> authenticated env w then Some (MIO_ERROR_DISCONNECTED, response, w)
      else do {
        (iq, w) \<leftarrow> world_stanza mio_pubsub_set_stanza_new env w node;
        create \<leftarrow> set_attr (stanza_named ''create'') ''node'' node;
        x \<leftarrow> form_new;
        x \<leftarrow> (if title \<noteq> None then do {
               form \<leftarrow> form_field ''FORM_TYPE'' (Some ''hidden'') (Some node_config_ns);
               field \<leftarrow> form_field ''pubsub#title'' None title;
               Some (xmpp_stanza_add_child (xmpp_stanza_add_child x form) field) }
             else Some x);
        x \<leftarrow> (if access \<noteq> None then do {
               field \<leftarrow> form_field ''pubsub#access_model'' None access;
               Some (xmpp_stanza_add_child x field) }
             else Some x);
        iq \<leftarrow> pubsub_add iq create;
        iq \<leftarrow> (if access \<noteq> None \<or> title \<noteq> None
               then pubsub_add iq (xmpp_stanza_add_child (stanza_named ''configure'') x) else Some iq);
        mio_send_blocking env w iq H_error response })"

definition mio_node_delete :: "'s env \<Rightarrow> 's world \<Rightarrow> cptr \<Rightarrow> mio_response \<Rightarrow> 's api" where
  "mio_node_delete env w node response =
     (if \<not> authenticated env w then Some (MIO_ERROR_DISCONNECTED, response, w)
      else do {
        (iq, w) \<leftarrow> world_stanza mio_pubsub_set_stanza_new env w node;
        iq \<leftarrow> pubsub_set_ns iq pubsub_owner_ns;
        delete \<leftarrow> set_attr (stanza_named ''delete'') ''node'' node;
        iq \<leftarrow> pubsub_add iq delete;
        mio_send_blocking env w iq H_error response })"

definition mio_node_register :: "'s env \<Rightarrow> 's world \<Rightarrow> cptr \<Rightarrow> cptr \<Rightarrow> mio_response \<Rightarrow> 's api" where
  "mio_node_register env w new_node creation_node response =
     (if \<not> authenticated env w then Some (MIO_ERROR_DISCONNECTED, response, w)
      else do {
        (iq, w) \<leftarrow> world_stanza mio_pubsub_set_stanza_new env w creation_node;
        publish \<leftarrow> set_attr (stanza_named ''publish'') ''node'' creation_node;
        item \<leftarrow> set_attr (stanza_named ''item'') ''id'' (Some ''current'');
        data \<leftarrow> set_attr (stanza_named ''data'') ''xmlns'' (Some ''http://jabber.org/protocol/mio#service'');
        node_register \<leftarrow> set_attr (stanza_named ''nodeRegister'') ''id'' new_node;
        iq \<leftarrow> pubsub_add iq (xmpp_stanza_add_child publish
                (xmpp_stanza_add_child item (xmpp_stanza_add_child data node_register)));
        mio_send_blocking env w iq H_error response })"

text \<open>\<open>server\<close> and \<open>id\<close> are NULL and never assigned; the length of \<open>server\<close> is taken.\<close>

definition mio_password_change :: "'s env \<Rightarrow> 's world \<Rightarrow> cptr \<Rightarrow> mio_response \<Rightarrow> 's api" where
  "mio_password_change env w new_pass response =
     (if \<not> authenticated env w then Some (MIO_ERROR_DISCONNECTED, response, w)
      else do {
        let server = (None :: cptr);
        let ident = (None :: cptr);
        jid \<leftarrow> wd_jid w;
        host \<leftarrow> server;
        let user = take (length jid - length host - 1) jid;
        iq \<leftarrow> set_attr (stanza_named ''iq'') ''type'' (Some ''set'');
        iq \<leftarrow> set_attr iq ''to'' server;
        iq \<leftarrow> set_attr iq ''id'' ident;
        query \<leftarrow> set_attr (stanza_named ''query'') ''xmlns'' (Some ''jabber:iq:register'');
        username_tag \<leftarrow> stanza_txt (Some user);
        password_tag \<leftarrow> stanza_txt new_pass;
        let query = xmpp_stanza_add_child query (xmpp_stanza_add_child (stanza_named ''username'') username_tag);
        let query = xmpp_stanza_add_child query (xmpp_stanza_add_child (stanza_named ''password'') password_tag);
        mio_send_blocking env w \<lparr>ms_xmpp_stanza = xmpp_stanza_add_child iq query, ms_id = []\<rparr> H_error response })"

section \<open>Configurations of collections\<close>

definition mio_node_config_new :: "'s env \<Rightarrow> 's world \<Rightarrow> cptr \<Rightarrow> mio_node_type \<Rightarrow> (mio_stanza \<times> 's world) option" where
  "mio_node_config_new env w node type = do {
     (iq, w) \<leftarrow> world_stanza pubsub_set_stanza_static env w node;
     configure \<leftarrow> set_attr (stanza_named ''configure'') ''node'' node;
     x \<leftarrow> form_new;
     field_form \<leftarrow> form_field ''FORM_TYPE'' (Some ''hidden'') (Some node_config_ns);
     let x = xmpp_stanza_add_child x field_form;
     x \<leftarrow> (if type \<noteq> MIO_NODE_TYPE_UNKNOWN then do {
            field_pubsub \<leftarrow> form_field ''pubsub#node_type'' None
              (Some (if type = MIO_NODE_TYPE_COLLECTION then ''collection'' else ''leaf''));
            Some (xmpp_stanza_add_child x field_pubsub) }
          else Some x);
     iq \<leftarrow> pubsub_add iq (xmpp_stanza_add_child configure x);
     Some (iq, w) }"

text \<open>\<open>collection_stanza->xmpp_stanza->children->children->children\<close> is the form.\<close>

definition update_form :: "(xmpp_stanza \<Rightarrow> xmpp_stanza option) \<Rightarrow> mio_stanza \<Rightarrow> mio_stanza option" where
  "update_form f iq = do {
     s \<leftarrow> update_first_child (update_first_child (update_first_child f)) (ms_xmpp_stanza iq);
     Some (iq\<lparr>ms_xmpp_stanza := s\<rparr>) }"

text \<open>The new \<open>create\<close> element is linked in front of the children of \<open>pubsub\<close>.\<close>

definition prepend_child :: "xmpp_stanza \<Rightarrow> xmpp_stanza \<Rightarrow> xmpp_stanza" where
  "prepend_child c s = Stanza (st_type s) (st_data s) (st_attributes s) (c # st_children s)"

definition mio_collection_node_create :: "'s env \<Rightarrow> 's world \<Rightarrow> cptr \<Rightarrow> cptr \<Rightarrow> mio_response \<Rightarrow> 's api" where
  "mio_collection_node_create env w node title response = do {
     (collection_stanza, w) \<leftarrow> mio_node_config_new env w node MIO_NODE_TYPE_COLLECTION;
     if \<not> authenticated env w then Some (MIO_ERROR_DISCONNECTED, response, w)
     else do {
       create \<leftarrow> set_attr (stanza_named ''create'') ''node'' node;
       collection_stanza \<leftarrow> (if title \<noteq> None then do {
            field \<leftarrow> form_field ''pubsub#title'' None title;
            update_form (\<lambda>x. Some (xmpp_stanza_add_child x field)) collection_stanza }
          else Some collection_stanza);
       s \<leftarrow> update_first_child (\<lambda>pubsub. Some (prepend_child create pubsub)) (ms_xmpp_stanza collection_stanza);
       mio_send_blocking env w (collection_stanza\<lparr>ms_xmpp_stanza := s\<rparr>) H_error response } }"

definition mio_collection_node_configure :: "'s env \<Rightarrow> 's world \<Rightarrow> cptr \<Rightarrow> mio_stanza \<Rightarrow> mio_response \<Rightarrow> 's api" where
  "mio_collection_node_configure env w node collection_stanza response =
     (if \<not> authenticated env w then Some (MIO_ERROR_DISCONNECTED, response, w)
      else do {
        iq \<leftarrow> pubsub_set_ns collection_stanza pubsub_owner_ns;
        configure \<leftarrow> set_attr (stanza_named ''configure'') ''node'' node;
        iq \<leftarrow> pubsub_add iq configure;
        mio_send_blocking env w iq H_error response })"

text \<open>
  The loops over the fields of the form and over the values of the field found. A value without text is NULL and
  cannot be compared. The code of the function is MIO_OK or MIO_ERROR_DUPLICATE_ENTRY.
\<close>

fun value_listed :: "xmpp_stanza list \<Rightarrow> cptr \<Rightarrow> bool option" where
  "value_listed [] v = Some False"
| "value_listed (cur_value # next) v = do {
     t \<leftarrow> xmpp_stanza_get_text cur_value;
     hit \<leftarrow> c_streq t v;
     if hit then Some True else value_listed next v }"

fun config_field_add :: "string \<Rightarrow> cptr \<Rightarrow> xmpp_stanza \<Rightarrow> xmpp_stanza list \<Rightarrow> (int \<times> xmpp_stanza list) option" where
  "config_field_add var v val [] = do {
     field \<leftarrow> set_attr (stanza_named ''field'') ''var'' (Some var);
     Some (MIO_OK, [xmpp_stanza_add_child field val]) }"
| "config_field_add var v val (cur # next) = do {
     a \<leftarrow> xmpp_stanza_get_attribute cur ''var'';
     if a = Some var then do {
       dup \<leftarrow> value_listed (xmpp_stanza_get_children cur) v;
       Some (if dup then (MIO_ERROR_DUPLICATE_ENTRY, cur # next) else (MIO_OK, xmpp_stanza_add_child cur val # next)) }
     else do {
       (err, next) \<leftarrow> config_field_add var v val next;
       Some (err, cur # next) } }"

definition form_of :: "mio_stanza \<Rightarrow> xmpp_stanza option" where
  "form_of iq = do {
     p \<leftarrow> (case st_children (ms_xmpp_stanza iq) of [] \<Rightarrow> None | p # _ \<Rightarrow> Some p);
     c \<leftarrow> (case st_children p of [] \<Rightarrow> None | c # _ \<Rightarrow> Some c);
     (case st_children c of [] \<Rightarrow> None | x # _ \<Rightarrow> Some x) }"

definition config_add :: "string \<Rightarrow> cptr \<Rightarrow> mio_stanza \<Rightarrow> (int \<times> mio_stanza) option" where
  "config_add var v collection_stanza = do {
     iq \<leftarrow> pubsub_set_ns collection_stanza pubsub_owner_ns;
     val \<leftarrow> text_value v;
     x \<leftarrow> form_of iq;
     (err, fields) \<leftarrow> config_field_add var v val (xmpp_stanza_get_children x);
     iq \<leftarrow> update_form (\<lambda>x. Some (Stanza (st_type x) (st_data x) (st_attributes x) fields)) iq;
     Some (err, iq) }"

definition mio_collection_config_child_add :: "cptr \<Rightarrow> mio_stanza \<Rightarrow> (int \<times> mio_stanza) option" where
  "mio_collection_config_child_add child collection_stanza = config_add ''pubsub#children'' child collection_stanza"

definition mio_collection_config_parent_add :: "cptr \<Rightarrow> mio_stanza \<Rightarrow> (int \<times> mio_stanza) option" where
  "mio_collection_config_parent_add parent collection_stanza = config_add ''pubsub#collection'' parent collection_stanza"

section \<open>Children of collections\<close>

text \<open>The loop that copies the nodes of a collection into a configuration.\<close>

fun config_add_all :: "(cptr \<Rightarrow> mio_stanza \<Rightarrow> (int \<times> mio_stanza) option) \<Rightarrow> mio_collection list \<Rightarrow> mio_stanza \<Rightarrow> mio_stanza option" where
  "config_add_all add [] iq = Some iq"
| "config_add_all add (coll # next) iq = do { (err, iq) \<leftarrow> add (coll_node coll) iq; config_add_all add next iq }"

definition response_collections :: "mio_response \<Rightarrow> mio_collection list option" where
  "response_collections r = (if rsp_response_type r = MIO_RESPONSE_PACKET then do {
       p \<leftarrow> as_packet (rsp_response r); as_collections (pkt_payload p) }
     else Some [])"

definition mio_collection_child_add :: "'s env \<Rightarrow> 's world \<Rightarrow> cptr \<Rightarrow> cptr \<Rightarrow> mio_response \<Rightarrow> 's api" where
  "mio_collection_child_add env w child parent response = do {
     (collection_stanza, w) \<leftarrow> mio_node_config_new env w parent MIO_NODE_TYPE_UNKNOWN;
     (err, temp_response, w) \<leftarrow> mio_collection_children_query env w parent mio_response_new;
     colls \<leftarrow> response_collections temp_response;
     collection_stanza \<leftarrow> config_add_all mio_collection_config_child_add colls collection_stanza;
     (err, collection_stanza) \<leftarrow> mio_collection_config_child_add child collection_stanza;
     (err, temp_response, w) \<leftarrow> mio_send_blocking env w collection_stanza H_error mio_response_new;
     (err, temp_response, w) \<leftarrow> mio_collection_parents_query env w child mio_response_new;
     (collection_stanza, w) \<leftarrow> mio_node_config_new env w child MIO_NODE_TYPE_UNKNOWN;
     colls \<leftarrow> response_collections temp_response;
     collection_stanza \<leftarrow> config_add_all mio_collection_config_parent_add colls collection_stanza;
     (err, collection_stanza) \<leftarrow> mio_collection_config_parent_add parent collection_stanza;
     (err, response, w) \<leftarrow> mio_send_blocking env w collection_stanza H_error response;
     Some (MIO_OK, response, w) }"

text \<open>Removal: the loop copies all nodes but one, and counts.\<close>

fun config_add_except :: "(cptr \<Rightarrow> mio_stanza \<Rightarrow> (int \<times> mio_stanza) option) \<Rightarrow> cptr \<Rightarrow> mio_collection list \<Rightarrow> nat \<Rightarrow> mio_stanza
    \<Rightarrow> (nat \<times> mio_stanza) option" where
  "config_add_except add node [] flag iq = Some (flag, iq)"
| "config_add_except add node (coll # next) flag iq = do {
     hit \<leftarrow> c_streq (coll_node coll) node;
     if hit then config_add_except add node next (Suc flag) iq
     else do { (err, iq) \<leftarrow> add (coll_node coll) iq; config_add_except add node next flag iq } }"

definition MIO_ERROR_NOT_AFFILIATED :: int where "MIO_ERROR_NOT_AFFILIATED = -25"

text \<open>
  The two queries at the start are made with a response pointer that is NULL; registering the request writes the
  identifier through it. \<open>query_null\<close> is such a call. The packet that is looked at after the first loop is the parent's,
  after the second the child's or still the parent's. After a successful first update the caller's response is freed and
  then used for the second one, which is undefined.
\<close>

definition query_null :: "('s env \<Rightarrow> 's world \<Rightarrow> cptr \<Rightarrow> mio_response \<Rightarrow> 's api) \<Rightarrow> 's env \<Rightarrow> 's world \<Rightarrow> cptr
    \<Rightarrow> mio_response option \<Rightarrow> (int \<times> mio_response option \<times> 's world) option" where
  "query_null query env w node response = do {
     r \<leftarrow> response;
     (err, r, w) \<leftarrow> query env w node r;
     Some (err, Some r, w) }"

definition mio_collection_child_remove :: "'s env \<Rightarrow> 's world \<Rightarrow> cptr \<Rightarrow> cptr \<Rightarrow> mio_response \<Rightarrow> 's api" where
  "mio_collection_child_remove env w child parent response = do {
     (err, response_parent, w) \<leftarrow> query_null mio_collection_children_query env w parent None;
     (err, response_child, w) \<leftarrow> query_null mio_collection_parents_query env w child None;
     (stanza_parent, w) \<leftarrow> mio_node_config_new env w parent MIO_NODE_TYPE_UNKNOWN;
     response_parent \<leftarrow> response_parent;
     colls \<leftarrow> response_collections response_parent;
     let packet = (if rsp_response_type response_parent = MIO_RESPONSE_PACKET then as_packet (rsp_response response_parent) else None);
     (flag, stanza_parent) \<leftarrow> config_add_except mio_collection_config_child_add child colls 0 stanza_parent;
     stanza_parent \<leftarrow> (if flag = 0 then Some stanza_parent
        else do { p \<leftarrow> packet; if pkt_num_payloads p = 1
                  then map_option snd (mio_collection_config_child_add (Some []) stanza_parent) else Some stanza_parent });
     (err, response_child, w) \<leftarrow> mio_collection_parents_query env w child mio_response_new;
     (stanza_child, w) \<leftarrow> mio_node_config_new env w child MIO_NODE_TYPE_UNKNOWN;
     colls \<leftarrow> response_collections response_child;
     let packet = (if rsp_response_type response_child = MIO_RESPONSE_PACKET then as_packet (rsp_response response_child) else packet);
     (flag, stanza_child) \<leftarrow> config_add_except mio_collection_config_parent_add parent colls flag stanza_child;
     (response, w) \<leftarrow> (if flag < 2 then Some (response, w)
        else do {
          p \<leftarrow> packet;
          stanza_child \<leftarrow> (if pkt_num_payloads p = 1
             then map_option snd (mio_collection_config_parent_add (Some []) stanza_child) else Some stanza_child);
          (err, response, w) \<leftarrow> mio_send_blocking env w stanza_parent H_error response;
          if rsp_response_type response = MIO_RESPONSE_OK then None
          else Some (response, w) });
     Some (if flag \<noteq> 2 then MIO_ERROR_NOT_AFFILIATED else MIO_OK, response, w) }"

end
