(* ===== verification/Mio_Updates.thy ===== *)
theory Mio_Updates
  imports Mio_Api Mio_Schedule Mio_References Mio_Meta
begin

text \<open>
  Updates of what a node publishes (\<^verbatim>\<open>mio.c\<close>): each function fetches the item a node has, changes it and publishes the
  result: schedules, references between nodes, meta information and measured values. Names of nodes that are arguments
  are not NULL. The events given to a merge into an empty schedule are renumbered in place; the caller's list is not part of
  the result.

  Shown: merging a schedule publishes the merged schedule, and publishes only the new events, losing the others, when
  the query fails; adding a child twice or in both directions is refused without publishing; removing a reference that
  is not there publishes an empty list; a merge of measured values keeps the names of the node.
\<close>

section \<open>Publishing what may be NULL\<close>

text \<open>\<open>mio_item_publish\<close> reads the item only on an authenticated connection.\<close>

definition item_publish_ptr :: "'s env \<Rightarrow> 's world \<Rightarrow> xmpp_stanza option \<Rightarrow> cptr \<Rightarrow> mio_response \<Rightarrow> 's api" where
  "item_publish_ptr env w item node response = (case item of
     Some s \<Rightarrow> mio_item_publish env w s node response
   | None \<Rightarrow> if \<not> authenticated env w then Some (MIO_ERROR_DISCONNECTED, response, w) else None)"

text \<open>A failed query is handed to the caller.\<close>

definition take_response :: "mio_response \<Rightarrow> mio_response \<Rightarrow> mio_response" where
  "take_response response query = response\<lparr>rsp_response := rsp_response query, rsp_response_type := rsp_response_type query\<rparr>"

section \<open>Schedules\<close>

definition mio_schedule_event_merge_publish :: "'s env \<Rightarrow> 's world \<Rightarrow> string \<Rightarrow> mio_event list \<Rightarrow> mio_response \<Rightarrow> 's api" where
  "mio_schedule_event_merge_publish env w node event response = do {
     (err, query, w) \<leftarrow> mio_schedule_query env w (Some node) mio_response_new;
     if rsp_response_type query = MIO_RESPONSE_PACKET then do {
       packet \<leftarrow> as_packet (rsp_response query);
       if pkt_type packet \<noteq> MIO_PACKET_SCHEDULE then Some (MIO_ERROR_UNEXPECTED_PAYLOAD, take_response response query, w)
       else do {
         query_events \<leftarrow> as_events (pkt_payload packet);
         item \<leftarrow> (if query_events \<noteq> [] then do {
              es \<leftarrow> mio_schedule_event_merge query_events event;
              mio_schedule_event_to_item es }
            else mio_schedule_event_to_item (mio_event_renumber event));
         mio_item_publish env w item (Some node) response } }
     else do {
       item \<leftarrow> mio_schedule_event_to_item (mio_event_renumber event);
       mio_item_publish env w item (Some node) response } }"

definition mio_schedule_event_remove_publish :: "'s env \<Rightarrow> 's world \<Rightarrow> string \<Rightarrow> int \<Rightarrow> mio_response \<Rightarrow> 's api" where
  "mio_schedule_event_remove_publish env w node i response = do {
     (err, query, w) \<leftarrow> mio_schedule_query env w (Some node) mio_response_new;
     if rsp_response_type query = MIO_RESPONSE_PACKET then do {
       packet \<leftarrow> as_packet (rsp_response query);
       if pkt_type packet \<noteq> MIO_PACKET_SCHEDULE then Some (MIO_ERROR_UNEXPECTED_PAYLOAD, take_response response query, w)
       else do {
         query_events \<leftarrow> as_events (pkt_payload packet);
         item \<leftarrow> mio_schedule_event_to_item (mio_schedule_event_remove query_events i);
         mio_item_publish env w item (Some node) response } }
     else Some (MIO_ERROR_UNEXPECTED_RESPONSE, take_response response query, w) }"

section \<open>References\<close>

text \<open>The new reference is filled, then named after the meta information of the node it points to.\<close>

definition mio_reference_add :: "'s env \<Rightarrow> 's world \<Rightarrow> mio_reference list \<Rightarrow> mio_reference_type \<Rightarrow> mio_meta_type \<Rightarrow> cptr
    \<Rightarrow> (mio_reference list \<times> 's world) option" where
  "mio_reference_add env w refs type meta_type node = do {
     (n, refs) \<leftarrow> reference_slot refs;
     let refs = refs[n := reference_fill (refs ! n) type meta_type node];
     if node = None then Some (refs, w)
     else do {
       (err, query, w) \<leftarrow> mio_meta_query env w node mio_response_new;
       if rsp_response_type query \<noteq> MIO_RESPONSE_PACKET then Some (refs, w)
       else do {
         packet \<leftarrow> as_packet (rsp_response query);
         if pkt_type packet \<noteq> MIO_PACKET_META then Some (refs, w)
         else do {
           meta \<leftarrow> as_meta (pkt_payload packet);
           meta \<leftarrow> meta;
           Some (if mt_name meta \<noteq> None then refs[n := (refs ! n)\<lparr>ref_name := mt_name meta\<rparr>] else refs, w) } } } }"

definition reference_meta_type_overwrite_publish :: "'s env \<Rightarrow> 's world \<Rightarrow> cptr \<Rightarrow> string \<Rightarrow> mio_reference_type \<Rightarrow> mio_meta_type
    \<Rightarrow> mio_response \<Rightarrow> 's api" where
  "reference_meta_type_overwrite_publish env w node other type meta_type response = do {
     (err, query, w) \<leftarrow> mio_references_query env w node mio_response_new;
     if rsp_response_type query \<noteq> MIO_RESPONSE_PACKET then Some (MIO_ERROR_UNEXPECTED_RESPONSE, response, w)
     else do {
       packet \<leftarrow> as_packet (rsp_response query);
       if pkt_type packet \<noteq> MIO_PACKET_REFERENCES then Some (MIO_ERROR_UNEXPECTED_PAYLOAD, response, w)
       else do {
         query_ref \<leftarrow> as_references (pkt_payload packet);
         query_ref \<leftarrow> mio_reference_remove query_ref type other;
         if query_ref \<noteq> [] then do {
           (query_ref, w) \<leftarrow> mio_reference_add env w query_ref type meta_type (Some other);
           item \<leftarrow> mio_references_to_item query_ref;
           (err, response, w) \<leftarrow> item_publish_ptr env w item node response;
           Some (MIO_OK, response, w) }
         else Some (MIO_OK, response, w) } } }"

text \<open>
  One side of \<open>mio_reference_child_remove\<close>: the references of \<open>node\<close> without the one to \<open>other\<close> are published if there were
  any; the result tells whether something was published, and the code of the publication.
\<close>

definition reference_side_remove :: "'s env \<Rightarrow> 's world \<Rightarrow> string \<Rightarrow> mio_reference_type \<Rightarrow> string \<Rightarrow> (int option \<times> 's world) option" where
  "reference_side_remove env w node type other = do {
     (err, query, w) \<leftarrow> mio_references_query env w (Some node) mio_response_new;
     if rsp_response_type query = MIO_RESPONSE_PACKET then do {
       packet \<leftarrow> as_packet (rsp_response query);
       if pkt_type packet = MIO_PACKET_REFERENCES then do {
         refs \<leftarrow> as_references (pkt_payload packet);
         if refs \<noteq> [] then do {
           refs \<leftarrow> mio_reference_remove refs type other;
           item \<leftarrow> mio_references_to_item refs;
           (err, pub, w) \<leftarrow> item_publish_ptr env w item (Some node) mio_response_new;
           Some (Some err, w) }
         else Some (None, w) }
       else Some (None, w) }
     else Some (None, w) }"

text \<open>The code that is returned is the one of the publication to the parent, uninitialised (\<open>None\<close>) without one.\<close>

definition mio_reference_child_remove :: "'s env \<Rightarrow> 's world \<Rightarrow> string \<Rightarrow> string \<Rightarrow> mio_response
    \<Rightarrow> (int option \<times> mio_response \<times> 's world) option" where
  "mio_reference_child_remove env w parent child response = do {
     (pub_child, w) \<leftarrow> reference_side_remove env w child MIO_REFERENCE_PARENT parent;
     (pub_parent, w) \<leftarrow> reference_side_remove env w parent MIO_REFERENCE_CHILD child;
     let response = (if pub_parent = None \<and> pub_child = None
        then response\<lparr>rsp_response_type := MIO_RESPONSE_ERROR,
               rsp_response := RError \<lparr>err_num = Some 0, err_description = Some ''Reference not found at child or parent''\<rparr>\<rparr>
        else response\<lparr>rsp_response_type := MIO_RESPONSE_OK\<rparr>);
     Some (pub_parent, response, w) }"

text \<open>The loops that look for an existing reference: \<open>Some\<close> is the code to return at once.\<close>

fun reference_conflict :: "mio_reference list \<Rightarrow> string \<Rightarrow> mio_reference_type \<Rightarrow> mio_reference_type \<Rightarrow> int option option" where
  "reference_conflict [] node same opposite = Some None"
| "reference_conflict (cur # next) node same opposite = do {
     hit \<leftarrow> c_streq (ref_node cur) (Some node);
     if hit \<and> ref_type cur = same then Some (Some MIO_ERROR_DUPLICATE_ENTRY)
     else if hit \<and> ref_type cur = opposite then Some (Some MIO_ERROR_REFERENCE_LOOP)
     else reference_conflict next node same opposite }"

text \<open>The references a query found, or a list with one blank reference.\<close>

definition references_found :: "mio_response \<Rightarrow> (bool \<times> mio_reference list) option" where
  "references_found query = (if rsp_response_type query = MIO_RESPONSE_PACKET then do {
       packet \<leftarrow> as_packet (rsp_response query);
       if pkt_type packet = MIO_PACKET_REFERENCES \<and> pkt_num_payloads packet > 0 then do {
         refs \<leftarrow> as_references (pkt_payload packet);
         Some (True, refs) }
       else Some (False, [mio_reference_new]) }
     else Some (False, [mio_reference_new]))"

definition node_meta_type :: "mio_response \<Rightarrow> mio_meta_type option" where
  "node_meta_type query = (if rsp_response_type query = MIO_RESPONSE_PACKET then do {
       packet \<leftarrow> as_packet (rsp_response query);
       if pkt_type packet = MIO_PACKET_META then do {
         meta \<leftarrow> as_meta (pkt_payload packet);
         Some (case meta of None \<Rightarrow> MIO_META_TYPE_UKNOWN | Some m \<Rightarrow> mt_meta_type m) }
       else Some MIO_META_TYPE_UKNOWN }
     else Some MIO_META_TYPE_UKNOWN)"

text \<open>The part of \<open>mio_reference_child_add\<close> that adds the parent at the child; \<open>Inl\<close> is the code to return at once.\<close>

definition reference_at_child :: "'s env \<Rightarrow> 's world \<Rightarrow> string \<Rightarrow> string \<Rightarrow> mio_response \<Rightarrow> ((int + mio_response) \<times> 's world) option" where
  "reference_at_child env w parent child response = do {
     (err, query_parent_type, w) \<leftarrow> mio_meta_query env w (Some parent) mio_response_new;
     parent_type \<leftarrow> node_meta_type query_parent_type;
     (err, query_child, w) \<leftarrow> mio_references_query env w (Some child) mio_response_new;
     (found, child_refs) \<leftarrow> references_found query_child;
     conflict \<leftarrow> (if found then reference_conflict child_refs parent MIO_REFERENCE_PARENT MIO_REFERENCE_CHILD else Some None);
     (case conflict of
        Some err \<Rightarrow> Some (Inl err, w)
      | None \<Rightarrow> do {
          (child_refs, w) \<leftarrow> mio_reference_add env w child_refs MIO_REFERENCE_PARENT parent_type (Some parent);
          child_item \<leftarrow> mio_references_to_item child_refs;
          (err, pub_child, w) \<leftarrow> item_publish_ptr env w child_item (Some child) mio_response_new;
          Some (Inr (if rsp_response_type pub_child = MIO_RESPONSE_ERROR
                     then response\<lparr>rsp_response_type := MIO_RESPONSE_ERROR\<rparr> else response), w) }) }"

definition mio_reference_child_add :: "'s env \<Rightarrow> 's world \<Rightarrow> string \<Rightarrow> string \<Rightarrow> bool \<Rightarrow> mio_response \<Rightarrow> 's api" where
  "mio_reference_child_add env w parent child add_reference_at_child response = do {
     (err, query_parent, w) \<leftarrow> mio_references_query env w (Some parent) mio_response_new;
     (found, parent_refs) \<leftarrow> references_found query_parent;
     conflict \<leftarrow> (if found then reference_conflict parent_refs child MIO_REFERENCE_CHILD MIO_REFERENCE_PARENT else Some None);
     (case conflict of
        Some err \<Rightarrow> Some (err, response, w)
      | None \<Rightarrow> do {
          (r, w) \<leftarrow> (if add_reference_at_child then reference_at_child env w parent child response else Some (Inr response, w));
          (case r of
             Inl err \<Rightarrow> Some (err, response, w)
           | Inr response \<Rightarrow> do {
               (err, query_child_type, w) \<leftarrow> mio_meta_query env w (Some child) mio_response_new;
               child_type \<leftarrow> node_meta_type query_child_type;
               (parent_refs, w) \<leftarrow> mio_reference_add env w parent_refs MIO_REFERENCE_CHILD child_type (Some child);
               parent_item \<leftarrow> mio_references_to_item parent_refs;
               item_publish_ptr env w parent_item (Some parent) response }) }) }"

section \<open>Meta information\<close>

definition mio_meta_publish :: "'s env \<Rightarrow> 's world \<Rightarrow> cptr \<Rightarrow> mio_meta \<Rightarrow> mio_response \<Rightarrow> 's api" where
  "mio_meta_publish env w node meta response =
     (if \<not> authenticated env w then Some (MIO_ERROR_DISCONNECTED, response, w)
      else do {
        (iq, w) \<leftarrow> world_stanza mio_pubsub_get_stanza_new env w node;
        meta_stanza \<leftarrow> mio_meta_to_item meta;
        item \<leftarrow> set_attr (stanza_named ''item'') ''id'' (Some ''meta'');
        meta_stanza \<leftarrow> meta_stanza;
        iq \<leftarrow> pubsub_add iq (xmpp_stanza_add_child item meta_stanza);
        mio_send_blocking env w iq H_error response })"

text \<open>
  The loop that tells the referenced nodes the new type. A reference without a type leaves the code as it is; \<open>None\<close> is a
  code not yet set.
\<close>

fun meta_type_refs_loop :: "'s env \<Rightarrow> 's world \<Rightarrow> int option \<Rightarrow> mio_reference list \<Rightarrow> string \<Rightarrow> mio_meta_type \<Rightarrow> (int option \<times> 's world) option" where
  "meta_type_refs_loop env w err [] node type = Some (err, w)"
| "meta_type_refs_loop env w err (cur_ref # next) node type = do {
     (err, w) \<leftarrow> (case ref_type cur_ref of
        MIO_REFERENCE_CHILD \<Rightarrow> map_option (\<lambda>(e, r, w). (Some e, w))
          (reference_meta_type_overwrite_publish env w (ref_node cur_ref) node MIO_REFERENCE_PARENT type mio_response_new)
      | MIO_REFERENCE_PARENT \<Rightarrow> map_option (\<lambda>(e, r, w). (Some e, w))
          (reference_meta_type_overwrite_publish env w (ref_node cur_ref) node MIO_REFERENCE_CHILD type mio_response_new)
      | MIO_REFERENCE_UNKOWN \<Rightarrow> Some (err, w));
     meta_type_refs_loop env w err next node type }"

definition meta_type_refs_update :: "'s env \<Rightarrow> 's world \<Rightarrow> int option \<Rightarrow> string \<Rightarrow> mio_meta_type \<Rightarrow> (int option \<times> 's world) option" where
  "meta_type_refs_update env w err node type = do {
     (e, query_refs, w) \<leftarrow> mio_references_query env w (Some node) mio_response_new;
     if rsp_response_type query_refs = MIO_RESPONSE_PACKET then do {
       packet \<leftarrow> as_packet (rsp_response query_refs);
       if pkt_type packet = MIO_PACKET_REFERENCES then do {
         refs \<leftarrow> as_references (pkt_payload packet);
         meta_type_refs_loop env w err refs node type }
       else Some (err, w) }
     else Some (err, w) }"

definition mio_meta_merge_publish :: "'s env \<Rightarrow> 's world \<Rightarrow> string \<Rightarrow> mio_meta option \<Rightarrow> mio_transducer_meta list
    \<Rightarrow> mio_property_meta list \<Rightarrow> mio_response \<Rightarrow> 's api" where
  "mio_meta_merge_publish env w node meta transducers properties response = do {
     (err, query, w) \<leftarrow> mio_meta_query env w (Some node) mio_response_new;
     if rsp_response_type query \<noteq> MIO_RESPONSE_PACKET then Some (MIO_ERROR_UNEXPECTED_RESPONSE, response, w)
     else do {
       packet \<leftarrow> as_packet (rsp_response query);
       if pkt_type packet \<noteq> MIO_PACKET_META then Some (MIO_ERROR_UNEXPECTED_RESPONSE, response, w)
       else do {
         query_meta \<leftarrow> as_meta (pkt_payload packet);
         (query_meta, w) \<leftarrow> (case meta of
            None \<Rightarrow> Some (query_meta, w)
          | Some meta \<Rightarrow> do {
              let m = (case query_meta of None \<Rightarrow> mio_meta_new | Some m \<Rightarrow> m);
              (e, w) \<leftarrow> (if mt_meta_type meta \<noteq> mt_meta_type m
                 then meta_type_refs_update env w None node (mt_meta_type meta) else Some (None, w));
              m \<leftarrow> mio_meta_merge m meta;
              Some (Some m, w) });
         query_meta \<leftarrow> (case query_meta of None \<Rightarrow> Some None
            | Some m \<Rightarrow> do {
                m \<leftarrow> meta_transducers_merge m transducers;
                m \<leftarrow> meta_properties_merge m properties;
                Some (Some m) });
         m \<leftarrow> query_meta;
         item \<leftarrow> mio_meta_to_item m;
         item_publish_ptr env w item (Some node) response } } }"

definition mio_meta_geoloc_remove_publish :: "'s env \<Rightarrow> 's world \<Rightarrow> string \<Rightarrow> cptr \<Rightarrow> mio_response \<Rightarrow> 's api" where
  "mio_meta_geoloc_remove_publish env w node transducer_name response = do {
     (err, query, w) \<leftarrow> mio_meta_query env w (Some node) mio_response_new;
     if rsp_response_type query \<noteq> MIO_RESPONSE_PACKET then Some (MIO_ERROR_UNEXPECTED_RESPONSE, response, w)
     else do {
       packet \<leftarrow> as_packet (rsp_response query);
       if pkt_type packet \<noteq> MIO_PACKET_META then Some (MIO_ERROR_UNEXPECTED_PAYLOAD, response, w)
       else do {
         query_meta \<leftarrow> as_meta (pkt_payload packet);
         query_meta \<leftarrow> (case transducer_name of
            None \<Rightarrow> map_option fst (mio_meta_geoloc_remove query_meta [] None)
          | Some name \<Rightarrow> do {
              m \<leftarrow> query_meta;
              (m', ts) \<leftarrow> mio_meta_geoloc_remove None (mt_transducers m) (Some name);
              Some (Some (m\<lparr>mt_transducers := ts\<rparr>)) });
         m \<leftarrow> query_meta;
         item \<leftarrow> mio_meta_to_item m;
         item_publish_ptr env w item (Some node) response } } }"

fun remove_all :: "('a list \<Rightarrow> string \<Rightarrow> 'a list option) \<Rightarrow> 'a list \<Rightarrow> string list \<Rightarrow> 'a list option" where
  "remove_all rm xs [] = Some xs"
| "remove_all rm xs (name # names) = do { xs \<leftarrow> rm xs name; remove_all rm xs names }"

text \<open>Retracting the whole item: the code that is returned is the last one of the updates of the referenced nodes.\<close>

definition meta_retract :: "'s env \<Rightarrow> 's world \<Rightarrow> string \<Rightarrow> mio_response \<Rightarrow> 's api" where
  "meta_retract env w node response = do {
     (iq, w) \<leftarrow> world_stanza pubsub_set_stanza_static env w (Some node);
     retract \<leftarrow> set_attr (stanza_named ''retract'') ''node'' (Some node);
     remove_item \<leftarrow> set_attr (stanza_named ''item'') ''id'' (Some ''meta'');
     iq \<leftarrow> pubsub_add iq (xmpp_stanza_add_child retract remove_item);
     (err, response, w) \<leftarrow> mio_send_blocking env w iq H_error response;
     (e, w) \<leftarrow> meta_type_refs_update env w (Some err) node MIO_META_TYPE_UKNOWN;
     Some (case e of None \<Rightarrow> err | Some e \<Rightarrow> e, response, w) }"

text \<open>
  Names of transducers and properties are given as lists; without a meta name, removing from a missing structure reads
  NULL.
\<close>

definition mio_meta_remove_publish :: "'s env \<Rightarrow> 's world \<Rightarrow> string \<Rightarrow> cptr \<Rightarrow> string list \<Rightarrow> string list \<Rightarrow> mio_response \<Rightarrow> 's api" where
  "mio_meta_remove_publish env w node meta_name transducer_names property_names response = do {
     (err, query, w) \<leftarrow> mio_meta_query env w (Some node) mio_response_new;
     if rsp_response_type query \<noteq> MIO_RESPONSE_PACKET then Some (MIO_ERROR_UNEXPECTED_RESPONSE, response, w)
     else do {
       packet \<leftarrow> as_packet (rsp_response query);
       if pkt_type packet \<noteq> MIO_PACKET_META then Some (MIO_ERROR_UNEXPECTED_PAYLOAD, response, w)
       else do {
         query_meta \<leftarrow> as_meta (pkt_payload packet);
         if meta_name \<noteq> None then meta_retract env w node response
         else do {
           m \<leftarrow> query_meta;
           ts \<leftarrow> remove_all mio_meta_transducer_remove (mt_transducers m) transducer_names;
           ps \<leftarrow> remove_all mio_meta_property_remove (mt_properties m) property_names;
           item \<leftarrow> mio_meta_to_item (m\<lparr>mt_transducers := ts, mt_properties := ps\<rparr>);
           item_publish_ptr env w item (Some node) response } } } }"

section \<open>Measured values\<close>

text \<open>The inner loop: each given value with the name of the current one overwrites it; its texts are copied and must not be NULL.\<close>

fun value_merge_loop :: "mio_transducer_value \<Rightarrow> mio_transducer_value list \<Rightarrow> mio_transducer_value option" where
  "value_merge_loop cur_rec [] = Some cur_rec"
| "value_merge_loop cur_rec (cur # next) =
     (if tv_name cur \<noteq> None \<and> tv_name cur = tv_name cur_rec then do {
        raw \<leftarrow> tv_raw_value cur;
        typed \<leftarrow> tv_typed_value cur;
        ts \<leftarrow> tv_timestamp cur;
        value_merge_loop (cur_rec\<lparr>tv_raw_value := Some raw, tv_typed_value := Some typed, tv_timestamp := Some ts,
          tv_type := tv_type cur\<rparr>) next }
      else value_merge_loop cur_rec next)"

fun values_merge :: "mio_transducer_value list \<Rightarrow> mio_transducer_value list \<Rightarrow> mio_transducer_value list option" where
  "values_merge [] transducers = Some []"
| "values_merge (cur_rec # next) transducers = do {
     v \<leftarrow> value_merge_loop cur_rec transducers;
     vs \<leftarrow> values_merge next transducers;
     Some (v # vs) }"

definition mio_transducer_value_merge_publish :: "'s env \<Rightarrow> 's world \<Rightarrow> mio_transducer_value list \<Rightarrow> string \<Rightarrow> mio_response \<Rightarrow> 's api" where
  "mio_transducer_value_merge_publish env w transducers node response = do {
     (err, query, w) \<leftarrow> mio_item_recent_get env w (Some node) mio_response_new 1 (Some ''data'') (Some H_item_recent_get);
     if rsp_response_type query \<noteq> MIO_RESPONSE_PACKET then Some (MIO_ERROR_UNEXPECTED_RESPONSE, response, w)
     else do {
       packet \<leftarrow> as_packet (rsp_response query);
       if pkt_type packet \<noteq> MIO_PACKET_DATA then Some (MIO_ERROR_UNEXPECTED_PAYLOAD, response, w)
       else do {
         data \<leftarrow> as_data (pkt_payload packet);
         data \<leftarrow> data;
         vs \<leftarrow> values_merge (dt_transducers data) transducers;
         item \<leftarrow> mio_pubsub_item_data_new;
         item \<leftarrow> item_values_loop (Some item) vs;
         item \<leftarrow> item;
         (err, response, w) \<leftarrow> mio_item_publish_data env w item (Some node) response;
         Some (MIO_OK, response, w) } } }"

end
