(* ===== verification/Xml_Reader.thy ===== *)
theory Xml_Reader
  imports Mio_Handlers
begin

text \<open>
  A reader of the XML that the stanza printer produces, as an instance of the parameter \<open>expat\<close>: it splits a text into
  start tags with their attributes, end tags and character data, and resolves the four entities of the printer. It shows
  that what is assumed of expat can be met by one function for all well-formed stanzas: on the text of a stanza whose names
  contain no mark-up character and in which no two texts are adjacent it delivers the events of the stanza.
\<close>

section \<open>Definitions\<close>

definition name_char :: "char \<Rightarrow> bool" where
  "name_char c \<longleftrightarrow> c \<notin> {CHR '' '', CHR ''>'', CHR ''/'', CHR ''='', CHR 0x22, CHR ''<''}"

fun unescape :: "string \<Rightarrow> string" where
  "unescape [] = []"
| "unescape (c # cs) =
     (if c = CHR ''&'' then
        (if take 3 cs = ''lt;'' then CHR ''<'' # unescape (drop 3 cs)
         else if take 3 cs = ''gt;'' then CHR ''>'' # unescape (drop 3 cs)
         else if take 4 cs = ''amp;'' then CHR ''&'' # unescape (drop 4 cs)
         else if take 5 cs = ''quot;'' then CHR 0x22 # unescape (drop 5 cs)
         else c # unescape cs)
      else c # unescape cs)"

function lex_attrs :: "string \<Rightarrow> (string \<times> string) list \<times> string" where
  "lex_attrs s =
     (if take 1 s = '' '' then
        (let k = takeWhile name_char (drop 1 s);
             r = drop 2 (dropWhile name_char (drop 1 s));
             v = takeWhile (\<lambda>c. c \<noteq> CHR 0x22) r;
             (kvs, t) = lex_attrs (drop 1 (dropWhile (\<lambda>c. c \<noteq> CHR 0x22) r))
         in ((k, unescape v) # kvs, t))
      else ([], s))"
  by pat_completeness auto

lemma lex_attrs_shorter:
  assumes "take 1 s = '' ''"
  shows "length (drop 1 (dropWhile P (drop 2 (dropWhile Q (drop 1 s))))) < length s"
proof -
  have "s \<noteq> []" using assms by auto
  have "length (drop 1 (dropWhile P (drop 2 (dropWhile Q (drop 1 s))))) \<le> length (drop 2 (dropWhile Q (drop 1 s)))"
    using length_dropWhile_le [of P "drop 2 (dropWhile Q (drop 1 s))"] by simp
  also have "\<dots> \<le> length (drop 1 s)" using length_dropWhile_le [of Q "drop 1 s"] by simp
  also have "\<dots> < length s" using \<open>s \<noteq> []\<close> by (cases s) auto
  finally show ?thesis .
qed

termination lex_attrs
  by (relation "measure length") (use lex_attrs_shorter in auto)

declare lex_attrs.simps [simp del]

lemma lex_attrs_length: "length (snd (lex_attrs s)) \<le> length s"
proof (induction s rule: lex_attrs.induct)
  case (1 s)
  show ?case
  proof (cases "take 1 s = '' ''")
    case True
    let ?t = "drop 1 (dropWhile (\<lambda>c. c \<noteq> CHR 0x22) (drop 2 (dropWhile name_char (drop 1 s))))"
    have "length (snd (lex_attrs ?t)) \<le> length ?t" using 1 [OF True refl refl refl] by simp
    moreover have "length ?t < length s" by (rule lex_attrs_shorter [OF True])
    moreover have "snd (lex_attrs s) = snd (lex_attrs ?t)"
      by (subst lex_attrs.simps) (simp only: True if_True Let_def case_prod_beta snd_conv refl)
    ultimately show ?thesis by (simp only: le_less_trans less_imp_le_nat)
  qed (simp add: lex_attrs.simps)
qed

function xml_lex :: "string \<Rightarrow> xml_event list" where
  "xml_lex [] = []"
| "xml_lex (c # cs) =
     (if c = CHR ''<'' then
        (if take 1 cs = ''/''
         then EndElement (takeWhile name_char (drop 1 cs)) # xml_lex (drop 1 (dropWhile name_char (drop 1 cs)))
         else let name = takeWhile name_char cs; (attr, r) = lex_attrs (dropWhile name_char cs)
              in StartElement name attr #
                 (if take 2 r = ''/>'' then EndElement name # xml_lex (drop 2 r) else xml_lex (drop 1 r)))
      else CharData (unescape (takeWhile (\<lambda>c. c \<noteq> CHR ''<'') (c # cs))) # xml_lex (dropWhile (\<lambda>c. c \<noteq> CHR ''<'') cs))"
  by pat_completeness auto

termination xml_lex
proof (relation "measure length")
  fix c :: char and cs name :: string and x attr r
  assume x: "x = lex_attrs (dropWhile name_char cs)" "(attr, r) = x"
  have r: "length r < length (c # cs)"
    using lex_attrs_length [of "dropWhile name_char cs"] length_dropWhile_le [of name_char cs] x by (metis le_imp_less_Suc le_trans length_Cons snd_conv)
  then show "(drop 2 r, c # cs) \<in> measure length" "(drop 1 r, c # cs) \<in> measure length" by auto
next
  fix c :: char and cs :: string
  show "(drop 1 (dropWhile name_char (drop 1 cs)), c # cs) \<in> measure length"
    using length_dropWhile_le [of name_char "drop 1 cs"] by auto
  show "(dropWhile (\<lambda>c. c \<noteq> CHR ''<'') cs, c # cs) \<in> measure length"
    using length_dropWhile_le [of "\<lambda>c. c \<noteq> CHR ''<''" cs] by auto
qed simp_all

declare xml_lex.simps [simp del]

definition xml_reader :: expat where
  "xml_reader buf = (xml_lex buf, True)"

section \<open>Reading what was printed\<close>

lemma unescape_escape_char: "unescape (escape_char c @ t) = c # unescape t"
  by (simp add: escape_char_def)

lemma unescape_esc [simp]: "unescape (stanza_esc s) = s"
proof (induction s)
  case (Cons c s)
  have "stanza_esc (c # s) = escape_char c @ stanza_esc s" by (simp add: stanza_esc_def)
  with Cons show ?case by (simp only: unescape_escape_char)
qed (simp add: stanza_esc_def)

lemma stanza_esc_chars: "c \<in> set (stanza_esc s) \<Longrightarrow> c \<noteq> CHR ''<'' \<and> c \<noteq> CHR 0x22"
  by (induction s) (auto simp: stanza_esc_def escape_char_def split: if_splits)

definition name_ok :: "string \<Rightarrow> bool" where
  "name_ok s \<longleftrightarrow> list_all name_char s"

lemma name_ok_takeWhile:
  assumes "name_ok k" "\<not> name_char c"
  shows "takeWhile name_char (k @ c # t) = k" "dropWhile name_char (k @ c # t) = c # t"
  using assms by (simp_all add: name_ok_def list_all_iff takeWhile_append2 dropWhile_append2)

lemma lex_attrs_text:
  assumes "list_all (\<lambda>kv. name_ok (fst kv)) kvs" "take 1 t \<noteq> '' ''"
  shows "lex_attrs (concat (map attr_text kvs) @ t) = (kvs, t)"
  using assms(1)
proof (induction kvs)
  case Nil
  with assms(2) show ?case by (simp add: lex_attrs.simps)
next
  case (Cons kv kvs)
  obtain k v where kv: "kv = (k, v)" by (cases kv)
  let ?rest = "concat (map attr_text kvs) @ t"
  have nc: "\<not> name_char (CHR ''='')" by (simp add: name_char_def)
  have k: "name_ok k" using Cons.prems kv by simp
  have v: "takeWhile (\<lambda>c. c \<noteq> CHR 0x22) (stanza_esc v @ CHR 0x22 # ?rest) = stanza_esc v"
    "dropWhile (\<lambda>c. c \<noteq> CHR 0x22) (stanza_esc v @ CHR 0x22 # ?rest) = CHR 0x22 # ?rest"
    using stanza_esc_chars [of _ v] by (simp_all add: takeWhile_append2 dropWhile_append2)
  have "lex_attrs (CHR '' '' # k @ CHR ''='' # CHR 0x22 # stanza_esc v @ CHR 0x22 # ?rest) = ((k, v) # kvs, t)"
    using Cons.IH Cons.prems by (subst lex_attrs.simps) (simp add: name_ok_takeWhile [OF k nc] v Let_def)
  then show ?case by (simp add: kv attr_text_def)
qed

fun texts_apart :: "xmpp_stanza list \<Rightarrow> bool" where
  "texts_apart (a # b # cs) \<longleftrightarrow> \<not> (st_type a = XMPP_STANZA_TEXT \<and> st_type b = XMPP_STANZA_TEXT) \<and> texts_apart (b # cs)"
| "texts_apart _ \<longleftrightarrow> True"

text \<open>Stanzas whose text can be read back.\<close>

fun lexable :: "xmpp_stanza \<Rightarrow> bool" where
  "lexable (Stanza ty d a cs) \<longleftrightarrow>
     (ty = XMPP_STANZA_TEXT \<and> d \<noteq> None) \<or>
     (ty = XMPP_STANZA_TAG \<and> d \<noteq> None \<and> the d \<noteq> [] \<and> name_ok (the d) \<and>
      list_all (\<lambda>kv. name_ok (fst kv)) (stanza_pairs (Stanza ty d a cs)) \<and> texts_apart cs \<and> list_all lexable cs)"

definition lexed :: "xmpp_stanza \<Rightarrow> bool" where
  "lexed s \<longleftrightarrow> (\<exists>tx. stanza_text s = Some tx \<and> (st_type s \<noteq> XMPP_STANZA_TEXT \<longrightarrow> take 1 tx = ''<'') \<and>
     (\<forall>rest. st_type s = XMPP_STANZA_TAG \<or> take 1 rest = ''<'' \<longrightarrow> xml_lex (tx @ rest) = sax_events s @ xml_lex rest))"

lemma xml_lex_text:
  assumes "take 1 rest = ''<''"
  shows "xml_lex (stanza_esc t @ rest) = (if t = [] then [] else [CharData t]) @ xml_lex rest"
proof (cases "stanza_esc t")
  case Nil
  then have "t = []" by (cases t) (auto simp: stanza_esc_def escape_char_def split: if_splits)
  then show ?thesis by (simp add: stanza_esc_def)
next
  case (Cons c cs)
  obtain r where r: "rest = CHR ''<'' # r" using assms by (cases rest) auto
  have nl: "c \<noteq> CHR ''<''" "\<forall>x \<in> set cs. x \<noteq> CHR ''<''" using stanza_esc_chars [of _ t] Cons by auto
  have "xml_lex (c # cs @ rest) = CharData (unescape (c # cs)) # xml_lex rest"
    using nl r by (subst xml_lex.simps) (simp add: takeWhile_append2 dropWhile_append2)
  moreover have "unescape (c # cs) = t" using unescape_esc [of t] Cons by simp
  moreover have "t \<noteq> []" using Cons by (auto simp: stanza_esc_def)
  ultimately show ?thesis using Cons by simp
qed

lemma xml_lex_end: "name_ok name \<Longrightarrow> xml_lex (''</'' @ name @ ''>'' @ rest) = EndElement name # xml_lex rest"
  using name_ok_takeWhile [of name "CHR ''>''" rest] by (simp add: xml_lex.simps name_char_def)

lemma lexed_list:
  assumes "list_all lexed cs" "texts_apart cs"
  shows "\<exists>ts. those (map stanza_text cs) = Some ts \<and> (cs \<noteq> [] \<and> st_type (hd cs) \<noteq> XMPP_STANZA_TEXT \<longrightarrow> take 1 (concat ts) = ''<'') \<and>
     (\<forall>rest. take 1 rest = ''<'' \<longrightarrow> xml_lex (concat ts @ rest) = concat (map sax_events cs) @ xml_lex rest)"
  using assms
proof (induction cs)
  case (Cons c cs)
  obtain tx where tx: "stanza_text c = Some tx" "st_type c \<noteq> XMPP_STANZA_TEXT \<longrightarrow> take 1 tx = ''<''"
    "\<And>rest. st_type c = XMPP_STANZA_TAG \<or> take 1 rest = ''<'' \<Longrightarrow> xml_lex (tx @ rest) = sax_events c @ xml_lex rest"
    using Cons.prems(1) by (auto simp: lexed_def)
  have "texts_apart cs" using Cons.prems(2) by (cases cs) auto
  then obtain ts where ts: "those (map stanza_text cs) = Some ts"
    "cs \<noteq> [] \<and> st_type (hd cs) \<noteq> XMPP_STANZA_TEXT \<longrightarrow> take 1 (concat ts) = ''<''"
    "\<And>rest. take 1 rest = ''<'' \<Longrightarrow> xml_lex (concat ts @ rest) = concat (map sax_events cs) @ xml_lex rest"
    using Cons.IH Cons.prems(1) by auto
  have "st_type c \<noteq> XMPP_STANZA_UNKNOWN" using tx(1) by (cases c) auto
  have first: "st_type c = XMPP_STANZA_TAG \<or> take 1 (concat ts @ rest) = ''<''" if "take 1 rest = ''<''" for rest
  proof (cases "st_type c = XMPP_STANZA_TEXT")
    case True
    then have "cs = [] \<or> st_type (hd cs) \<noteq> XMPP_STANZA_TEXT" using Cons.prems(2) by (cases cs) auto
    then show ?thesis using ts(1,2) that by (cases "concat ts") auto
  qed (use \<open>st_type c \<noteq> XMPP_STANZA_UNKNOWN\<close> in \<open>cases "st_type c"; simp\<close>)
  have "take 1 (tx @ concat ts) = ''<''" if "st_type c \<noteq> XMPP_STANZA_TEXT" using tx(2) that by (cases tx) auto
  with tx(1) ts(1) first show ?case
    by (intro exI [of _ "tx # ts"]) (auto simp: tx(3) ts(3))
qed simp

lemma lexable_lexed: "lexable s \<Longrightarrow> lexed s"
proof (induction s)
  case (Stanza ty d a cs)
  show ?case
  proof (cases "ty = XMPP_STANZA_TEXT")
    case True
    then obtain t where "d = Some t" using Stanza.prems by auto
    with True show ?thesis by (auto simp: lexed_def xml_lex_text)
  next
    case False
    let ?s = "Stanza ty d a cs"
    obtain name where tag: "ty = XMPP_STANZA_TAG" "d = Some name" "name \<noteq> []" "name_ok name"
      "list_all (\<lambda>kv. name_ok (fst kv)) (stanza_pairs ?s)" "texts_apart cs" "list_all lexable cs" using Stanza.prems False by auto
    have "list_all lexed cs" using Stanza.IH tag(7) by (auto simp: list_all_iff)
    then obtain ts where ts: "those (map stanza_text cs) = Some ts"
      "\<And>rest. take 1 rest = ''<'' \<Longrightarrow> xml_lex (concat ts @ rest) = concat (map sax_events cs) @ xml_lex rest"
      using lexed_list tag(6) by blast
    have at: "attrs_text a = concat (map attr_text (stanza_pairs ?s))"
      by (simp add: attrs_text_def stanza_pairs_def split: option.splits)
    have start: "xml_lex (''<'' @ name @ attrs_text a @ c # v) = StartElement name (stanza_pairs ?s) #
        (if take 2 (c # v) = ''/>'' then EndElement name # xml_lex (drop 2 (c # v)) else xml_lex v)"
      if c: "c \<in> {CHR ''/'', CHR ''>''}" for c v
    proof -
      obtain x y where xy: "attrs_text a @ c # v = x # y" "\<not> name_char x"
        using c at by (cases "stanza_pairs ?s") (auto simp: attr_text_def name_char_def)
      have "take 1 (name @ x # y) \<noteq> ''/''" using tag(3,4) by (cases name) (auto simp: name_ok_def name_char_def)
      moreover have "lex_attrs (x # y) = (stanza_pairs ?s, c # v)"
        using lex_attrs_text [OF tag(5), of "c # v"] c by (auto simp flip: at xy(1))
      ultimately show ?thesis
        using name_ok_takeWhile [OF tag(4) xy(2), of y] xy(1) by (simp add: xml_lex.simps(2) Let_def)
    qed
    have "xml_lex (''<'' @ name @ attrs_text a @ ''>'' @ concat ts @ ''</'' @ name @ ''>'' @ rest) = sax_events ?s @ xml_lex rest"
      if "cs \<noteq> []" for rest
      using start [of "CHR ''>''" "concat ts @ ''</'' @ name @ ''>'' @ rest"] ts(2) [of "''</'' @ name @ ''>'' @ rest"]
        xml_lex_end [OF tag(4), of rest] tag(1,2) by simp
    moreover have "xml_lex (''<'' @ name @ attrs_text a @ ''/>'' @ rest) = sax_events ?s @ xml_lex rest" if "cs = []" for rest
      using start [of "CHR ''/''" "CHR ''>'' # rest"] that tag(1,2) by simp
    ultimately show ?thesis using tag(1,2) ts(1) by (auto simp: lexed_def)
  qed
qed

text \<open>What is assumed of expat holds of the reader.\<close>

lemma xml_reader_delivers:
  assumes "lexable s" "st_type s = XMPP_STANZA_TAG"
  shows "expat_delivers xml_reader s"
proof -
  obtain tx where tx: "stanza_text s = Some tx" "xml_lex (tx @ []) = sax_events s @ xml_lex []"
    using lexable_lexed [OF assms(1)] assms(2) unfolding lexed_def by blast
  then show ?thesis by (simp add: expat_delivers_def xmpp_stanza_to_text_eq xml_reader_def xml_lex.simps(1))
qed

end
