(* ===== verification/Mio_Service.thy ===== *)
theory Mio_Service
  imports Mio_Roundtrip Mio_Updates Xml_Reader
begin

text \<open>
  The publish-subscribe service a connection talks to, as an assumption on the parameter \<open>env\<close>: a published item replaces
  the stored item of its node and identifier and is answered without an error; a request for an item is answered with the
  stored item below \<open>iq/pubsub/items\<close>, or with an empty \<open>items\<close> element; expat delivers the replies. \<open>pubsub_service\<close> says so
  for the items of a given set. A small service with the reader of \<open>Xml_Reader\<close> meets it for every set of readable items.

  Shown: on such a service publishing stores the item and fetching runs the handler of the query on the stored item.
\<close>

section \<open>Requests in closed form\<close>

definition items_request :: "cptr \<Rightarrow> string \<Rightarrow> cptr \<Rightarrow> string \<Rightarrow> mio_stanza option" where
  "items_request jid uuid node i = do {
     iq \<leftarrow> mio_pubsub_get_stanza_new jid uuid node;
     items \<leftarrow> set_attr (stanza_named ''items'') ''node'' node;
     item \<leftarrow> set_attr (stanza_named ''item'') ''id'' (Some i);
     pubsub_add iq (xmpp_stanza_add_child items item) }"

lemma mio_item_publish_eq:
  "authenticated env w \<Longrightarrow> mio_item_publish env w item node response = do {
     iq \<leftarrow> mio_publish_stanza (wd_jid w) (en_uuid env (wd_uuids w)) item node;
     mio_send_blocking env (w\<lparr>wd_uuids := Suc (wd_uuids w)\<rparr>) iq H_error response }"
  by (simp add: mio_item_publish_def mio_publish_stanza_def world_stanza_def fresh_id_def pubsub_add_def)

lemma mio_item_recent_get_eq:
  "authenticated env w \<Longrightarrow> mio_item_recent_get env w node response n (Some i) (Some h) = do {
     iq \<leftarrow> items_request (wd_jid w) (en_uuid env (wd_uuids w)) node i;
     mio_send_blocking env (w\<lparr>wd_uuids := Suc (wd_uuids w)\<rparr>) iq h response }"
  by (simp add: mio_item_recent_get_def items_request_def world_stanza_def fresh_id_def pubsub_add_def)

lemma mio_meta_query_eq:
  "authenticated env w \<Longrightarrow> mio_meta_query env w node response = do {
     iq \<leftarrow> items_request (wd_jid w) (en_uuid env (wd_uuids w)) node ''meta'';
     mio_send_blocking env (w\<lparr>wd_uuids := Suc (wd_uuids w)\<rparr>) iq H_meta_query response }"
  by (simp add: mio_meta_query_def items_request_def world_stanza_def fresh_id_def pubsub_add_def)

definition has_server :: "cptr \<Rightarrow> bool" where
  "has_server jid \<longleftrightarrow> Option.bind jid mio_get_server \<noteq> None"

lemma has_server_pubsub: "has_server jid \<Longrightarrow> mio_pubsub_server jid (Some node) \<noteq> None"
  by (cases jid) (auto simp: has_server_def mio_pubsub_server_def split: option.splits)

lemma publish_stanza_defined: "has_server jid \<Longrightarrow> \<exists>iq. mio_publish_stanza jid uuid item (Some node) = Some iq"
  using mio_publish_stanza_ok has_server_pubsub by (metis not_Some_eq)

lemma items_request_defined: "has_server jid \<Longrightarrow> \<exists>iq. items_request jid uuid (Some node) i = Some iq"
proof -
  assume "has_server jid"
  then obtain server where "mio_pubsub_server jid (Some node) = Some server" using has_server_pubsub by blast
  from mio_pubsub_set_stanza_new_ok [OF this, of uuid] obtain iq pubsub where
    iq: "mio_pubsub_set_stanza_new jid uuid (Some node) = Some \<lparr>ms_xmpp_stanza = iq, ms_id = uuid\<rparr>" "tag_wf iq"
    "st_children iq = [pubsub]" by blast
  have "st_children (put_attr iq ''type'' (Some ''get'')) = [pubsub]" using iq by (simp add: put_attr_tag)
  then have "add_to_first_child (put_attr iq ''type'' (Some ''get'')) c \<noteq> None" for c
    using stanza_attr_add_to_first_child by (metis option.distinct(1))
  then obtain s where "add_to_first_child (put_attr iq ''type'' (Some ''get''))
      (xmpp_stanza_add_child (put_attr (stanza_named ''items'') ''node'' (Some node)) (put_attr (stanza_named ''item'') ''id'' (Some i))) = Some s"
    by blast
  with iq show ?thesis by (simp add: items_request_def mio_pubsub_get_stanza_new_def stanza_build pubsub_add_def)
qed

section \<open>The service\<close>

definition items_reply :: "hash_t option \<Rightarrow> hash_t option \<Rightarrow> hash_t option \<Rightarrow> xmpp_stanza option \<Rightarrow> xmpp_stanza" where
  "items_reply a1 a2 a3 item = Stanza XMPP_STANZA_TAG (Some ''iq'') a1 [Stanza XMPP_STANZA_TAG (Some ''pubsub'') a2
     [Stanza XMPP_STANZA_TAG (Some ''items'') a3 (case item of None \<Rightarrow> [] | Some s \<Rightarrow> [s])]]"

fun error_free :: "xmpp_stanza \<Rightarrow> bool" where
  "error_free (Stanza ty d a cs) \<longleftrightarrow> d \<noteq> Some ''error'' \<and> list_all error_free cs"

definition result_reply :: "expat \<Rightarrow> xmpp_stanza \<Rightarrow> bool" where
  "result_reply expat s \<longleftrightarrow> tag_wf s \<and> error_free s \<and> expat_delivers expat s"

definition pubsub_service :: "'s env \<Rightarrow> ('s \<Rightarrow> (string \<times> string) \<rightharpoonup> xmpp_stanza) \<Rightarrow> xmpp_stanza set \<Rightarrow> bool" where
  "pubsub_service env stored items \<longleftrightarrow>
     (\<forall>s jid uuid item node i iq. en_authenticated env s \<longrightarrow> mio_publish_stanza jid uuid item (Some node) = Some iq \<longrightarrow>
        item \<in> items \<longrightarrow> stanza_attr item ''id'' = Some i \<longrightarrow>
        (\<exists>reply s'. en_serve env s (ms_xmpp_stanza iq) = (Reply reply, s') \<and> result_reply (en_expat env) reply \<and>
           en_authenticated env s' \<and> stored s' = (stored s)((node, i) \<mapsto> item))) \<and>
     (\<forall>s jid uuid node i iq. en_authenticated env s \<longrightarrow> items_request jid uuid (Some node) i = Some iq \<longrightarrow>
        set_option (stored s (node, i)) \<subseteq> items \<longrightarrow>
        (\<exists>a1 a2 a3 s'. en_serve env s (ms_xmpp_stanza iq) = (Reply (items_reply a1 a2 a3 (stored s (node, i))), s') \<and>
           expat_delivers (en_expat env) (items_reply a1 a2 a3 (stored s (node, i))) \<and>
           en_authenticated env s' \<and> stored s' = stored s))"

section \<open>The handler of publications\<close>

lemma error_start:
  assumes "xml_data_update_start_element xd nm = Some xd'" "nm \<noteq> ''error''" "rsp_response_type (xd_response xd') \<noteq> MIO_RESPONSE_ERROR"
  shows "mio_XMLstart_error xd nm attr = Some (xd_set_type MIO_RESPONSE_OK xd')"
  using assms by (simp add: mio_XMLstart_error_def)

definition xd_clean :: "mio_response \<Rightarrow> xml_data \<Rightarrow> bool" where
  "xd_clean R xd \<longleftrightarrow> xd_chars xd = XChars_none \<and> xd_response xd = R \<and> rsp_response_type R = MIO_RESPONSE_OK"

lemma xd_clean_set: "xd_clean R xd \<Longrightarrow> xd_clean R (xd_set_type MIO_RESPONSE_OK xd)"
  by (cases R) (simp add: xd_clean_def xd_set_type_def)

lemma error_free_run:
  assumes "error_free s" "xd_in n d ps xd" "xd_clean R xd"
  shows "\<exists>xd'. xml_run mio_XMLstart_error xd (sax_events s) = Some xd' \<and> xd_in n d ps xd' \<and> xd_clean R xd'"
  using assms
proof (induction s arbitrary: n d ps xd)
  case (Stanza ty dt a cs)
  have ps: "ps \<noteq> []" using Stanza.prems(2) by (simp add: xd_in_def)
  have list: "\<exists>xd'. xml_run mio_XMLstart_error xd1 (concat (map sax_events ds)) = Some xd' \<and> xd_in m e qs xd' \<and> xd_clean R xd'"
    if "set ds \<subseteq> set cs" "xd_in m e qs xd1" "xd_clean R xd1" for ds m e qs xd1
    using that
  proof (induction ds arbitrary: xd1)
    case (Cons c ds)
    have "error_free c" using Stanza.prems(1) Cons.prems(1) by (auto simp: list_all_iff)
    from Stanza.IH [OF _ this Cons.prems(2,3)] Cons.prems(1) obtain xd2 where
      2: "xml_run mio_XMLstart_error xd1 (sax_events c) = Some xd2" "xd_in m e qs xd2" "xd_clean R xd2" by auto
    from Cons.IH [OF _ 2(2,3)] Cons.prems(1) 2(1) show ?case by (auto simp: xml_run_append)
  qed simp
  show ?case
  proof (cases "ty = XMPP_STANZA_TAG \<and> dt \<noteq> None")
    case False
    then show ?thesis using Stanza.prems(2,3) by (cases ty; cases dt) (auto simp: xml_char_data_def xd_clean_def)
  next
    case True
    then obtain nm where nm: "ty = XMPP_STANZA_TAG" "dt = Some nm" "nm \<noteq> ''error''" using Stanza.prems(1) by auto
    obtain xd1 where 1: "xml_data_update_start_element xd nm = Some xd1" "xd_in nm (d + 1) (Some n # ps) xd1" "xd_same xd xd1"
      using xd_start_in [OF Stanza.prems(2), of nm] by blast
    let ?xd2 = "xd_set_type MIO_RESPONSE_OK xd1"
    have 2: "mio_XMLstart_error xd nm attr = Some ?xd2" for attr
      using error_start [OF 1(1) nm(3)] 1(3) Stanza.prems(3) by (simp add: xd_same_def xd_clean_def)
    have in2: "xd_in nm (d + 1) (Some n # ps) ?xd2" using 1(2) by simp
    have "xd_clean R ?xd2" using 1(3) Stanza.prems(3) by (intro xd_clean_set) (simp add: xd_same_def xd_clean_def)
    from list [OF _ in2 this] obtain xd3 where 3: "xml_run mio_XMLstart_error ?xd2 (concat (map sax_events cs)) = Some xd3"
      "xd_in nm (d + 1) (Some n # ps) xd3" "xd_clean R xd3" by blast
    from xd_end_in [OF 3(2) ps] obtain xd4 where "xml_data_update_end_element xd3 = Some xd4" "xd_in n d ps xd4" "xd_same xd3 xd4" by blast
    with nm 2 3 show ?thesis by (auto simp: xml_run_append xd_same_def xd_clean_def)
  qed
qed

lemma publish_handled:
  assumes "result_reply expat reply" "rsp_response_type r \<noteq> MIO_RESPONSE_ERROR"
  shows "mio_handler_error expat True reply r =
     Some (MIO_OK, r\<lparr>rsp_stanza := Some reply, rsp_response_type := MIO_RESPONSE_OK\<rparr>, True)"
proof -
  let ?r = "r\<lparr>rsp_stanza := Some reply\<rparr>" and ?xd = "xml_data_new (r\<lparr>rsp_stanza := Some reply\<rparr>) XChars_none"
  let ?R = "?r\<lparr>rsp_response_type := MIO_RESPONSE_OK\<rparr>"
  obtain nm a cs where s: "reply = Stanza XMPP_STANZA_TAG (Some nm) a cs" "nm \<noteq> ''error''" "list_all error_free cs"
    using assms(1) by (cases reply) (auto simp: result_reply_def tag_wf_def)
  obtain xd1 where 1: "xml_data_update_start_element ?xd nm = Some xd1" "xd_in nm 1 [None] xd1" "xd_same ?xd xd1"
    using xd_start_root by blast
  let ?xd2 = "xd_set_type MIO_RESPONSE_OK xd1"
  have r1: "xd_response xd1 = ?r" "xd_chars xd1 = XChars_none" using 1(3) by (simp_all add: xd_same_def xml_data_new_def)
  have 2: "mio_XMLstart_error ?xd nm attr = Some ?xd2" for attr
    using error_start [OF 1(1) s(2)] r1 assms(2) by simp
  have c2: "xd_clean ?R ?xd2" "xd_in nm 1 [None] ?xd2" using r1 1(2) by (auto simp: xd_clean_def xd_set_type_def xd_in_def)
  have "\<exists>xd'. xml_run mio_XMLstart_error xd (concat (map sax_events ds)) = Some xd' \<and> xd_in nm 1 [None] xd' \<and> xd_clean ?R xd'"
    if "xd_in nm 1 [None] xd" "xd_clean ?R xd" "list_all error_free ds" for ds xd
    using that
  proof (induction ds arbitrary: xd)
    case (Cons c ds)
    then obtain xd' where "xml_run mio_XMLstart_error xd (sax_events c) = Some xd'" "xd_in nm 1 [None] xd'" "xd_clean ?R xd'"
      using error_free_run [of c nm 1 "[None]" xd ?R] by auto
    with Cons show ?case by (auto simp: xml_run_append)
  qed simp
  from this [OF c2(2,1) s(3)] obtain xd3 where
    3: "xml_run mio_XMLstart_error ?xd2 (concat (map sax_events cs)) = Some xd3" "xd_in nm 1 [None] xd3" "xd_clean ?R xd3" by blast
  from xd_end_root [OF 3(2)] obtain xd4 where 4: "xml_data_update_end_element xd3 = Some xd4" "xd_same xd3 xd4" by blast
  have "xd_response xd4 = ?R" using 3(3) 4(2) by (simp add: xd_clean_def xd_same_def)
  moreover have "expat_delivers expat reply" using assms(1) by (simp add: result_reply_def)
  ultimately show ?thesis using s(1) 2 3(1) 4(1)
    by (simp add: mio_handler_error_def mio_xml_parse_delivers xml_run_append)
qed

section \<open>Publishing and fetching\<close>

definition ready :: "'s env \<Rightarrow> 's world \<Rightarrow> bool" where
  "ready env w \<longleftrightarrow> authenticated env w \<and> has_server (wd_jid w)"

lemma ready_tick [simp]:
  "ready env (w\<lparr>wd_uuids := n\<rparr>) = ready env w" "authenticated env (w\<lparr>wd_uuids := n\<rparr>) = authenticated env w"
  by (simp_all add: ready_def authenticated_def)

lemma publish_stored:
  assumes "pubsub_service env stored items" "ready env w" "item \<in> items" "stanza_attr item ''id'' = Some i"
    "rsp_response_type r \<noteq> MIO_RESPONSE_ERROR"
  shows "\<exists>r' w'. mio_item_publish env w item (Some node) r = Some (MIO_OK, r', w') \<and> ready env w' \<and>
     rsp_response_type r' = MIO_RESPONSE_OK \<and> stored (wd_outside w') = (stored (wd_outside w))((node, i) \<mapsto> item)"
proof -
  have auth: "en_authenticated env (wd_outside w)" "authenticated env w" using assms(2) by (simp_all add: ready_def authenticated_def)
  obtain iq where iq: "mio_publish_stanza (wd_jid w) (en_uuid env (wd_uuids w)) item (Some node) = Some iq"
    using publish_stanza_defined assms(2) by (metis ready_def)
  obtain reply s' where s': "en_serve env (wd_outside w) (ms_xmpp_stanza iq) = (Reply reply, s')" "result_reply (en_expat env) reply"
    "en_authenticated env s'" "stored s' = (stored (wd_outside w))((node, i) \<mapsto> item)"
    using assms(1,3,4) auth(1) iq unfolding pubsub_service_def by metis
  let ?r = "r\<lparr>rsp_id := ms_id iq\<rparr>"
  have "rsp_response_type ?r \<noteq> MIO_RESPONSE_ERROR" using assms(5) by simp
  note h = publish_handled [OF s'(2) this]
  have "mio_item_publish env w item (Some node) r = Some (MIO_OK, ?r\<lparr>rsp_stanza := Some reply, rsp_response_type := MIO_RESPONSE_OK\<rparr>,
      w\<lparr>wd_uuids := Suc (wd_uuids w), wd_outside := s', wd_sent := wd_sent w @ [ms_xmpp_stanza iq]\<rparr>)"
    using iq s'(1) h by (simp add: mio_item_publish_eq [OF auth(2)] mio_send_blocking_def reply_handler_def)
  with s'(3,4) assms(2) show ?thesis by (auto simp: ready_def authenticated_def)
qed

lemma item_fetched:
  assumes "pubsub_service env stored items" "ready env w" "reply_handler h = Some hf" "set_option (stored (wd_outside w) (node, i)) \<subseteq> items"
  shows "\<exists>a1 a2 a3 w' r0. do {
       iq \<leftarrow> items_request (wd_jid w) (en_uuid env (wd_uuids w)) (Some node) i;
       mio_send_blocking env (w\<lparr>wd_uuids := Suc (wd_uuids w)\<rparr>) iq h r } =
     map_option (\<lambda>(err, r', signalled). (if signalled then MIO_OK else MIO_ERROR_TIMEOUT, r', w'))
       (hf (en_expat env) True (items_reply a1 a2 a3 (stored (wd_outside w) (node, i))) (r\<lparr>rsp_id := r0\<rparr>)) \<and>
     expat_delivers (en_expat env) (items_reply a1 a2 a3 (stored (wd_outside w) (node, i))) \<and>
     ready env w' \<and> stored (wd_outside w') = stored (wd_outside w)"
proof -
  have auth: "en_authenticated env (wd_outside w)" using assms(2) by (simp add: ready_def authenticated_def)
  obtain iq where iq: "items_request (wd_jid w) (en_uuid env (wd_uuids w)) (Some node) i = Some iq"
    using items_request_defined assms(2) by (metis ready_def)
  obtain a1 a2 a3 s' where s': "en_serve env (wd_outside w) (ms_xmpp_stanza iq) =
      (Reply (items_reply a1 a2 a3 (stored (wd_outside w) (node, i))), s')"
    "expat_delivers (en_expat env) (items_reply a1 a2 a3 (stored (wd_outside w) (node, i)))"
    "en_authenticated env s'" "stored s' = stored (wd_outside w)"
    using assms(1,4) auth iq unfolding pubsub_service_def by metis
  let ?w = "w\<lparr>wd_uuids := Suc (wd_uuids w), wd_outside := s', wd_sent := wd_sent w @ [ms_xmpp_stanza iq]\<rparr>"
  show ?thesis
    using iq s' assms(2,3)
    by (intro exI [of _ a1] exI [of _ a2] exI [of _ a3] exI [of _ ?w] exI [of _ "ms_id iq"])
      (auto simp: mio_send_blocking_def ready_def authenticated_def split: Option.bind_splits)
qed

section \<open>A service\<close>

text \<open>
  A service that does what is assumed, with the reader of \<open>Xml_Reader\<close> as expat: it keeps the items in a table and
  answers both kinds of request.
\<close>

definition demo_serve :: "((string \<times> string) \<rightharpoonup> xmpp_stanza) \<Rightarrow> xmpp_stanza \<Rightarrow> exchange \<times> ((string \<times> string) \<rightharpoonup> xmpp_stanza)" where
  "demo_serve st s = (case st_children s of [p] \<Rightarrow> (case st_children p of [x] \<Rightarrow> (case st_children x of [item] \<Rightarrow>
       (case (stanza_attr x ''node'', stanza_attr item ''id'') of
          (Some node, Some i) \<Rightarrow>
            if st_data x = Some ''publish'' then (Reply (stanza_named ''iq''), st((node, i) \<mapsto> item))
            else (Reply (items_reply None None None (st (node, i))), st)
        | _ \<Rightarrow> (NoReply MIO_ERROR_TIMEOUT, st))
     | _ \<Rightarrow> (NoReply MIO_ERROR_TIMEOUT, st)) | _ \<Rightarrow> (NoReply MIO_ERROR_TIMEOUT, st)) | _ \<Rightarrow> (NoReply MIO_ERROR_TIMEOUT, st))"

definition demo_env :: "((string \<times> string) \<rightharpoonup> xmpp_stanza) env" where
  "demo_env = \<lparr>en_expat = xml_reader, en_uuid = (\<lambda>n. c_dec n), en_authenticated = (\<lambda>_. True), en_serve = demo_serve\<rparr>"

definition demo_world :: "((string \<times> string) \<rightharpoonup> xmpp_stanza) world" where
  "demo_world = \<lparr>wd_jid = Some ''bob@home.org'', wd_uuids = 0, wd_outside = Map.empty, wd_sent = []\<rparr>"

lemma items_request_shape:
  assumes "items_request jid uuid (Some node) i = Some iq"
  shows "\<exists>p x item. st_children (ms_xmpp_stanza iq) = [p] \<and> st_children p = [x] \<and> st_data x = Some ''items'' \<and>
     stanza_attr x ''node'' = Some node \<and> st_children x = [item] \<and> stanza_attr item ''id'' = Some i"
proof -
  let ?items = "xmpp_stanza_add_child (put_attr (stanza_named ''items'') ''node'' (Some node)) (put_attr (stanza_named ''item'') ''id'' (Some i))"
  obtain server where "mio_pubsub_server jid (Some node) = Some server"
    using assms by (cases "mio_pubsub_server jid (Some node)")
      (auto simp: items_request_def mio_pubsub_get_stanza_new_def mio_pubsub_set_stanza_new_def mio_pubsub_stanza_new_def)
  from mio_pubsub_set_stanza_new_ok [OF this, of uuid] obtain s p where
    s: "mio_pubsub_set_stanza_new jid uuid (Some node) = Some \<lparr>ms_xmpp_stanza = s, ms_id = uuid\<rparr>" "tag_wf s" "st_children s = [p]" "st_children p = []"
    by blast
  have "st_children (put_attr s ''type'' (Some ''get'')) = [p]" using s by (simp add: put_attr_tag)
  from stanza_attr_add_to_first_child [OF this, of ?items] obtain s' where
    "add_to_first_child (put_attr s ''type'' (Some ''get'')) ?items = Some s'" "st_children s' = [xmpp_stanza_add_child p ?items]" by blast
  with assms s show ?thesis
    by (auto simp: items_request_def mio_pubsub_get_stanza_new_def stanza_build pubsub_add_def)
qed

lemma lexable_tag:
  assumes "tag_wf s" "st_data s = Some nm" "nm \<noteq> []" "name_ok nm" "iter_complete s" "\<And>k. k \<in> dom (stanza_attr s) \<Longrightarrow> name_ok k"
    and "texts_apart (st_children s)" "list_all lexable (st_children s)"
  shows "lexable s"
proof -
  have "fst ` set (stanza_pairs s) = dom (stanza_attr s)"
    using map_of_stanza_pairs [OF assms(1,5)] dom_map_of_conv_image_fst by metis
  then have "list_all (\<lambda>kv. name_ok (fst kv)) (stanza_pairs s)" using assms(6) by (auto simp: list_all_iff)
  with assms show ?thesis by (cases s) (auto simp: tag_wf_def)
qed

lemma texts_apart_tags: "\<forall>c \<in> set cs. st_type c \<noteq> XMPP_STANZA_TEXT \<Longrightarrow> texts_apart cs"
  by (induction cs rule: texts_apart.induct) auto

lemma name_ok_names: "name_ok ''iq''" "name_ok ''pubsub''" "name_ok ''items''" "name_ok ''item''" "name_ok ''references''" "name_ok ''reference''"
  "name_ok ''id''" "name_ok ''type''" "name_ok ''metaType''" "name_ok ''node''" "name_ok ''name''"
  by (simp_all add: name_ok_def name_char_def)

lemma items_reply_delivered:
  assumes "set_option item \<subseteq> items" "\<forall>item \<in> items. lexable item"
  shows "expat_delivers xml_reader (items_reply None None None item)"
proof (rule xml_reader_delivers)
  show "lexable (items_reply None None None item)"
    using assms by (cases item) (auto simp: items_reply_def name_ok_names stanza_pairs_def)
qed (simp add: items_reply_def)

lemma demo_service:
  assumes "\<forall>item \<in> items. lexable item"
  shows "pubsub_service demo_env (\<lambda>st. st) items"
proof -
  have ok: "result_reply xml_reader (stanza_named ''iq'')"
    using xml_reader_delivers [of "stanza_named ''iq''"]
    by (simp add: result_reply_def) (simp add: stanza_named_def xmpp_stanza_set_name_def xmpp_stanza_new_def name_ok_names stanza_pairs_def)
  have pub: "demo_serve st (ms_xmpp_stanza iq) = (Reply (stanza_named ''iq''), st((node, i) \<mapsto> item))"
    if iq: "mio_publish_stanza jid uuid item (Some node) = Some iq" and i: "stanza_attr item ''id'' = Some i" for st jid uuid item node iq i
  proof -
    obtain server where "mio_pubsub_server jid (Some node) = Some server"
      using iq by (cases "mio_pubsub_server jid (Some node)") (auto simp: mio_publish_stanza_def mio_pubsub_set_stanza_new_def mio_pubsub_stanza_new_def)
    from mio_publish_stanza_ok [OF this, of uuid item] iq i show ?thesis by (auto simp: demo_serve_def)
  qed
  have get: "demo_serve st (ms_xmpp_stanza iq) = (Reply (items_reply None None None (st (node, i))), st)"
    if "items_request jid uuid (Some node) i = Some iq" for st jid uuid node iq i
    using items_request_shape [OF that] by (auto simp: demo_serve_def)
  show ?thesis
    unfolding pubsub_service_def using ok pub get items_reply_delivered [OF _ assms] by (simp add: demo_env_def) blast
qed


end
