(* ===== verification/Mio_Graph.thy ===== *)
theory Mio_Graph
  imports Mio_Service
begin

text \<open>
  Nodes refer to each other: a parent lists its children and a child its parents, each list an item stored at the
  publish-subscribe service. Here the operations on references are put together with the service, of which
  \<open>pubsub_service\<close> is assumed for the items of references.

  Shown: adding a child adds one reference at each end and changes nothing else; removing it takes both out again;
  adding it twice, or the other way round, is refused and leaves the stored items alone; removing a child that is not
  there deletes all references of the node.
\<close>

section \<open>References at a node\<close>

text \<open>The items of references.\<close>

definition refs_items :: "xmpp_stanza set" where
  "refs_items = {item. \<exists>rs. list_all (\<lambda>r. ref_type r \<noteq> MIO_REFERENCE_UNKOWN \<and> ref_node r \<noteq> None) rs \<and>
     mio_references_to_item rs = Some (Some item)}"

definition refs_at :: "((string \<times> string) \<rightharpoonup> xmpp_stanza) \<Rightarrow> string \<Rightarrow> mio_reference list \<Rightarrow> bool" where
  "refs_at st node rs \<longleftrightarrow> list_all (\<lambda>r. ref_type r \<noteq> MIO_REFERENCE_UNKOWN \<and> ref_node r \<noteq> None) rs \<and>
     (case st (node, ''references'') of None \<Rightarrow> rs = [] | Some item \<Rightarrow> mio_references_to_item rs = Some (Some item))"

lemma refs_at_typed: "refs_at st node rs \<Longrightarrow> list_all (\<lambda>r. ref_type r \<noteq> MIO_REFERENCE_UNKOWN) rs"
  by (auto simp: refs_at_def list_all_iff)

definition refs_response :: "mio_response \<Rightarrow> mio_reference list \<Rightarrow> bool" where
  "refs_response q rs \<longleftrightarrow> rsp_response_type q = MIO_RESPONSE_PACKET \<and>
     rsp_response q = RPacket \<lparr>pkt_id = None, pkt_type = MIO_PACKET_REFERENCES,
       pkt_num_payloads = int (length rs), pkt_payload = (if rs = [] then PNull else PReferences rs)\<rparr>"

lemma references_reply_empty:
  assumes "expat_delivers expat (items_reply a1 a2 a3 None)"
  shows "\<exists>q. mio_handler_references_query expat True (items_reply a1 a2 a3 None) r = Some (MIO_OK, q, True) \<and> refs_response q []"
  by (simp add: mio_handler_references_query_def handler_packet_parse_def mio_xml_parse_delivers [OF assms],
      simp add: items_reply_def mio_XMLstart_references_query_def xml_data_update_start_element_def
      xml_data_update_end_element_def xml_data_new_def xd_packet_def xd_set_packet_def xd_set_type_def refs_response_def mio_packet_new_def Let_def)

lemma references_fetched:
  assumes "pubsub_service env stored refs_items" "ready env w" "refs_at (stored (wd_outside w)) node rs"
  shows "\<exists>q w'. mio_references_query env w (Some node) r = Some (MIO_OK, q, w') \<and> ready env w' \<and>
     stored (wd_outside w') = stored (wd_outside w) \<and> refs_response q rs"
proof -
  have auth: "authenticated env w" using assms(2) by (simp add: ready_def)
  have "set_option (stored (wd_outside w) (node, ''references'')) \<subseteq> refs_items"
    using assms(3) by (auto simp: refs_at_def refs_items_def)
  then obtain a1 a2 a3 w' r0 where 1: "mio_references_query env w (Some node) r =
     map_option (\<lambda>(err, r', signalled). (if signalled then MIO_OK else MIO_ERROR_TIMEOUT, r', w'))
       (mio_handler_references_query (en_expat env) True (items_reply a1 a2 a3 (stored (wd_outside w) (node, ''references''))) (r\<lparr>rsp_id := r0\<rparr>))"
    "expat_delivers (en_expat env) (items_reply a1 a2 a3 (stored (wd_outside w) (node, ''references'')))"
    "ready env w'" "stored (wd_outside w') = stored (wd_outside w)"
    using item_fetched [OF assms(1,2), of H_references_query mio_handler_references_query node "''references''" r]
    by (auto simp: mio_references_query_def mio_item_recent_get_eq [OF auth] reply_handler_def)
  have "\<exists>q. mio_handler_references_query (en_expat env) True (items_reply a1 a2 a3 (stored (wd_outside w) (node, ''references''))) (r\<lparr>rsp_id := r0\<rparr>) =
      Some (MIO_OK, q, True) \<and> refs_response q rs"
  proof (cases "stored (wd_outside w) (node, ''references'')")
    case None
    with assms(3) 1(2) references_reply_empty show ?thesis by (auto simp: refs_at_def)
  next
    case (Some item)
    then have item: "mio_references_to_item rs = Some (Some item)" using assms(3) by (simp add: refs_at_def)
    have eq: "items_reply a1 a2 a3 (Some item) = item_reply a1 a2 a3 item" by (simp add: items_reply_def item_reply_def)
    from references_reply [OF refs_at_typed [OF assms(3)] item 1(2) [unfolded Some eq], of "r\<lparr>rsp_id := r0\<rparr>"] Some eq
    show ?thesis by (auto simp: refs_response_def)
  qed
  with 1 show ?thesis by auto
qed

definition meta_free :: "((string \<times> string) \<rightharpoonup> xmpp_stanza) \<Rightarrow> bool" where
  "meta_free st \<longleftrightarrow> (\<forall>node. st (node, ''meta'') = None)"

definition meta_response :: "mio_response \<Rightarrow> bool" where
  "meta_response q \<longleftrightarrow> rsp_response_type q = MIO_RESPONSE_PACKET \<and>
     (\<exists>p. rsp_response q = RPacket p \<and> pkt_type p = MIO_PACKET_META \<and> pkt_payload p = PMeta mio_meta_new)"

lemma meta_reply_empty:
  assumes "expat_delivers expat (items_reply a1 a2 a3 None)"
  shows "\<exists>q. mio_handler_meta_query expat True (items_reply a1 a2 a3 None) r = Some (MIO_OK, q, True) \<and> meta_response q"
  by (simp add: mio_handler_meta_query_def handler_packet_parse_def mio_xml_parse_delivers [OF assms],
      simp add: items_reply_def mio_XMLstart_pubsub_meta_receive_def xml_data_update_start_element_def
      xml_data_update_end_element_def xml_data_new_def xd_packet_def xd_set_packet_def xd_set_type_def meta_response_def
      mio_packet_new_def as_meta_def Let_def)

lemma meta_fetched:
  assumes "pubsub_service env stored refs_items" "ready env w" "meta_free (stored (wd_outside w))"
  shows "\<exists>q w'. mio_meta_query env w (Some node) r = Some (MIO_OK, q, w') \<and> ready env w' \<and>
     stored (wd_outside w') = stored (wd_outside w) \<and> meta_response q"
proof -
  have auth: "authenticated env w" and none: "stored (wd_outside w) (node, ''meta'') = None"
    using assms(2,3) by (simp_all add: ready_def meta_free_def)
  obtain a1 a2 a3 w' r0 where 1: "mio_meta_query env w (Some node) r =
     map_option (\<lambda>(err, r', signalled). (if signalled then MIO_OK else MIO_ERROR_TIMEOUT, r', w'))
       (mio_handler_meta_query (en_expat env) True (items_reply a1 a2 a3 None) (r\<lparr>rsp_id := r0\<rparr>))"
    "expat_delivers (en_expat env) (items_reply a1 a2 a3 None)" "ready env w'" "stored (wd_outside w') = stored (wd_outside w)"
    using item_fetched [OF assms(1,2), of H_meta_query mio_handler_meta_query node "''meta''" r] none
    by (auto simp: mio_meta_query_eq [OF auth] reply_handler_def)
  from meta_reply_empty [OF 1(2)] 1 show ?thesis by fastforce
qed

lemma node_meta_type_empty: "meta_response q \<Longrightarrow> node_meta_type q = Some MIO_META_TYPE_UKNOWN"
  by (auto simp: meta_response_def node_meta_type_def as_packet_def as_meta_def mio_meta_new_def)

text \<open>The reference that is added, without a name and of unknown meta type.\<close>

definition link :: "mio_reference_type \<Rightarrow> string \<Rightarrow> mio_reference" where
  "link ty node = mio_reference_new\<lparr>ref_type := ty, ref_node := Some node\<rparr>"

lemma reference_added:
  assumes "pubsub_service env stored refs_items" "ready env w" "meta_free (stored (wd_outside w))"
    and "refs = (if rs = [] then [mio_reference_new] else rs)" "list_all (\<lambda>r. ref_type r \<noteq> MIO_REFERENCE_UNKOWN) rs"
  shows "\<exists>w'. mio_reference_add env w refs ty MIO_META_TYPE_UKNOWN (Some node) = Some (rs @ [link ty node], w') \<and> ready env w' \<and>
     stored (wd_outside w') = stored (wd_outside w)"
proof -
  obtain q w' where q: "mio_meta_query env w (Some node) mio_response_new = Some (MIO_OK, q, w')" "ready env w'"
    "stored (wd_outside w') = stored (wd_outside w)" "meta_response q"
    using meta_fetched [OF assms(1-3)] by blast
  have slot: "reference_slot refs = Some (length rs, rs @ [mio_reference_new])"
    using assms(4,5) by (cases rs) (auto simp: reference_slot_def mio_reference_new_def)
  have fill: "reference_fill mio_reference_new ty MIO_META_TYPE_UKNOWN (Some node) = link ty node"
    by (simp add: reference_fill_def link_def mio_reference_new_def)
  have "mio_reference_add env w refs ty MIO_META_TYPE_UKNOWN (Some node) = Some (rs @ [link ty node], w')"
    using q(1,4) slot fill
    by (auto simp: mio_reference_add_def meta_response_def as_packet_def as_meta_def mio_meta_new_def)
  with q show ?thesis by blast
qed

lemma references_found_refs: "refs_response q rs \<Longrightarrow>
   references_found q = Some (rs \<noteq> [], if rs = [] then [mio_reference_new] else rs)"
  by (auto simp: refs_response_def references_found_def as_packet_def as_references_def)

definition links_to :: "mio_reference list \<Rightarrow> string \<Rightarrow> bool" where
  "links_to rs node \<longleftrightarrow> list_ex (\<lambda>r. ref_node r = Some node) rs"

lemma no_conflict:
  "list_all (\<lambda>r. ref_node r \<noteq> None) rs \<Longrightarrow> \<not> links_to rs node \<Longrightarrow> reference_conflict rs node ty opp = Some None"
  by (induction rs) (auto simp: links_to_def)

lemma refs_at_nodes: "refs_at st node rs \<Longrightarrow> list_all (\<lambda>r. ref_node r \<noteq> None) rs"
  by (auto simp: refs_at_def list_all_iff)

lemma refs_at_upd: "node' \<noteq> node \<Longrightarrow> refs_at (st((node, i) \<mapsto> item)) node' rs = refs_at st node' rs"
  by (simp add: refs_at_def)

lemma meta_free_upd: "meta_free st \<Longrightarrow> meta_free (st((node, ''references'') \<mapsto> item))"
  by (simp add: meta_free_def)

lemma refs_item_published:
  assumes "pubsub_service env stored refs_items" "ready env w" "rsp_response_type r \<noteq> MIO_RESPONSE_ERROR"
    and "list_all (\<lambda>r. ref_type r \<noteq> MIO_REFERENCE_UNKOWN \<and> ref_node r \<noteq> None) rs"
  shows "\<exists>item r' w'. mio_references_to_item rs = Some (Some item) \<and> mio_item_publish env w item (Some node) r = Some (MIO_OK, r', w') \<and>
     ready env w' \<and> rsp_response_type r' = MIO_RESPONSE_OK \<and>
     stored (wd_outside w') = (stored (wd_outside w))((node, ''references'') \<mapsto> item) \<and> refs_at (stored (wd_outside w')) node rs"
proof -
  have "list_all (\<lambda>r. ref_type r \<noteq> MIO_REFERENCE_UNKOWN) rs" using assms(4) by (simp add: list_all_iff)
  note eq = mio_references_to_item_eq [OF this]
  then obtain item where item: "mio_references_to_item rs = Some (Some item)" "stanza_attr item ''id'' = Some ''references''" by simp
  have "item \<in> refs_items" using item(1) assms(4) by (auto simp: refs_items_def)
  from publish_stored [OF assms(1,2) this item(2) assms(3)] obtain r' w' where
    "mio_item_publish env w item (Some node) r = Some (MIO_OK, r', w')" "ready env w'" "rsp_response_type r' = MIO_RESPONSE_OK"
    "stored (wd_outside w') = (stored (wd_outside w))((node, ''references'') \<mapsto> item)" by blast
  with item(1) assms(4) show ?thesis by (auto simp: refs_at_def)
qed

lemma link_ok: "ty \<noteq> MIO_REFERENCE_UNKOWN \<Longrightarrow> refs_at st node rs \<Longrightarrow>
   list_all (\<lambda>r. ref_type r \<noteq> MIO_REFERENCE_UNKOWN \<and> ref_node r \<noteq> None) (rs @ [link ty other])"
  by (simp add: refs_at_def link_def)

text \<open>Adding one reference at one end, and the end of the parent in \<open>mio_reference_child_add\<close>.\<close>

lemma end_added:
  assumes "pubsub_service env stored refs_items" "ready env w" "meta_free (stored (wd_outside w))" "refs_at (stored (wd_outside w)) node rs"
    and "ty \<noteq> MIO_REFERENCE_UNKOWN" "rsp_response_type r \<noteq> MIO_RESPONSE_ERROR"
  shows "\<exists>w1 r' w2 item. mio_reference_add env w (if rs = [] then [mio_reference_new] else rs) ty MIO_META_TYPE_UKNOWN (Some other) =
       Some (rs @ [link ty other], w1) \<and> mio_references_to_item (rs @ [link ty other]) = Some (Some item) \<and>
     item_publish_ptr env w1 (Some item) (Some node) r = Some (MIO_OK, r', w2) \<and> ready env w2 \<and>
     rsp_response_type r' = MIO_RESPONSE_OK \<and> stored (wd_outside w2) = (stored (wd_outside w))((node, ''references'') \<mapsto> item) \<and>
     refs_at (stored (wd_outside w2)) node (rs @ [link ty other])"
proof -
  obtain w1 where 1: "mio_reference_add env w (if rs = [] then [mio_reference_new] else rs) ty MIO_META_TYPE_UKNOWN (Some other) =
      Some (rs @ [link ty other], w1)" "ready env w1" "stored (wd_outside w1) = stored (wd_outside w)"
    using reference_added [OF assms(1-3) refl refs_at_typed [OF assms(4)]] by blast
  from refs_item_published [OF assms(1) 1(2) assms(6) link_ok [OF assms(5,4)], of other] 1 show ?thesis
    unfolding item_publish_ptr_def by fastforce
qed

lemma child_end_added:
  assumes "pubsub_service env stored refs_items" "ready env w" "meta_free (stored (wd_outside w))" "refs_at (stored (wd_outside w)) child cs"
    and "\<not> links_to cs parent"
  shows "\<exists>w' item. reference_at_child env w parent child response = Some (Inr response, w') \<and> ready env w' \<and>
     stored (wd_outside w') = (stored (wd_outside w))((child, ''references'') \<mapsto> item) \<and>
     refs_at (stored (wd_outside w')) child (cs @ [link MIO_REFERENCE_PARENT parent])"
proof -
  obtain q1 w1 where 1: "mio_meta_query env w (Some parent) mio_response_new = Some (MIO_OK, q1, w1)" "ready env w1"
    "stored (wd_outside w1) = stored (wd_outside w)" "meta_response q1"
    using meta_fetched [OF assms(1-3)] by blast
  obtain q2 w2 where 2: "mio_references_query env w1 (Some child) mio_response_new = Some (MIO_OK, q2, w2)" "ready env w2"
    "stored (wd_outside w2) = stored (wd_outside w)" "refs_response q2 cs"
    using references_fetched [OF assms(1) 1(2), of child cs mio_response_new] assms(4) 1(3) by auto
  have r: "rsp_response_type mio_response_new \<noteq> MIO_RESPONSE_ERROR" by (simp add: mio_response_new_def)
  obtain w3 r' w4 item where 3: "mio_reference_add env w2 (if cs = [] then [mio_reference_new] else cs) MIO_REFERENCE_PARENT MIO_META_TYPE_UKNOWN
       (Some parent) = Some (cs @ [link MIO_REFERENCE_PARENT parent], w3)"
    "mio_references_to_item (cs @ [link MIO_REFERENCE_PARENT parent]) = Some (Some item)"
    "item_publish_ptr env w3 (Some item) (Some child) mio_response_new = Some (MIO_OK, r', w4)" "ready env w4"
    "rsp_response_type r' = MIO_RESPONSE_OK" "stored (wd_outside w4) = (stored (wd_outside w))((child, ''references'') \<mapsto> item)"
    "refs_at (stored (wd_outside w4)) child (cs @ [link MIO_REFERENCE_PARENT parent])"
    using end_added [OF assms(1) 2(2), of child cs MIO_REFERENCE_PARENT mio_response_new parent] assms(3,4) 2(3) r by auto
  have "reference_at_child env w parent child response = Some (Inr response, w4)"
    using 1(1) 2(1) 3(1,2,3,5) node_meta_type_empty [OF 1(4)] references_found_refs [OF 2(4)]
      no_conflict [OF refs_at_nodes [OF assms(4)] assms(5)]
    by (auto simp: reference_at_child_def)
  with 3 show ?thesis by blast
qed

lemma child_added:
  assumes "pubsub_service env stored refs_items" "ready env w" "meta_free (stored (wd_outside w))" "parent \<noteq> child"
    and "refs_at (stored (wd_outside w)) parent ps" "\<not> links_to ps child"
    and "refs_at (stored (wd_outside w)) child cs" "\<not> links_to cs parent" "rsp_response_type response \<noteq> MIO_RESPONSE_ERROR"
  shows "\<exists>r' w'. mio_reference_child_add env w parent child True response = Some (MIO_OK, r', w') \<and> ready env w' \<and>
     rsp_response_type r' = MIO_RESPONSE_OK \<and> meta_free (stored (wd_outside w')) \<and>
     refs_at (stored (wd_outside w')) parent (ps @ [link MIO_REFERENCE_CHILD child]) \<and>
     refs_at (stored (wd_outside w')) child (cs @ [link MIO_REFERENCE_PARENT parent]) \<and>
     (\<forall>k. k \<notin> {(parent, ''references''), (child, ''references'')} \<longrightarrow> stored (wd_outside w') k = stored (wd_outside w) k)"
proof -
  obtain q1 w1 where 1: "mio_references_query env w (Some parent) mio_response_new = Some (MIO_OK, q1, w1)" "ready env w1"
    "stored (wd_outside w1) = stored (wd_outside w)" "refs_response q1 ps"
    using references_fetched [OF assms(1,2,5)] by blast
  obtain w2 i2 where 2: "reference_at_child env w1 parent child response = Some (Inr response, w2)" "ready env w2"
    "stored (wd_outside w2) = (stored (wd_outside w))((child, ''references'') \<mapsto> i2)"
    "refs_at (stored (wd_outside w2)) child (cs @ [link MIO_REFERENCE_PARENT parent])"
    using child_end_added [OF assms(1) 1(2), of child cs parent response] assms(3,7,8) 1(3) by auto
  have mf: "meta_free (stored (wd_outside w2))" using assms(3) 2(3) by (simp add: meta_free_upd)
  have ps: "refs_at (stored (wd_outside w2)) parent ps" using assms(4,5) 2(3) by (simp add: refs_at_upd)
  obtain q3 w3 where 3: "mio_meta_query env w2 (Some child) mio_response_new = Some (MIO_OK, q3, w3)" "ready env w3"
    "stored (wd_outside w3) = stored (wd_outside w2)" "meta_response q3"
    using meta_fetched [OF assms(1) 2(2) mf] by blast
  obtain w4 r' w5 i5 where 4: "mio_reference_add env w3 (if ps = [] then [mio_reference_new] else ps) MIO_REFERENCE_CHILD MIO_META_TYPE_UKNOWN
       (Some child) = Some (ps @ [link MIO_REFERENCE_CHILD child], w4)"
    "mio_references_to_item (ps @ [link MIO_REFERENCE_CHILD child]) = Some (Some i5)"
    "item_publish_ptr env w4 (Some i5) (Some parent) response = Some (MIO_OK, r', w5)" "ready env w5" "rsp_response_type r' = MIO_RESPONSE_OK"
    "stored (wd_outside w5) = (stored (wd_outside w2))((parent, ''references'') \<mapsto> i5)"
    "refs_at (stored (wd_outside w5)) parent (ps @ [link MIO_REFERENCE_CHILD child])"
    using end_added [OF assms(1) 3(2), of parent ps MIO_REFERENCE_CHILD response child] mf ps 3(3) assms(9) by auto
  have "mio_reference_child_add env w parent child True response = Some (MIO_OK, r', w5)"
    using 1(1) 2(1) 3(1) 4(1-3) references_found_refs [OF 1(4)] node_meta_type_empty [OF 3(4)]
      no_conflict [OF refs_at_nodes [OF assms(5)] assms(6)]
    by (simp add: mio_reference_child_add_def)
  moreover have "refs_at (stored (wd_outside w5)) child (cs @ [link MIO_REFERENCE_PARENT parent])"
    using 2(4) 4(6) assms(4) by (simp add: refs_at_upd)
  moreover have "meta_free (stored (wd_outside w5))" using mf 4(6) by (simp add: meta_free_upd)
  ultimately show ?thesis using 2(3) 4 by auto
qed

section \<open>Removing\<close>

lemma side_removed:
  assumes "pubsub_service env stored refs_items" "ready env w" "refs_at (stored (wd_outside w)) node rs"
    and "rs \<noteq> []" "mio_reference_remove rs ty other = Some rs'" "set rs' \<subseteq> set rs"
  shows "\<exists>w' item. reference_side_remove env w node ty other = Some (Some MIO_OK, w') \<and> ready env w' \<and>
     stored (wd_outside w') = (stored (wd_outside w))((node, ''references'') \<mapsto> item) \<and> refs_at (stored (wd_outside w')) node rs'"
proof -
  obtain q w1 where 1: "mio_references_query env w (Some node) mio_response_new = Some (MIO_OK, q, w1)" "ready env w1"
    "stored (wd_outside w1) = stored (wd_outside w)" "refs_response q rs"
    using references_fetched [OF assms(1-3)] by blast
  have r: "rsp_response_type mio_response_new \<noteq> MIO_RESPONSE_ERROR" by (simp add: mio_response_new_def)
  have "list_all (\<lambda>r. ref_type r \<noteq> MIO_REFERENCE_UNKOWN \<and> ref_node r \<noteq> None) rs'"
    using assms(3,6) by (auto simp: refs_at_def list_all_iff)
  from refs_item_published [OF assms(1) 1(2) r this, of node] obtain item r' w' where
    2: "mio_references_to_item rs' = Some (Some item)" "mio_item_publish env w1 item (Some node) mio_response_new = Some (MIO_OK, r', w')"
    "ready env w'" "stored (wd_outside w') = (stored (wd_outside w1))((node, ''references'') \<mapsto> item)"
    "refs_at (stored (wd_outside w')) node rs'" by blast
  have "reference_side_remove env w node ty other = Some (Some MIO_OK, w')"
    using 1(1,4) 2(1,2) assms(4,5)
    by (simp add: reference_side_remove_def refs_response_def as_packet_def as_references_def item_publish_ptr_def)
  with 1 2 show ?thesis by auto
qed

lemma remove_link:
  assumes "list_all (\<lambda>r. ref_node r \<noteq> None) rs" "\<not> links_to rs node"
  shows "mio_reference_remove (rs @ [link ty node]) ty node = Some rs" "mio_reference_remove rs ty node = Some []"
proof -
  have none: "\<forall>r \<in> set rs. \<not> ref_matches ty node r" using assms(2) by (auto simp: links_to_def ref_matches_def list_ex_iff)
  have last: "ref_matches ty node (link ty node)" by (simp add: ref_matches_def link_def)
  have "list_all (\<lambda>r. ref_node r \<noteq> None) (rs @ [link ty node])" using assms(1) by (simp add: link_def)
  from reference_remove_loop_eq [OF this, of "[]" ty node] none last
  show "mio_reference_remove (rs @ [link ty node]) ty node = Some rs"
    by (simp add: mio_reference_remove_def takeWhile_append2 dropWhile_append2 list_ex_iff)
  from reference_remove_loop_eq [OF assms(1), of "[]" ty node] none
  show "mio_reference_remove rs ty node = Some []" by (simp add: mio_reference_remove_def list_ex_iff)
qed

text \<open>Removing at both ends, when each end has references.\<close>

lemma child_removed:
  assumes "pubsub_service env stored refs_items" "ready env w" "parent \<noteq> child"
    and "refs_at (stored (wd_outside w)) parent ps" "ps \<noteq> []" "mio_reference_remove ps MIO_REFERENCE_CHILD child = Some ps'" "set ps' \<subseteq> set ps"
    and "refs_at (stored (wd_outside w)) child cs" "cs \<noteq> []" "mio_reference_remove cs MIO_REFERENCE_PARENT parent = Some cs'" "set cs' \<subseteq> set cs"
  shows "\<exists>r' w'. mio_reference_child_remove env w parent child response = Some (Some MIO_OK, r', w') \<and> ready env w' \<and>
     rsp_response_type r' = MIO_RESPONSE_OK \<and> refs_at (stored (wd_outside w')) parent ps' \<and> refs_at (stored (wd_outside w')) child cs' \<and>
     (\<forall>k. k \<notin> {(parent, ''references''), (child, ''references'')} \<longrightarrow> stored (wd_outside w') k = stored (wd_outside w) k)"
proof -
  obtain w1 i1 where 1: "reference_side_remove env w child MIO_REFERENCE_PARENT parent = Some (Some MIO_OK, w1)" "ready env w1"
    "stored (wd_outside w1) = (stored (wd_outside w))((child, ''references'') \<mapsto> i1)" "refs_at (stored (wd_outside w1)) child cs'"
    using side_removed [OF assms(1,2,8-11)] by blast
  have "refs_at (stored (wd_outside w1)) parent ps" using assms(3,4) 1(3) by (simp add: refs_at_upd)
  from side_removed [OF assms(1) 1(2) this assms(5-7)] obtain w2 i2 where
    2: "reference_side_remove env w1 parent MIO_REFERENCE_CHILD child = Some (Some MIO_OK, w2)" "ready env w2"
    "stored (wd_outside w2) = (stored (wd_outside w1))((parent, ''references'') \<mapsto> i2)" "refs_at (stored (wd_outside w2)) parent ps'"
    by blast
  have "refs_at (stored (wd_outside w2)) child cs'" using 1(4) 2(3) assms(3) by (simp add: refs_at_upd)
  with 1 2 show ?thesis by (auto simp: mio_reference_child_remove_def)
qed

section \<open>A service\<close>

lemma refs_item_lexable:
  assumes "item \<in> refs_items"
  shows "lexable item" "st_type item = XMPP_STANZA_TAG"
proof -
  obtain rs where rs: "list_all (\<lambda>r. ref_type r \<noteq> MIO_REFERENCE_UNKOWN) rs" "mio_references_to_item rs = Some (Some item)"
    using assms by (auto simp: refs_items_def list_all_iff)
  let ?refs = "add_children (stanza_named ''references'') (map reference_tag rs)"
  have item: "item = xmpp_stanza_add_child (item_tag ''references'') ?refs" using rs mio_references_to_item_eq by simp
  have tag: "lexable (reference_tag r)" for r
    by (rule lexable_tag [OF _ _ _ _ reference_tag_complete]) (auto simp: name_ok_names reference_tag_attr split: if_splits)
  have ty: "st_type (reference_tag r) \<noteq> XMPP_STANZA_TEXT" for r using reference_tag_simps(1) [of r] by (simp add: tag_wf_def)
  have "iter_complete ?refs"
    by (rule iter_completeI [where K = "{}" and lastkey = "[]"]) auto
  then have refs: "lexable ?refs"
    by (intro lexable_tag [where nm = "''references''"]) (auto simp: name_ok_names tag ty list_all_iff intro!: texts_apart_tags)
  have "iter_complete item"
    by (rule iter_completeI [where K = "{''id''}" and lastkey = "[]"]) (auto simp: item hash_key_names)
  with refs show "lexable item"
    by (intro lexable_tag [where nm = "''item''"]) (auto simp: item name_ok_names)
  show "st_type item = XMPP_STANZA_TAG" using item_tag_simps(2) [of "''references''"] by (simp add: item tag_wf_def)
qed

lemma refs_service: "pubsub_service demo_env (\<lambda>st. st) refs_items"
  using demo_service refs_item_lexable(1) by blast

lemma demo_ready: "ready demo_env demo_world" "meta_free (wd_outside demo_world)" "refs_at (wd_outside demo_world) node []"
  by (simp_all add: ready_def authenticated_def demo_env_def demo_world_def has_server_def meta_free_def refs_at_def)

definition demo_item :: "mio_reference \<Rightarrow> xmpp_stanza" where
  "demo_item r = the (the (mio_references_to_item [r]))"

definition linked_world :: "((string \<times> string) \<rightharpoonup> xmpp_stanza) world" where
  "linked_world = demo_world\<lparr>wd_outside := [(''hall'', ''references'') \<mapsto> demo_item (link MIO_REFERENCE_CHILD ''lamp''),
     (''tv'', ''references'') \<mapsto> demo_item (link MIO_REFERENCE_PARENT ''kitchen'')]\<rparr>"

lemma linked_ready:
  "ready demo_env linked_world" "refs_at (wd_outside linked_world) ''hall'' [link MIO_REFERENCE_CHILD ''lamp'']"
  "refs_at (wd_outside linked_world) ''tv'' [link MIO_REFERENCE_PARENT ''kitchen'']"
  by (simp_all add: ready_def authenticated_def demo_env_def demo_world_def linked_world_def has_server_def refs_at_def link_def
      demo_item_def mio_references_to_item_eq)

section \<open>Properties\<close>





text \<open>C33: Removing a child that is not there deletes every reference of both nodes: the search gives NULL, the same as for a
  list whose only entry was removed, and the empty list is published; MIO_OK and a response of type OK are returned.\<close>

theorem reference_remove_loses_all:
  assumes "pubsub_service env stored refs_items" "ready env w" "parent \<noteq> child"
    and "refs_at (stored (wd_outside w)) parent ps" "ps \<noteq> []" "\<not> links_to ps child"
    and "refs_at (stored (wd_outside w)) child cs" "cs \<noteq> []" "\<not> links_to cs parent"
  shows "\<exists>r' w'. mio_reference_child_remove env w parent child response = Some (Some MIO_OK, r', w') \<and>
     rsp_response_type r' = MIO_RESPONSE_OK \<and>
     refs_at (stored (wd_outside w')) parent [] \<and> refs_at (stored (wd_outside w')) child []"
  using child_removed [OF assms(1-5) remove_link(2) [OF refs_at_nodes [OF assms(4)] assms(6)] _ assms(7,8)
      remove_link(2) [OF refs_at_nodes [OF assms(7)] assms(9)], of response] by auto

theorem reference_remove_loses_all_witness:
  "\<exists>r' w'. mio_reference_child_remove demo_env linked_world ''hall'' ''tv'' mio_response_new = Some (Some MIO_OK, r', w') \<and>
     refs_at (wd_outside linked_world) ''hall'' [link MIO_REFERENCE_CHILD ''lamp''] \<and> refs_at (wd_outside w') ''hall'' []"
  using reference_remove_loses_all [of demo_env "\<lambda>st. st" linked_world "''hall''" "''tv''" "[link MIO_REFERENCE_CHILD ''lamp'']"
      "[link MIO_REFERENCE_PARENT ''kitchen'']" mio_response_new] refs_service linked_ready
  by (auto simp: links_to_def link_def)

text \<open>C32: A link is not made twice nor in both directions: if the first reference of the parent to the child has type child,
  \<open>mio_reference_child_add\<close> returns MIO_ERROR_DUPLICATE_ENTRY, if it has type parent MIO_ERROR_REFERENCE_LOOP; in both cases
  nothing that is stored changes and the response is untouched.\<close>

theorem reference_child_add_refused:
  assumes "pubsub_service env stored refs_items" "ready env w" "refs_at (stored (wd_outside w)) parent (a @ r # b)"
    and "\<not> links_to a child" "ref_node r = Some child"
  shows "\<exists>w'. mio_reference_child_add env w parent child at_child response =
       Some (if ref_type r = MIO_REFERENCE_CHILD then MIO_ERROR_DUPLICATE_ENTRY else MIO_ERROR_REFERENCE_LOOP, response, w') \<and>
     stored (wd_outside w') = stored (wd_outside w)"
proof -
  obtain q w1 where 1: "mio_references_query env w (Some parent) mio_response_new = Some (MIO_OK, q, w1)"
    "stored (wd_outside w1) = stored (wd_outside w)" "refs_response q (a @ r # b)"
    using references_fetched [OF assms(1-3)] by blast
  have "ref_type r \<in> {MIO_REFERENCE_CHILD, MIO_REFERENCE_PARENT}" using refs_at_typed [OF assms(3)] by (cases "ref_type r") auto
  moreover have "list_all (\<lambda>r. ref_node r \<noteq> None) a" using refs_at_nodes [OF assms(3)] by simp
  then have "reference_conflict (a @ r # b) child ty opp = reference_conflict (r # b) child ty opp" for ty opp
    using assms(4) by (induction a) (auto simp: links_to_def)
  ultimately have "reference_conflict (a @ r # b) child MIO_REFERENCE_CHILD MIO_REFERENCE_PARENT =
      Some (Some (if ref_type r = MIO_REFERENCE_CHILD then MIO_ERROR_DUPLICATE_ENTRY else MIO_ERROR_REFERENCE_LOOP))"
    using assms(5) by auto
  with 1 references_found_refs [OF 1(3)] show ?thesis by (simp add: mio_reference_child_add_def)
qed

theorem reference_child_add_refused_witness:
  "\<exists>w'. mio_reference_child_add demo_env linked_world ''hall'' ''lamp'' True mio_response_new =
       Some (MIO_ERROR_DUPLICATE_ENTRY, mio_response_new, w') \<and> wd_outside w' = wd_outside linked_world"
  using reference_child_add_refused [of demo_env "\<lambda>st. st" linked_world "''hall''" "[]" "link MIO_REFERENCE_CHILD ''lamp''" "[]" "''lamp''" True mio_response_new]
    refs_service linked_ready(1,2) by (simp add: links_to_def link_def)

end
