(* ===== verification/Mio_Roundtrip_Schedule.thy ===== *)
theory Mio_Roundtrip_Schedule
  imports Mio_Roundtrip
begin

text \<open>
  The round trip of schedules: what the schedule query reads back from the item that
  \<open>mio_schedule_event_to_item\<close> prints, one level of the tree after the other.
\<close>

section \<open>Schedules\<close>

text \<open>
  The start callback of the schedule query moves the element names before the shared update moves them
  again, so the parent records hold the elements themselves; only their number matters here.
\<close>

definition xd_lev :: "int \<Rightarrow> cptr list \<Rightarrow> xml_data \<Rightarrow> bool" where
  "xd_lev d ps xd \<longleftrightarrow> xd_curr_depth xd = d \<and> \<not> xd_parent_freed xd \<and> ps \<noteq> [] \<and>
     ((xd_prev_depth xd = d \<and> xd_parents xd = ps) \<or> (xd_prev_depth xd = d + 1 \<and> (\<exists>q. xd_parents xd = Some q # ps)))"

definition xd_renamed :: "xml_data \<Rightarrow> string \<Rightarrow> xml_data" where
  "xd_renamed xd c = xd\<lparr>xd_prev_element_name := xd_curr_element_name xd, xd_curr_element_name := Some c\<rparr>"

lemma sched_start:
  assumes "xd_lev d ps xd"
  shows "\<exists>xd' q. xml_data_update_start_element (xd_renamed xd c) c = Some xd' \<and> xd_lev (d + 1) (Some q # ps) xd' \<and>
     xd_same xd xd' \<and> xd_curr_element_name xd' = Some c"
  using assms by (auto simp: xd_lev_def xd_same_def xd_renamed_def xml_data_update_start_element_def Let_def)

lemma sched_end:
  assumes "xd_lev (d + 1) (Some q # ps) xd" "ps \<noteq> []"
  shows "\<exists>xd'. xml_data_update_end_element xd = Some xd' \<and> xd_lev d ps xd' \<and> xd_same xd xd'"
  using assms by (auto simp: xd_lev_def xd_same_def xml_data_update_end_element_def)

lemma xd_lev_frame [simp]:
  "xd_lev d ps (xd_set_packet p xd) = xd_lev d ps xd" "xd_lev d ps (xd_set_type ty xd) = xd_lev d ps xd"
  "xd_lev d ps (xd\<lparr>xd_payload := py\<rparr>) = xd_lev d ps xd" "xd_lev d ps (xd\<lparr>xd_chars := ch\<rparr>) = xd_lev d ps xd"
  by (simp_all add: xd_lev_def xd_set_packet_def xd_set_type_def)

lemma schedule_start_plain:
  "nm \<notin> {''items'', ''event'', ''recurrence'', ''error''} \<Longrightarrow>
   mio_XMLstart_schedule_query xd nm attr = xml_data_update_start_element (xd_renamed xd nm) nm"
  by (simp add: mio_XMLstart_schedule_query_def xd_renamed_def)

text \<open>A tag the schedule callback only tracks.\<close>

lemma sched_plain_tag:
  assumes "xd_lev d ps xd" "tag_wf s" "st_data s = Some name" "name \<notin> {''items'', ''event'', ''recurrence'', ''error''}"
    and inner: "\<And>xd1 qs. xd_lev (d + 1) qs xd1 \<Longrightarrow> xd_same xd xd1 \<Longrightarrow> xd_curr_element_name xd1 = Some name \<Longrightarrow>
      \<exists>xd2. xml_run mio_XMLstart_schedule_query xd1 (concat (map sax_events (st_children s))) = Some xd2 \<and>
        xd_lev (d + 1) qs xd2 \<and> Q xd2"
  shows "\<exists>xd' xd2. xml_run mio_XMLstart_schedule_query xd (sax_events s) = Some xd' \<and> xd_lev d ps xd' \<and> Q xd2 \<and> xd_same xd2 xd'"
proof -
  have ps: "ps \<noteq> []" using assms(1) by (simp add: xd_lev_def)
  obtain xd1 q where 1: "mio_XMLstart_schedule_query xd name (stanza_pairs s) = Some xd1" "xd_lev (d + 1) (Some q # ps) xd1"
    "xd_same xd xd1" "xd_curr_element_name xd1 = Some name"
    using sched_start [OF assms(1), of name] schedule_start_plain [OF assms(4)] by metis
  from inner [OF 1(2-4)] obtain xd2 where 2: "xml_run mio_XMLstart_schedule_query xd1 (concat (map sax_events (st_children s))) = Some xd2"
    "xd_lev (d + 1) (Some q # ps) xd2" "Q xd2" by blast
  from sched_end [OF 2(2) ps] 1(1) 2 show ?thesis
    by (auto simp: sax_events_tag [OF assms(2,3)] xml_run_append)
qed

text \<open>The state while the recurrence of the last event is read.\<close>

definition sched_rec :: "mio_response \<Rightarrow> mio_packet \<Rightarrow> mio_event list \<Rightarrow> mio_event \<Rightarrow> mio_recurrence \<Rightarrow> xml_data \<Rightarrow> bool" where
  "sched_rec R p es e rec xd \<longleftrightarrow> xd_payload xd = XEvent \<and> xd_chars xd = XChars_recurrence \<and>
     xd_response xd = R\<lparr>rsp_response := RPacket (p\<lparr>pkt_payload := PSchedule (es @ [e\<lparr>ev_recurrence := Some rec\<rparr>])\<rparr>)\<rparr>"

lemma sched_rec_same: "xd_same xd xd' \<Longrightarrow> sched_rec R p es e rec xd' = sched_rec R p es e rec xd"
  by (auto simp: sched_rec_def xd_same_def)

lemma text_element_simps:
  "tag_wf (text_element n v)" "st_data (text_element n v) = Some n"
  "concat (map sax_events (st_children (text_element n v))) = (if v = [] then [] else [CharData v])"
  by (simp_all add: text_element_def)

lemma sched_text_element:
  assumes "xd_lev d ps xd" "sched_rec R p es e rec xd" "v \<noteq> []" "n \<in> set recurrence_fields"
  shows "\<exists>xd'. xml_run mio_XMLstart_schedule_query xd (sax_events (text_element n v)) = Some xd' \<and> xd_lev d ps xd' \<and>
     sched_rec R p es e (recurrence_text n v rec) xd'"
proof -
  have n: "n \<notin> {''items'', ''event'', ''recurrence'', ''error''}" using assms(4) by (auto simp: recurrence_fields_def)
  have "\<exists>xd' xd2. xml_run mio_XMLstart_schedule_query xd (sax_events (text_element n v)) = Some xd' \<and> xd_lev d ps xd' \<and>
      sched_rec R p es e (recurrence_text n v rec) xd2 \<and> xd_same xd2 xd'"
  proof (rule sched_plain_tag [OF assms(1) text_element_simps(1,2) n])
    fix xd1 qs assume 1: "xd_lev (d + 1) qs xd1" "xd_same xd xd1" "xd_curr_element_name xd1 = Some n"
    have r: "sched_rec R p es e rec xd1" using sched_rec_same [OF 1(2)] assms(2) by simp
    let ?xd = "xd_set_packet (p\<lparr>pkt_payload := PSchedule (es @ [e\<lparr>ev_recurrence := Some (recurrence_text n v rec)\<rparr>])\<rparr>) xd1"
    have "xml_char_data xd1 v = Some ?xd"
      using r 1(3) assms(4)
      by (simp add: sched_rec_def xml_char_data_def mio_XMLString_recurrence_def xd_packet_def as_events_def
          mio_event_tail_get_def c_tail_get_conv)
    moreover have "sched_rec R p es e (recurrence_text n v rec) ?xd" using r by (simp add: sched_rec_def xd_set_packet_def)
    ultimately show "\<exists>xd2. xml_run mio_XMLstart_schedule_query xd1 (concat (map sax_events (st_children (text_element n v)))) = Some xd2 \<and>
        xd_lev (d + 1) qs xd2 \<and> sched_rec R p es e (recurrence_text n v rec) xd2"
      using assms(3) 1(1) by (simp add: text_element_simps)
  qed
  then show ?thesis using sched_rec_same by blast
qed

lemma sched_opt_child:
  assumes "xd_lev d ps xd" "sched_rec R p es e rec xd" "v \<noteq> Some []" "n \<in> set recurrence_fields"
  shows "\<exists>xd'. xml_run mio_XMLstart_schedule_query xd (concat (map sax_events (opt_child n v))) = Some xd' \<and> xd_lev d ps xd' \<and>
     sched_rec R p es e (case v of None \<Rightarrow> rec | Some t \<Rightarrow> recurrence_text n t rec) xd'"
  using assms sched_text_element [OF assms(1,2) _ assms(4)] by (cases v) (auto simp: opt_child_def)

lemma sched_opt_children:
  assumes "xd_lev d ps xd" "sched_rec R p es e rec xd" "list_all (\<lambda>(n, v). n \<in> set recurrence_fields \<and> v \<noteq> Some []) fs"
  shows "\<exists>xd'. xml_run mio_XMLstart_schedule_query xd (concat (map sax_events (concat (map (\<lambda>(n, v). opt_child n v) fs)))) = Some xd' \<and>
     xd_lev d ps xd' \<and> sched_rec R p es e (foldl (\<lambda>r (n, v). case v of None \<Rightarrow> r | Some t \<Rightarrow> recurrence_text n t r) rec fs) xd'"
  using assms
proof (induction fs arbitrary: xd rec)
  case (Cons f fs)
  obtain n v where f: "f = (n, v)" by (cases f)
  from sched_opt_child [OF Cons.prems(1,2), of v n] Cons.prems(3) f obtain xd1 where
    1: "xml_run mio_XMLstart_schedule_query xd (concat (map sax_events (opt_child n v))) = Some xd1" "xd_lev d ps xd1"
    "sched_rec R p es e (case v of None \<Rightarrow> rec | Some t \<Rightarrow> recurrence_text n t rec) xd1" by auto
  from Cons.IH [OF 1(2,3)] Cons.prems(3) 1(1) f show ?case by (auto simp: xml_run_append)
qed auto

section \<open>The recurrence tag\<close>

text \<open>What a recurrence rule is on the wire: \<open>byday\<close>, if given, carries the text of \<open>bymonth\<close>.\<close>

definition recurrence_sent :: "mio_recurrence \<Rightarrow> mio_recurrence" where
  "recurrence_sent r = (if rec_byday r = None then r else r\<lparr>rec_byday := rec_bymonth r\<rparr>)"

definition recurrence_pairs :: "mio_recurrence \<Rightarrow> (string \<times> cptr) list" where
  "recurrence_pairs r = [(''freq'', rec_freq r), (''interval'', rec_interval r), (''count'', rec_count r),
     (''until'', rec_until r), (''bymonth'', rec_bymonth r), (''byday'', rec_byday r), (''exdate'', rec_exdate r)]"

text \<open>Every given text is non-empty, and \<open>byday\<close> is only given together with \<open>bymonth\<close>.\<close>

definition recurrence_ok :: "mio_recurrence \<Rightarrow> bool" where
  "recurrence_ok r \<longleftrightarrow> list_all (\<lambda>(n, v). v \<noteq> Some []) (recurrence_pairs r) \<and> (rec_byday r \<noteq> None \<longrightarrow> rec_bymonth r \<noteq> None)"

lemma rec_element_eq: "rec_element v n v s = Some (add_children s (opt_child n v))"
  by (cases v) (auto simp: rec_element_def mio_recurrence_element_add_def opt_child_def text_element_def)

lemma rec_element_byday:
  "b \<noteq> None \<longrightarrow> v \<noteq> None \<Longrightarrow> rec_element b n v s = Some (add_children s (opt_child n (if b = None then None else v)))"
  using rec_element_eq [of v n s] by (auto simp: rec_element_def opt_child_def split: if_splits)

lemma mio_recurrence_to_stanza_eq:
  assumes "recurrence_ok r"
  shows "mio_recurrence_to_stanza r = Some (add_children (stanza_named ''recurrence'')
     (concat (map (\<lambda>(n, v). opt_child n v) (recurrence_pairs (recurrence_sent r)))))"
proof -
  have b: "rec_byday r \<noteq> None \<longrightarrow> rec_bymonth r \<noteq> None" using assms by (simp add: recurrence_ok_def)
  show ?thesis
    using assms
    by (simp add: mio_recurrence_to_stanza_def rec_element_eq rec_element_byday [OF b] recurrence_pairs_def recurrence_sent_def)
qed

lemma recurrence_sent_ok: "recurrence_ok r \<Longrightarrow>
  list_all (\<lambda>(n, v). n \<in> set recurrence_fields \<and> v \<noteq> Some []) (recurrence_pairs (recurrence_sent r))"
  by (simp add: recurrence_ok_def recurrence_pairs_def recurrence_sent_def recurrence_fields_def)

definition recurrence_read :: "mio_recurrence \<Rightarrow> string \<times> cptr \<Rightarrow> mio_recurrence" where
  "recurrence_read r = (\<lambda>(n, v). case v of None \<Rightarrow> r | Some t \<Rightarrow> recurrence_text n t r)"

lemma recurrence_read_simps:
  "rec_freq r = None \<Longrightarrow> recurrence_read r (''freq'', v) = r\<lparr>rec_freq := v\<rparr>"
  "rec_interval r = None \<Longrightarrow> recurrence_read r (''interval'', v) = r\<lparr>rec_interval := v\<rparr>"
  "rec_count r = None \<Longrightarrow> recurrence_read r (''count'', v) = r\<lparr>rec_count := v\<rparr>"
  "rec_until r = None \<Longrightarrow> recurrence_read r (''until'', v) = r\<lparr>rec_until := v\<rparr>"
  "rec_bymonth r = None \<Longrightarrow> recurrence_read r (''bymonth'', v) = r\<lparr>rec_bymonth := v\<rparr>"
  "rec_byday r = None \<Longrightarrow> recurrence_read r (''byday'', v) = r\<lparr>rec_byday := v\<rparr>"
  "rec_exdate r = None \<Longrightarrow> recurrence_read r (''exdate'', v) = r\<lparr>rec_exdate := v\<rparr>"
  by (cases v; simp add: recurrence_read_def recurrence_text_def text_once_def)+

lemma recurrence_read_pairs: "foldl recurrence_read mio_recurrence_new (recurrence_pairs r) = r"
  by (simp add: recurrence_pairs_def recurrence_read_simps mio_recurrence_new_def)

text \<open>The state after an event tag: the event is the last of the packet.\<close>

definition sched_event :: "mio_response \<Rightarrow> mio_packet \<Rightarrow> mio_event list \<Rightarrow> xml_data \<Rightarrow> bool" where
  "sched_event R p es xd \<longleftrightarrow> xd_payload xd = XEvent \<and>
     xd_response xd = R\<lparr>rsp_response := RPacket (p\<lparr>pkt_payload := PSchedule es\<rparr>)\<rparr>"

lemma sched_event_same: "xd_same xd xd' \<Longrightarrow> sched_event R p es xd' = sched_event R p es xd"
  by (auto simp: sched_event_def xd_same_def)

lemma sched_recurrence_run:
  assumes "xd_lev d ps xd" "sched_event R p (es @ [e]) xd" "recurrence_ok r" "mio_recurrence_to_stanza r = Some s"
  shows "\<exists>xd'. xml_run mio_XMLstart_schedule_query xd (sax_events s) = Some xd' \<and> xd_lev d ps xd' \<and>
     sched_event R p (es @ [e\<lparr>ev_recurrence := Some (recurrence_sent r)\<rparr>]) xd'"
proof -
  let ?cs = "concat (map (\<lambda>(n, v). opt_child n v) (recurrence_pairs (recurrence_sent r)))"
  have s: "s = add_children (stanza_named ''recurrence'') ?cs" using assms(3,4) mio_recurrence_to_stanza_eq by simp
  have ps: "ps \<noteq> []" using assms(1) by (simp add: xd_lev_def)
  obtain xd1 q where 1: "xml_data_update_start_element (xd_renamed xd ''recurrence'') ''recurrence'' = Some xd1"
    "xd_lev (d + 1) (Some q # ps) xd1" "xd_same xd xd1" using sched_start [OF assms(1)] by blast
  let ?xd2 = "xd_set_packet (p\<lparr>pkt_payload := PSchedule (es @ [e\<lparr>ev_recurrence := Some mio_recurrence_new\<rparr>])\<rparr>)
     (xd1\<lparr>xd_chars := XChars_recurrence\<rparr>)"
  have e1: "sched_event R p (es @ [e]) xd1" using sched_event_same [OF 1(3)] assms(2) by simp
  have start: "mio_XMLstart_schedule_query xd ''recurrence'' (stanza_pairs s) = Some ?xd2"
    using 1(1) e1 by (simp add: mio_XMLstart_schedule_query_def xd_renamed_def sched_event_def xd_packet_def as_events_def)
  have r2: "sched_rec R p es e mio_recurrence_new ?xd2" using e1 by (simp add: sched_rec_def sched_event_def xd_set_packet_def)
  have "xd_lev (d + 1) (Some q # ps) ?xd2" using 1(2) by simp
  from sched_opt_children [OF this r2 recurrence_sent_ok [OF assms(3)]] obtain xd3 where
    3: "xml_run mio_XMLstart_schedule_query ?xd2 (concat (map sax_events ?cs)) = Some xd3" "xd_lev (d + 1) (Some q # ps) xd3"
    "sched_rec R p es e (recurrence_sent r) xd3"
    using recurrence_read_pairs [of "recurrence_sent r"] by (auto simp: recurrence_read_def [abs_def])
  from sched_end [OF 3(2) ps] obtain xd4 where
    4: "xml_data_update_end_element xd3 = Some xd4" "xd_lev d ps xd4" "xd_same xd3 xd4" by blast
  have "sched_event R p (es @ [e\<lparr>ev_recurrence := Some (recurrence_sent r)\<rparr>]) xd4"
    using 3(3) 4(3) by (simp add: sched_rec_def sched_event_def xd_same_def)
  moreover have "sax_events s = StartElement ''recurrence'' (stanza_pairs s) # concat (map sax_events ?cs) @ [EndElement ''recurrence'']"
    by (subst sax_events_tag) (simp_all add: s)
  ultimately show ?thesis using start 3(1) 4 by (auto simp: xml_run_append)
qed

section \<open>The event tag\<close>

definition event_sent :: "mio_event \<Rightarrow> mio_event" where
  "event_sent e = e\<lparr>ev_recurrence := map_option recurrence_sent (ev_recurrence e)\<rparr>"

definition event_ok :: "mio_event \<Rightarrow> bool" where
  "event_ok e \<longleftrightarrow> 0 \<le> ev_id e \<and> ev_id e < 10 ^ 7 \<and> (case ev_recurrence e of None \<Rightarrow> True | Some r \<Rightarrow> recurrence_ok r)"

definition event_keys :: "string set" where
  "event_keys = {''id'', ''info'', ''time'', ''transducerName'', ''transducerValue''}"

definition event_tag :: "mio_event \<Rightarrow> xmpp_stanza" where
  "event_tag e = put_attr (put_attr (put_attr (put_attr (put_attr (stanza_named ''event'')
     ''id'' (Some (c_snprintf_u 8 (ev_id e)))) ''info'' (ev_info e)) ''time'' (ev_time e))
     ''transducerName'' (ev_tranducer_name e)) ''transducerValue'' (ev_transducer_value e)"

lemma event_tag_simps [simp]:
  "tag_wf (event_tag e)" "st_data (event_tag e) = Some ''event''" "st_children (event_tag e) = []"
  by (simp_all add: event_tag_def put_attr_tag)

lemma event_tag_attr:
  "stanza_attr (event_tag e) k =
     (if k = ''transducerValue'' then ev_transducer_value e else if k = ''transducerName'' then ev_tranducer_name e
      else if k = ''time'' then ev_time e else if k = ''info'' then ev_info e
      else if k = ''id'' then Some (c_snprintf_u 8 (ev_id e)) else None)"
  by (auto simp: event_tag_def put_attr_tag split: option.splits)

lemma event_stanza_ok:
  assumes "event_ok e"
  shows "\<exists>s. event_stanza e = Some s \<and> tag_wf s \<and> st_data s = Some ''event'' \<and> stanza_attr s = stanza_attr (event_tag e) \<and>
     st_children s = (case ev_recurrence e of None \<Rightarrow> [] | Some r \<Rightarrow> [the (mio_recurrence_to_stanza r)])"
proof -
  have "event_stanza e = (case ev_recurrence e of None \<Rightarrow> Some (event_tag e)
      | Some r \<Rightarrow> do { r \<leftarrow> mio_recurrence_to_stanza r; Some (xmpp_stanza_add_child (event_tag e) r) })"
    by (simp add: event_stanza_def event_tag_def stanza_build split: option.split)
  with assms show ?thesis by (auto simp: event_ok_def mio_recurrence_to_stanza_eq split: option.splits)
qed

lemma event_attr_loop_fields:
  assumes "distinct (map fst kvs)"
  shows "ev_id (event_attr_loop e kvs) = (case map_of kvs ''id'' of None \<Rightarrow> ev_id e | Some v \<Rightarrow> c_scan_u v (ev_id e))"
    and "ev_info (event_attr_loop e kvs) = (case map_of kvs ''info'' of None \<Rightarrow> ev_info e | Some v \<Rightarrow> Some v)"
    and "ev_time (event_attr_loop e kvs) = (case map_of kvs ''time'' of None \<Rightarrow> ev_time e | Some v \<Rightarrow> Some v)"
    and "ev_tranducer_name (event_attr_loop e kvs) =
      (case map_of kvs ''transducerName'' of None \<Rightarrow> ev_tranducer_name e | Some v \<Rightarrow> Some v)"
    and "ev_transducer_value (event_attr_loop e kvs) =
      (case map_of kvs ''transducerValue'' of None \<Rightarrow> ev_transducer_value e | Some v \<Rightarrow> Some v)"
    and "ev_recurrence (event_attr_loop e kvs) = ev_recurrence e"
  unfolding event_attr_loop_def
  subgoal by (rule foldl_attr_field [OF assms, where f = ev_id and u = "\<lambda>v old. c_scan_u v old"]) auto
  subgoal by (rule foldl_attr_field [OF assms, where f = ev_info and u = "\<lambda>v _. Some v"]) auto
  subgoal by (rule foldl_attr_field [OF assms, where f = ev_time and u = "\<lambda>v _. Some v"]) auto
  subgoal by (rule foldl_attr_field [OF assms, where f = ev_tranducer_name and u = "\<lambda>v _. Some v"]) auto
  subgoal by (rule foldl_attr_field [OF assms, where f = ev_transducer_value and u = "\<lambda>v _. Some v"]) auto
  subgoal by (induction kvs arbitrary: e rule: rev_induct) (auto split: prod.splits)
  done

lemma mio_event_new_fields:
  "ev_info mio_event_new = None" "ev_time mio_event_new = None" "ev_tranducer_name mio_event_new = None"
  "ev_transducer_value mio_event_new = None" "ev_recurrence mio_event_new = None"
  by (simp_all add: mio_event_new_def)

lemma event_attr_loop_stanza:
  assumes "event_ok e" "event_stanza e = Some s"
  shows "event_attr_loop mio_event_new (stanza_pairs s) = e\<lparr>ev_recurrence := None\<rparr>"
proof -
  from event_stanza_ok [OF assms(1)] assms(2) have wf: "tag_wf s" and at: "stanza_attr s = stanza_attr (event_tag e)" by auto
  have dm: "dom (stanza_attr s) \<subseteq> event_keys" by (auto simp: at event_tag_attr event_keys_def split: if_splits)
  have "iter_complete s"
    by (rule iter_completeI [OF wf dm, where lastkey = "''transducerName''"]) (auto simp: event_keys_def hash_key_names)
  note f = event_attr_loop_fields [OF distinct_stanza_pairs [OF wf], of mio_event_new, unfolded map_of_stanza_pairs [OF wf this] at event_tag_attr]
  have "0 \<le> ev_id e" "ev_id e < 10 ^ 7" using assms(1) by (simp_all add: event_ok_def)
  then show ?thesis
    by (intro mio_event.equality) (auto simp: f c_scan_u_snprintf mio_event_new_fields split: option.splits)
qed

lemma sched_event_run:
  assumes "xd_lev d ps xd" "xd_packet xd = Some p" "as_events (pkt_payload p) = Some es" "event_ok e" "event_stanza e = Some s"
  shows "\<exists>xd'. xml_run mio_XMLstart_schedule_query xd (sax_events s) = Some xd' \<and> xd_lev d ps xd' \<and>
     xd_response xd' = xd_response (xd_set_packet (p\<lparr>pkt_payload := PSchedule (es @ [event_sent e]),
       pkt_num_payloads := pkt_num_payloads p + 1\<rparr>) xd)"
proof -
  let ?p = "p\<lparr>pkt_num_payloads := pkt_num_payloads p + 1\<rparr>" and ?e = "e\<lparr>ev_recurrence := None\<rparr>"
  have ps: "ps \<noteq> []" using assms(1) by (simp add: xd_lev_def)
  from event_stanza_ok [OF assms(4)] assms(5) have s: "tag_wf s" "st_data s = Some ''event''"
    "st_children s = (case ev_recurrence e of None \<Rightarrow> [] | Some r \<Rightarrow> [the (mio_recurrence_to_stanza r)])" by auto
  obtain xd1 q where 1: "xml_data_update_start_element (xd_renamed xd ''event'') ''event'' = Some xd1"
    "xd_lev (d + 1) (Some q # ps) xd1" "xd_same xd xd1" using sched_start [OF assms(1)] by blast
  let ?xd2 = "xd_set_packet (?p\<lparr>pkt_payload := PSchedule (es @ [?e])\<rparr>) (xd1\<lparr>xd_chars := XChars_none, xd_payload := XEvent\<rparr>)"
  have start: "mio_XMLstart_schedule_query xd ''event'' (stanza_pairs s) = Some ?xd2"
    using 1(1) assms(2,3) xd_packet_same [OF 1(3)]
    by (cases p) (simp add: mio_XMLstart_schedule_query_def xd_renamed_def event_attr_loop_stanza [OF assms(4,5)])
  have l2: "xd_lev (d + 1) (Some q # ps) ?xd2" using 1(2) by simp
  have e2: "sched_event (xd_response xd) ?p (es @ [?e]) ?xd2" using 1(3) by (simp add: sched_event_def xd_set_packet_def xd_same_def)
  have "\<exists>xd3. xml_run mio_XMLstart_schedule_query ?xd2 (concat (map sax_events (st_children s))) = Some xd3 \<and>
      xd_lev (d + 1) (Some q # ps) xd3 \<and> sched_event (xd_response xd) ?p (es @ [event_sent e]) xd3"
  proof (cases "ev_recurrence e")
    case None
    then have "event_sent e = ?e" by (simp add: event_sent_def)
    then show ?thesis using s(3) None l2 e2 by simp
  next
    case (Some r)
    then have ok: "recurrence_ok r" using assms(4) by (simp add: event_ok_def)
    from sched_recurrence_run [OF l2 e2 ok, of "the (mio_recurrence_to_stanza r)"] show ?thesis
      using s(3) Some by (simp add: mio_recurrence_to_stanza_eq [OF ok] event_sent_def)
  qed
  then obtain xd3 where 3: "xml_run mio_XMLstart_schedule_query ?xd2 (concat (map sax_events (st_children s))) = Some xd3"
    "xd_lev (d + 1) (Some q # ps) xd3" "sched_event (xd_response xd) ?p (es @ [event_sent e]) xd3" by blast
  from sched_end [OF 3(2) ps] obtain xd4 where
    4: "xml_data_update_end_element xd3 = Some xd4" "xd_lev d ps xd4" "xd_same xd3 xd4" by blast
  with start 3 show ?thesis
    by (auto simp: sax_events_tag [OF s(1,2)] xml_run_append sched_event_def xd_same_def xd_set_packet_def)
qed

section \<open>The list of events and the item\<close>

definition packet_events :: "mio_packet \<Rightarrow> mio_event list \<Rightarrow> mio_packet" where
  "packet_events p es = (if es = [] then p else
     p\<lparr>pkt_payload := PSchedule ((case pkt_payload p of PSchedule qs \<Rightarrow> qs | _ \<Rightarrow> []) @ es),
       pkt_num_payloads := pkt_num_payloads p + int (length es)\<rparr>)"

definition events_payload :: "mio_payload \<Rightarrow> bool" where
  "events_payload p \<longleftrightarrow> as_events p \<noteq> None"

lemma events_payload_iff: "events_payload p \<longleftrightarrow> as_events p = Some (case p of PSchedule es \<Rightarrow> es | _ \<Rightarrow> [])"
  by (auto simp: events_payload_def as_events_def split: mio_payload.splits)

lemma packet_events_append: "packet_events (packet_events p es) fs = packet_events p (es @ fs)"
  by (auto simp: packet_events_def)

lemma events_payload_packet_events: "events_payload (pkt_payload p) \<Longrightarrow> events_payload (pkt_payload (packet_events p es))"
  by (auto simp: packet_events_def events_payload_def as_events_def)

lemma event_stanzas_eq:
  assumes "list_all event_ok es"
  shows "event_stanzas es s = Some (add_children s (map (\<lambda>e. the (event_stanza e)) es))"
  using assms
proof (induction es arbitrary: s)
  case (Cons e es)
  have "event_ok e" using Cons.prems by simp
  then obtain t where t: "event_stanza e = Some t" using event_stanza_ok by blast
  have "add_children (xmpp_stanza_add_child s t) ts = add_children s (t # ts)" for ts by (simp add: add_children_def)
  with Cons t show ?case by simp
qed simp

lemma sched_events_run:
  assumes "xd_lev d ps xd" "xd_packet xd = Some p" "events_payload (pkt_payload p)" "list_all event_ok es"
  shows "\<exists>xd'. xml_run mio_XMLstart_schedule_query xd (concat (map sax_events (map (\<lambda>e. the (event_stanza e)) es))) = Some xd' \<and>
     xd_lev d ps xd' \<and> xd_response xd' = xd_response (xd_set_packet (packet_events p (map event_sent es)) xd)"
  using assms
proof (induction es arbitrary: xd p)
  case Nil
  then show ?case
    by (auto simp: packet_events_def xd_set_packet_def xd_packet_def split: mio_response_body.splits)
next
  case (Cons e es)
  have e: "event_ok e" using Cons.prems(4) by simp
  then obtain t where t: "event_stanza e = Some t" using event_stanza_ok by blast
  let ?p = "packet_events p [event_sent e]"
  obtain xd1 where 1: "xml_run mio_XMLstart_schedule_query xd (sax_events t) = Some xd1" "xd_lev d ps xd1"
    "xd_response xd1 = xd_response (xd_set_packet ?p xd)"
    using sched_event_run [OF Cons.prems(1,2) _ e t] Cons.prems(3) by (auto simp: packet_events_def events_payload_iff)
  have p1: "xd_packet xd1 = Some ?p" using 1(3) by (simp add: xd_packet_def xd_set_packet_def)
  obtain xd2 where "xml_run mio_XMLstart_schedule_query xd1 (concat (map sax_events (map (\<lambda>e. the (event_stanza e)) es))) = Some xd2"
    "xd_lev d ps xd2" "xd_response xd2 = xd_response (xd_set_packet (packet_events ?p (map event_sent es)) xd1)"
    using Cons.IH [OF 1(2) p1 events_payload_packet_events [OF Cons.prems(3)]] Cons.prems(4) by auto
  with 1 t show ?case by (simp add: xml_run_append packet_events_append xd_set_packet_def)
qed

lemma mio_schedule_event_to_item_eq:
  assumes "list_all event_ok es"
  shows "mio_schedule_event_to_item es = Some (xmpp_stanza_add_child (item_tag ''schedule'')
     (add_children (stanza_named ''schedule'') (map (\<lambda>e. the (event_stanza e)) es)))"
  using event_stanzas_eq [OF assms]
  by (simp add: mio_schedule_event_to_item_def mio_pubsub_item_new_def item_tag_def set_attr_defined)

lemma sched_item_run:
  assumes "mio_schedule_event_to_item es = Some item" "list_all event_ok es"
    "xd_lev d ps xd" "xd_packet xd = Some p" "events_payload (pkt_payload p)"
  shows "\<exists>xd'. xml_run mio_XMLstart_schedule_query xd (sax_events item) = Some xd' \<and>
     xd_lev d ps xd' \<and> xd_response xd' = xd_response (xd_set_packet (packet_events p (map event_sent es)) xd)"
proof -
  let ?sch = "add_children (stanza_named ''schedule'') (map (\<lambda>e. the (event_stanza e)) es)"
  let ?R = "xd_response (xd_set_packet (packet_events p (map event_sent es)) xd)"
  have item: "item = xmpp_stanza_add_child (item_tag ''schedule'') ?sch"
    using assms(1) mio_schedule_event_to_item_eq [OF assms(2)] by simp
  have sch: "\<exists>xd' xd3. xml_run mio_XMLstart_schedule_query xd1 (sax_events ?sch) = Some xd' \<and>
      xd_lev (d + 1) qs xd' \<and> xd_response xd3 = ?R \<and> xd_same xd3 xd'"
    if "xd_lev (d + 1) qs xd1" "xd_same xd xd1" for xd1 qs
  proof (rule sched_plain_tag [OF that(1), where name = "''schedule''"])
    fix xd2 rs assume a: "xd_lev (d + 1 + 1) rs xd2" "xd_same xd1 xd2"
    have "xd_packet xd2 = Some p" using xd_packet_same [OF that(2)] xd_packet_same [OF a(2)] assms(4) by simp
    from sched_events_run [OF a(1) this assms(5,2)] a(2) that(2)
    show "\<exists>xd3. xml_run mio_XMLstart_schedule_query xd2 (concat (map sax_events (st_children ?sch))) = Some xd3 \<and>
        xd_lev (d + 1 + 1) rs xd3 \<and> xd_response xd3 = ?R"
      by (simp add: xd_same_def xd_set_packet_def)
  qed simp_all
  have "\<exists>xd' xd2. xml_run mio_XMLstart_schedule_query xd (sax_events item) = Some xd' \<and> xd_lev d ps xd' \<and>
      xd_response xd2 = ?R \<and> xd_same xd2 xd'"
  proof (rule sched_plain_tag [OF assms(3), where name = "''item''"])
    fix xd1 qs assume "xd_lev (d + 1) qs xd1" "xd_same xd xd1"
    from sch [OF this] show "\<exists>xd2. xml_run mio_XMLstart_schedule_query xd1 (concat (map sax_events (st_children item))) = Some xd2 \<and>
        xd_lev (d + 1) qs xd2 \<and> xd_response xd2 = ?R"
      by (auto simp: item xd_same_def)
  qed (simp_all add: item)
  then show ?thesis by (auto simp: xd_same_def)
qed

section \<open>The reply\<close>

lemma sched_start_root:
  "\<exists>xd'. xml_data_update_start_element (xd_renamed (xml_data_new r ch) c) c = Some xd' \<and> xd_lev 1 [Some c] xd' \<and>
     xd_same (xml_data_new r ch) xd'"
  by (simp add: xml_data_update_start_element_def xml_data_new_def xd_renamed_def xd_lev_def xd_same_def Let_def)

lemma sched_end_root:
  assumes "xd_lev 1 [Some c] xd"
  shows "\<exists>xd'. xml_data_update_end_element xd = Some xd' \<and> xd_same xd xd'"
  using assms by (auto simp: xd_lev_def xd_same_def xml_data_update_end_element_def)

lemma sched_items_start:
  assumes "xml_data_update_start_element (xd_renamed xd ''items'') ''items'' = Some xd'" "xd_packet xd' = Some p"
  shows "mio_XMLstart_schedule_query xd ''items'' attr =
     Some (xd_set_packet (p\<lparr>pkt_type := MIO_PACKET_SCHEDULE\<rparr>) (xd_set_type MIO_RESPONSE_PACKET xd'))"
  using assms by (simp add: mio_XMLstart_schedule_query_def xd_renamed_def)

lemma sched_reply_run:
  assumes item: "mio_schedule_event_to_item es = Some item" "list_all event_ok es"
  shows "\<exists>xd'. xml_run mio_XMLstart_schedule_query (xml_data_new (R\<lparr>rsp_response := RPacket mio_packet_new\<rparr>) ch)
       (sax_events (item_reply a1 a2 a3 item)) = Some xd' \<and>
     xd_response xd' = R\<lparr>rsp_response_type := MIO_RESPONSE_PACKET, rsp_response :=
       RPacket (packet_events (mio_packet_new\<lparr>pkt_type := MIO_PACKET_SCHEDULE\<rparr>) (map event_sent es))\<rparr>"
proof -
  let ?xd0 = "xml_data_new (R\<lparr>rsp_response := RPacket mio_packet_new\<rparr>) ch"
  let ?p = "mio_packet_new\<lparr>pkt_type := MIO_PACKET_SCHEDULE\<rparr>"
  obtain xd1 where 1: "xml_data_update_start_element (xd_renamed ?xd0 ''iq'') ''iq'' = Some xd1"
    "xd_lev 1 [Some ''iq''] xd1" "xd_same ?xd0 xd1"
    using sched_start_root by blast
  obtain xd2 q where 2: "xml_data_update_start_element (xd_renamed xd1 ''pubsub'') ''pubsub'' = Some xd2"
    "xd_lev (1 + 1) [Some q, Some ''iq''] xd2" "xd_same xd1 xd2"
    using sched_start [OF 1(2)] by blast
  obtain xd3 q' where 3: "xml_data_update_start_element (xd_renamed xd2 ''items'') ''items'' = Some xd3"
    "xd_lev (1 + 1 + 1) [Some q', Some q, Some ''iq''] xd3" "xd_same xd2 xd3"
    using sched_start [OF 2(2)] by blast
  have p3: "xd_packet xd3 = Some mio_packet_new" "xd_response xd3 = R\<lparr>rsp_response := RPacket mio_packet_new\<rparr>"
    using 1(3) 2(3) 3(3) by (simp_all add: xd_same_def xd_packet_def xml_data_new_def)
  let ?xd4 = "xd_set_packet ?p (xd_set_type MIO_RESPONSE_PACKET xd3)"
  have "xd_lev (1 + 1 + 1) [Some q', Some q, Some ''iq''] ?xd4" "xd_packet ?xd4 = Some ?p" "events_payload (pkt_payload ?p)"
    using 3(2) by (simp_all add: events_payload_def as_events_def mio_packet_new_def)
  from sched_item_run [OF item this] obtain xd5 where 5: "xml_run mio_XMLstart_schedule_query ?xd4 (sax_events item) = Some xd5"
    "xd_lev (1 + 1 + 1) [Some q', Some q, Some ''iq''] xd5"
    "xd_response xd5 = R\<lparr>rsp_response_type := MIO_RESPONSE_PACKET, rsp_response := RPacket (packet_events ?p (map event_sent es))\<rparr>"
    using p3(2) by (auto simp: xd_set_packet_def xd_set_type_def)
  from sched_end [OF 5(2)] obtain xd6 where 6: "xml_data_update_end_element xd5 = Some xd6"
    "xd_lev (1 + 1) [Some q, Some ''iq''] xd6" "xd_same xd5 xd6" by auto
  from sched_end [OF 6(2)] obtain xd7 where 7: "xml_data_update_end_element xd6 = Some xd7"
    "xd_lev 1 [Some ''iq''] xd7" "xd_same xd6 xd7" by auto
  from sched_end_root [OF 7(2)] obtain xd8 where 8: "xml_data_update_end_element xd7 = Some xd8" "xd_same xd7 xd8" by blast
  have "xd_response xd8 = xd_response xd5" using 6(3) 7(3) 8(2) by (simp add: xd_same_def)
  with 1(1) 2(1) 5(1,3) 6(1) 7(1) 8(1) sched_items_start [OF 3(1) p3(1)] show ?thesis
    by (simp add: item_reply_def xml_run_append schedule_start_plain)
qed

lemma schedule_reply:
  assumes ok: "list_all event_ok es"
    and item: "mio_schedule_event_to_item es = Some item"
    and expat: "expat_delivers expat (item_reply a1 a2 a3 item)"
  shows "\<exists>r. mio_handler_schedule_query expat True (item_reply a1 a2 a3 item) response = Some (MIO_OK, r, True) \<and>
     rsp_response_type r = MIO_RESPONSE_PACKET \<and>
     rsp_response r = RPacket \<lparr>pkt_id = None, pkt_type = MIO_PACKET_SCHEDULE,
       pkt_num_payloads = int (length es), pkt_payload = (if es = [] then PNull else PSchedule (map event_sent es))\<rparr>"
  using sched_reply_run [OF item ok, of "response\<lparr>rsp_stanza := Some (item_reply a1 a2 a3 item)\<rparr>" XChars_none a1 a2 a3]
  by (auto simp: mio_handler_schedule_query_def handler_packet_parse_def mio_xml_parse_delivers [OF expat]
      packet_events_def mio_packet_new_def)


definition example_schedule :: "mio_event list" where
  "example_schedule = [mio_event_new\<lparr>ev_id := 0, ev_time := Some ''2014-05-01T10:00:00'', ev_tranducer_name := Some ''relay'',
     ev_transducer_value := Some ''on'', ev_recurrence := Some (mio_recurrence_new\<lparr>rec_freq := Some ''DAILY''\<rparr>)\<rparr>]"

definition example_schedule_item :: xmpp_stanza where
  "example_schedule_item = the (mio_schedule_event_to_item example_schedule)"

lemma printable_opt_child: "list_all printable (opt_child n v)"
  by (cases v) (auto simp: opt_child_def text_element_def intro!: printable_tag_wf)

lemma printable_opt_children: "list_all printable (concat (map (\<lambda>(n, v). opt_child n v) fs))"
  using printable_opt_child by (induction fs) (auto simp: list_all_append)

lemma printable_recurrence:
  assumes "recurrence_ok r"
  shows "printable (the (mio_recurrence_to_stanza r))"
  unfolding mio_recurrence_to_stanza_eq [OF assms] option.sel
  by (rule printable_tag_wf) (simp_all add: printable_opt_children)

lemma printable_event:
  assumes "event_ok e"
  shows "printable (the (event_stanza e))"
proof -
  obtain s where s: "event_stanza e = Some s" "tag_wf s"
    "st_children s = (case ev_recurrence e of None \<Rightarrow> [] | Some r \<Rightarrow> [the (mio_recurrence_to_stanza r)])"
    using event_stanza_ok [OF assms] by blast
  have "list_all printable (st_children s)"
    using s(3) assms printable_recurrence by (auto simp: event_ok_def split: option.splits)
  then show ?thesis using s(1,2) printable_tag_wf by simp
qed

lemma printable_schedule:
  assumes "list_all event_ok es"
  shows "mio_schedule_event_to_item es = Some (the (mio_schedule_event_to_item es))"
    "printable (the (mio_schedule_event_to_item es))"
  using assms printable_event
  by (auto simp: mio_schedule_event_to_item_eq [OF assms] list_all_iff intro!: printable_tag_wf)

lemma example_schedule_ok: "list_all event_ok example_schedule"
  by (simp add: example_schedule_def event_ok_def recurrence_ok_def recurrence_pairs_def mio_recurrence_new_def)


end
