(* ===== verification/Mio_Agenda.thy ===== *)
theory Mio_Agenda
  imports Mio_Service Mio_Roundtrip_Schedule
begin

text \<open>
  Schedules at the service: \<open>mio_schedule_event_merge_publish\<close> and \<open>mio_schedule_event_remove_publish\<close> on a service that
  stores the items of schedules. What a query gives back of the events \<open>es\<close> of a node is \<open>map event_sent es\<close>.

  Shown: a merge stores the merged events and a removal the remaining ones, and both leave all other items alone; a merge
  whose query is not answered publishes the new events alone.
\<close>

definition sched_items :: "xmpp_stanza set" where
  "sched_items = {item. \<exists>es. list_all event_ok es \<and> mio_schedule_event_to_item es = Some item}"

definition schedule_at :: "((string \<times> string) \<rightharpoonup> xmpp_stanza) \<Rightarrow> string \<Rightarrow> mio_event list \<Rightarrow> bool" where
  "schedule_at st node es \<longleftrightarrow> list_all event_ok es \<and>
     (case st (node, ''schedule'') of None \<Rightarrow> es = [] | Some item \<Rightarrow> mio_schedule_event_to_item es = Some item)"

definition sched_response :: "mio_response \<Rightarrow> mio_event list \<Rightarrow> bool" where
  "sched_response q es \<longleftrightarrow> rsp_response_type q = MIO_RESPONSE_PACKET \<and>
     (\<exists>p. rsp_response q = RPacket p \<and> pkt_type p = MIO_PACKET_SCHEDULE \<and> as_events (pkt_payload p) = Some (map event_sent es))"

lemma schedule_reply_empty:
  assumes "expat_delivers expat (items_reply a1 a2 a3 None)"
  shows "\<exists>q. mio_handler_schedule_query expat True (items_reply a1 a2 a3 None) r = Some (MIO_OK, q, True) \<and> sched_response q []"
  by (simp add: mio_handler_schedule_query_def handler_packet_parse_def mio_xml_parse_delivers [OF assms],
      simp add: items_reply_def mio_XMLstart_schedule_query_def xml_data_update_start_element_def
      xml_data_update_end_element_def xml_data_new_def xd_packet_def xd_set_packet_def xd_set_type_def sched_response_def mio_packet_new_def
      as_events_def Let_def)

lemma schedule_fetched:
  assumes "pubsub_service env stored sched_items" "ready env w" "schedule_at (stored (wd_outside w)) node es"
  shows "\<exists>q w'. mio_schedule_query env w (Some node) r = Some (MIO_OK, q, w') \<and> ready env w' \<and>
     stored (wd_outside w') = stored (wd_outside w) \<and> sched_response q es"
proof -
  have auth: "authenticated env w" using assms(2) by (simp add: ready_def)
  have "set_option (stored (wd_outside w) (node, ''schedule'')) \<subseteq> sched_items"
    using assms(3) by (auto simp: schedule_at_def sched_items_def)
  then obtain a1 a2 a3 w' r0 where 1: "mio_schedule_query env w (Some node) r =
     map_option (\<lambda>(err, r', signalled). (if signalled then MIO_OK else MIO_ERROR_TIMEOUT, r', w'))
       (mio_handler_schedule_query (en_expat env) True (items_reply a1 a2 a3 (stored (wd_outside w) (node, ''schedule''))) (r\<lparr>rsp_id := r0\<rparr>))"
    "expat_delivers (en_expat env) (items_reply a1 a2 a3 (stored (wd_outside w) (node, ''schedule'')))"
    "ready env w'" "stored (wd_outside w') = stored (wd_outside w)"
    using item_fetched [OF assms(1,2), of H_schedule_query mio_handler_schedule_query node "''schedule''" r]
    by (auto simp: mio_schedule_query_def mio_item_recent_get_eq [OF auth] reply_handler_def)
  have "\<exists>q. mio_handler_schedule_query (en_expat env) True (items_reply a1 a2 a3 (stored (wd_outside w) (node, ''schedule''))) (r\<lparr>rsp_id := r0\<rparr>) =
      Some (MIO_OK, q, True) \<and> sched_response q es"
  proof (cases "stored (wd_outside w) (node, ''schedule'')")
    case None
    with assms(3) 1(2) schedule_reply_empty show ?thesis by (auto simp: schedule_at_def)
  next
    case (Some item)
    then have item: "mio_schedule_event_to_item es = Some item" "list_all event_ok es" using assms(3) by (auto simp: schedule_at_def)
    have eq: "items_reply a1 a2 a3 (Some item) = item_reply a1 a2 a3 item" by (simp add: items_reply_def item_reply_def)
    from schedule_reply [OF item(2,1) 1(2) [unfolded Some eq], of "r\<lparr>rsp_id := r0\<rparr>"] Some eq
    show ?thesis by (auto simp: sched_response_def as_events_def)
  qed
  with 1 show ?thesis by auto
qed

lemma schedule_published:
  assumes "pubsub_service env stored sched_items" "ready env w" "rsp_response_type r \<noteq> MIO_RESPONSE_ERROR" "list_all event_ok es"
  shows "\<exists>item r' w'. mio_schedule_event_to_item es = Some item \<and> mio_item_publish env w item (Some node) r = Some (MIO_OK, r', w') \<and>
     ready env w' \<and> rsp_response_type r' = MIO_RESPONSE_OK \<and> schedule_at (stored (wd_outside w')) node es \<and>
     (\<forall>k. k \<noteq> (node, ''schedule'') \<longrightarrow> stored (wd_outside w') k = stored (wd_outside w) k)"
proof -
  obtain item where item: "mio_schedule_event_to_item es = Some item" "stanza_attr item ''id'' = Some ''schedule''"
    using mio_schedule_event_to_item_eq [OF assms(4)] by simp
  have "item \<in> sched_items" using item(1) assms(4) by (auto simp: sched_items_def)
  from publish_stored [OF assms(1,2) this item(2) assms(3)] obtain r' w' where
    "mio_item_publish env w item (Some node) r = Some (MIO_OK, r', w')" "ready env w'" "rsp_response_type r' = MIO_RESPONSE_OK"
    "stored (wd_outside w') = (stored (wd_outside w))((node, ''schedule'') \<mapsto> item)" by blast
  with item(1) assms(4) show ?thesis by (auto simp: schedule_at_def)
qed

text \<open>The events after a merge; an empty schedule takes the new events as they are, renumbered.\<close>

definition schedule_merged :: "mio_event list \<Rightarrow> mio_event list \<Rightarrow> mio_event list option" where
  "schedule_merged es fs = (if es = [] then Some (mio_event_renumber fs) else mio_schedule_event_merge (map event_sent es) fs)"

section \<open>A service for schedules\<close>

lemma lexable_text_element: "n \<noteq> [] \<Longrightarrow> name_ok n \<Longrightarrow> lexable (text_element n v)"
  by (simp add: text_element_def stanza_named_def xmpp_stanza_set_name_def xmpp_stanza_new_def xmpp_stanza_add_child_def stanza_pairs_def)

lemma text_element_type [simp]: "st_type (text_element n v) = XMPP_STANZA_TAG"
  by (simp add: text_element_def stanza_named_def xmpp_stanza_set_name_def xmpp_stanza_new_def xmpp_stanza_add_child_def)

lemma opt_children_lexable:
  assumes "list_all (\<lambda>(n, v). n \<noteq> [] \<and> name_ok n) fs" "c \<in> set (concat (map (\<lambda>(n, v). opt_child n v) fs))"
  shows "lexable c \<and> st_type c = XMPP_STANZA_TAG"
  using assms by (auto simp: opt_child_def list_all_iff lexable_text_element split: option.splits)

lemma lexable_children:
  assumes "tag_wf s" "st_data s = Some nm" "nm \<noteq> []" "name_ok nm" "iter_complete s" "\<And>k. k \<in> dom (stanza_attr s) \<Longrightarrow> name_ok k"
    and "\<And>c. c \<in> set (st_children s) \<Longrightarrow> lexable c \<and> st_type c = XMPP_STANZA_TAG"
  shows "lexable s \<and> st_type s = XMPP_STANZA_TAG"
  using lexable_tag [OF assms(1-6)] texts_apart_tags [of "st_children s"] assms(1,7) by (auto simp: list_all_iff tag_wf_def)

lemma sched_names: "name_ok ''schedule''" "name_ok ''event''" "name_ok ''recurrence''" "name_ok ''freq''" "name_ok ''interval''" "name_ok ''count''"
  "name_ok ''until''" "name_ok ''bymonth''" "name_ok ''byday''" "name_ok ''exdate''" "name_ok ''info''" "name_ok ''time''"
  "name_ok ''transducerName''" "name_ok ''transducerValue''"
  by (simp_all add: name_ok_def name_char_def)

lemma iter_complete_plain: "tag_wf s \<Longrightarrow> stanza_attr s = Map.empty \<Longrightarrow> iter_complete s"
  by (rule iter_completeI [where K = "{}" and lastkey = "[]"]) auto

lemma event_lexable:
  assumes "event_ok e"
  shows "lexable (the (event_stanza e)) \<and> st_type (the (event_stanza e)) = XMPP_STANZA_TAG"
proof -
  obtain s where s: "event_stanza e = Some s" "tag_wf s" "st_data s = Some ''event''" "stanza_attr s = stanza_attr (event_tag e)"
    "st_children s = (case ev_recurrence e of None \<Rightarrow> [] | Some r \<Rightarrow> [the (mio_recurrence_to_stanza r)])"
    using event_stanza_ok [OF assms] by blast
  have dm: "dom (stanza_attr s) \<subseteq> event_keys" by (auto simp: s(4) event_tag_attr event_keys_def split: if_splits)
  have "iter_complete s"
    by (rule iter_completeI [OF s(2) dm, where lastkey = "''transducerName''"]) (auto simp: event_keys_def hash_key_names)
  moreover have "lexable c \<and> st_type c = XMPP_STANZA_TAG" if c_in: "c \<in> set (st_children s)" for c
  proof -
    obtain r where r: "recurrence_ok r" "c = the (mio_recurrence_to_stanza r)"
    proof (cases "ev_recurrence e")
      case None
      with c_in s(5) have False by simp
      then show ?thesis ..
    next
      case (Some r)
      with c_in s(5) assms show ?thesis by (intro that) (simp_all add: event_ok_def)
    qed
    have names: "list_all (\<lambda>(n, v). n \<noteq> [] \<and> name_ok n) (recurrence_pairs (recurrence_sent r))"
      by (simp add: recurrence_pairs_def sched_names)
    have c: "c = add_children (stanza_named ''recurrence'') (concat (map (\<lambda>(n, v). opt_child n v) (recurrence_pairs (recurrence_sent r))))"
      using r by (simp add: mio_recurrence_to_stanza_eq)
    show ?thesis
      by (rule lexable_children [where nm = "''recurrence''"])
        (use opt_children_lexable [OF names] in \<open>auto simp: c sched_names intro!: iter_complete_plain\<close>)
  qed
  moreover have "name_ok k" if "k \<in> dom (stanza_attr s)" for k
    using that dm by (auto simp: event_keys_def sched_names name_ok_names)
  ultimately show ?thesis using s(1) lexable_children [OF s(2,3)] by (auto simp: sched_names)
qed

lemma sched_item_lexable:
  assumes "item \<in> sched_items"
  shows "lexable item"
proof -
  obtain es where es: "list_all event_ok es" "mio_schedule_event_to_item es = Some item" using assms by (auto simp: sched_items_def)
  let ?s = "add_children (stanza_named ''schedule'') (map (\<lambda>e. the (event_stanza e)) es)"
  have item: "item = xmpp_stanza_add_child (item_tag ''schedule'') ?s" using es mio_schedule_event_to_item_eq by simp
  have s: "lexable ?s \<and> st_type ?s = XMPP_STANZA_TAG"
    by (rule lexable_children [where nm = "''schedule''"])
      (use es(1) event_lexable in \<open>auto simp: sched_names list_all_iff intro!: iter_complete_plain\<close>)
  have ic: "iter_complete item"
    by (rule iter_completeI [where K = "{''id''}" and lastkey = "[]"]) (auto simp: item hash_key_names)
  show ?thesis
    using lexable_children [of item "''item''"] s ic by (auto simp: item name_ok_names)
qed

lemma sched_service: "pubsub_service demo_env (\<lambda>st. st) sched_items"
  using demo_service sched_item_lexable by blast

definition sched_world :: "((string \<times> string) \<rightharpoonup> xmpp_stanza) world" where
  "sched_world = demo_world\<lparr>wd_outside := [(''hall'', ''schedule'') \<mapsto>
     the (mio_schedule_event_to_item [mio_event_new\<lparr>ev_id := 0, ev_time := Some ''noon''\<rparr>, mio_event_new\<lparr>ev_id := 1\<rparr>])]\<rparr>"

lemma sched_ready:
  "ready demo_env sched_world"
  "schedule_at (wd_outside sched_world) ''hall'' [mio_event_new\<lparr>ev_id := 0, ev_time := Some ''noon''\<rparr>, mio_event_new\<lparr>ev_id := 1\<rparr>]"
  by (simp_all add: ready_def authenticated_def demo_env_def demo_world_def sched_world_def has_server_def schedule_at_def
      mio_schedule_event_to_item_eq event_ok_def mio_event_new_def)

section \<open>Properties\<close>



text \<open>Removing from a stored schedule: \<open>mio_schedule_event_remove_publish\<close> returns MIO_OK and the node has the events that remain
  after the removal, when these are printable; every other stored item is the same.\<close>

theorem schedule_remove_stored:
  assumes "pubsub_service env stored sched_items" "ready env w" "schedule_at (stored (wd_outside w)) node es"
    and "list_all event_ok (mio_schedule_event_remove (map event_sent es) i)" "rsp_response_type response \<noteq> MIO_RESPONSE_ERROR"
  shows "\<exists>r' w'. mio_schedule_event_remove_publish env w node i response = Some (MIO_OK, r', w') \<and>
     rsp_response_type r' = MIO_RESPONSE_OK \<and> schedule_at (stored (wd_outside w')) node (mio_schedule_event_remove (map event_sent es) i) \<and>
     (\<forall>k. k \<noteq> (node, ''schedule'') \<longrightarrow> stored (wd_outside w') k = stored (wd_outside w) k)"
proof -
  obtain q w1 p where 1: "mio_schedule_query env w (Some node) mio_response_new = Some (MIO_OK, q, w1)" "ready env w1"
    "stored (wd_outside w1) = stored (wd_outside w)" "rsp_response_type q = MIO_RESPONSE_PACKET" "rsp_response q = RPacket p"
    "pkt_type p = MIO_PACKET_SCHEDULE" "as_events (pkt_payload p) = Some (map event_sent es)"
    using schedule_fetched [OF assms(1-3), of mio_response_new] unfolding sched_response_def by blast
  show ?thesis
    using schedule_published [OF assms(1) 1(2) assms(5,4), of node] 1
    by (auto simp: mio_schedule_event_remove_publish_def as_packet_def)
qed

theorem schedule_remove_stored_witness:
  "\<exists>r' w'. mio_schedule_event_remove_publish demo_env sched_world ''hall'' 1 mio_response_new = Some (MIO_OK, r', w') \<and>
     schedule_at (wd_outside w') ''hall'' [mio_event_new\<lparr>ev_id := 0, ev_time := Some ''noon''\<rparr>]"
proof -
  let ?es = "[mio_event_new\<lparr>ev_id := 0, ev_time := Some ''noon''\<rparr>, mio_event_new\<lparr>ev_id := 1\<rparr>]"
  have "mio_schedule_event_remove (map event_sent ?es) 1 = [mio_event_new\<lparr>ev_id := 0, ev_time := Some ''noon''\<rparr>]"
    by code_simp
  with schedule_remove_stored [OF sched_service sched_ready(1), of "''hall''" ?es 1 mio_response_new] sched_ready(2)
  show ?thesis by (auto simp: event_ok_def mio_event_new_def mio_response_new_def)
qed

text \<open>A merge whose query is not answered overwrites the schedule: whatever the reason the service does not answer the request for
  the stored events (a time-out, say), \<open>mio_schedule_event_merge_publish\<close> goes on to publish the new events alone, renumbered from 0, as
  the whole schedule of the node.\<close>

theorem schedule_merge_unanswered:
  assumes "authenticated env w" "items_request (wd_jid w) (en_uuid env (wd_uuids w)) (Some node) ''schedule'' = Some iq"
    and "en_serve env (wd_outside w) (ms_xmpp_stanza iq) = (NoReply err, s1)"
    and "mio_schedule_event_to_item (mio_event_renumber fs) = Some item"
  shows "\<exists>w1. wd_outside w1 = s1 \<and> wd_jid w1 = wd_jid w \<and>
     mio_schedule_event_merge_publish env w node fs response = mio_item_publish env w1 item (Some node) response"
proof -
  let ?w = "w\<lparr>wd_uuids := Suc (wd_uuids w), wd_outside := s1, wd_sent := wd_sent w @ [ms_xmpp_stanza iq]\<rparr>"
  have "\<exists>q. mio_schedule_query env w (Some node) mio_response_new = Some (err, q, ?w) \<and> rsp_response_type q \<noteq> MIO_RESPONSE_PACKET"
    using assms(2,3) by (simp add: mio_schedule_query_def mio_item_recent_get_eq [OF assms(1)] mio_send_blocking_def reply_handler_def mio_response_new_def)
  then show ?thesis
    using assms(4) by (intro exI [of _ ?w]) (auto simp: mio_schedule_event_merge_publish_def)
qed

theorem schedule_merge_unanswered_witness:
  "\<exists>w1 iq item. wd_outside w1 = wd_outside sched_world \<and> wd_jid w1 = wd_jid sched_world \<and>
     items_request (wd_jid sched_world) (c_dec 0) (Some ''hall'') ''schedule'' = Some iq \<and>
     mio_schedule_event_to_item [mio_event_new\<lparr>ev_id := 0\<rparr>] = Some item \<and>
     mio_schedule_event_merge_publish (demo_env\<lparr>en_serve := (\<lambda>s _. (NoReply MIO_ERROR_TIMEOUT, s))\<rparr>) sched_world ''hall'' [mio_event_new] mio_response_new =
       mio_item_publish (demo_env\<lparr>en_serve := (\<lambda>s _. (NoReply MIO_ERROR_TIMEOUT, s))\<rparr>) w1 item (Some ''hall'') mio_response_new"
proof -
  let ?env = "demo_env\<lparr>en_serve := (\<lambda>s _. (NoReply MIO_ERROR_TIMEOUT, s))\<rparr>"
  have srv: "has_server (wd_jid sched_world)" using sched_ready(1) by (simp add: ready_def)
  obtain iq where iq: "items_request (wd_jid sched_world) (en_uuid ?env (wd_uuids sched_world)) (Some ''hall'') ''schedule'' = Some iq"
    using items_request_defined [OF srv] by blast
  have rn: "mio_event_renumber [mio_event_new] = [mio_event_new\<lparr>ev_id := 0\<rparr>]" by code_simp
  obtain item where item: "mio_schedule_event_to_item (mio_event_renumber [mio_event_new]) = Some item"
    using mio_schedule_event_to_item_eq [of "[mio_event_new\<lparr>ev_id := 0\<rparr>]"] rn by (simp add: event_ok_def mio_event_new_def)
  have "authenticated ?env sched_world" "en_serve ?env (wd_outside sched_world) (ms_xmpp_stanza iq) = (NoReply MIO_ERROR_TIMEOUT, wd_outside sched_world)"
    by (simp_all add: authenticated_def demo_env_def)
  from schedule_merge_unanswered [OF this(1) iq this(2) item, of mio_response_new] show ?thesis
    using iq item rn by (auto simp: demo_env_def sched_world_def demo_world_def)
qed

end
