(* ===== verification/Strophe_Auth.thy ===== *)
theory Strophe_Auth
  imports Strophe_Conn
begin

text \<open>
  The login of libstrophe (\<^verbatim>\<open>src/libs/c/libstrophe/src/auth.c\<close>): the handlers that answer the server's features, TLS and SASL
  stanzas, bind a resource and open a session, and their time-outs. TLS is a parameter: whether a TLS object can be made
  (\<open>te_new\<close>) and whether the handshake succeeds (\<open>te_start\<close>). A handler returns whether it stays registered.
\<close>

unbundle bit_operations_syntax

record tls_env =
  te_new :: bool
  te_start :: bool

definition FEATURES_TIMEOUT :: "64 word" where "FEATURES_TIMEOUT = 15000"
definition BIND_TIMEOUT :: "64 word" where "BIND_TIMEOUT = 15000"
definition SESSION_TIMEOUT :: "64 word" where "SESSION_TIMEOUT = 15000"
definition LEGACY_TIMEOUT :: "64 word" where "LEGACY_TIMEOUT = 15000"

definition SASL_MASK_PLAIN :: "32 word" where "SASL_MASK_PLAIN = 0x01"
definition SASL_MASK_DIGESTMD5 :: "32 word" where "SASL_MASK_DIGESTMD5 = 0x02"
definition SASL_MASK_ANONYMOUS :: "32 word" where "SASL_MASK_ANONYMOUS = 0x04"

section \<open>Stream errors\<close>

definition stream_error_types :: "(string \<times> xmpp_error_type_t) list" where
  "stream_error_types =
    [(''bad-format'', XMPP_SE_BAD_FORMAT), (''bad-namespace-prefix'', XMPP_SE_BAD_NS_PREFIX), (''conflict'', XMPP_SE_CONFLICT),
     (''connection-timeout'', XMPP_SE_CONN_TIMEOUT), (''host-gone'', XMPP_SE_HOST_GONE), (''host-unknown'', XMPP_SE_HOST_UNKNOWN),
     (''improper-addressing'', XMPP_SE_IMPROPER_ADDR), (''internal-server-error'', XMPP_SE_INTERNAL_SERVER_ERROR),
     (''invalid-from'', XMPP_SE_INVALID_FROM), (''invalid-id'', XMPP_SE_INVALID_ID), (''invalid-namespace'', XMPP_SE_INVALID_NS),
     (''invalid-xml'', XMPP_SE_INVALID_XML), (''not-authorized'', XMPP_SE_NOT_AUTHORIZED), (''policy-violation'', XMPP_SE_POLICY_VIOLATION),
     (''remote-connection-failed'', XMPP_SE_REMOTE_CONN_FAILED), (''resource-constraint'', XMPP_SE_RESOURCE_CONSTRAINT),
     (''restricted-xml'', XMPP_SE_RESTRICTED_XML), (''see-other-host'', XMPP_SE_SEE_OTHER_HOST), (''system-shutdown'', XMPP_SE_SYSTEM_SHUTDOWN),
     (''undefined-condition'', XMPP_SE_UNDEFINED_CONDITION), (''unsupported-encoding'', XMPP_SE_UNSUPPORTED_ENCODING),
     (''unsupported-stanza-type'', XMPP_SE_UNSUPPORTED_STANZA_TYPE), (''unsupported-version'', XMPP_SE_UNSUPPORTED_VERSION),
     (''xml-not-well-formed'', XMPP_SE_XML_NOT_WELL_FORMED)]"

fun error_children :: "xmpp_stanza list \<Rightarrow> xmpp_stream_error_t \<Rightarrow> xmpp_stream_error_t option" where
  "error_children [] err = Some err"
| "error_children (child # next) err = do {
     ns \<leftarrow> xmpp_stanza_get_ns child;
     if ns = Some XMPP_NS_STREAMS_IETF then do {
       name \<leftarrow> xmpp_stanza_get_name child;
       if name = ''text'' then do { text \<leftarrow> xmpp_stanza_get_text child; error_children next (err\<lparr>xse_text := text\<rparr>) }
       else (case map_of stream_error_types name of
          Some type \<Rightarrow> error_children next (err\<lparr>xse_type := type\<rparr>)
        | None \<Rightarrow> error_children next err) }
     else error_children next err }"

text \<open>The loop asks for the sibling of its first child even when there is no child.\<close>

definition handle_error :: "xmpp_stanza \<Rightarrow> xmpp_conn \<Rightarrow> (bool \<times> xmpp_conn) option" where
  "handle_error stanza conn = do {
     let children = xmpp_stanza_get_children stanza;
     err \<leftarrow> (if children = [] then None
             else error_children children \<lparr>xse_type = XMPP_SE_UNDEFINED_CONDITION, xse_text = None, xse_stanza = stanza\<rparr>);
     Some (True, conn\<lparr>cx_stream_error := Some err\<rparr>) }"

section \<open>Choosing a mechanism\<close>

definition make_starttls :: "xmpp_stanza option" where
  "make_starttls = set_attr (stanza_named ''starttls'') ''xmlns'' (Some XMPP_NS_TLS)"

definition make_sasl_auth :: "string \<Rightarrow> xmpp_stanza option" where
  "make_sasl_auth mechanism = do {
     auth \<leftarrow> set_attr (stanza_named ''auth'') ''xmlns'' (Some XMPP_NS_SASL);
     set_attr auth ''mechanism'' (Some mechanism) }"

definition get_authid :: "xmpp_conn \<Rightarrow> cptr" where
  "get_authid conn = (if cx_type conn = XMPP_CLIENT then (case cx_jid conn of None \<Rightarrow> None | Some jid \<Rightarrow> xmpp_jid_node jid) else None)"

text \<open>A tag with a text inside, and a tag around stanzas.\<close>

definition tag_text :: "string \<Rightarrow> cptr \<Rightarrow> xmpp_stanza option" where
  "tag_text name txt = do { t \<leftarrow> stanza_txt txt; Some (xmpp_stanza_add_child (stanza_named name) t) }"

definition iq_set :: "string \<Rightarrow> xmpp_stanza \<Rightarrow> xmpp_stanza option" where
  "iq_set i child = do {
     iq \<leftarrow> set_attr (stanza_named ''iq'') ''type'' (Some ''set'');
     iq \<leftarrow> set_attr iq ''id'' (Some i);
     Some (xmpp_stanza_add_child iq child) }"

definition make_legacy :: "string \<Rightarrow> cptr \<Rightarrow> string \<Rightarrow> xmpp_stanza option" where
  "make_legacy jid pass resource = do {
     username \<leftarrow> tag_text ''username'' (xmpp_jid_node jid);
     password \<leftarrow> tag_text ''password'' pass;
     res \<leftarrow> tag_text ''resource'' (Some resource);
     query \<leftarrow> set_attr (stanza_named ''query'') ''xmlns'' (Some XMPP_NS_AUTH);
     iq_set ''_xmpp_auth1'' (fold (\<lambda>c s. xmpp_stanza_add_child s c) [username, password, res] query) }"

text \<open>
  The part of \<open>_auth\<close> after the test for TLS. In the legacy branch a JID without a resource ends the login, after a password
  that is NULL would have been copied.
\<close>

definition auth_sasl :: "xmpp_conn \<Rightarrow> xmpp_conn option" where
  "auth_sasl conn = do {
     jid \<leftarrow> cx_jid conn;
     let anonjid = (xmpp_jid_node jid = None);
     if anonjid \<and> cx_sasl_support conn AND SASL_MASK_ANONYMOUS \<noteq> 0 then do {
       auth \<leftarrow> make_sasl_auth ''ANONYMOUS'';
       let conn = conn_handler_add Handle_sasl_result (Some XMPP_NS_SASL) None None (Some ''ANONYMOUS'') conn;
       conn \<leftarrow> strophe_send auth conn;
       Some (conn\<lparr>cx_sasl_support := cx_sasl_support conn AND NOT SASL_MASK_ANONYMOUS\<rparr>) }
     else if anonjid then strophe_disconnect conn
     else if cx_sasl_support conn AND SASL_MASK_DIGESTMD5 \<noteq> 0 then do {
       auth \<leftarrow> make_sasl_auth ''DIGEST-MD5'';
       let conn = conn_handler_add Handle_digestmd5_challenge (Some XMPP_NS_SASL) None None None conn;
       conn \<leftarrow> strophe_send auth conn;
       Some (conn\<lparr>cx_sasl_support := cx_sasl_support conn AND NOT SASL_MASK_DIGESTMD5\<rparr>) }
     else if cx_sasl_support conn AND SASL_MASK_PLAIN \<noteq> 0 then do {
       auth \<leftarrow> make_sasl_auth ''PLAIN'';
       (case get_authid conn of
          None \<Rightarrow> disconnect_mem_error conn
        | Some authid \<Rightarrow> do {
            pass \<leftarrow> cx_pass conn;
            str \<leftarrow> sasl_plain authid pass;
            authdata \<leftarrow> stanza_txt (Some str);
            let conn = conn_handler_add Handle_sasl_result (Some XMPP_NS_SASL) None None (Some ''PLAIN'') conn;
            conn \<leftarrow> strophe_send (xmpp_stanza_add_child auth authdata) conn;
            Some (conn\<lparr>cx_sasl_support := cx_sasl_support conn AND NOT SASL_MASK_PLAIN\<rparr>) }) }
     else if cx_type conn = XMPP_CLIENT then do {
       pass \<leftarrow> cx_pass conn;
       (case xmpp_jid_resource jid of
          None \<Rightarrow> strophe_disconnect conn
        | Some resource \<Rightarrow> do {
            iq \<leftarrow> make_legacy jid (Some pass) resource;
            let conn = conn_handler_add_id Handle_legacy ''_xmpp_auth1'' None conn;
            let conn = conn_handler_add_timed Handle_missing_legacy LEGACY_TIMEOUT None conn;
            strophe_send iq conn }) }
     else Some conn }"

text \<open>When no TLS object can be made the function calls itself, with the flag cleared.\<close>

definition auth :: "tls_env \<Rightarrow> xmpp_conn \<Rightarrow> xmpp_conn option" where
  "auth env conn = do {
     jid \<leftarrow> cx_jid conn;
     if cx_tls_support conn then
       if \<not> te_new env then auth_sasl (conn\<lparr>cx_tls_support := False\<rparr>)
       else do {
         starttls \<leftarrow> make_starttls;
         let conn = conn_handler_add Handle_proceedtls_default (Some XMPP_NS_TLS) None None None conn;
         conn \<leftarrow> strophe_send starttls conn;
         Some (conn\<lparr>cx_tls_support := False\<rparr>) }
     else auth_sasl conn }"

section \<open>Features\<close>

definition handle_missing_features :: "tls_env \<Rightarrow> xmpp_conn \<Rightarrow> (bool \<times> xmpp_conn) option" where
  "handle_missing_features env conn = do { conn \<leftarrow> auth env conn; Some (False, conn) }"

definition c_tolower :: "char \<Rightarrow> char" where
  "c_tolower c = (let n = of_char c :: nat in if 65 \<le> n \<and> n \<le> 90 then char_of (n + 32) else c)"

definition c_strcaseeq :: "string \<Rightarrow> string \<Rightarrow> bool" where
  "c_strcaseeq s t = (map c_tolower s = map c_tolower t)"

fun features_mechanisms :: "xmpp_stanza list \<Rightarrow> 32 word \<Rightarrow> (32 word) option" where
  "features_mechanisms [] sasl = Some sasl"
| "features_mechanisms (mech # next) sasl = do {
     name \<leftarrow> xmpp_stanza_get_name mech;
     if name = ''mechanism'' then do {
       text \<leftarrow> xmpp_stanza_get_text mech;
       text \<leftarrow> text;
       features_mechanisms next
         (if c_strcaseeq text ''PLAIN'' then sasl OR SASL_MASK_PLAIN
          else if c_strcaseeq text ''DIGEST-MD5'' then sasl OR SASL_MASK_DIGESTMD5
          else if c_strcaseeq text ''ANONYMOUS'' then sasl OR SASL_MASK_ANONYMOUS else sasl) }
     else features_mechanisms next sasl }"

text \<open>\<open>child && (strcmp(xmpp_stanza_get_ns(child), ns) == 0)\<close>\<close>

definition child_has_ns :: "xmpp_stanza option \<Rightarrow> string \<Rightarrow> bool option" where
  "child_has_ns child ns = (case child of None \<Rightarrow> Some False | Some c \<Rightarrow> do { n \<leftarrow> xmpp_stanza_get_ns c; c_streq n (Some ns) })"

definition handle_features :: "tls_env \<Rightarrow> xmpp_stanza \<Rightarrow> xmpp_conn \<Rightarrow> (bool \<times> xmpp_conn) option" where
  "handle_features env stanza conn = do {
     let conn = conn_timed_delete Handle_missing_features conn;
     conn \<leftarrow> (if cx_secured conn then Some conn
       else if \<not> cx_tls_disabled conn then do {
         child \<leftarrow> xmpp_stanza_get_child_by_name stanza ''starttls'';
         b \<leftarrow> child_has_ns child XMPP_NS_TLS;
         Some (if b then conn\<lparr>cx_tls_support := True\<rparr> else conn) }
       else Some (conn\<lparr>cx_tls_support := False\<rparr>));
     child \<leftarrow> xmpp_stanza_get_child_by_name stanza ''mechanisms'';
     b \<leftarrow> child_has_ns child XMPP_NS_SASL;
     conn \<leftarrow> (case child of
        Some c \<Rightarrow> if b then do { sasl \<leftarrow> features_mechanisms (xmpp_stanza_get_children c) (cx_sasl_support conn);
                              Some (conn\<lparr>cx_sasl_support := sasl\<rparr>) } else Some conn
      | None \<Rightarrow> Some conn);
     conn \<leftarrow> auth env conn;
     Some (False, conn) }"

section \<open>TLS and SASL\<close>

definition handle_proceedtls_default :: "tls_env \<Rightarrow> xmpp_stanza \<Rightarrow> xmpp_conn \<Rightarrow> (bool \<times> xmpp_conn) option" where
  "handle_proceedtls_default env stanza conn = do {
     name \<leftarrow> xmpp_stanza_get_name stanza;
     if name = ''proceed'' then
       if \<not> te_new env then None
       else if \<not> te_start env then do {
         conn \<leftarrow> strophe_disconnect (conn\<lparr>cx_tls := False, cx_tls_failed := True\<rparr>);
         Some (False, conn) }
       else do {
         conn \<leftarrow> conn_open_stream (conn_prepare_reset Auth_handle_open (conn\<lparr>cx_tls := True, cx_secured := True\<rparr>));
         Some (False, conn) }
     else Some (False, conn) }"

definition handle_sasl_result :: "tls_env \<Rightarrow> xmpp_stanza \<Rightarrow> xmpp_conn \<Rightarrow> (bool \<times> xmpp_conn) option" where
  "handle_sasl_result env stanza conn = do {
     name \<leftarrow> xmpp_stanza_get_name stanza;
     conn \<leftarrow> (if name = ''failure'' then auth env conn
       else if name = ''success'' then conn_open_stream (conn_prepare_reset Handle_open_sasl conn)
       else strophe_disconnect conn);
     Some (False, conn) }"

definition handle_digestmd5_challenge :: "tls_env \<Rightarrow> xmpp_stanza \<Rightarrow> xmpp_conn \<Rightarrow> (bool \<times> xmpp_conn) option" where
  "handle_digestmd5_challenge env stanza conn = do {
     name \<leftarrow> xmpp_stanza_get_name stanza;
     if name = ''challenge'' then do {
       text \<leftarrow> xmpp_stanza_get_text stanza;
       text \<leftarrow> text;
       jid \<leftarrow> cx_jid conn;
       pass \<leftarrow> cx_pass conn;
       response \<leftarrow> sasl_digest_md5 text jid pass;
       (case response of
          None \<Rightarrow> do { conn \<leftarrow> disconnect_mem_error conn; Some (False, conn) }
        | Some response \<Rightarrow> do {
            auth \<leftarrow> set_attr (stanza_named ''response'') ''xmlns'' (Some XMPP_NS_SASL);
            authdata \<leftarrow> stanza_txt (Some response);
            let conn = conn_handler_add Handle_digestmd5_rspauth (Some XMPP_NS_SASL) None None None conn;
            conn \<leftarrow> strophe_send (xmpp_stanza_add_child auth authdata) conn;
            Some (False, conn) }) }
     else handle_sasl_result env stanza conn }"

definition handle_digestmd5_rspauth :: "tls_env \<Rightarrow> xmpp_stanza \<Rightarrow> xmpp_conn \<Rightarrow> (bool \<times> xmpp_conn) option" where
  "handle_digestmd5_rspauth env stanza conn = do {
     name \<leftarrow> xmpp_stanza_get_name stanza;
     if name = ''challenge'' then do {
       auth \<leftarrow> set_attr (stanza_named ''response'') ''xmlns'' (Some XMPP_NS_SASL);
       conn \<leftarrow> strophe_send auth conn;
       Some (True, conn) }
     else handle_sasl_result env stanza conn }"

section \<open>Opening a stream\<close>

definition auth_handle_open :: "xmpp_conn \<Rightarrow> xmpp_conn" where
  "auth_handle_open conn =
     (let conn = conn\<lparr>cx_timed_handlers := handler_reset_timed (\<lambda>_. cx_now conn) 0 False (cx_timed_handlers conn)\<rparr>;
          conn = conn_handler_add Handle_error None (Some ''stream:error'') None None conn;
          conn = conn_handler_add Handle_features None (Some ''stream:features'') None None conn
      in conn_handler_add_timed Handle_missing_features FEATURES_TIMEOUT None conn)"

definition handle_open_sasl :: "xmpp_conn \<Rightarrow> xmpp_conn" where
  "handle_open_sasl conn =
     conn_handler_add_timed Handle_missing_features_sasl FEATURES_TIMEOUT None
       (conn_handler_add Handle_features_sasl None (Some ''stream:features'') None None conn)"

definition open_handler :: "xmpp_conn \<Rightarrow> xmpp_conn" where
  "open_handler conn = (case cx_open_handler conn of Auth_handle_open \<Rightarrow> auth_handle_open conn | Handle_open_sasl \<Rightarrow> handle_open_sasl conn)"

section \<open>Binding and sessions\<close>

definition make_bind :: "xmpp_stanza \<Rightarrow> cptr \<Rightarrow> xmpp_stanza option" where
  "make_bind bnd resource = do {
     bnd \<leftarrow> xmpp_stanza_copy bnd;
     bnd \<leftarrow> (case resource of
        Some r \<Rightarrow> if length r = 0 then Some bnd
                  else do { res \<leftarrow> tag_text ''resource'' (Some r); Some (xmpp_stanza_add_child bnd res) }
      | None \<Rightarrow> Some bnd);
     iq_set ''_xmpp_bind1'' bnd }"

definition handle_features_sasl :: "xmpp_stanza \<Rightarrow> xmpp_conn \<Rightarrow> (bool \<times> xmpp_conn) option" where
  "handle_features_sasl stanza conn = do {
     let conn = conn_timed_delete Handle_missing_features_sasl conn;
     bnd \<leftarrow> xmpp_stanza_get_child_by_name stanza ''bind'';
     b \<leftarrow> child_has_ns bnd XMPP_NS_BIND;
     let conn = (if b then conn\<lparr>cx_bind_required := True\<rparr> else conn);
     session \<leftarrow> xmpp_stanza_get_child_by_name stanza ''session'';
     s \<leftarrow> child_has_ns session XMPP_NS_SESSION;
     let conn = (if s then conn\<lparr>cx_session_required := True\<rparr> else conn);
     conn \<leftarrow> (if cx_bind_required conn then do {
         let conn = conn_handler_add_id Handle_bind ''_xmpp_bind1'' None conn;
         let conn = conn_handler_add_timed Handle_missing_bind BIND_TIMEOUT None conn;
         bnd \<leftarrow> bnd;
         jid \<leftarrow> cx_jid conn;
         iq \<leftarrow> make_bind bnd (xmpp_jid_resource jid);
         strophe_send iq conn }
       else strophe_disconnect conn);
     Some (False, conn) }"

definition make_session :: "xmpp_stanza option" where
  "make_session = do {
     session \<leftarrow> set_attr (stanza_named ''session'') ''xmlns'' (Some XMPP_NS_SESSION);
     iq_set ''_xmpp_session1'' session }"

text \<open>The login is done: the application's connection handler is called.\<close>

definition conn_authenticated :: "xmpp_conn \<Rightarrow> xmpp_conn" where
  "conn_authenticated conn = conn\<lparr>cx_authenticated := True, cx_events := cx_events conn @ [(XMPP_CONN_CONNECT, 0)]\<rparr>"

definition bound_jid :: "xmpp_stanza \<Rightarrow> xmpp_conn \<Rightarrow> xmpp_conn option" where
  "bound_jid stanza conn = do {
     binding \<leftarrow> xmpp_stanza_get_child_by_name stanza ''bind'';
     (case binding of None \<Rightarrow> Some conn
      | Some binding \<Rightarrow> do {
          jid \<leftarrow> xmpp_stanza_get_child_by_name binding ''jid'';
          (case jid of None \<Rightarrow> Some conn
           | Some j \<Rightarrow> do { text \<leftarrow> xmpp_stanza_get_text j; Some (conn\<lparr>cx_bound_jid := text\<rparr>) }) }) }"

definition handle_bind :: "xmpp_stanza \<Rightarrow> xmpp_conn \<Rightarrow> (bool \<times> xmpp_conn) option" where
  "handle_bind stanza conn = do {
     let conn = conn_timed_delete Handle_missing_bind conn;
     type \<leftarrow> xmpp_stanza_get_type stanza;
     conn \<leftarrow> (if type = Some ''error'' then strophe_disconnect conn
       else if type = Some ''result'' then do {
         conn \<leftarrow> bound_jid stanza conn;
         if cx_session_required conn then do {
           let conn = conn_handler_add_id Handle_session ''_xmpp_session1'' None conn;
           let conn = conn_handler_add_timed Handle_missing_session SESSION_TIMEOUT None conn;
           iq \<leftarrow> make_session;
           strophe_send iq conn }
         else Some (conn_authenticated conn) }
       else strophe_disconnect conn);
     Some (False, conn) }"

definition handle_session :: "xmpp_stanza \<Rightarrow> xmpp_conn \<Rightarrow> (bool \<times> xmpp_conn) option" where
  "handle_session stanza conn = do {
     let conn = conn_timed_delete Handle_missing_session conn;
     type \<leftarrow> xmpp_stanza_get_type stanza;
     conn \<leftarrow> (if type = Some ''error'' then strophe_disconnect conn
       else if type = Some ''result'' then Some (conn_authenticated conn)
       else strophe_disconnect conn);
     Some (False, conn) }"

definition handle_legacy :: "xmpp_stanza \<Rightarrow> xmpp_conn \<Rightarrow> (bool \<times> xmpp_conn) option" where
  "handle_legacy stanza conn = do {
     let conn = conn_timed_delete Handle_missing_legacy conn;
     type \<leftarrow> xmpp_stanza_get_type stanza;
     conn \<leftarrow> (if type = None then strophe_disconnect conn
       else do {
         name \<leftarrow> xmpp_stanza_get_name stanza;
         if name \<noteq> ''iq'' then strophe_disconnect conn
         else if type = Some ''error'' then strophe_disconnect conn
         else if type = Some ''result'' then Some (conn_authenticated conn)
         else strophe_disconnect conn });
     Some (False, conn) }"

text \<open>\<open>_handle_missing_features_sasl\<close>, \<open>_handle_missing_bind\<close>, \<open>_handle_missing_session\<close> and \<open>_handle_missing_legacy\<close> have one body.\<close>

definition handle_missing :: "xmpp_conn \<Rightarrow> (bool \<times> xmpp_conn) option" where
  "handle_missing conn = do { conn \<leftarrow> strophe_disconnect conn; Some (False, conn) }"

section \<open>Calling a handler\<close>

text \<open>Calling a handler of one kind as one of the other kind is undefined.\<close>

fun stanza_call :: "tls_env \<Rightarrow> strophe_fn \<Rightarrow> xmpp_stanza \<Rightarrow> xmpp_conn \<Rightarrow> (bool \<times> xmpp_conn) option" where
  "stanza_call env Handle_error stanza conn = handle_error stanza conn"
| "stanza_call env Handle_features stanza conn = handle_features env stanza conn"
| "stanza_call env Handle_proceedtls_default stanza conn = handle_proceedtls_default env stanza conn"
| "stanza_call env Handle_sasl_result stanza conn = handle_sasl_result env stanza conn"
| "stanza_call env Handle_digestmd5_challenge stanza conn = handle_digestmd5_challenge env stanza conn"
| "stanza_call env Handle_digestmd5_rspauth stanza conn = handle_digestmd5_rspauth env stanza conn"
| "stanza_call env Handle_features_sasl stanza conn = handle_features_sasl stanza conn"
| "stanza_call env Handle_bind stanza conn = handle_bind stanza conn"
| "stanza_call env Handle_session stanza conn = handle_session stanza conn"
| "stanza_call env Handle_legacy stanza conn = handle_legacy stanza conn"
| "stanza_call env _ stanza conn = None"

fun timed_call :: "tls_env \<Rightarrow> strophe_fn \<Rightarrow> xmpp_conn \<Rightarrow> (bool \<times> xmpp_conn) option" where
  "timed_call env Handle_missing_features conn = handle_missing_features env conn"
| "timed_call env Handle_missing_features_sasl conn = handle_missing conn"
| "timed_call env Handle_missing_bind conn = handle_missing conn"
| "timed_call env Handle_missing_session conn = handle_missing conn"
| "timed_call env Handle_missing_legacy conn = handle_missing conn"
| "timed_call env Disconnect_cleanup conn = Some (disconnect_cleanup conn)"
| "timed_call env _ conn = None"

end
