(* ===== verification/Strophe_Stream.thy ===== *)
theory Strophe_Stream
  imports Strophe_Auth Mio_Parser
begin

text \<open>
  The stream of a connection: how stanzas and time-outs reach the handlers of the login (\<^verbatim>\<open>src/libs/c/libstrophe/src/handler.c\<close>),
  the parser that cuts the stream into stanzas (\<^verbatim>\<open>parser_expat.c\<close>), its callbacks (\<^verbatim>\<open>conn.c\<close>), and one turn of the event
  loop for one connection (\<^verbatim>\<open>event.c\<close>). What expat, the socket and the clock do in a turn is its input \<open>io\<close>.

  The handlers of the login add handlers while one is called. What is added goes to the end of a list, disabled, and is skipped until
  the next stanza; so a delivery walks the list as it was at its start. Handlers are removed by their function, which is in
  a list at most once. The handlers of the application are called only after the login and are not part of the lists here.
\<close>

section \<open>Delivery\<close>

text \<open>No handler of an identifier adds one to the chain that is walked.\<close>

fun fire_chain :: "tls_env \<Rightarrow> string \<Rightarrow> xmpp_stanza \<Rightarrow> strophe_item list \<Rightarrow> xmpp_conn \<Rightarrow> xmpp_conn option" where
  "fire_chain env i stanza [] conn = Some conn"
| "fire_chain env i stanza (item # next) conn =
     (if hl_user_handler item \<and> \<not> cx_authenticated conn then fire_chain env i stanza next conn
      else do {
        (keep, conn) \<leftarrow> stanza_call env (hl_handler item) stanza conn;
        fire_chain env i stanza next (if keep then conn
          else conn\<lparr>cx_id_handlers := xmpp_id_handler_delete (cx_id_handlers conn) (hl_handler item) i\<rparr>) })"

fun fire_handlers :: "tls_env \<Rightarrow> xmpp_stanza \<Rightarrow> strophe_item list \<Rightarrow> xmpp_conn \<Rightarrow> xmpp_conn option" where
  "fire_handlers env stanza [] conn = Some conn"
| "fire_handlers env stanza (item # next) conn =
     (if hl_user_handler item \<and> \<not> cx_authenticated conn then fire_handlers env stanza next conn
      else do {
        m \<leftarrow> handler_matches item stanza;
        if m then do {
          (keep, conn) \<leftarrow> stanza_call env (hl_handler item) stanza conn;
          fire_handlers env stanza next (if keep then conn
            else conn\<lparr>cx_handlers := xmpp_handler_delete (cx_handlers conn) (hl_handler item)\<rparr>) }
        else fire_handlers env stanza next conn })"

definition conn_fire_stanza :: "tls_env \<Rightarrow> xmpp_stanza \<Rightarrow> xmpp_conn \<Rightarrow> xmpp_conn option" where
  "conn_fire_stanza env stanza conn = do {
     i \<leftarrow> xmpp_stanza_get_id stanza;
     conn \<leftarrow> (case i of None \<Rightarrow> Some conn | Some i \<Rightarrow> fire_chain env i stanza (cx_id_handlers conn i) conn);
     let conn = conn\<lparr>cx_handlers := handlers_enable (cx_handlers conn)\<rparr>;
     fire_handlers env stanza (cx_handlers conn) conn }"

text \<open>The time to the next time-out, which the loop uses to wait no longer, is left out.\<close>

fun fire_timed :: "tls_env \<Rightarrow> strophe_item list \<Rightarrow> xmpp_conn \<Rightarrow> xmpp_conn option" where
  "fire_timed env [] conn = Some conn"
| "fire_timed env (item # next) conn =
     (if hl_user_handler item \<and> \<not> cx_authenticated conn then fire_timed env next conn
      else if cx_now conn - hl_last_stamp item \<ge> hl_period item then do {
        let conn = conn\<lparr>cx_timed_handlers := map (\<lambda>x. if hl_handler x = hl_handler item then x\<lparr>hl_last_stamp := cx_now conn\<rparr> else x)
          (cx_timed_handlers conn)\<rparr>;
        (keep, conn) \<leftarrow> timed_call env (hl_handler item) conn;
        fire_timed env next (if keep then conn else conn_timed_delete (hl_handler item) conn) }
      else fire_timed env next conn)"

definition conn_fire_timed :: "tls_env \<Rightarrow> xmpp_conn \<Rightarrow> xmpp_conn option" where
  "conn_fire_timed env conn =
     (if cx_state conn \<noteq> XMPP_STATE_CONNECTED then Some conn
      else let conn = conn\<lparr>cx_timed_handlers := handlers_enable (cx_timed_handlers conn)\<rparr>
           in fire_timed env (cx_timed_handlers conn) conn)"

section \<open>The callbacks of the parser\<close>

text \<open>
  \<open>_log_open_tag\<close> prints the attributes into a buffer of 4096 bytes; \<open>snprintf\<close> returns the length the text would need, which
  moves the position past the end of the buffer. A later write then goes to memory behind it.
\<close>

fun log_open_tag :: "nat \<Rightarrow> (string \<times> string) list \<Rightarrow> unit option" where
  "log_open_tag pos [] = (if pos > 4096 then None else Some ())"
| "log_open_tag pos ((k, v) # attrs) =
     (if pos > 4096 then None else log_open_tag (pos + length ('' '' @ k @ [CHR ''='', CHR 0x27] @ v @ [CHR 0x27])) attrs)"

definition get_stream_attribute :: "(string \<times> string) list \<Rightarrow> string \<Rightarrow> cptr" where
  "get_stream_attribute attrs name = map_of attrs name"

definition handle_stream_start :: "string \<Rightarrow> (string \<times> string) list \<Rightarrow> xmpp_conn \<Rightarrow> xmpp_conn option" where
  "handle_stream_start name attrs conn =
     (if name \<noteq> ''stream:stream'' then Some (open_handler (conn_disconnect conn))
      else do {
        _ \<leftarrow> log_open_tag (length ''<stream:stream'') attrs;
        freed \<leftarrow> (case cx_stream_id conn of Null \<Rightarrow> Some Null | Owned _ \<Rightarrow> Some Dangling | Dangling \<Rightarrow> None);
        let conn = conn\<lparr>cx_stream_id := (case get_stream_attribute attrs ''id'' of Some i \<Rightarrow> Owned i | None \<Rightarrow> freed)\<rparr>;
        let conn = (if cx_stream_id conn = Null then conn_disconnect conn else conn);
        Some (open_handler conn) })"

definition handle_stream_end :: "xmpp_conn \<Rightarrow> xmpp_conn" where
  "handle_stream_end conn = conn_disconnect_clean conn"

definition handle_stream_stanza :: "tls_env \<Rightarrow> xmpp_stanza \<Rightarrow> xmpp_conn \<Rightarrow> xmpp_conn option" where
  "handle_stream_stanza env stanza conn = conn_fire_stanza env stanza conn"

section \<open>The parser\<close>

fun parser_set_attributes :: "xmpp_stanza \<Rightarrow> (string \<times> string) list \<Rightarrow> xmpp_stanza option" where
  "parser_set_attributes s [] = Some s"
| "parser_set_attributes s ((k, v) # attrs) = do { s \<leftarrow> set_attr s k (Some v); parser_set_attributes s attrs }"

definition parser_start_element :: "string \<Rightarrow> (string \<times> string) list \<Rightarrow> xmpp_conn \<Rightarrow> xmpp_conn option" where
  "parser_start_element name attrs conn = do {
     let p = cx_parser conn;
     conn \<leftarrow> (if pa_depth p = 0 then handle_stream_start name attrs conn
       else if pa_stanza p = [] \<and> pa_depth p \<noteq> 1 then Some conn
       else do {
         child \<leftarrow> parser_set_attributes (stanza_named name) attrs;
         Some (conn\<lparr>cx_parser := p\<lparr>pa_stanza := child # pa_stanza p\<rparr>\<rparr>) });
     Some (conn\<lparr>cx_parser := (cx_parser conn)\<lparr>pa_depth := pa_depth p + 1\<rparr>\<rparr>) }"

definition parser_end_element :: "tls_env \<Rightarrow> xmpp_conn \<Rightarrow> xmpp_conn option" where
  "parser_end_element env conn =
     (let p = (cx_parser conn)\<lparr>pa_depth := pa_depth (cx_parser conn) - 1\<rparr>; conn = conn\<lparr>cx_parser := p\<rparr> in
      if pa_depth p = 0 then Some (handle_stream_end conn)
      else case pa_stanza p of
        [] \<Rightarrow> None
      | [s] \<Rightarrow> do { conn \<leftarrow> handle_stream_stanza env s conn; Some (conn\<lparr>cx_parser := (cx_parser conn)\<lparr>pa_stanza := []\<rparr>\<rparr>) }
      | s # parent # rest \<Rightarrow> Some (conn\<lparr>cx_parser := p\<lparr>pa_stanza := xmpp_stanza_add_child parent s # rest\<rparr>\<rparr>))"

definition parser_characters :: "string \<Rightarrow> xmpp_conn \<Rightarrow> xmpp_conn option" where
  "parser_characters s conn =
     (let p = cx_parser conn in
      if pa_depth p < 2 then Some conn
      else do {
        (r, st) \<leftarrow> xmpp_stanza_set_text_with_size xmpp_stanza_new s (length s);
        (case pa_stanza p of
           [] \<Rightarrow> None
         | cur # rest \<Rightarrow> Some (conn\<lparr>cx_parser := p\<lparr>pa_stanza := xmpp_stanza_add_child cur st # rest\<rparr>\<rparr>)) })"

fun parser_event :: "tls_env \<Rightarrow> xml_event \<Rightarrow> xmpp_conn \<Rightarrow> xmpp_conn option" where
  "parser_event env (StartElement name attrs) conn = parser_start_element name attrs conn"
| "parser_event env (EndElement name) conn = parser_end_element env conn"
| "parser_event env (CharData s) conn = parser_characters s conn"

fun parser_feed :: "tls_env \<Rightarrow> xml_event list \<Rightarrow> xmpp_conn \<Rightarrow> xmpp_conn option" where
  "parser_feed env [] conn = Some conn"
| "parser_feed env (e # es) conn = do { conn \<leftarrow> parser_event env e conn; parser_feed env es conn }"

section \<open>The event loop\<close>

text \<open>
  One connection of a context. The status that ends the loop is part of \<open>Mio_Connect\<close>; the time that \<open>select\<close> may wait is left out.
\<close>

definition ETIMEDOUT :: int where "ETIMEDOUT = 110"
definition ECONNRESET :: int where "ECONNRESET = 104"

text \<open>
  A read gives a chunk, of which expat reports the events and whether it is well-formed, or fails with an error that TLS may
  call recoverable.
\<close>

datatype read_result = R_feed "xml_event list" bool | R_fail bool int

record io =
  io_writes :: "write_result list"
  io_now :: "64 word"            \<comment> \<open>the time of the first round of time-outs\<close>
  io_ready :: bool               \<comment> \<open>\<open>select\<close> reports the socket\<close>
  io_connect_error :: bool
  io_read :: read_result
  io_later :: "64 word"          \<comment> \<open>the time of the last round of time-outs\<close>

definition conn_read :: "tls_env \<Rightarrow> read_result \<Rightarrow> xmpp_conn \<Rightarrow> xmpp_conn option" where
  "conn_read env r conn =
     (case r of
        R_feed events ok \<Rightarrow> do { conn \<leftarrow> parser_feed env events conn; Some (if ok then conn else conn_disconnect conn) }
      | R_fail recoverable e \<Rightarrow> Some (
          if cx_tls conn then if recoverable then conn else conn_disconnect (conn\<lparr>cx_error := e\<rparr>)
          else conn_disconnect (conn\<lparr>cx_error := ECONNRESET\<rparr>)))"

definition xmpp_run_once :: "tls_env \<Rightarrow> io \<Rightarrow> xmpp_conn \<Rightarrow> xmpp_conn option" where
  "xmpp_run_once env io conn = do {
     let conn = conn_write (io_writes io) conn;
     let conn = (if cx_reset_parser conn then conn_parser_reset conn else conn);
     conn \<leftarrow> conn_fire_timed env (conn\<lparr>cx_now := io_now io\<rparr>);
     let conn = (if cx_state conn = XMPP_STATE_CONNECTING \<and> \<not> cx_now conn - cx_timeout_stamp conn \<le> cx_connect_timeout conn
       then conn_disconnect (conn\<lparr>cx_error := ETIMEDOUT\<rparr>) else conn);
     if \<not> io_ready io then Some conn
     else do {
       conn \<leftarrow> (case cx_state conn of
          XMPP_STATE_CONNECTING \<Rightarrow>
            if io_connect_error io then Some (conn_disconnect conn)
            else conn_open_stream (conn\<lparr>cx_state := XMPP_STATE_CONNECTED\<rparr>)
        | XMPP_STATE_CONNECTED \<Rightarrow> conn_read env (io_read io) conn
        | XMPP_STATE_DISCONNECTED \<Rightarrow> Some conn);
       conn_fire_timed env (conn\<lparr>cx_now := io_later io\<rparr>) } }"

fun xmpp_run_turns :: "tls_env \<Rightarrow> io list \<Rightarrow> xmpp_conn \<Rightarrow> xmpp_conn option" where
  "xmpp_run_turns env [] conn = Some conn"
| "xmpp_run_turns env (io # ios) conn = do { conn \<leftarrow> xmpp_run_once env io conn; xmpp_run_turns env ios conn }"

end
