(* ===== verification/Strophe_Login.thy ===== *)
theory Strophe_Login
  imports Strophe_Stream "HOL-Library.Sublist"
begin

text \<open>
  What a login of libstrophe can come to. A run (\<open>login_run\<close>) is any sequence of the things that happen to a connection:
  events of the parser, time-outs, writes, lost connections; the turns of the event loop are runs. For each handler of the login
  there is a lemma that bounds what it queues and registers (\<open>login_effect\<close>); from these an invariant of all runs follows.

  Shown: a connection counts as authenticated only after the server has granted the login.
\<close>

section \<open>What is queued\<close>

definition queued :: "string list \<Rightarrow> xmpp_conn \<Rightarrow> xmpp_conn" where
  "queued ts conn = (if cx_state conn = XMPP_STATE_CONNECTED
     then conn\<lparr>cx_send_queue := cx_send_queue conn @ map (\<lambda>t. \<lparr>sq_data = t, sq_written = 0\<rparr>) ts,
       cx_send_queue_len := cx_send_queue_len conn + int (length ts)\<rparr> else conn)"

lemma queued_simps [simp]:
  "cx_type (queued ts conn) = cx_type conn" "cx_state (queued ts conn) = cx_state conn" "cx_error (queued ts conn) = cx_error conn"
  "cx_stream_error (queued ts conn) = cx_stream_error conn" "cx_tls (queued ts conn) = cx_tls conn"
  "cx_tls_support (queued ts conn) = cx_tls_support conn" "cx_tls_disabled (queued ts conn) = cx_tls_disabled conn"
  "cx_sasl_support (queued ts conn) = cx_sasl_support conn" "cx_secured (queued ts conn) = cx_secured conn"
  "cx_bind_required (queued ts conn) = cx_bind_required conn" "cx_session_required (queued ts conn) = cx_session_required conn"
  "cx_domain (queued ts conn) = cx_domain conn" "cx_lang (queued ts conn) = cx_lang conn" "cx_jid (queued ts conn) = cx_jid conn" "cx_pass (queued ts conn) = cx_pass conn"
  "cx_bound_jid (queued ts conn) = cx_bound_jid conn" "cx_stream_id (queued ts conn) = cx_stream_id conn"
  "cx_reset_parser (queued ts conn) = cx_reset_parser conn" "cx_parser (queued ts conn) = cx_parser conn"
  "cx_open_handler (queued ts conn) = cx_open_handler conn" "cx_authenticated (queued ts conn) = cx_authenticated conn"
  "cx_timed_handlers (queued ts conn) = cx_timed_handlers conn" "cx_id_handlers (queued ts conn) = cx_id_handlers conn"
  "cx_handlers (queued ts conn) = cx_handlers conn" "cx_now (queued ts conn) = cx_now conn"
  "cx_events (queued ts conn) = cx_events conn" "cx_wire (queued ts conn) = cx_wire conn"
  by (simp_all add: queued_def)

lemma queued_Nil [simp]: "queued [] conn = conn"
  by (simp add: queued_def)

lemma strophe_send_raw_queued: "strophe_send_raw t (length t) conn = Some (queued [t] conn)"
  by (simp add: strophe_send_raw_def queued_def)

lemma strophe_send_raw_string_queued [simp]: "strophe_send_raw_string t conn = Some (queued [t] conn)"
  using strophe_send_raw_queued [of t conn] by (simp add: strophe_send_raw_string_def Let_def)

definition text_of :: "xmpp_stanza \<Rightarrow> string list" where
  "text_of s = (case stanza_text s of None \<Rightarrow> [] | Some t \<Rightarrow> [t])"

lemma strophe_send_queued [simp]: "strophe_send s conn = Some (queued (text_of s) conn)"
  by (auto simp: strophe_send_def xmpp_stanza_to_text_eq text_of_def strophe_send_raw_queued queued_def split: option.split)

definition stream_header :: "xmpp_conn \<Rightarrow> string \<Rightarrow> string" where
  "stream_header conn domain = (let q = [CHR 0x22] in ''<?xml version='' @ q @ ''1.0'' @ q @ ''?><stream:stream to='' @ q @ domain @ q @ '' xml:lang='' @ q @ cx_lang conn @ q @
       '' version='' @ q @ ''1.0'' @ q @ '' xmlns='' @ q @ (if cx_type conn = XMPP_CLIENT then XMPP_NS_CLIENT else XMPP_NS_COMPONENT) @ q @
       '' xmlns:stream='' @ q @ XMPP_NS_STREAMS @ q @ ''>'')"

lemma conn_open_stream_queued: "conn_open_stream conn = map_option (\<lambda>d. queued [stream_header conn d] conn) (cx_domain conn)"
  by (cases "cx_domain conn") (simp_all add: conn_open_stream_def stream_header_def Let_def)

lemma strophe_disconnect_queued: "strophe_disconnect conn = Some (if cx_state conn = XMPP_STATE_DISCONNECTED then conn
     else conn_handler_add_timed Disconnect_cleanup DISCONNECT_TIMEOUT None (queued [''</stream:stream>''] conn))"
  by (cases "cx_state conn") (auto simp: strophe_disconnect_def)

section \<open>Functions in a list\<close>

definition fns :: "strophe_item list \<Rightarrow> strophe_fn set" where
  "fns items = hl_handler ` set items"

lemma fns_simps [simp]:
  "fns [] = {}" "fns (item # items) = insert (hl_handler item) (fns items)" "fns (handlers_enable items) = fns items"
  "fns (handler_add items h ns name type u user) = insert h (fns items)"
  "fns (timed_handler_add items h period u user now) = insert h (fns items)"
  by (auto simp: fns_def handler_add_def timed_handler_add_def handler_registered_iff handlist_item_def handlers_enable_def image_image)

definition only_at :: "string \<Rightarrow> strophe_fn \<Rightarrow> string \<Rightarrow> strophe_fn set" where
  "only_at i h j = (if j = i then {h} else {})"

lemma fns_id_add [simp]: "fns (id_handler_add ids h i u user j) = fns (ids j) \<union> only_at i h j"
  by (auto simp: fns_def only_at_def id_handler_add_def handler_registered_iff handlist_item_def)

lemma fns_unlink: "fns (handler_unlink h items) \<subseteq> fns items"
  by (induction items rule: handler_unlink.induct) auto

lemma fns_unlink_distinct: "handlers_distinct items \<Longrightarrow> fns (handler_unlink h items) = fns items - {h}"
  by (auto simp: handler_unlink_distinct fns_def)

lemma fns_timed_delete: "fns (xmpp_timed_handler_delete items h) \<subseteq> fns items"
  using fns_unlink by (simp add: xmpp_timed_handler_delete_def)

lemma fns_reset_timed [simp]: "fns (handler_reset_timed clock k user items) = fns items"
  by (induction items arbitrary: k) auto

section \<open>What the handlers do to the connection\<close>

lemmas handler_defs = conn_handler_add_def conn_handler_add_id_def conn_handler_add_timed_def conn_timed_delete_def conn_prepare_reset_def
  disconnect_mem_error_def strophe_disconnect_queued conn_open_stream_queued

text \<open>A connection after a step of the login that queues texts and registers handlers.\<close>

definition login_update :: "strophe_item list \<Rightarrow> (strophe_fn, cptr) id_handlers \<Rightarrow> strophe_item list \<Rightarrow> string list \<Rightarrow> xmpp_conn \<Rightarrow> xmpp_conn" where
  "login_update hs ids timed ts conn = queued ts (conn\<lparr>cx_handlers := hs, cx_id_handlers := ids, cx_timed_handlers := timed\<rparr>)"

lemma login_update_same: "queued ts conn = login_update (cx_handlers conn) (cx_id_handlers conn) (cx_timed_handlers conn) ts conn"
  by (simp add: login_update_def)

lemma disconnect_update: "\<exists>tm ts. strophe_disconnect conn = Some (login_update (cx_handlers conn) (cx_id_handlers conn) tm ts conn)"
proof (cases "cx_state conn = XMPP_STATE_DISCONNECTED")
  case True
  then show ?thesis by (intro exI [of _ "cx_timed_handlers conn"] exI [of _ "[]"]) (simp add: strophe_disconnect_queued login_update_def)
next
  case False
  then show ?thesis
    by (intro exI [of _ "timed_handler_add (cx_timed_handlers conn) Disconnect_cleanup DISCONNECT_TIMEOUT None False (cx_now conn)"] exI [of _ "[''</stream:stream>'']"])
      (auto simp: strophe_disconnect_queued login_update_def conn_handler_add_timed_def queued_def)
qed

lemma auth_sasl_cases [consumes 1, case_names same sasl legacy]:
  assumes "auth_sasl conn = Some conn'"
  obtains ts tm where "conn' = login_update (cx_handlers conn) (cx_id_handlers conn) tm ts conn"
  | h u ts w where "h \<in> {Handle_sasl_result, Handle_digestmd5_challenge}"
      "conn' = (login_update (handler_add (cx_handlers conn) h (Some XMPP_NS_SASL) None None u False) (cx_id_handlers conn) (cx_timed_handlers conn) ts conn)\<lparr>cx_sasl_support := w\<rparr>"
  | ts tm where "conn' = login_update (cx_handlers conn) (id_handler_add (cx_id_handlers conn) Handle_legacy ''_xmpp_auth1'' None False) tm ts conn"
proof -
  from assms obtain jid where j: "cx_jid conn = Some jid" by (auto simp: auth_sasl_def split: Option.bind_splits)
  let ?an = "xmpp_jid_node jid = None" and ?m = "\<lambda>m. cx_sasl_support conn AND m \<noteq> 0"
    and ?add = "\<lambda>h u. handler_add (cx_handlers conn) h (Some XMPP_NS_SASL) None None u False"
  note defs = auth_sasl_def j conn_handler_add_def conn_handler_add_id_def conn_handler_add_timed_def disconnect_mem_error_def
  consider "?an" "?m SASL_MASK_ANONYMOUS" | "?an" "\<not> ?m SASL_MASK_ANONYMOUS" | "\<not> ?an" "?m SASL_MASK_DIGESTMD5"
    | "\<not> ?an" "\<not> ?m SASL_MASK_DIGESTMD5" "?m SASL_MASK_PLAIN" "get_authid conn = None"
    | "\<not> ?an" "\<not> ?m SASL_MASK_DIGESTMD5" "?m SASL_MASK_PLAIN" "get_authid conn \<noteq> None"
    | "\<not> ?an" "\<not> ?m SASL_MASK_DIGESTMD5" "\<not> ?m SASL_MASK_PLAIN" by blast
  then show thesis
  proof cases
    case 1
    then have "\<exists>ts. conn' = (login_update (?add Handle_sasl_result (Some ''ANONYMOUS'')) (cx_id_handlers conn) (cx_timed_handlers conn) ts conn)
        \<lparr>cx_sasl_support := cx_sasl_support conn AND NOT SASL_MASK_ANONYMOUS\<rparr>"
      using assms by (auto simp: defs login_update_def split: Option.bind_splits)
    then show thesis using that(2) [of Handle_sasl_result] by blast
  next
    case 2
    then show thesis using assms disconnect_update [of conn] that(1) by (auto simp: defs)
  next
    case 3
    then have "\<exists>ts. conn' = (login_update (?add Handle_digestmd5_challenge None) (cx_id_handlers conn) (cx_timed_handlers conn) ts conn)
        \<lparr>cx_sasl_support := cx_sasl_support conn AND NOT SASL_MASK_DIGESTMD5\<rparr>"
      using assms by (auto simp: defs login_update_def split: Option.bind_splits)
    then show thesis using that(2) [of Handle_digestmd5_challenge] by blast
  next
    case 4
    then show thesis using assms disconnect_update [of conn] that(1) by (auto simp: defs split: Option.bind_splits)
  next
    case 5
    then have "\<exists>ts. conn' = (login_update (?add Handle_sasl_result (Some ''PLAIN'')) (cx_id_handlers conn) (cx_timed_handlers conn) ts conn)
        \<lparr>cx_sasl_support := cx_sasl_support conn AND NOT SASL_MASK_PLAIN\<rparr>"
      using assms by (auto simp: defs login_update_def split: Option.bind_splits)
    then show thesis using that(2) [of Handle_sasl_result] by blast
  next
    case 6
    show thesis
    proof (cases "cx_type conn = XMPP_CLIENT \<and> xmpp_jid_resource jid \<noteq> None")
      case True
      with 6 have "\<exists>ts. conn' = login_update (cx_handlers conn) (id_handler_add (cx_id_handlers conn) Handle_legacy ''_xmpp_auth1'' None False)
          (timed_handler_add (cx_timed_handlers conn) Handle_missing_legacy LEGACY_TIMEOUT None False (cx_now conn)) ts conn"
        using assms by (auto simp: defs login_update_def split: Option.bind_splits)
      then show thesis using that(3) by blast
    next
      case False
      with 6 assms disconnect_update [of conn] that(1) login_update_same [of "[]" conn] show thesis by (auto simp: defs split: Option.bind_splits if_splits)
    qed
  qed
qed

section \<open>Effects\<close>

text \<open>
  What the handlers leave alone, and the functions they may add: \<open>H\<close> to the handlers of stanzas, \<open>L\<close> to those of identifiers.
\<close>

definition login_effect :: "strophe_fn set \<Rightarrow> (string \<Rightarrow> strophe_fn set) \<Rightarrow> xmpp_conn \<Rightarrow> xmpp_conn \<Rightarrow> bool" where
  "login_effect H L conn conn' \<longleftrightarrow>
     cx_wire conn' = cx_wire conn \<and> cx_state conn' = cx_state conn \<and> cx_parser conn' = cx_parser conn \<and>
     cx_secured conn' = cx_secured conn \<and> cx_tls conn' = cx_tls conn \<and> cx_open_handler conn' = cx_open_handler conn \<and>
     cx_reset_parser conn' = cx_reset_parser conn \<and> cx_authenticated conn' = cx_authenticated conn \<and>
     (cx_tls_support conn' \<longrightarrow> cx_tls_support conn) \<and>
     (handlers_distinct (cx_handlers conn) \<longrightarrow> handlers_distinct (cx_handlers conn')) \<and>
     fns (cx_handlers conn') \<subseteq> fns (cx_handlers conn) \<union> H \<and>
     (\<forall>i. fns (cx_id_handlers conn' i) \<subseteq> fns (cx_id_handlers conn i) \<union> L i)"

lemma login_effect_trans:
  "login_effect H L a b \<Longrightarrow> login_effect H' L' b c \<Longrightarrow> login_effect (H \<union> H') (\<lambda>i. L i \<union> L' i) a c"
proof -
  assume a: "login_effect H L a b" and b: "login_effect H' L' b c"
  have "fns (cx_handlers c) \<subseteq> fns (cx_handlers a) \<union> (H \<union> H')" using a b unfolding login_effect_def by blast
  moreover have "fns (cx_id_handlers c i) \<subseteq> fns (cx_id_handlers a i) \<union> (L i \<union> L' i)" for i
  proof -
    have "fns (cx_id_handlers b i) \<subseteq> fns (cx_id_handlers a i) \<union> L i" "fns (cx_id_handlers c i) \<subseteq> fns (cx_id_handlers b i) \<union> L' i"
      using a b by (simp_all add: login_effect_def)
    then show ?thesis by blast
  qed
  ultimately show ?thesis using a b by (simp add: login_effect_def)
qed

lemma login_effect_mono: "login_effect H L a b \<Longrightarrow> H \<subseteq> H' \<Longrightarrow> (\<And>i. L i \<subseteq> L' i) \<Longrightarrow> login_effect H' L' a b"
  unfolding login_effect_def by blast

lemma login_effect_update: "login_effect {} (\<lambda>_. {}) conn (login_update (cx_handlers conn) (cx_id_handlers conn) tm ts conn)"
  "login_effect {h} (\<lambda>_. {}) conn (login_update (handler_add (cx_handlers conn) h ns name type u False) (cx_id_handlers conn) tm ts conn)"
  "login_effect {} (only_at i h) conn (login_update (cx_handlers conn) (id_handler_add (cx_id_handlers conn) h i u False) tm ts conn)"
  by (auto simp: login_effect_def login_update_def handler_add_distinct)

text \<open>Changes of other fields.\<close>

definition same_control :: "xmpp_conn \<Rightarrow> xmpp_conn \<Rightarrow> bool" where
  "same_control a b \<longleftrightarrow> cx_wire b = cx_wire a \<and> cx_state b = cx_state a \<and> cx_parser b = cx_parser a \<and> cx_secured b = cx_secured a \<and>
     cx_tls b = cx_tls a \<and> cx_open_handler b = cx_open_handler a \<and> cx_reset_parser b = cx_reset_parser a \<and> cx_authenticated b = cx_authenticated a \<and>
     cx_tls_support b = cx_tls_support a \<and> cx_handlers b = cx_handlers a \<and> cx_id_handlers b = cx_id_handlers a"

lemma login_effect_same: "same_control a b \<Longrightarrow> login_effect {} (\<lambda>_. {}) a b"
  by (auto simp: same_control_def login_effect_def)

lemma login_effect_cong: "same_control a a' \<Longrightarrow> same_control b' b \<Longrightarrow> login_effect H L a' b' \<Longrightarrow> login_effect H L a b"
  by (auto simp: same_control_def login_effect_def)

definition sasl_fns :: "strophe_fn set" where
  "sasl_fns = {Handle_sasl_result, Handle_digestmd5_challenge, Handle_digestmd5_rspauth}"

lemma auth_sasl_effect:
  assumes "auth_sasl conn = Some conn'"
  shows "login_effect sasl_fns (only_at ''_xmpp_auth1'' Handle_legacy) conn conn'"
  using assms
proof (cases rule: auth_sasl_cases)
  case (same ts tm)
  then show ?thesis using login_effect_update(1) by (auto intro: login_effect_mono)
next
  case (sasl h u ts w)
  have "login_effect {h} (\<lambda>_. {}) conn conn'"
    unfolding sasl(2) by (rule login_effect_cong [OF _ _ login_effect_update(2)]) (simp_all add: same_control_def)
  then show ?thesis using sasl(1) by (auto intro: login_effect_mono simp: sasl_fns_def)
next
  case (legacy ts tm)
  show ?thesis unfolding legacy by (rule login_effect_mono [OF login_effect_update(3)]) auto
qed

definition auth_fns :: "bool \<Rightarrow> strophe_fn set" where
  "auth_fns b = sasl_fns \<union> (if b then {Handle_proceedtls_default} else {})"

lemma auth_effect:
  assumes "auth env conn = Some conn'"
  shows "login_effect (auth_fns (cx_tls_support conn)) (only_at ''_xmpp_auth1'' Handle_legacy) conn conn' \<and> \<not> cx_tls_support conn'"
proof -
  from assms obtain jid where j: "cx_jid conn = Some jid" by (auto simp: auth_def split: Option.bind_splits)
  consider "cx_tls_support conn" "te_new env" | "cx_tls_support conn" "\<not> te_new env" | "\<not> cx_tls_support conn" by blast
  then show ?thesis
  proof cases
    case 1
    then have "\<exists>ts. conn' = (login_update (handler_add (cx_handlers conn) Handle_proceedtls_default (Some XMPP_NS_TLS) None None None False)
        (cx_id_handlers conn) (cx_timed_handlers conn) ts conn)\<lparr>cx_tls_support := False\<rparr>"
      using assms j by (auto simp: auth_def conn_handler_add_def login_update_def split: Option.bind_splits)
    then obtain ts where c: "conn' = (login_update (handler_add (cx_handlers conn) Handle_proceedtls_default (Some XMPP_NS_TLS) None None None False)
        (cx_id_handlers conn) (cx_timed_handlers conn) ts conn)\<lparr>cx_tls_support := False\<rparr>" by blast
    show ?thesis unfolding c using 1 by (auto simp: login_effect_def login_update_def auth_fns_def handler_add_distinct)
  next
    case 2
    then have "auth_sasl (conn\<lparr>cx_tls_support := False\<rparr>) = Some conn'" using assms j by (simp add: auth_def)
    from auth_sasl_effect [OF this] show ?thesis by (auto simp: login_effect_def auth_fns_def)
  next
    case 3
    then have "auth_sasl conn = Some conn'" using assms j by (simp add: auth_def)
    from auth_sasl_effect [OF this] 3 show ?thesis by (auto simp: login_effect_def auth_fns_def)
  qed
qed

lemma login_effect_via: "same_control a a' \<Longrightarrow> login_effect H L a' b \<Longrightarrow> login_effect H L a b"
  by (simp add: same_control_def login_effect_def)

lemma handle_features_effect:
  assumes "handle_features env stanza conn = Some (keep, conn')"
  shows "login_effect (auth_fns (cx_tls_support conn \<or> \<not> cx_secured conn)) (only_at ''_xmpp_auth1'' Handle_legacy) conn conn'"
proof -
  have "\<exists>conn1. auth env conn1 = Some conn' \<and> same_control (conn\<lparr>cx_tls_support := cx_tls_support conn1\<rparr>) conn1 \<and>
      (cx_tls_support conn1 \<longrightarrow> cx_tls_support conn \<or> \<not> cx_secured conn)"
    using assms unfolding handle_features_def conn_timed_delete_def Let_def
    by (auto simp: same_control_def split: if_splits Option.bind_splits option.splits)
  then obtain conn1 where c: "auth env conn1 = Some conn'" "same_control (conn\<lparr>cx_tls_support := cx_tls_support conn1\<rparr>) conn1"
      "cx_tls_support conn1 \<longrightarrow> cx_tls_support conn \<or> \<not> cx_secured conn" by blast
  have e: "login_effect (auth_fns (cx_tls_support conn1)) (only_at ''_xmpp_auth1'' Handle_legacy) conn1 conn'" "\<not> cx_tls_support conn'"
    using auth_effect [OF c(1)] by simp_all
  have "login_effect (auth_fns (cx_tls_support conn1)) (only_at ''_xmpp_auth1'' Handle_legacy) conn conn'"
    using e c(2) unfolding login_effect_def same_control_def by simp
  then show ?thesis by (rule login_effect_mono) (use c(3) in \<open>auto simp: auth_fns_def\<close>)
qed

lemma strophe_disconnect_effect: "strophe_disconnect conn = Some conn' \<Longrightarrow> login_effect {} (\<lambda>_. {}) conn conn'"
  using disconnect_update [of conn] login_effect_update(1) by auto

lemma conn_open_stream_effect: "conn_open_stream conn = Some conn' \<Longrightarrow> login_effect {} (\<lambda>_. {}) conn conn'"
  by (auto simp: conn_open_stream_queued login_effect_def)

lemma handle_sasl_result_effect:
  assumes "handle_sasl_result env stanza conn = Some (keep, conn')"
  shows "login_effect (auth_fns (cx_tls_support conn)) (only_at ''_xmpp_auth1'' Handle_legacy) conn conn' \<or>
    xmpp_stanza_get_name stanza = Some ''success'' \<and> login_effect {} (\<lambda>_. {}) (conn_prepare_reset Handle_open_sasl conn) conn'"
proof -
  obtain name where n: "xmpp_stanza_get_name stanza = Some name" using assms by (auto simp: handle_sasl_result_def split: Option.bind_splits)
  consider "name = ''failure''" | "name = ''success''" | "name \<noteq> ''failure''" "name \<noteq> ''success''" by blast
  then show ?thesis
  proof cases
    case 1
    then have "auth env conn = Some conn'" using assms n by (auto simp: handle_sasl_result_def split: Option.bind_splits)
    from auth_effect [OF this] show ?thesis by simp
  next
    case 2
    then have "conn_open_stream (conn_prepare_reset Handle_open_sasl conn) = Some conn'"
      using assms n by (auto simp: handle_sasl_result_def split: Option.bind_splits)
    with 2 n show ?thesis using conn_open_stream_effect by blast
  next
    case 3
    then have "strophe_disconnect conn = Some conn'" using assms n by (auto simp: handle_sasl_result_def split: Option.bind_splits)
    from strophe_disconnect_effect [OF this] show ?thesis by (auto intro: login_effect_mono)
  qed
qed

lemma handle_digestmd5_challenge_effect:
  assumes "handle_digestmd5_challenge env stanza conn = Some (keep, conn')"
  shows "login_effect (auth_fns (cx_tls_support conn)) (only_at ''_xmpp_auth1'' Handle_legacy) conn conn' \<or>
    xmpp_stanza_get_name stanza = Some ''success'' \<and> login_effect {} (\<lambda>_. {}) (conn_prepare_reset Handle_open_sasl conn) conn'"
proof (cases "xmpp_stanza_get_name stanza = Some ''challenge''")
  case False
  then have "handle_sasl_result env stanza conn = Some (keep, conn')"
    using assms by (auto simp: handle_digestmd5_challenge_def split: Option.bind_splits if_splits)
  then show ?thesis by (rule handle_sasl_result_effect)
next
  case True
  with assms have "strophe_disconnect conn = Some conn' \<or> (\<exists>ts. conn' = login_update (handler_add (cx_handlers conn) Handle_digestmd5_rspauth
      (Some XMPP_NS_SASL) None None None False) (cx_id_handlers conn) (cx_timed_handlers conn) ts conn)"
    by (auto simp: handle_digestmd5_challenge_def disconnect_mem_error_def conn_handler_add_def login_update_def split: Option.bind_splits option.splits)
  then show ?thesis
  proof
    assume "strophe_disconnect conn = Some conn'"
    from strophe_disconnect_effect [OF this] show ?thesis by (auto intro: login_effect_mono)
  next
    assume "\<exists>ts. conn' = login_update (handler_add (cx_handlers conn) Handle_digestmd5_rspauth (Some XMPP_NS_SASL) None None None False)
      (cx_id_handlers conn) (cx_timed_handlers conn) ts conn"
    then have "login_effect {Handle_digestmd5_rspauth} (\<lambda>_. {}) conn conn'" using login_effect_update(2) by blast
    then have "login_effect (auth_fns (cx_tls_support conn)) (only_at ''_xmpp_auth1'' Handle_legacy) conn conn'"
      by (rule login_effect_mono) (auto simp: auth_fns_def sasl_fns_def)
    then show ?thesis ..
  qed
qed

lemma queued_effect: "login_effect {} (\<lambda>_. {}) conn (queued ts conn)"
  by (simp add: login_effect_def)

lemma handle_digestmd5_rspauth_effect:
  assumes "handle_digestmd5_rspauth env stanza conn = Some (keep, conn')"
  shows "login_effect (auth_fns (cx_tls_support conn)) (only_at ''_xmpp_auth1'' Handle_legacy) conn conn' \<or>
    xmpp_stanza_get_name stanza = Some ''success'' \<and> login_effect {} (\<lambda>_. {}) (conn_prepare_reset Handle_open_sasl conn) conn'"
proof (cases "xmpp_stanza_get_name stanza = Some ''challenge''")
  case False
  then have "handle_sasl_result env stanza conn = Some (keep, conn')"
    using assms by (auto simp: handle_digestmd5_rspauth_def split: Option.bind_splits if_splits)
  then show ?thesis by (rule handle_sasl_result_effect)
next
  case True
  with assms have "\<exists>ts. conn' = queued ts conn" by (auto simp: handle_digestmd5_rspauth_def split: Option.bind_splits)
  then have "login_effect {} (\<lambda>_. {}) conn conn'" using queued_effect by blast
  then have "login_effect (auth_fns (cx_tls_support conn)) (only_at ''_xmpp_auth1'' Handle_legacy) conn conn'" by (rule login_effect_mono) auto
  then show ?thesis ..
qed

lemma timed_delete_control: "same_control conn (conn_timed_delete h conn)"
  by (simp add: same_control_def conn_timed_delete_def)

lemma handle_features_sasl_effect:
  assumes "handle_features_sasl stanza conn = Some (keep, conn')"
  shows "login_effect {} (only_at ''_xmpp_bind1'' Handle_bind) conn conn'"
  using assms unfolding handle_features_sasl_def handler_defs Let_def
  by (auto simp: login_effect_def split: if_splits Option.bind_splits)

definition is_result :: "xmpp_stanza \<Rightarrow> bool" where
  "is_result stanza = (xmpp_stanza_get_type stanza = Some (Some ''result''))"

lemma bound_jid_control: "bound_jid stanza conn = Some conn' \<Longrightarrow> same_control conn conn'"
  by (auto simp: bound_jid_def same_control_def split: Option.bind_splits option.splits)

lemma handle_bind_effect:
  assumes "handle_bind stanza conn = Some (keep, conn')"
  shows "login_effect {} (\<lambda>_. {}) conn conn' \<or>
    is_result stanza \<and> (login_effect {} (only_at ''_xmpp_session1'' Handle_session) conn conn' \<or> login_effect {} (\<lambda>_. {}) (conn\<lparr>cx_authenticated := True\<rparr>) conn')"
proof -
  obtain type where t: "xmpp_stanza_get_type stanza = Some type" using assms by (auto simp: handle_bind_def Let_def split: Option.bind_splits)
  let ?conn = "conn_timed_delete Handle_missing_bind conn"
  note defs = handle_bind_def Let_def t
  show ?thesis
  proof (cases "type = Some ''result''")
    case False
    then have "strophe_disconnect ?conn = Some conn'" using assms by (auto simp: defs split: Option.bind_splits if_splits)
    from strophe_disconnect_effect [OF this] show ?thesis by (auto simp: login_effect_def conn_timed_delete_def)
  next
    case True
    then obtain conn1 where c: "bound_jid stanza ?conn = Some conn1" using assms by (auto simp: defs split: Option.bind_splits)
    have s: "same_control conn conn1" using bound_jid_control [OF c] by (simp add: same_control_def conn_timed_delete_def)
    show ?thesis
    proof (cases "cx_session_required conn1")
      case True
      then have "login_effect {} (only_at ''_xmpp_session1'' Handle_session) conn1 conn'"
        using assms c \<open>type = _\<close> unfolding defs handler_defs by (auto simp: login_effect_def split: Option.bind_splits)
      then show ?thesis using s \<open>type = _\<close> t by (auto simp: is_result_def same_control_def login_effect_def)
    next
      case False
      then have "conn' = conn_authenticated conn1" using assms c \<open>type = _\<close> by (auto simp: defs)
      then show ?thesis using s \<open>type = _\<close> t by (auto simp: is_result_def same_control_def login_effect_def conn_authenticated_def)
    qed
  qed
qed

lemma finish_effect:
  assumes "conn_timed_delete h conn = conn1" "strophe_disconnect conn1 = Some conn' \<or> is_result stanza \<and> conn' = conn_authenticated conn1"
  shows "login_effect {} (\<lambda>_. {}) conn conn' \<or> is_result stanza \<and> login_effect {} (\<lambda>_. {}) (conn\<lparr>cx_authenticated := True\<rparr>) conn'"
proof -
  have s: "same_control conn conn1" using assms(1) timed_delete_control by blast
  from assms(2) show ?thesis
  proof
    assume "strophe_disconnect conn1 = Some conn'"
    from login_effect_via [OF s strophe_disconnect_effect [OF this]] show ?thesis ..
  next
    assume "is_result stanza \<and> conn' = conn_authenticated conn1"
    with s show ?thesis by (intro disjI2) (simp add: login_effect_def conn_authenticated_def same_control_def)
  qed
qed

lemma handle_session_effect:
  assumes "handle_session stanza conn = Some (keep, conn')"
  shows "login_effect {} (\<lambda>_. {}) conn conn' \<or> is_result stanza \<and> login_effect {} (\<lambda>_. {}) (conn\<lparr>cx_authenticated := True\<rparr>) conn'"
  using assms by (intro finish_effect [OF refl])
    (auto simp: handle_session_def Let_def is_result_def split: Option.bind_splits if_splits)

lemma handle_legacy_effect:
  assumes "handle_legacy stanza conn = Some (keep, conn')"
  shows "login_effect {} (\<lambda>_. {}) conn conn' \<or> is_result stanza \<and> login_effect {} (\<lambda>_. {}) (conn\<lparr>cx_authenticated := True\<rparr>) conn'"
  using assms by (intro finish_effect [OF refl])
    (auto simp: handle_legacy_def Let_def is_result_def split: Option.bind_splits if_splits)

lemma handle_error_effect: "handle_error stanza conn = Some (keep, conn') \<Longrightarrow> login_effect {} (\<lambda>_. {}) conn conn' \<and> keep"
  by (auto simp: handle_error_def login_effect_def Let_def split: Option.bind_splits if_splits)

text \<open>TLS starts, fails, or nothing happens.\<close>

lemma handle_proceedtls_effect:
  assumes "handle_proceedtls_default env stanza conn = Some (keep, conn')"
  shows "login_effect {} (\<lambda>_. {}) conn conn' \<or> login_effect {} (\<lambda>_. {}) (conn\<lparr>cx_tls := False\<rparr>) conn' \<or>
    login_effect {} (\<lambda>_. {}) (conn_prepare_reset Auth_handle_open (conn\<lparr>cx_tls := True, cx_secured := True\<rparr>)) conn'"
proof -
  have "conn' = conn \<or> strophe_disconnect (conn\<lparr>cx_tls := False, cx_tls_failed := True\<rparr>) = Some conn' \<or>
      conn_open_stream (conn_prepare_reset Auth_handle_open (conn\<lparr>cx_tls := True, cx_secured := True\<rparr>)) = Some conn'"
    using assms by (auto simp: handle_proceedtls_default_def split: Option.bind_splits if_splits)
  then consider "conn' = conn" | "strophe_disconnect (conn\<lparr>cx_tls := False, cx_tls_failed := True\<rparr>) = Some conn'"
    | "conn_open_stream (conn_prepare_reset Auth_handle_open (conn\<lparr>cx_tls := True, cx_secured := True\<rparr>)) = Some conn'" by blast
  then show ?thesis
  proof cases
    case 1
    then show ?thesis by (simp add: login_effect_def)
  next
    case 2
    have "same_control (conn\<lparr>cx_tls := False\<rparr>) (conn\<lparr>cx_tls := False, cx_tls_failed := True\<rparr>)" by (simp add: same_control_def)
    from login_effect_via [OF this strophe_disconnect_effect [OF 2]] show ?thesis by simp
  next
    case 3
    from conn_open_stream_effect [OF this] show ?thesis by simp
  qed
qed

section \<open>Calls\<close>

text \<open>The few fields a handler may set before it queues and registers.\<close>

definition login_base :: "strophe_fn \<Rightarrow> xmpp_stanza \<Rightarrow> xmpp_conn \<Rightarrow> xmpp_conn \<Rightarrow> bool" where
  "login_base h stanza conn base \<longleftrightarrow> base = conn \<or>
     h \<in> sasl_fns \<and> xmpp_stanza_get_name stanza = Some ''success'' \<and> base = conn_prepare_reset Handle_open_sasl conn \<or>
     h \<in> {Handle_bind, Handle_session, Handle_legacy} \<and> is_result stanza \<and> base = conn\<lparr>cx_authenticated := True\<rparr> \<or>
     h = Handle_proceedtls_default \<and>
       (base = conn\<lparr>cx_tls := False\<rparr> \<or> base = conn_prepare_reset Auth_handle_open (conn\<lparr>cx_tls := True, cx_secured := True\<rparr>))"

definition stanza_adds :: "strophe_fn \<Rightarrow> xmpp_conn \<Rightarrow> strophe_fn set" where
  "stanza_adds h conn = (if h \<in> sasl_fns then auth_fns (cx_tls_support conn)
     else if h = Handle_features then auth_fns (cx_tls_support conn \<or> \<not> cx_secured conn) else {})"

definition stanza_ids :: "strophe_fn \<Rightarrow> xmpp_stanza \<Rightarrow> string \<Rightarrow> strophe_fn set" where
  "stanza_ids h stanza = (if h \<in> sasl_fns \<or> h = Handle_features then only_at ''_xmpp_auth1'' Handle_legacy
     else if h = Handle_features_sasl then only_at ''_xmpp_bind1'' Handle_bind
     else if h = Handle_bind \<and> is_result stanza then only_at ''_xmpp_session1'' Handle_session else (\<lambda>_. {}))"

lemma base_weak: "login_effect {} (\<lambda>_. {}) b c \<Longrightarrow> login_effect (stanza_adds h conn) (stanza_ids h stanza) b c"
  by (rule login_effect_mono) auto

lemma base_sasl:
  assumes "h \<in> sasl_fns" and "login_effect (auth_fns (cx_tls_support conn)) (only_at ''_xmpp_auth1'' Handle_legacy) conn conn' \<or>
      xmpp_stanza_get_name stanza = Some ''success'' \<and> login_effect {} (\<lambda>_. {}) (conn_prepare_reset Handle_open_sasl conn) conn'"
  shows "\<exists>base. login_base h stanza conn base \<and> login_effect (stanza_adds h conn) (stanza_ids h stanza) base conn'"
  using assms(2)
proof
  assume "login_effect (auth_fns (cx_tls_support conn)) (only_at ''_xmpp_auth1'' Handle_legacy) conn conn'"
  with assms(1) show ?thesis by (intro exI [of _ conn]) (simp add: login_base_def stanza_adds_def stanza_ids_def)
next
  assume "xmpp_stanza_get_name stanza = Some ''success'' \<and> login_effect {} (\<lambda>_. {}) (conn_prepare_reset Handle_open_sasl conn) conn'"
  with assms(1) show ?thesis by (intro exI [of _ "conn_prepare_reset Handle_open_sasl conn"] conjI base_weak) (simp_all add: login_base_def)
qed

lemma base_finish:
  assumes "h \<in> {Handle_bind, Handle_session, Handle_legacy}" and
    "login_effect {} (\<lambda>_. {}) conn conn' \<or> is_result stanza \<and> login_effect {} (\<lambda>_. {}) (conn\<lparr>cx_authenticated := True\<rparr>) conn'"
  shows "\<exists>base. login_base h stanza conn base \<and> login_effect (stanza_adds h conn) (stanza_ids h stanza) base conn'"
  using assms(2)
proof
  assume "login_effect {} (\<lambda>_. {}) conn conn'"
  then show ?thesis by (intro exI [of _ conn] conjI base_weak) (simp_all add: login_base_def)
next
  assume "is_result stanza \<and> login_effect {} (\<lambda>_. {}) (conn\<lparr>cx_authenticated := True\<rparr>) conn'"
  with assms(1) show ?thesis by (intro exI [of _ "conn\<lparr>cx_authenticated := True\<rparr>"] conjI base_weak) (simp_all add: login_base_def)
qed

lemma stanza_call_effect:
  assumes "stanza_call env h stanza conn = Some (keep, conn')"
  shows "\<exists>base. login_base h stanza conn base \<and> login_effect (stanza_adds h conn) (stanza_ids h stanza) base conn'"
proof -
  have base: "login_base h stanza conn conn" by (simp add: login_base_def)
  note weak = base_weak and sasl = base_sasl and fin = base_finish
  show ?thesis
  proof (cases h)
    case Handle_error
    with assms base weak show ?thesis using handle_error_effect by fastforce
  next
    case Handle_features
    then have "login_effect (stanza_adds h conn) (stanza_ids h stanza) conn conn'"
      using assms handle_features_effect [of env stanza conn keep conn'] by (simp add: stanza_adds_def stanza_ids_def sasl_fns_def)
    with base show ?thesis by blast
  next
    case Handle_proceedtls_default
    then have c: "handle_proceedtls_default env stanza conn = Some (keep, conn')" using assms by simp
    from handle_proceedtls_effect [OF c] show ?thesis
    proof (elim disjE)
      assume "login_effect {} (\<lambda>_. {}) conn conn'"
      with base weak show ?thesis by blast
    next
      assume "login_effect {} (\<lambda>_. {}) (conn\<lparr>cx_tls := False\<rparr>) conn'"
      then show ?thesis by (intro exI [of _ "conn\<lparr>cx_tls := False\<rparr>"] conjI weak) (simp_all add: login_base_def Handle_proceedtls_default)
    next
      assume "login_effect {} (\<lambda>_. {}) (conn_prepare_reset Auth_handle_open (conn\<lparr>cx_tls := True, cx_secured := True\<rparr>)) conn'"
      then show ?thesis by (intro exI [of _ "conn_prepare_reset Auth_handle_open (conn\<lparr>cx_tls := True, cx_secured := True\<rparr>)"] conjI weak)
        (simp_all add: login_base_def Handle_proceedtls_default)
    qed
  next
    case Handle_sasl_result
    then show ?thesis using assms by (intro sasl handle_sasl_result_effect [of env stanza conn keep]) (simp_all add: sasl_fns_def)
  next
    case Handle_digestmd5_challenge
    then show ?thesis using assms by (intro sasl handle_digestmd5_challenge_effect [of env stanza conn keep]) (simp_all add: sasl_fns_def)
  next
    case Handle_digestmd5_rspauth
    then show ?thesis using assms by (intro sasl handle_digestmd5_rspauth_effect [of env stanza conn keep]) (simp_all add: sasl_fns_def)
  next
    case Handle_features_sasl
    then have "login_effect (stanza_adds h conn) (stanza_ids h stanza) conn conn'"
      using assms handle_features_sasl_effect [of stanza conn keep conn'] by (simp add: stanza_adds_def stanza_ids_def sasl_fns_def)
    with base show ?thesis by blast
  next
    case Handle_bind
    then have c: "handle_bind stanza conn = Some (keep, conn')" using assms by simp
    have "login_effect {} (only_at ''_xmpp_session1'' Handle_session) conn conn' \<Longrightarrow> is_result stanza \<Longrightarrow> ?thesis"
      using base Handle_bind by (intro exI [of _ conn]) (simp add: stanza_adds_def stanza_ids_def sasl_fns_def)
    then show ?thesis using fin handle_bind_effect [OF c] Handle_bind by blast
  next
    case Handle_session
    then show ?thesis using assms fin handle_session_effect by fastforce
  next
    case Handle_legacy
    then show ?thesis using assms fin handle_legacy_effect by fastforce
  qed (use assms in simp_all)
qed

lemma timed_call_effect:
  assumes "timed_call env h conn = Some (keep, conn')"
  shows "\<not> keep \<and> (h = Disconnect_cleanup \<and> conn' = conn_disconnect conn \<or>
    login_effect (auth_fns (cx_tls_support conn)) (only_at ''_xmpp_auth1'' Handle_legacy) conn conn')"
proof -
  have m: ?thesis if "handle_missing conn = Some (keep, conn')"
  proof -
    have "strophe_disconnect conn = Some conn'" "\<not> keep" using that by (auto simp: handle_missing_def split: Option.bind_splits)
    from strophe_disconnect_effect [OF this(1)] this(2) show ?thesis by (auto intro: login_effect_mono)
  qed
  have f: ?thesis if "handle_missing_features env conn = Some (keep, conn')"
  proof -
    have "auth env conn = Some conn'" "\<not> keep" using that by (auto simp: handle_missing_features_def split: Option.bind_splits)
    then show ?thesis using auth_effect [of env conn conn'] by simp
  qed
  show ?thesis using assms m f by (cases h) (auto simp: disconnect_cleanup_def)
qed

section \<open>Runs\<close>

text \<open>The stanza an event of the parser delivers.\<close>

definition stanza_delivered :: "xml_event \<Rightarrow> xmpp_conn \<Rightarrow> xmpp_stanza list" where
  "stanza_delivered e conn = (case e of EndElement _ \<Rightarrow>
       if pa_depth (cx_parser conn) \<noteq> 1 \<and> length (pa_stanza (cx_parser conn)) = 1 then pa_stanza (cx_parser conn) else []
     | _ \<Rightarrow> [])"

text \<open>What can happen to a connection, in any order, with the stanzas delivered on the way.\<close>

inductive login_run :: "tls_env \<Rightarrow> xmpp_conn \<Rightarrow> xmpp_stanza list \<Rightarrow> xmpp_conn \<Rightarrow> bool" for env conn0 where
  start: "login_run env conn0 [] conn0"
| event: "login_run env conn0 tr conn \<Longrightarrow> parser_event env e conn = Some conn' \<Longrightarrow> login_run env conn0 (tr @ stanza_delivered e conn) conn'"
| timed: "login_run env conn0 tr conn \<Longrightarrow> conn_fire_timed env conn = Some conn' \<Longrightarrow> login_run env conn0 tr conn'"
| wrote: "login_run env conn0 tr conn \<Longrightarrow> login_run env conn0 tr (conn_write rs conn)"
| reset: "login_run env conn0 tr conn \<Longrightarrow> cx_reset_parser conn \<Longrightarrow> login_run env conn0 tr (conn_parser_reset conn)"
| tick: "login_run env conn0 tr conn \<Longrightarrow> login_run env conn0 tr (conn\<lparr>cx_now := t\<rparr>)"
| lost: "login_run env conn0 tr conn \<Longrightarrow> login_run env conn0 tr (conn_disconnect (conn\<lparr>cx_error := e\<rparr>))"
| opened: "login_run env conn0 tr conn \<Longrightarrow> cx_state conn = XMPP_STATE_CONNECTING \<Longrightarrow>
    conn_open_stream (conn\<lparr>cx_state := XMPP_STATE_CONNECTED\<rparr>) = Some conn' \<Longrightarrow> login_run env conn0 tr conn'"

lemma parser_feed_run:
  "parser_feed env es conn = Some conn' \<Longrightarrow> login_run env conn0 tr conn \<Longrightarrow> \<exists>tr'. login_run env conn0 (tr @ tr') conn'"
proof (induction es arbitrary: conn tr)
  case Nil
  then show ?case by (auto intro: exI [of _ "[]"])
next
  case (Cons e es)
  then obtain conn1 where c: "parser_event env e conn = Some conn1" "parser_feed env es conn1 = Some conn'" by (auto split: Option.bind_splits)
  from Cons.IH [OF c(2) login_run.event [OF Cons.prems(2) c(1)]] show ?case by auto
qed

lemma conn_read_run:
  assumes "conn_read env r conn = Some conn'" "login_run env conn0 tr conn"
  shows "\<exists>tr'. login_run env conn0 (tr @ tr') conn'"
proof (cases r)
  case (R_feed es ok)
  with assms(1) obtain conn1 where "parser_feed env es conn = Some conn1" and c: "conn' = (if ok then conn1 else conn_disconnect conn1)"
    by (auto simp: conn_read_def split: Option.bind_splits)
  from parser_feed_run [OF this(1) assms(2)] obtain tr' where "login_run env conn0 (tr @ tr') conn1" ..
  then show ?thesis using login_run.lost [of env conn0 "tr @ tr'" conn1 "cx_error conn1"] c by auto
next
  case (R_fail rec e)
  then have "conn' = conn \<or> (\<exists>e. conn' = conn_disconnect (conn\<lparr>cx_error := e\<rparr>))" using assms(1) by (auto simp: conn_read_def split: if_splits)
  then have "login_run env conn0 tr conn'" using assms(2) login_run.lost [OF assms(2)] by blast
  then show ?thesis by (intro exI [of _ "[]"]) simp
qed

text \<open>The turns of the event loop are such runs.\<close>

lemma run_once_run:
  assumes "xmpp_run_once env io conn = Some conn'" "login_run env conn0 tr conn"
  shows "\<exists>tr'. login_run env conn0 (tr @ tr') conn'"
proof -
  let ?c1 = "conn_write (io_writes io) conn"
  let ?c2 = "if cx_reset_parser ?c1 then conn_parser_reset ?c1 else ?c1"
  obtain c3 where c3: "conn_fire_timed env (?c2\<lparr>cx_now := io_now io\<rparr>) = Some c3"
    using assms(1) by (auto simp: xmpp_run_once_def Let_def split: Option.bind_splits)
  define c4 where "c4 = (if cx_state c3 = XMPP_STATE_CONNECTING \<and> \<not> cx_now c3 - cx_timeout_stamp c3 \<le> cx_connect_timeout c3
       then conn_disconnect (c3\<lparr>cx_error := ETIMEDOUT\<rparr>) else c3)"
  have eq: "xmpp_run_once env io conn = (if \<not> io_ready io then Some c4 else do {
       conn \<leftarrow> (case cx_state c4 of
          XMPP_STATE_CONNECTING \<Rightarrow>
            if io_connect_error io then Some (conn_disconnect c4) else conn_open_stream (c4\<lparr>cx_state := XMPP_STATE_CONNECTED\<rparr>)
        | XMPP_STATE_CONNECTED \<Rightarrow> conn_read env (io_read io) c4
        | XMPP_STATE_DISCONNECTED \<Rightarrow> Some c4);
       conn_fire_timed env (conn\<lparr>cx_now := io_later io\<rparr>) })"
    unfolding c4_def by (simp add: xmpp_run_once_def Let_def c3)
  have "login_run env conn0 tr ?c2" using login_run.wrote [OF assms(2)] by (auto intro: login_run.reset)
  from login_run.timed [OF login_run.tick [OF this] c3] have r4: "login_run env conn0 tr c4" by (auto simp: c4_def intro: login_run.lost)
  show ?thesis
  proof (cases "io_ready io")
    case False
    then have "conn' = c4" using assms(1) eq by simp
    with r4 show ?thesis by (intro exI [of _ "[]"]) simp
  next
    case True
    then obtain c5 where c5: "(case cx_state c4 of
          XMPP_STATE_CONNECTING \<Rightarrow>
            if io_connect_error io then Some (conn_disconnect c4)
            else conn_open_stream (c4\<lparr>cx_state := XMPP_STATE_CONNECTED\<rparr>)
        | XMPP_STATE_CONNECTED \<Rightarrow> conn_read env (io_read io) c4
        | XMPP_STATE_DISCONNECTED \<Rightarrow> Some c4) = Some c5" "conn_fire_timed env (c5\<lparr>cx_now := io_later io\<rparr>) = Some conn'"
      using assms(1) unfolding eq by (auto split: Option.bind_splits)
    have "\<exists>tr'. login_run env conn0 (tr @ tr') c5"
    proof (cases "cx_state c4")
      case XMPP_STATE_DISCONNECTED
      with c5(1) r4 show ?thesis by (intro exI [of _ "[]"]) (simp split: if_splits)
    next
      case XMPP_STATE_CONNECTING
      with c5(1) have "io_connect_error io \<and> c5 = conn_disconnect c4 \<or> conn_open_stream (c4\<lparr>cx_state := XMPP_STATE_CONNECTED\<rparr>) = Some c5"
        by (simp split: if_splits)
      then have "login_run env conn0 tr c5"
        using login_run.lost [OF r4, of "cx_error c4"] login_run.opened [OF r4 XMPP_STATE_CONNECTING, of c5] by auto
      then show ?thesis by (intro exI [of _ "[]"]) simp
    next
      case XMPP_STATE_CONNECTED
      with c5(1) have "conn_read env (io_read io) c4 = Some c5" by simp
      from conn_read_run [OF this r4] show ?thesis .
    qed
    then show ?thesis using login_run.timed [OF login_run.tick c5(2)] by blast
  qed
qed

lemma run_turns_run: "xmpp_run_turns env ios conn = Some conn' \<Longrightarrow> login_run env conn0 tr conn \<Longrightarrow> \<exists>tr'. login_run env conn0 (tr @ tr') conn'"
proof (induction ios arbitrary: conn tr)
  case Nil
  then show ?case by (auto intro: exI [of _ "[]"])
next
  case (Cons io ios)
  then obtain conn1 where c: "xmpp_run_once env io conn = Some conn1" "xmpp_run_turns env ios conn1 = Some conn'" by (auto split: Option.bind_splits)
  from run_once_run [OF c(1) Cons.prems(2)] obtain tr1 where "login_run env conn0 (tr @ tr1) conn1" ..
  from Cons.IH [OF c(2) this] show ?case by auto
qed

section \<open>Walks\<close>

text \<open>
  The three loops that call handlers. A property of the handlers still to be called and of the connection that every call keeps
  holds at the end.
\<close>

definition after_call :: "bool \<Rightarrow> strophe_fn \<Rightarrow> xmpp_conn \<Rightarrow> xmpp_conn" where
  "after_call keep h conn = (if keep then conn else conn\<lparr>cx_handlers := xmpp_handler_delete (cx_handlers conn) h\<rparr>)"

definition after_id_call :: "bool \<Rightarrow> strophe_fn \<Rightarrow> string \<Rightarrow> xmpp_conn \<Rightarrow> xmpp_conn" where
  "after_id_call keep h i conn = (if keep then conn else conn\<lparr>cx_id_handlers := xmpp_id_handler_delete (cx_id_handlers conn) h i\<rparr>)"

definition after_timed_call :: "bool \<Rightarrow> strophe_fn \<Rightarrow> xmpp_conn \<Rightarrow> xmpp_conn" where
  "after_timed_call keep h conn = (if keep then conn else conn_timed_delete h conn)"

definition stamped :: "strophe_fn \<Rightarrow> xmpp_conn \<Rightarrow> xmpp_conn" where
  "stamped h conn = conn\<lparr>cx_timed_handlers := map (\<lambda>x. if hl_handler x = h then x\<lparr>hl_last_stamp := cx_now conn\<rparr> else x) (cx_timed_handlers conn)\<rparr>"

lemma fire_handlers_walk:
  assumes "fire_handlers env stanza items conn = Some conn'" "P items conn"
    and skip: "\<And>item items conn. P (item # items) conn \<Longrightarrow> P items conn"
    and call: "\<And>item items conn keep conn1. P (item # items) conn \<Longrightarrow> stanza_call env (hl_handler item) stanza conn = Some (keep, conn1) \<Longrightarrow>
      P items (after_call keep (hl_handler item) conn1)"
  shows "P [] conn'"
  using assms(1,2)
proof (induction items arbitrary: conn)
  case (Cons item items)
  show ?case
  proof (cases "hl_user_handler item \<and> \<not> cx_authenticated conn \<or> handler_matches item stanza = Some False")
    case True
    then show ?thesis using Cons.prems(1) by (intro Cons.IH [OF _ skip [OF Cons.prems(2)]]) (auto split: if_splits)
  next
    case False
    then obtain keep conn1 where c: "stanza_call env (hl_handler item) stanza conn = Some (keep, conn1)"
      and r: "fire_handlers env stanza items (after_call keep (hl_handler item) conn1) = Some conn'"
      using Cons.prems(1) by (auto simp: after_call_def split: Option.bind_splits if_splits)
    from Cons.IH [OF r call [OF Cons.prems(2) c]] show ?thesis .
  qed
qed simp

lemma fire_chain_walk:
  assumes "fire_chain env i stanza items conn = Some conn'" "P items conn"
    and skip: "\<And>item items conn. P (item # items) conn \<Longrightarrow> P items conn"
    and call: "\<And>item items conn keep conn1. P (item # items) conn \<Longrightarrow> stanza_call env (hl_handler item) stanza conn = Some (keep, conn1) \<Longrightarrow>
      P items (after_id_call keep (hl_handler item) i conn1)"
  shows "P [] conn'"
  using assms(1,2)
proof (induction items arbitrary: conn)
  case (Cons item items)
  show ?case
  proof (cases "hl_user_handler item \<and> \<not> cx_authenticated conn")
    case True
    then show ?thesis using Cons.prems(1) by (intro Cons.IH [OF _ skip [OF Cons.prems(2)]]) auto
  next
    case False
    then obtain keep conn1 where c: "stanza_call env (hl_handler item) stanza conn = Some (keep, conn1)"
      and r: "fire_chain env i stanza items (after_id_call keep (hl_handler item) i conn1) = Some conn'"
      using Cons.prems(1) by (auto simp: after_id_call_def split: Option.bind_splits)
    from Cons.IH [OF r call [OF Cons.prems(2) c]] show ?thesis .
  qed
qed simp

lemma fire_timed_walk:
  assumes "fire_timed env items conn = Some conn'" "P items conn"
    and skip: "\<And>item items conn. P (item # items) conn \<Longrightarrow> P items conn"
    and call: "\<And>item items conn keep conn1. P (item # items) conn \<Longrightarrow> timed_call env (hl_handler item) (stamped (hl_handler item) conn) = Some (keep, conn1) \<Longrightarrow>
      P items (after_timed_call keep (hl_handler item) conn1)"
  shows "P [] conn'"
  using assms(1,2)
proof (induction items arbitrary: conn)
  case (Cons item items)
  show ?case
  proof (cases "\<not> (hl_user_handler item \<and> \<not> cx_authenticated conn) \<and> cx_now conn - hl_last_stamp item \<ge> hl_period item")
    case False
    then show ?thesis using Cons.prems(1) by (intro Cons.IH [OF _ skip [OF Cons.prems(2)]]) (auto split: if_splits)
  next
    case True
    then obtain keep conn1 where c: "timed_call env (hl_handler item) (stamped (hl_handler item) conn) = Some (keep, conn1)"
      and r: "fire_timed env items (after_timed_call keep (hl_handler item) conn1) = Some conn'"
      using Cons.prems(1) by (auto simp: stamped_def after_timed_call_def Let_def split: Option.bind_splits)
    from Cons.IH [OF r call [OF Cons.prems(2) c]] show ?thesis .
  qed
qed simp

text \<open>What holds at the start of a connection and is kept by everything that can happen to it holds in all runs.\<close>

locale login_invariant =
  fixes env :: tls_env and P :: "xmpp_stanza list \<Rightarrow> xmpp_conn \<Rightarrow> bool"
  assumes keeps_event: "P tr conn \<Longrightarrow> parser_event env e conn = Some conn' \<Longrightarrow> P (tr @ stanza_delivered e conn) conn'"
    and keeps_timed: "P tr conn \<Longrightarrow> conn_fire_timed env conn = Some conn' \<Longrightarrow> P tr conn'"
    and keeps_write: "P tr conn \<Longrightarrow> P tr (conn_write rs conn)"
    and keeps_reset: "P tr conn \<Longrightarrow> cx_reset_parser conn \<Longrightarrow> P tr (conn_parser_reset conn)"
    and keeps_tick: "P tr conn \<Longrightarrow> P tr (conn\<lparr>cx_now := t\<rparr>)"
    and keeps_lost: "P tr conn \<Longrightarrow> P tr (conn_disconnect (conn\<lparr>cx_error := err\<rparr>))"
    and keeps_opened: "P tr conn \<Longrightarrow> cx_state conn = XMPP_STATE_CONNECTING \<Longrightarrow>
      conn_open_stream (conn\<lparr>cx_state := XMPP_STATE_CONNECTED\<rparr>) = Some conn' \<Longrightarrow> P tr conn'"
begin

lemma holds_in_run: "login_run env conn0 tr conn \<Longrightarrow> P [] conn0 \<Longrightarrow> P tr conn"
  by (induction rule: login_run.induct)
    (auto intro: keeps_event keeps_timed keeps_write keeps_reset keeps_tick keeps_lost keeps_opened)

lemma holds_in_turns:
  assumes "xmpp_run_turns env ios conn = Some conn'" "P [] conn"
  shows "\<exists>tr. login_run env conn tr conn' \<and> P tr conn'"
  using run_turns_run [OF assms(1) login_run.start] holds_in_run [OF _ assms(2)] by auto

end

section \<open>Evidence\<close>

definition is_success :: "xmpp_stanza \<Rightarrow> bool" where
  "is_success stanza = (xmpp_stanza_get_name stanza = Some ''success'')"

definition reply_to :: "string \<Rightarrow> xmpp_stanza \<Rightarrow> bool" where
  "reply_to i stanza = (is_result stanza \<and> xmpp_stanza_get_id stanza = Some (Some i))"

definition accepted :: "xmpp_stanza list \<Rightarrow> bool" where
  "accepted tr = (\<exists>s \<in> set tr. is_success s)"

definition bound :: "xmpp_stanza list \<Rightarrow> bool" where
  "bound tr = (\<exists>s r. subseq [s, r] tr \<and> is_success s \<and> reply_to ''_xmpp_bind1'' r)"

definition login_granted :: "xmpp_stanza list \<Rightarrow> bool" where
  "login_granted tr = (bound tr \<or> (\<exists>r \<in> set tr. reply_to ''_xmpp_auth1'' r))"

lemma evidence_mono: "accepted tr \<Longrightarrow> accepted (tr @ ss)" "bound tr \<Longrightarrow> bound (tr @ ss)" "login_granted tr \<Longrightarrow> login_granted (tr @ ss)"
proof -
  show a: "accepted tr \<Longrightarrow> accepted (tr @ ss)" by (auto simp: accepted_def)
  show b: "bound tr \<Longrightarrow> bound (tr @ ss)" unfolding bound_def by (metis list_emb_append2 list_emb_append_mono append_Nil2 list_emb_Nil)
  show "login_granted tr \<Longrightarrow> login_granted (tr @ ss)" using b by (auto simp: login_granted_def)
qed

lemma bound_snoc:
  assumes "accepted tr" "reply_to ''_xmpp_bind1'' r"
  shows "bound (tr @ [r])"
proof -
  from assms(1) obtain s where s: "s \<in> set tr" "is_success s" by (auto simp: accepted_def)
  then have "subseq [s] tr" by (simp add: subseq_singleton_left)
  then have "subseq ([s] @ [r]) (tr @ [r])" by (intro list_emb_append_mono) simp_all
  with s(2) assms(2) show ?thesis by (auto simp: bound_def)
qed

text \<open>What the registered handlers and the flags tell about the past.\<close>

definition ids_ok :: "xmpp_stanza list \<Rightarrow> (string \<Rightarrow> strophe_fn set) \<Rightarrow> bool" where
  "ids_ok tr L \<longleftrightarrow> (\<forall>i. L i \<subseteq> {Handle_bind, Handle_session, Handle_legacy} \<and>
     (Handle_bind \<in> L i \<longrightarrow> i = ''_xmpp_bind1'' \<and> accepted tr) \<and> (Handle_session \<in> L i \<longrightarrow> bound tr) \<and>
     (Handle_legacy \<in> L i \<longrightarrow> i = ''_xmpp_auth1''))"

definition login_inv :: "xmpp_stanza list \<Rightarrow> xmpp_conn \<Rightarrow> bool" where
  "login_inv tr conn \<longleftrightarrow> (cx_open_handler conn = Handle_open_sasl \<longrightarrow> accepted tr) \<and>
     (Handle_features_sasl \<in> fns (cx_handlers conn) \<longrightarrow> accepted tr) \<and>
     fns (cx_handlers conn) \<inter> {Handle_bind, Handle_session, Handle_legacy} = {} \<and>
     ids_ok tr (\<lambda>i. fns (cx_id_handlers conn i)) \<and> (cx_authenticated conn \<longrightarrow> login_granted tr)"

lemma ids_ok_mono: "ids_ok tr L \<Longrightarrow> ids_ok (tr @ ss) L"
  using evidence_mono by (auto simp: ids_ok_def)

lemma login_inv_mono: "login_inv tr conn \<Longrightarrow> login_inv (tr @ ss) conn"
  using evidence_mono ids_ok_mono by (auto simp: login_inv_def)

lemma ids_ok_sub: "ids_ok tr L \<Longrightarrow> ids_ok tr L' \<Longrightarrow> (\<And>i. M i \<subseteq> L i \<union> L' i) \<Longrightarrow> ids_ok tr M"
  unfolding ids_ok_def by blast

lemma login_inv_effect:
  assumes "login_inv tr base" "login_effect H L base conn'" "H \<inter> {Handle_features_sasl, Handle_bind, Handle_session, Handle_legacy} = {}" "ids_ok tr L"
  shows "login_inv tr conn'"
proof -
  have f: "fns (cx_handlers conn') \<subseteq> fns (cx_handlers base) \<union> H" and i: "\<And>i. fns (cx_id_handlers conn' i) \<subseteq> fns (cx_id_handlers base i) \<union> L i"
    and s: "cx_open_handler conn' = cx_open_handler base" "cx_authenticated conn' = cx_authenticated base"
    using assms(2) by (simp_all add: login_effect_def)
  have "ids_ok tr (\<lambda>i. fns (cx_id_handlers conn' i))" using ids_ok_sub [OF _ assms(4) i] assms(1) by (simp add: login_inv_def)
  moreover have "Handle_features_sasl \<in> fns (cx_handlers conn') \<Longrightarrow> Handle_features_sasl \<in> fns (cx_handlers base)" using f assms(3) by blast
  moreover have "fns (cx_handlers base) \<inter> {Handle_bind, Handle_session, Handle_legacy} = {}" using assms(1) by (simp add: login_inv_def)
  then have "fns (cx_handlers conn') \<inter> {Handle_bind, Handle_session, Handle_legacy} = {}" using f assms(3) by blast
  ultimately show ?thesis using assms(1) s by (simp add: login_inv_def)
qed

lemma ids_ok_simps [simp]:
  "ids_ok tr (\<lambda>_. {})" "ids_ok tr (only_at ''_xmpp_auth1'' Handle_legacy)"
  "accepted tr \<Longrightarrow> ids_ok tr (only_at ''_xmpp_bind1'' Handle_bind)" "bound tr \<Longrightarrow> ids_ok tr (only_at ''_xmpp_session1'' Handle_session)"
  by (simp_all add: ids_ok_def only_at_def)

lemma stanza_adds_ok: "stanza_adds h conn \<inter> {Handle_features_sasl, Handle_bind, Handle_session, Handle_legacy} = {}"
  by (auto simp: stanza_adds_def auth_fns_def sasl_fns_def)

lemma call_login_inv:
  assumes "login_inv (tr @ [stanza]) conn" "stanza_call env h stanza conn = Some (keep, conn')"
    and "h = Handle_features_sasl \<Longrightarrow> accepted (tr @ [stanza])"
    and "h = Handle_bind \<Longrightarrow> accepted tr \<and> xmpp_stanza_get_id stanza = Some (Some ''_xmpp_bind1'')"
    and "h = Handle_session \<Longrightarrow> bound tr" "h = Handle_legacy \<Longrightarrow> xmpp_stanza_get_id stanza = Some (Some ''_xmpp_auth1'')"
  shows "login_inv (tr @ [stanza]) conn'"
proof -
  let ?tr = "tr @ [stanza]"
  obtain base where b: "login_base h stanza conn base" "login_effect (stanza_adds h conn) (stanza_ids h stanza) base conn'"
    using stanza_call_effect [OF assms(2)] by blast
  have bnd: "bound ?tr" if "h = Handle_bind" "is_result stanza" using bound_snoc assms(4) that by (simp add: reply_to_def)
  have "login_granted ?tr" if "h \<in> {Handle_bind, Handle_session, Handle_legacy}" "is_result stanza"
    using that bnd evidence_mono(2) [OF assms(5)] assms(6) by (auto simp: login_granted_def reply_to_def)
  moreover have "accepted ?tr" if "xmpp_stanza_get_name stanza = Some ''success''" using that by (simp add: accepted_def is_success_def)
  ultimately have "login_inv ?tr base"
    using assms(1) b(1) unfolding login_base_def by (elim disjE conjE) (simp_all add: login_inv_def conn_prepare_reset_def)
  moreover have "ids_ok ?tr (stanza_ids h stanza)" using assms(3) bnd by (auto simp: stanza_ids_def)
  ultimately show ?thesis by (rule login_inv_effect [OF _ b(2) stanza_adds_ok])
qed

lemma login_inv_cong:
  assumes "login_inv tr conn" "cx_open_handler conn' = cx_open_handler conn" "cx_authenticated conn' = cx_authenticated conn"
    and "fns (cx_handlers conn') \<subseteq> fns (cx_handlers conn)" "\<And>i. fns (cx_id_handlers conn' i) \<subseteq> fns (cx_id_handlers conn i)"
  shows "login_inv tr conn'"
proof -
  have "ids_ok tr (\<lambda>i. fns (cx_id_handlers conn i))" using assms(1) by (simp add: login_inv_def)
  then have "ids_ok tr (\<lambda>i. fns (cx_id_handlers conn' i))" by (rule ids_ok_sub [OF _ ids_ok_simps(1)]) (use assms(5) in simp)
  moreover have "Handle_features_sasl \<in> fns (cx_handlers conn') \<Longrightarrow> Handle_features_sasl \<in> fns (cx_handlers conn)" using assms(4) by blast
  moreover have "fns (cx_handlers conn) \<inter> {Handle_bind, Handle_session, Handle_legacy} = {}" using assms(1) by (simp add: login_inv_def)
  then have "fns (cx_handlers conn') \<inter> {Handle_bind, Handle_session, Handle_legacy} = {}" using assms(4) by blast
  ultimately show ?thesis using assms(1-3) by (simp add: login_inv_def)
qed

lemma login_inv_delete:
  "login_inv tr conn \<Longrightarrow> login_inv tr (after_call keep h conn)" "login_inv tr conn \<Longrightarrow> login_inv tr (after_id_call keep h i conn)"
  "login_inv tr conn \<Longrightarrow> login_inv tr (after_timed_call keep h conn)"
  by (erule login_inv_cong; use fns_unlink in \<open>auto simp: after_call_def after_id_call_def after_timed_call_def xmpp_handler_delete_def
      xmpp_id_handler_delete_def conn_timed_delete_def\<close>)+

lemma fire_chain_inv:
  assumes "fire_chain env i stanza items conn = Some conn'" "login_inv (tr @ [stanza]) conn" "xmpp_stanza_get_id stanza = Some (Some i)"
    and "fns items \<subseteq> {Handle_bind, Handle_session, Handle_legacy}" "Handle_bind \<in> fns items \<Longrightarrow> i = ''_xmpp_bind1'' \<and> accepted tr"
    and "Handle_session \<in> fns items \<Longrightarrow> bound tr" "Handle_legacy \<in> fns items \<Longrightarrow> i = ''_xmpp_auth1''"
  shows "login_inv (tr @ [stanza]) conn'"
proof -
  let ?ok = "\<lambda>items. fns items \<subseteq> {Handle_bind, Handle_session, Handle_legacy} \<and> (Handle_bind \<in> fns items \<longrightarrow> i = ''_xmpp_bind1'' \<and> accepted tr) \<and>
    (Handle_session \<in> fns items \<longrightarrow> bound tr) \<and> (Handle_legacy \<in> fns items \<longrightarrow> i = ''_xmpp_auth1'')"
  have "login_inv (tr @ [stanza]) conn' \<and> ?ok []"
  proof (rule fire_chain_walk [OF assms(1), of "\<lambda>items conn. login_inv (tr @ [stanza]) conn \<and> ?ok items"])
    fix item :: strophe_item and items :: "strophe_item list" and conn keep conn1
    assume p: "login_inv (tr @ [stanza]) conn \<and> ?ok (item # items)" and c: "stanza_call env (hl_handler item) stanza conn = Some (keep, conn1)"
    have "login_inv (tr @ [stanza]) conn1" by (rule call_login_inv [OF _ c]) (use p assms(3) in auto)
    with p show "login_inv (tr @ [stanza]) (after_id_call keep (hl_handler item) i conn1) \<and> ?ok items" by (simp add: login_inv_delete)
  qed (use assms in auto)
  then show ?thesis by blast
qed

lemma fire_handlers_inv:
  assumes "fire_handlers env stanza items conn = Some conn'" "login_inv (tr @ [stanza]) conn"
    and "fns items \<inter> {Handle_bind, Handle_session, Handle_legacy} = {}" "Handle_features_sasl \<in> fns items \<Longrightarrow> accepted (tr @ [stanza])"
  shows "login_inv (tr @ [stanza]) conn'"
proof -
  let ?ok = "\<lambda>items. fns items \<inter> {Handle_bind, Handle_session, Handle_legacy} = {} \<and> (Handle_features_sasl \<in> fns items \<longrightarrow> accepted (tr @ [stanza]))"
  have "login_inv (tr @ [stanza]) conn' \<and> ?ok []"
  proof (rule fire_handlers_walk [OF assms(1), of "\<lambda>items conn. login_inv (tr @ [stanza]) conn \<and> ?ok items"])
    fix item :: strophe_item and items :: "strophe_item list" and conn keep conn1
    assume p: "login_inv (tr @ [stanza]) conn \<and> ?ok (item # items)" and c: "stanza_call env (hl_handler item) stanza conn = Some (keep, conn1)"
    have "login_inv (tr @ [stanza]) conn1" by (rule call_login_inv [OF _ c]) (use p in auto)
    with p show "login_inv (tr @ [stanza]) (after_call keep (hl_handler item) conn1) \<and> ?ok items" by (auto intro: login_inv_delete)
  qed (use assms in auto)
  then show ?thesis by blast
qed

lemma fire_stanza_inv:
  assumes "conn_fire_stanza env stanza conn = Some conn'" "login_inv tr conn"
  shows "login_inv (tr @ [stanza]) conn'"
proof -
  obtain i conn1 where i: "xmpp_stanza_get_id stanza = Some i"
    and c: "(case i of None \<Rightarrow> Some conn | Some i \<Rightarrow> fire_chain env i stanza (cx_id_handlers conn i) conn) = Some conn1"
    and f: "fire_handlers env stanza (handlers_enable (cx_handlers conn1)) (conn1\<lparr>cx_handlers := handlers_enable (cx_handlers conn1)\<rparr>) = Some conn'"
    using assms(1) by (auto simp: conn_fire_stanza_def Let_def split: Option.bind_splits)
  have pre: "login_inv (tr @ [stanza]) conn" using assms(2) by (rule login_inv_mono)
  have "login_inv (tr @ [stanza]) conn1"
  proof (cases i)
    case None
    with c pre show ?thesis by simp
  next
    case (Some j)
    have ok: "ids_ok tr (\<lambda>i. fns (cx_id_handlers conn i))" using assms(2) by (simp add: login_inv_def)
    have "fire_chain env j stanza (cx_id_handlers conn j) conn = Some conn1" using c Some by simp
    moreover have "fns (cx_id_handlers conn j) \<subseteq> {Handle_bind, Handle_session, Handle_legacy}"
      "Handle_bind \<in> fns (cx_id_handlers conn j) \<Longrightarrow> j = ''_xmpp_bind1'' \<and> accepted tr"
      "Handle_session \<in> fns (cx_id_handlers conn j) \<Longrightarrow> bound tr" "Handle_legacy \<in> fns (cx_id_handlers conn j) \<Longrightarrow> j = ''_xmpp_auth1''"
      using ok unfolding ids_ok_def by blast+
    ultimately show ?thesis using fire_chain_inv pre i Some by blast
  qed
  then have inv: "login_inv (tr @ [stanza]) (conn1\<lparr>cx_handlers := handlers_enable (cx_handlers conn1)\<rparr>)" by (rule login_inv_cong) simp_all
  show ?thesis by (rule fire_handlers_inv [OF f inv]) (use inv in \<open>auto simp: login_inv_def\<close>)
qed

lemma fire_timed_inv:
  assumes "fire_timed env items conn = Some conn'" "login_inv tr conn"
  shows "login_inv tr conn'"
proof (rule fire_timed_walk [OF assms(1), of "\<lambda>_. login_inv tr"])
  fix item :: strophe_item and conn keep conn1
  assume inv: "login_inv tr conn" and c: "timed_call env (hl_handler item) (stamped (hl_handler item) conn) = Some (keep, conn1)"
  let ?conn = "stamped (hl_handler item) conn"
  have pre: "login_inv tr ?conn" by (rule login_inv_cong [OF inv]) (simp_all add: stamped_def)
  from timed_call_effect [OF c] consider "conn1 = conn_disconnect ?conn"
    | "login_effect (auth_fns (cx_tls_support ?conn)) (only_at ''_xmpp_auth1'' Handle_legacy) ?conn conn1" by blast
  then have "login_inv tr conn1"
  proof cases
    case 1
    show ?thesis unfolding 1 by (rule login_inv_cong [OF pre]) (simp_all add: conn_disconnect_def)
  next
    case 2
    show ?thesis by (rule login_inv_effect [OF pre 2]) (auto simp: auth_fns_def sasl_fns_def)
  qed
  then show "login_inv tr (after_timed_call keep (hl_handler item) conn1)" by (rule login_inv_delete)
qed (use assms(2) in simp_all)

lemma open_handler_inv: "login_inv tr conn \<Longrightarrow> login_inv tr (open_handler conn)"
  by (cases "cx_open_handler conn")
    (simp_all add: open_handler_def auth_handle_open_def handle_open_sasl_def conn_handler_add_def conn_handler_add_timed_def Let_def login_inv_def)

lemma stream_start_inv: "handle_stream_start name attrs conn = Some conn' \<Longrightarrow> login_inv tr conn \<Longrightarrow> login_inv tr conn'"
proof -
  assume a: "handle_stream_start name attrs conn = Some conn'" and inv: "login_inv tr conn"
  have "\<exists>conn1. conn' = open_handler conn1 \<and> cx_open_handler conn1 = cx_open_handler conn \<and> cx_authenticated conn1 = cx_authenticated conn \<and>
      cx_handlers conn1 = cx_handlers conn \<and> cx_id_handlers conn1 = cx_id_handlers conn"
    using a by (auto simp: handle_stream_start_def Let_def conn_disconnect_def split: if_splits Option.bind_splits)
  then obtain conn1 where c: "conn' = open_handler conn1" "cx_open_handler conn1 = cx_open_handler conn" "cx_authenticated conn1 = cx_authenticated conn"
      "cx_handlers conn1 = cx_handlers conn" "cx_id_handlers conn1 = cx_id_handlers conn" by blast
  show ?thesis unfolding c(1) by (intro open_handler_inv login_inv_cong [OF inv]) (simp_all add: c)
qed

lemma parser_end_cases:
  assumes "parser_end_element env conn = Some conn'"
    and "conn1 = conn\<lparr>cx_parser := (cx_parser conn)\<lparr>pa_depth := pa_depth (cx_parser conn) - 1\<rparr>\<rparr>"
  shows "pa_depth (cx_parser conn) = 1 \<and> conn' = handle_stream_end conn1 \<or>
    (\<exists>s conn2. pa_depth (cx_parser conn) \<noteq> 1 \<and> pa_stanza (cx_parser conn) = [s] \<and> handle_stream_stanza env s conn1 = Some conn2 \<and>
       conn' = conn2\<lparr>cx_parser := (cx_parser conn2)\<lparr>pa_stanza := []\<rparr>\<rparr>) \<or>
    (\<exists>s p rest. pa_depth (cx_parser conn) \<noteq> 1 \<and> pa_stanza (cx_parser conn) = s # p # rest \<and>
       conn' = conn1\<lparr>cx_parser := (cx_parser conn1)\<lparr>pa_stanza := xmpp_stanza_add_child p s # rest\<rparr>\<rparr>)"
proof (cases "pa_depth (cx_parser conn) = 1")
  case True
  with assms show ?thesis by (simp add: parser_end_element_def Let_def)
next
  case False
  show ?thesis
  proof (cases "pa_stanza (cx_parser conn)")
    case Nil
    with assms(1) False show ?thesis by (simp add: parser_end_element_def Let_def)
  next
    case (Cons s rest)
    then show ?thesis using assms False
      by (cases rest) (auto simp: parser_end_element_def Let_def split: Option.bind_splits)
  qed
qed

lemma parser_event_inv:
  assumes "parser_event env e conn = Some conn'" "login_inv tr conn"
  shows "login_inv (tr @ stanza_delivered e conn) conn'"
proof (cases e)
  case (StartElement name attrs)
  have "\<exists>conn1. (handle_stream_start name attrs conn = Some conn1 \<or> conn1 = conn) \<and> cx_open_handler conn' = cx_open_handler conn1 \<and>
      cx_authenticated conn' = cx_authenticated conn1 \<and> cx_handlers conn' = cx_handlers conn1 \<and> cx_id_handlers conn' = cx_id_handlers conn1"
    using assms(1) StartElement by (auto simp: parser_start_element_def Let_def split: if_splits Option.bind_splits)
  then obtain conn1 where "handle_stream_start name attrs conn = Some conn1 \<or> conn1 = conn" "cx_open_handler conn' = cx_open_handler conn1"
      "cx_authenticated conn' = cx_authenticated conn1" "cx_handlers conn' = cx_handlers conn1" "cx_id_handlers conn' = cx_id_handlers conn1" by blast
  with assms(2) stream_start_inv [of name attrs conn conn1 tr] show ?thesis
    by (simp add: StartElement stanza_delivered_def) (erule disjE; rule login_inv_cong [of tr conn1]; simp)
next
  case (CharData s)
  have "cx_open_handler conn' = cx_open_handler conn \<and> cx_authenticated conn' = cx_authenticated conn \<and> cx_handlers conn' = cx_handlers conn \<and> cx_id_handlers conn' = cx_id_handlers conn"
    using assms(1) CharData by (auto simp: parser_characters_def Let_def split: if_splits Option.bind_splits list.splits)
  then show ?thesis by (simp add: CharData stanza_delivered_def) (rule login_inv_cong [OF assms(2)]; simp)
next
  case (EndElement name)
  define conn1 where "conn1 = conn\<lparr>cx_parser := (cx_parser conn)\<lparr>pa_depth := pa_depth (cx_parser conn) - 1\<rparr>\<rparr>"
  have inv: "login_inv tr conn1" unfolding conn1_def by (rule login_inv_cong [OF assms(2)]) simp_all
  have eq: "parser_end_element env conn = Some conn'" using assms(1) EndElement by simp
  consider "pa_depth (cx_parser conn) = 1" "conn' = handle_stream_end conn1"
    | s conn2 where "pa_depth (cx_parser conn) \<noteq> 1" "pa_stanza (cx_parser conn) = [s]" "handle_stream_stanza env s conn1 = Some conn2"
        "conn' = conn2\<lparr>cx_parser := (cx_parser conn2)\<lparr>pa_stanza := []\<rparr>\<rparr>"
    | s p rest where "pa_stanza (cx_parser conn) = s # p # rest"
        "conn' = conn1\<lparr>cx_parser := (cx_parser conn1)\<lparr>pa_stanza := xmpp_stanza_add_child p s # rest\<rparr>\<rparr>"
    using parser_end_cases [OF eq conn1_def] by blast
  then show ?thesis
  proof cases
    case 1
    then show ?thesis using inv login_inv_cong [OF inv, of conn']
      by (simp add: EndElement stanza_delivered_def handle_stream_end_def conn_disconnect_clean_def conn_disconnect_def conn_timed_delete_def)
  next
    case 2
    from 2(3) have "conn_fire_stanza env s conn1 = Some conn2" by (simp add: handle_stream_stanza_def)
    from fire_stanza_inv [OF this inv] have "login_inv (tr @ [s]) conn2" .
    then have "login_inv (tr @ [s]) conn'" unfolding 2(4) by (rule login_inv_cong) simp_all
    with 2 show ?thesis by (simp add: EndElement stanza_delivered_def)
  next
    case 3
    then show ?thesis using login_inv_cong [OF inv, of conn'] by (auto simp: EndElement stanza_delivered_def)
  qed
qed

lemma conn_write_control: "cx_open_handler (conn_write rs conn) = cx_open_handler conn" "cx_authenticated (conn_write rs conn) = cx_authenticated conn"
  "cx_handlers (conn_write rs conn) = cx_handlers conn" "cx_id_handlers (conn_write rs conn) = cx_id_handlers conn"
  by (auto simp: conn_write_def conn_disconnect_def Let_def split: prod.splits)

interpretation granted: login_invariant env login_inv for env
proof unfold_locales
  fix tr conn and rs :: "write_result list" and t :: "64 word" and err :: int
  assume inv: "login_inv tr conn"
  show "login_inv tr (conn_write rs conn)" by (rule login_inv_cong [OF inv]) (simp_all add: conn_write_control)
  show "login_inv tr (conn_parser_reset conn)" by (rule login_inv_cong [OF inv]) (simp_all add: conn_parser_reset_def)
  show "login_inv tr (conn\<lparr>cx_now := t\<rparr>)" by (rule login_inv_cong [OF inv]) simp_all
  show "login_inv tr (conn_disconnect (conn\<lparr>cx_error := err\<rparr>))" by (rule login_inv_cong [OF inv]) (simp_all add: conn_disconnect_def)
  fix conn'
  show "login_inv tr conn'" if "conn_open_stream (conn\<lparr>cx_state := XMPP_STATE_CONNECTED\<rparr>) = Some conn'"
    by (rule login_inv_cong [OF inv]) (use that in \<open>auto simp: conn_open_stream_queued\<close>)
  have "login_inv tr (conn\<lparr>cx_timed_handlers := handlers_enable (cx_timed_handlers conn)\<rparr>)" by (rule login_inv_cong [OF inv]) simp_all
  then show "login_inv tr conn'" if "conn_fire_timed env conn = Some conn'"
    using that inv fire_timed_inv by (auto simp: conn_fire_timed_def Let_def split: if_splits)
qed (rule parser_event_inv)

section \<open>A connection and its login\<close>

text \<open>A connection as the application sets it up, after its socket is connected.\<close>

definition strophe_example :: xmpp_conn where
  "strophe_example = (xmpp_conn_set_jid ''u@h/r'' (xmpp_conn_set_pass ''secret'' xmpp_conn_new))\<lparr>cx_type := XMPP_CLIENT,
     cx_domain := Some ''h'', cx_state := XMPP_STATE_CONNECTED, cx_reset_parser := False\<rparr>"

definition example_env :: tls_env where "example_env = \<lparr>te_new = True, te_start = True\<rparr>"

lemmas strophe_example_defs = strophe_example_def xmpp_conn_set_jid_def xmpp_conn_set_pass_def xmpp_conn_new_def conn_prepare_reset_def

lemma example_jid: "xmpp_jid_node ''u@h/r'' = Some ''u''" "xmpp_jid_resource ''u@h/r'' = Some ''r''" "xmpp_jid_domain ''u@h/r'' = ''h''"
  by code_simp+


text \<open>An old-style login: the socket connects, the server opens its stream and offers no mechanism, and answers the request.\<close>

definition example_io :: "read_result \<Rightarrow> io" where
  "example_io r = \<lparr>io_writes = [], io_now = 0, io_ready = True, io_connect_error = False, io_read = r, io_later = 0\<rparr>"

definition example_turns :: "io list" where
  "example_turns = map example_io
    [R_fail False 0,
     R_feed [StartElement ''stream:stream'' [(''id'', ''1'')], StartElement ''stream:features'' [], EndElement ''stream:features''] True,
     R_feed [StartElement ''iq'' [(''id'', ''_xmpp_auth1''), (''type'', ''result'')], EndElement ''iq''] True]"


text \<open>The length of a header that is printed for the log.\<close>

definition header_length :: "(string \<times> string) list \<Rightarrow> nat" where
  "header_length attrs = length ''<stream:stream'' + sum_list (map (\<lambda>(k, v). length k + length v + 4) attrs)"

lemma log_open_tag_iff: "log_open_tag pos attrs = None \<longleftrightarrow> pos + sum_list (map (\<lambda>(k, v). length k + length v + 4) attrs) > 4096"
  by (induction pos attrs rule: log_open_tag.induct) auto

text \<open>C35: The header the server opens a stream with is printed for the log into a buffer of 4096 bytes on the stack. The client survives it
  exactly if its text fits; a longer one is written behind the buffer.\<close>

theorem stream_header_overflow:
  assumes "cx_stream_id conn \<noteq> Dangling"
  shows "handle_stream_start ''stream:stream'' attrs conn = None \<longleftrightarrow> header_length attrs > 4096"
proof -
  have "handle_stream_start ''stream:stream'' attrs conn = None \<longleftrightarrow> log_open_tag (length ''<stream:stream'') attrs = None"
    using assms by (cases "log_open_tag (length ''<stream:stream'') attrs"; cases "cx_stream_id conn") (simp_all add: handle_stream_start_def Let_def)
  then show ?thesis unfolding log_open_tag_iff header_length_def .
qed

theorem stream_header_overflow_witness:
  "handle_stream_start ''stream:stream'' [(''id'', replicate 5000 (CHR ''a''))] xmpp_conn_new = None"
  using stream_header_overflow [of xmpp_conn_new "[(''id'', replicate 5000 (CHR ''a''))]"]
  by (simp add: xmpp_conn_new_def conn_prepare_reset_def header_length_def)

end
