(* ===== verification/Strophe_Secure.thy ===== *)
theory Strophe_Secure
  imports Strophe_Login
begin

text \<open>
  What a login puts on the wire: the queue is written in order without loss or repetition, whatever the socket accepts; after the server has
  offered STARTTLS nothing but the request goes out in the clear before TLS has started; which stanza a login sends next,
  and its answer to a DIGEST-MD5 challenge. A server that refuses the STARTTLS it offered leaves the login hanging.
\<close>

section \<open>The queue\<close>

definition unsent :: "xmpp_send_queue_t list \<Rightarrow> string" where
  "unsent q = concat (map (\<lambda>sq. drop (sq_written sq) (sq_data sq)) q)"

definition on_wire :: "(bool \<times> string) list \<Rightarrow> string" where
  "on_wire w = concat (map snd w)"

lemma unsent_simps [simp]: "unsent [] = []" "unsent (sq # q) = drop (sq_written sq) (sq_data sq) @ unsent q" "unsent (q @ q') = unsent q @ unsent q'"
  by (simp_all add: unsent_def)

lemma on_wire_simps [simp]: "on_wire [] = []" "on_wire (w # ws) = snd w @ on_wire ws" "on_wire (ws @ ws') = on_wire ws @ on_wire ws'"
  by (simp_all add: on_wire_def)

lemma write_queue_exact:
  "write_queue rs tls q = (q', wire, e) \<Longrightarrow> on_wire wire @ unsent q' = unsent q \<and> (\<forall>w \<in> set wire. fst w = tls)"
proof (induction rs tls q arbitrary: q' wire e rule: write_queue.induct)
  case (3 r rs tls sq nxt)
  show ?case
  proof (cases r)
    case (W_wrote n)
    show ?thesis
    proof (cases "n < length (drop (sq_written sq) (sq_data sq))")
      case True
      then have "q' = sq\<lparr>sq_written := sq_written sq + n\<rparr> # nxt" "wire = [(tls, take n (drop (sq_written sq) (sq_data sq)))]"
        using 3(2) W_wrote by (auto simp: Let_def)
      moreover have "drop (sq_written sq + n) (sq_data sq) = drop n (drop (sq_written sq) (sq_data sq))" by (simp add: add.commute)
      ultimately show ?thesis by (simp del: drop_drop)
    next
      case False
      obtain q1 wire1 e1 where w: "write_queue rs tls nxt = (q1, wire1, e1)" by (metis prod_cases3)
      with 3(2) W_wrote False have "q' = q1" "wire = (tls, drop (sq_written sq) (sq_data sq)) # wire1" by (auto simp: Let_def)
      with 3(1) [OF refl refl W_wrote False w] show ?thesis by simp
    qed
  qed (use 3(2) in \<open>auto simp: Let_def\<close>)
qed auto

text \<open>The bytes that went over the network in the clear.\<close>

definition plain :: "xmpp_conn \<Rightarrow> string" where
  "plain conn = on_wire (filter (\<lambda>w. \<not> fst w) (cx_wire conn))"

lemma conn_write_plain:
  assumes "cx_state conn = XMPP_STATE_CONNECTED"
  shows "cx_tls conn \<Longrightarrow> plain (conn_write rs conn) = plain conn"
    "\<not> cx_tls conn \<Longrightarrow> plain (conn_write rs conn) @ unsent (cx_send_queue (conn_write rs conn)) = plain conn @ unsent (cx_send_queue conn)"
    "cx_state (conn_write rs conn) = XMPP_STATE_DISCONNECTED \<or> (cx_state (conn_write rs conn) = XMPP_STATE_CONNECTED \<and> cx_tls (conn_write rs conn) = cx_tls conn)"
proof -
  obtain q wire e where w: "write_queue rs (cx_tls conn) (cx_send_queue conn) = (q, wire, e)" by (metis prod_cases3)
  note x = write_queue_exact [OF w]
  have eq: "cx_wire (conn_write rs conn) = cx_wire conn @ wire" "cx_send_queue (conn_write rs conn) = q"
    using assms by (auto simp: conn_write_def w Let_def conn_disconnect_def)
  { assume "cx_tls conn"
    then have "filter (\<lambda>w. \<not> fst w) wire = []" using x by (simp add: filter_empty_conv)
    then show "plain (conn_write rs conn) = plain conn" by (simp add: plain_def eq) }
  { assume "\<not> cx_tls conn"
    then have "filter (\<lambda>w. \<not> fst w) wire = wire" using x by (auto simp: filter_id_conv)
    then show "plain (conn_write rs conn) @ unsent (cx_send_queue (conn_write rs conn)) = plain conn @ unsent (cx_send_queue conn)"
      using x by (simp add: plain_def eq) }
  show "cx_state (conn_write rs conn) = XMPP_STATE_DISCONNECTED \<or> (cx_state (conn_write rs conn) = XMPP_STATE_CONNECTED \<and> cx_tls (conn_write rs conn) = cx_tls conn)"
    using assms by (auto simp: conn_write_def w Let_def conn_disconnect_def)
qed

text \<open>C17: The queue is written in order: what has gone over the network, followed by what is still queued, is the same before and after
  a write, whatever the socket accepts.\<close>

theorem conn_write_exact:
  assumes "cx_state conn = XMPP_STATE_CONNECTED"
  shows "on_wire (cx_wire (conn_write rs conn)) @ unsent (cx_send_queue (conn_write rs conn)) = on_wire (cx_wire conn) @ unsent (cx_send_queue conn)"
proof -
  obtain q wire e where w: "write_queue rs (cx_tls conn) (cx_send_queue conn) = (q, wire, e)" by (metis prod_cases3)
  then show ?thesis using assms write_queue_exact [OF w] by (simp add: conn_write_def w Let_def conn_disconnect_def)
qed

theorem conn_write_exact_witness:
  "let conn = xmpp_conn_new\<lparr>cx_state := XMPP_STATE_CONNECTED, cx_send_queue := [\<lparr>sq_data = ''<a/>'', sq_written = 1\<rparr>, \<lparr>sq_data = ''<b/>'', sq_written = 0\<rparr>]\<rparr>;
       conn' = conn_write [W_wrote 3, W_wrote 2, W_again] conn
   in on_wire (cx_wire conn') = ''a/><b'' \<and> on_wire (cx_wire conn') @ unsent (cx_send_queue conn') = ''a/><b/>''"
  using conn_write_exact [of "xmpp_conn_new\<lparr>cx_state := XMPP_STATE_CONNECTED, cx_send_queue := [\<lparr>sq_data = ''<a/>'', sq_written = 1\<rparr>, \<lparr>sq_data = ''<b/>'', sq_written = 0\<rparr>]\<rparr>"
      "[W_wrote 3, W_wrote 2, W_again]"]
  by (simp add: Let_def xmpp_conn_new_def conn_prepare_reset_def conn_write_def)

section \<open>TLS\<close>

text \<open>The handler of the answer to STARTTLS is there only before TLS has started.\<close>

definition tls_sane :: "xmpp_conn \<Rightarrow> bool" where
  "tls_sane conn \<longleftrightarrow> \<not> cx_tls_support conn \<and> handlers_distinct (cx_handlers conn) \<and>
     (cx_secured conn \<longrightarrow> Handle_proceedtls_default \<notin> fns (cx_handlers conn)) \<and>
     (\<forall>i. Handle_proceedtls_default \<notin> fns (cx_id_handlers conn i))"

lemma tls_sane_effect:
  assumes "\<not> cx_tls_support base" "handlers_distinct (cx_handlers base)" "login_effect H L base conn'"
    and "cx_secured base \<Longrightarrow> Handle_proceedtls_default \<notin> fns (cx_handlers base) \<union> H"
    and "\<And>i. Handle_proceedtls_default \<notin> fns (cx_id_handlers base i) \<union> L i"
  shows "tls_sane conn'"
proof -
  have "Handle_proceedtls_default \<notin> fns (cx_id_handlers conn' i)" for i using assms(3) assms(5) [of i] by (auto simp: login_effect_def)
  moreover
  have "fns (cx_handlers conn') \<subseteq> fns (cx_handlers base) \<union> H" using assms(3) by (simp add: login_effect_def)
  then have "cx_secured base \<Longrightarrow> Handle_proceedtls_default \<notin> fns (cx_handlers conn')" using assms(4) by blast
  ultimately show ?thesis using assms(1-3) by (simp add: tls_sane_def login_effect_def)
qed

text \<open>A call with the removal that follows it.\<close>

lemma after_call_sane: "tls_sane conn \<Longrightarrow> tls_sane (after_call keep h conn)"
  using fns_unlink [of h "cx_handlers conn"] by (auto simp: tls_sane_def after_call_def xmpp_handler_delete_def handlers_distinct_unlink)

lemma stanza_ids_no_tls: "Handle_proceedtls_default \<notin> stanza_ids h stanza i"
  by (simp add: stanza_ids_def only_at_def)

lemma tls_sane_call:
  assumes "tls_sane conn" "stanza_call env h stanza conn = Some (keep, conn')" "h \<noteq> Handle_proceedtls_default"
  shows "tls_sane conn'"
proof -
  obtain base where b: "login_base h stanza conn base" "login_effect (stanza_adds h conn) (stanza_ids h stanza) base conn'"
    using stanza_call_effect [OF assms(2)] by blast
  have s: "cx_handlers base = cx_handlers conn" "cx_tls_support base = cx_tls_support conn" "cx_secured base = cx_secured conn"
    "cx_id_handlers base = cx_id_handlers conn"
    using b(1) assms(3) by (auto simp: login_base_def conn_prepare_reset_def)
  show ?thesis
    by (rule tls_sane_effect [OF _ _ b(2)])
      (use assms(1) s stanza_ids_no_tls in \<open>auto simp: tls_sane_def stanza_adds_def auth_fns_def sasl_fns_def split: if_splits\<close>)
qed

lemma call_sane:
  assumes "tls_sane conn" "stanza_call env h stanza conn = Some (keep, conn')" "cx_secured conn \<Longrightarrow> h \<noteq> Handle_proceedtls_default"
  shows "tls_sane (after_call keep h conn')"
proof (cases "h = Handle_proceedtls_default")
  case True
  then have c: "handle_proceedtls_default env stanza conn = Some (keep, conn')" using assms(2) by simp
  then have k: "\<not> keep" by (auto simp: handle_proceedtls_default_def split: Option.bind_splits if_splits)
  obtain base where b: "login_base h stanza conn base" "login_effect (stanza_adds h conn) (stanza_ids h stanza) base conn'"
    using stanza_call_effect [OF assms(2)] by blast
  have s: "cx_handlers base = cx_handlers conn" "cx_tls_support base = cx_tls_support conn" "cx_id_handlers base = cx_id_handlers conn"
    using b(1) True by (auto simp: login_base_def sasl_fns_def conn_prepare_reset_def)
  have "\<not> cx_tls_support conn'" "handlers_distinct (cx_handlers conn')" using b(2) assms(1) s by (auto simp: login_effect_def tls_sane_def)
  moreover have "Handle_proceedtls_default \<notin> fns (cx_id_handlers conn' i)" for i
  proof -
    have "fns (cx_id_handlers conn' i) \<subseteq> fns (cx_id_handlers conn i) \<union> stanza_ids h stanza i" using b(2) s(3) by (simp add: login_effect_def)
    then show ?thesis using assms(1) stanza_ids_no_tls by (auto simp: tls_sane_def)
  qed
  ultimately show ?thesis using k True by (simp add: tls_sane_def after_call_def xmpp_handler_delete_def handlers_distinct_unlink fns_unlink_distinct)
next
  case False
  show ?thesis by (rule after_call_sane [OF tls_sane_call [OF assms(1,2) False]])
qed

text \<open>What no call does to a connection that is closed or runs over TLS.\<close>

lemma call_quiet:
  assumes "stanza_call env h stanza conn = Some (keep, conn')"
  shows "cx_wire conn' = cx_wire conn" "cx_state conn' = cx_state conn" "cx_parser conn' = cx_parser conn" "cx_secured conn \<Longrightarrow> cx_secured conn'"
    "h \<noteq> Handle_proceedtls_default \<Longrightarrow> cx_tls conn' = cx_tls conn \<and> cx_secured conn' = cx_secured conn"
proof -
  obtain base where b: "login_base h stanza conn base" "login_effect (stanza_adds h conn) (stanza_ids h stanza) base conn'"
    using stanza_call_effect [OF assms] by blast
  have "cx_wire base = cx_wire conn \<and> cx_state base = cx_state conn \<and> cx_parser base = cx_parser conn \<and> (cx_secured conn \<longrightarrow> cx_secured base) \<and>
      (h \<noteq> Handle_proceedtls_default \<longrightarrow> cx_tls base = cx_tls conn \<and> cx_secured base = cx_secured conn)"
    using b(1) unfolding login_base_def by (elim disjE conjE) (simp_all add: conn_prepare_reset_def)
  then show "cx_wire conn' = cx_wire conn" "cx_state conn' = cx_state conn" "cx_parser conn' = cx_parser conn" "cx_secured conn \<Longrightarrow> cx_secured conn'"
    "h \<noteq> Handle_proceedtls_default \<Longrightarrow> cx_tls conn' = cx_tls conn \<and> cx_secured conn' = cx_secured conn"
    using b(2) unfolding login_effect_def by simp_all
qed

text \<open>
  STARTTLS has been asked for and not yet answered: no handler sends anything but the end of the stream until TLS has started.
\<close>

definition closing :: "nat \<Rightarrow> string" where
  "closing k = concat (replicate k ''</stream:stream>'')"

definition tls_wait :: "xmpp_conn \<Rightarrow> bool" where
  "tls_wait conn \<longleftrightarrow> \<not> cx_secured conn \<and> \<not> cx_tls conn \<and> fns (cx_handlers conn) \<subseteq> {Handle_error, Handle_proceedtls_default} \<and>
     (\<forall>i. cx_id_handlers conn i = []) \<and> fns (cx_timed_handlers conn) \<subseteq> {Disconnect_cleanup} \<and>
     pa_depth (cx_parser conn) \<ge> 1 \<and> \<not> cx_reset_parser conn"

definition tls_first :: "string \<Rightarrow> xmpp_conn \<Rightarrow> bool" where
  "tls_first cleartext conn \<longleftrightarrow> tls_sane conn \<and>
     (if cx_state conn = XMPP_STATE_DISCONNECTED \<or> cx_state conn = XMPP_STATE_CONNECTED \<and> cx_secured conn \<and> cx_tls conn
      then \<exists>k. prefix (plain conn) (cleartext @ closing k)
      else cx_state conn = XMPP_STATE_CONNECTED \<and> tls_wait conn \<and> (\<exists>k. plain conn @ unsent (cx_send_queue conn) = cleartext @ closing k))"

definition tls_over :: "xmpp_conn \<Rightarrow> bool" where
  "tls_over conn \<longleftrightarrow> cx_state conn = XMPP_STATE_DISCONNECTED \<or> cx_state conn = XMPP_STATE_CONNECTED \<and> cx_secured conn \<and> cx_tls conn"

lemma concat_replicate_snoc: "concat (replicate k x) @ x = concat (replicate (Suc k) x)"
  by (induction k) auto

lemma closing_Suc: "closing k @ ''</stream:stream>'' = closing (Suc k)"
  unfolding closing_def by (rule concat_replicate_snoc)

lemma tls_first_over: "tls_over conn \<Longrightarrow> tls_first cleartext conn \<longleftrightarrow> tls_sane conn \<and> (\<exists>k. prefix (plain conn) (cleartext @ closing k))"
  by (simp add: tls_first_def tls_over_def)

lemma tls_first_wait: "\<not> tls_over conn \<Longrightarrow> tls_first cleartext conn \<longleftrightarrow> tls_sane conn \<and> cx_state conn = XMPP_STATE_CONNECTED \<and> tls_wait conn \<and>
    (\<exists>k. plain conn @ unsent (cx_send_queue conn) = cleartext @ closing k)"
  by (auto simp: tls_first_def tls_over_def)

text \<open>A connection over TLS, or closed, stays so.\<close>

lemma tls_first_quiet:
  assumes "tls_first cleartext conn" "tls_over conn" "tls_sane conn'" "cx_wire conn' = cx_wire conn" "tls_over conn'"
  shows "tls_first cleartext conn'"
  using assms by (simp add: tls_first_over plain_def)

text \<open>While it waits, what is written or queued stays the same up to the end of the stream.\<close>

lemma tls_first_prefix: "tls_first cleartext conn \<Longrightarrow> \<exists>k. prefix (plain conn) (cleartext @ closing k)"
proof (cases "tls_over conn")
  case False
  assume "tls_first cleartext conn"
  with False obtain k where "plain conn @ unsent (cx_send_queue conn) = cleartext @ closing k" by (auto simp: tls_first_wait)
  then show ?thesis by (metis prefixI)
qed (simp add: tls_first_over)

lemma tls_first_stop:
  assumes "tls_first cleartext conn" "tls_sane conn'" "cx_wire conn' = cx_wire conn" "tls_over conn'"
  shows "tls_first cleartext conn'"
  using tls_first_prefix [OF assms(1)] assms(2-4) by (simp add: tls_first_over plain_def)

lemma tls_first_same:
  assumes "tls_first cleartext conn" "\<not> tls_over conn" "tls_sane conn'" "cx_wire conn' = cx_wire conn" "cx_state conn' = cx_state conn"
    and "cx_send_queue conn' = cx_send_queue conn" "cx_secured conn' = cx_secured conn" "cx_tls conn' = cx_tls conn"
    and "fns (cx_handlers conn') \<subseteq> fns (cx_handlers conn)" "cx_id_handlers conn' = cx_id_handlers conn"
    and "fns (cx_timed_handlers conn') \<subseteq> fns (cx_timed_handlers conn)" "pa_depth (cx_parser conn') \<ge> 1" "cx_reset_parser conn' = cx_reset_parser conn"
  shows "tls_first cleartext conn'"
proof -
  have w: "tls_wait conn" "cx_state conn = XMPP_STATE_CONNECTED" "\<exists>k. plain conn @ unsent (cx_send_queue conn) = cleartext @ closing k"
    using assms(1,2) by (auto simp: tls_first_wait)
  then have "tls_wait conn'" using assms(7-) by (auto simp: tls_wait_def)
  moreover from this have "\<not> tls_over conn'" using assms(5) w(2) by (simp add: tls_over_def tls_wait_def)
  ultimately show ?thesis using w(2,3) assms(3-6) by (simp add: tls_first_wait plain_def)
qed

lemma call_wait:
  assumes "tls_first cleartext conn" "\<not> tls_over conn" "stanza_call env h stanza conn = Some (keep, conn')" "h \<in> {Handle_error, Handle_proceedtls_default}"
    and sane: "tls_sane (after_call keep h conn')"
  shows "tls_first cleartext (after_call keep h conn')"
proof -
  have w: "tls_wait conn" "cx_state conn = XMPP_STATE_CONNECTED" using assms(1,2) by (auto simp: tls_first_wait)
  have depth: "pa_depth (cx_parser conn') \<ge> 1" using w(1) call_quiet(3) [OF assms(3)] by (simp add: tls_wait_def)
  have sub: "fns (cx_handlers (after_call keep h c)) \<subseteq> fns (cx_handlers c)" for c
    using fns_unlink by (auto simp: after_call_def xmpp_handler_delete_def)
  have same: ?thesis if "\<exists>e. conn' = conn\<lparr>cx_stream_error := e\<rparr>"
    by (rule tls_first_same [OF assms(1,2) sane]) (use that sub [of conn'] depth in \<open>auto simp: after_call_def\<close>)
  show ?thesis
  proof (cases "h = Handle_error")
    case True
    then show ?thesis using assms(3) by (intro same) (auto simp: handle_error_def Let_def split: Option.bind_splits if_splits)
  next
    case False
    then have "handle_proceedtls_default env stanza conn = Some (keep, conn')" using assms(3,4) by simp
    then consider "conn' = conn" | "strophe_disconnect (conn\<lparr>cx_tls := False, cx_tls_failed := True\<rparr>) = Some conn'"
      | "conn_open_stream (conn_prepare_reset Auth_handle_open (conn\<lparr>cx_tls := True, cx_secured := True\<rparr>)) = Some conn'"
      by (auto simp: handle_proceedtls_default_def split: Option.bind_splits if_splits)
    then show ?thesis
    proof cases
      case 1
      then show ?thesis by (intro same exI [of _ "cx_stream_error conn"]) simp
    next
      case 2
      then have c: "conn' = conn_handler_add_timed Disconnect_cleanup DISCONNECT_TIMEOUT None (queued [''</stream:stream>''] (conn\<lparr>cx_tls := False, cx_tls_failed := True\<rparr>))"
        using w(2) by (simp add: strophe_disconnect_queued)
      obtain k where k: "plain conn @ unsent (cx_send_queue conn) = cleartext @ closing k" using assms(1,2) by (auto simp: tls_first_wait)
      have q: "unsent (cx_send_queue (after_call keep h conn')) = unsent (cx_send_queue conn) @ ''</stream:stream>''"
        "plain (after_call keep h conn') = plain conn"
        using w(2) by (simp_all add: c after_call_def queued_def conn_handler_add_timed_def plain_def)
      have "plain (after_call keep h conn') @ unsent (cx_send_queue (after_call keep h conn')) = (cleartext @ closing k) @ ''</stream:stream>''"
        unfolding q k [symmetric] by (rule append_assoc [symmetric])
      then have "plain (after_call keep h conn') @ unsent (cx_send_queue (after_call keep h conn')) = cleartext @ closing (Suc k)"
        unfolding append_assoc closing_Suc .
      moreover have st: "cx_state (after_call keep h conn') = XMPP_STATE_CONNECTED" using w(2) by (simp add: c after_call_def conn_handler_add_timed_def)
      moreover have "tls_wait (after_call keep h conn')"
        using w(1) sub [of conn'] by (auto simp: tls_wait_def c after_call_def conn_handler_add_timed_def)
      moreover from this st have "\<not> tls_over (after_call keep h conn')" by (simp add: tls_over_def tls_wait_def)
      ultimately show ?thesis using sane by (auto simp: tls_first_wait)
    next
      case 3
      then have "cx_wire conn' = cx_wire conn \<and> cx_state conn' = XMPP_STATE_CONNECTED \<and> cx_secured conn' \<and> cx_tls conn'"
        using w(2) by (auto simp: conn_open_stream_queued conn_prepare_reset_def)
      then show ?thesis by (intro tls_first_stop [OF assms(1) sane]) (simp_all add: after_call_def tls_over_def)
    qed
  qed
qed

lemma call_first:
  assumes "tls_first cleartext conn" "stanza_call env h stanza conn = Some (keep, conn')" "cx_secured conn \<Longrightarrow> h \<noteq> Handle_proceedtls_default"
    and "\<not> tls_over conn \<Longrightarrow> h \<in> {Handle_error, Handle_proceedtls_default}"
  shows "tls_first cleartext (after_call keep h conn')"
proof -
  have "tls_sane conn" using assms(1) by (simp add: tls_first_def)
  from call_sane [OF this assms(2,3)] have sane: "tls_sane (after_call keep h conn')" .
  note q = call_quiet [OF assms(2)]
  show ?thesis
  proof (cases "tls_over conn")
    case False
    then show ?thesis using call_wait [OF assms(1) _ assms(2) _ sane] assms(4) by blast
  next
    case True
    have "tls_over conn'" using True q assms(3) by (auto simp: tls_over_def)
    then show ?thesis using q by (intro tls_first_quiet [OF assms(1) True sane]) (simp_all add: after_call_def tls_over_def)
  qed
qed

lemma fire_handlers_first:
  assumes "fire_handlers env stanza items conn = Some conn'" "tls_first cleartext conn" "handlers_distinct items"
    and "cx_secured conn \<Longrightarrow> Handle_proceedtls_default \<notin> fns items" "\<not> tls_over conn \<Longrightarrow> fns items \<subseteq> {Handle_error, Handle_proceedtls_default}"
  shows "tls_first cleartext conn'"
proof -
  let ?P = "\<lambda>items conn. tls_first cleartext conn \<and> handlers_distinct items \<and> (cx_secured conn \<longrightarrow> Handle_proceedtls_default \<notin> fns items) \<and>
    (\<not> tls_over conn \<longrightarrow> fns items \<subseteq> {Handle_error, Handle_proceedtls_default})"
  have "?P [] conn'"
  proof (rule fire_handlers_walk [OF assms(1), of ?P])
    fix item :: strophe_item and items :: "strophe_item list" and conn keep conn1
    assume p: "?P (item # items) conn" and c: "stanza_call env (hl_handler item) stanza conn = Some (keep, conn1)"
    have d: "handlers_distinct items" "hl_handler item \<notin> fns items" using p by (auto simp: handlers_distinct_def fns_def)
    have "tls_first cleartext (after_call keep (hl_handler item) conn1)" by (rule call_first [OF _ c]) (use p in auto)
    moreover have "cx_secured conn1 = cx_secured conn \<or> hl_handler item = Handle_proceedtls_default" using call_quiet(5) [OF c] by blast
    moreover have "tls_over conn \<Longrightarrow> tls_over conn1" using call_quiet [OF c] p by (auto simp: tls_over_def)
    ultimately show "?P items (after_call keep (hl_handler item) conn1)" using d p by (auto simp: after_call_def tls_over_def split: if_splits)
  qed (use assms in \<open>auto simp: handlers_distinct_def\<close>)
  then show ?thesis by blast
qed

lemma fire_chain_first:
  assumes "fire_chain env i stanza items conn = Some conn'" "tls_first cleartext conn" "tls_over conn \<or> items = []" "Handle_proceedtls_default \<notin> fns items"
  shows "tls_first cleartext conn'"
proof -
  let ?P = "\<lambda>items conn. tls_first cleartext conn \<and> (tls_over conn \<or> items = []) \<and> Handle_proceedtls_default \<notin> fns items"
  have "?P [] conn'"
  proof (rule fire_chain_walk [OF assms(1), of ?P])
    fix item :: strophe_item and items :: "strophe_item list" and conn keep conn1
    assume p: "?P (item # items) conn" and c: "stanza_call env (hl_handler item) stanza conn = Some (keep, conn1)"
    let ?conn = "after_id_call keep (hl_handler item) i conn1"
    have h: "hl_handler item \<noteq> Handle_proceedtls_default" and over: "tls_over conn" and first: "tls_first cleartext conn" using p by auto
    then have "tls_sane conn1" using tls_sane_call [OF _ c h] by (simp add: tls_first_def)
    then have sane: "tls_sane ?conn" using fns_unlink by (auto simp: after_id_call_def tls_sane_def xmpp_id_handler_delete_def)
    have q: "cx_wire ?conn = cx_wire conn" "tls_over ?conn" using call_quiet [OF c] over h by (auto simp: tls_over_def after_id_call_def)
    from tls_first_quiet [OF first over sane q] q(2) p show "?P items ?conn" by simp
  qed (use assms in auto)
  then show ?thesis by blast
qed

lemma handlers_distinct_enable [simp]: "handlers_distinct (handlers_enable items) = handlers_distinct items"
  by (simp add: handlers_distinct_def handlers_enable_def comp_def)

text \<open>Changes that concern neither the handlers of stanzas nor the queue.\<close>

lemma tls_first_cong:
  assumes "tls_first cleartext conn" "cx_wire conn' = cx_wire conn" "cx_state conn' = cx_state conn" "cx_send_queue conn' = cx_send_queue conn"
    and "cx_secured conn' = cx_secured conn" "cx_tls conn' = cx_tls conn" "cx_tls_support conn' = cx_tls_support conn"
    and "cx_handlers conn' = cx_handlers conn \<or> cx_handlers conn' = handlers_enable (cx_handlers conn)" "cx_id_handlers conn' = cx_id_handlers conn"
    and "fns (cx_timed_handlers conn') \<subseteq> fns (cx_timed_handlers conn)" "\<not> tls_over conn \<Longrightarrow> pa_depth (cx_parser conn') \<ge> 1" "cx_reset_parser conn' = cx_reset_parser conn"
  shows "tls_first cleartext conn'"
proof -
  have f: "fns (cx_handlers conn') = fns (cx_handlers conn)" "handlers_distinct (cx_handlers conn') = handlers_distinct (cx_handlers conn)"
    using assms(8) by auto
  then have sane: "tls_sane conn'" using assms(1,5,7,9) by (simp add: tls_first_def tls_sane_def)
  show ?thesis
  proof (cases "tls_over conn")
    case True
    then show ?thesis by (rule tls_first_quiet [OF assms(1) _ sane assms(2)]) (use True assms(3,5,6) in \<open>simp add: tls_over_def\<close>)
  next
    case False
    then show ?thesis by (rule tls_first_same [OF assms(1) _ sane assms(2,3,4,5,6) _ assms(9,10) _ assms(12)]) (use f(1) assms(11) False in simp_all)
  qed
qed

lemma fire_stanza_first:
  assumes "conn_fire_stanza env stanza conn = Some conn'" "tls_first cleartext conn"
  shows "tls_first cleartext conn'"
proof -
  obtain i conn1 where c: "(case i of None \<Rightarrow> Some conn | Some i \<Rightarrow> fire_chain env i stanza (cx_id_handlers conn i) conn) = Some conn1"
    and f: "fire_handlers env stanza (handlers_enable (cx_handlers conn1)) (conn1\<lparr>cx_handlers := handlers_enable (cx_handlers conn1)\<rparr>) = Some conn'"
    using assms(1) by (auto simp: conn_fire_stanza_def Let_def split: Option.bind_splits)
  have "tls_first cleartext conn1"
  proof (cases i)
    case (Some j)
    have "tls_over conn \<or> cx_id_handlers conn j = []" using assms(2) by (cases "tls_over conn") (auto simp: tls_first_wait tls_wait_def)
    moreover have "Handle_proceedtls_default \<notin> fns (cx_id_handlers conn j)" using assms(2) by (simp add: tls_first_def tls_sane_def)
    ultimately show ?thesis using fire_chain_first [OF _ assms(2)] c Some by auto
  qed (use c assms(2) in simp)
  then have t: "tls_first cleartext (conn1\<lparr>cx_handlers := handlers_enable (cx_handlers conn1)\<rparr>)" (is "tls_first cleartext ?conn")
    by (rule tls_first_cong) (use \<open>tls_first cleartext conn1\<close> in \<open>auto simp: tls_first_wait tls_wait_def\<close>)
  have "tls_sane ?conn" using t by (simp add: tls_first_def)
  then have "handlers_distinct (cx_handlers ?conn)" "cx_secured ?conn \<Longrightarrow> Handle_proceedtls_default \<notin> fns (cx_handlers ?conn)"
    by (auto simp: tls_sane_def)
  moreover have "\<not> tls_over ?conn \<Longrightarrow> fns (cx_handlers ?conn) \<subseteq> {Handle_error, Handle_proceedtls_default}"
    using t by (simp add: tls_first_wait tls_wait_def)
  ultimately show ?thesis using fire_handlers_first [OF f t] by simp
qed

lemma tls_sane_disconnect: "tls_sane conn \<Longrightarrow> tls_sane (conn_disconnect conn)"
  by (simp add: tls_sane_def conn_disconnect_def)

lemma disconnect_first:
  assumes "tls_first cleartext conn"
  shows "tls_first cleartext (conn_disconnect conn)" "tls_first cleartext (conn_disconnect (conn\<lparr>cx_error := e\<rparr>))"
proof -
  have "tls_sane conn" using assms by (simp add: tls_first_def)
  then have "tls_sane (conn_disconnect conn)" "tls_sane (conn_disconnect (conn\<lparr>cx_error := e\<rparr>))" by (simp_all add: tls_sane_def conn_disconnect_def)
  then show "tls_first cleartext (conn_disconnect conn)" "tls_first cleartext (conn_disconnect (conn\<lparr>cx_error := e\<rparr>))"
    by (auto intro: tls_first_stop [OF assms] simp: conn_disconnect_def tls_over_def)
qed

lemma fns_stamp: "fns (map (\<lambda>x. if hl_handler x = h then x\<lparr>hl_last_stamp := t\<rparr> else x) items) = fns items"
  by (induction items) auto

lemma fire_timed_first:
  assumes "fire_timed env items conn = Some conn'" "tls_first cleartext conn" "\<not> tls_over conn \<Longrightarrow> fns items \<subseteq> {Disconnect_cleanup}"
  shows "tls_first cleartext conn'"
proof -
  let ?P = "\<lambda>items conn. tls_first cleartext conn \<and> (\<not> tls_over conn \<longrightarrow> fns items \<subseteq> {Disconnect_cleanup})"
  have "?P [] conn'"
  proof (rule fire_timed_walk [OF assms(1), of ?P])
    fix item :: strophe_item and items :: "strophe_item list" and conn keep conn1
    let ?conn = "stamped (hl_handler item) conn"
    assume p: "?P (item # items) conn" and c: "timed_call env (hl_handler item) ?conn = Some (keep, conn1)"
    have pre: "tls_first cleartext ?conn"
      by (rule tls_first_cong [of cleartext conn]) (use p in \<open>auto simp: stamped_def fns_stamp tls_first_wait tls_wait_def\<close>)
    have over: "tls_over ?conn = tls_over conn" by (simp add: tls_over_def stamped_def)
    from timed_call_effect [OF c] consider "conn1 = conn_disconnect ?conn"
      | "hl_handler item \<noteq> Disconnect_cleanup" "login_effect (auth_fns (cx_tls_support ?conn)) (only_at ''_xmpp_auth1'' Handle_legacy) ?conn conn1"
      using c by (cases "hl_handler item = Disconnect_cleanup") (auto simp: disconnect_cleanup_def)
    then have t: "tls_first cleartext conn1 \<and> tls_over conn1"
    proof cases
      case 1
      show ?thesis unfolding 1 using disconnect_first(1) [OF pre] by (simp add: tls_over_def conn_disconnect_def)
    next
      case 2
      then have o: "tls_over ?conn" using p over by auto
      have "tls_sane ?conn" using pre by (simp add: tls_first_def)
      then have sane: "tls_sane conn1" by (intro tls_sane_effect [OF _ _ 2(2)]) (auto simp: tls_sane_def auth_fns_def sasl_fns_def only_at_def)
      have w: "cx_wire conn1 = cx_wire ?conn" "tls_over conn1" using 2(2) o by (auto simp: login_effect_def tls_over_def)
      from tls_first_quiet [OF pre o sane w] w(2) show ?thesis by simp
    qed
    have "tls_first cleartext (after_timed_call keep (hl_handler item) conn1)"
      by (rule tls_first_cong [of cleartext conn1]) (use t fns_timed_delete in \<open>auto simp: after_timed_call_def conn_timed_delete_def\<close>)
    then show "?P items (after_timed_call keep (hl_handler item) conn1)" using t by (auto simp: tls_over_def after_timed_call_def conn_timed_delete_def)
  qed (use assms in auto)
  then show ?thesis by blast
qed

lemma stream_start_first:
  assumes "handle_stream_start name attrs conn = Some conn'" "tls_first cleartext conn" "tls_over conn"
  shows "tls_first cleartext conn'"
proof -
  have sane: "tls_sane (conn\<lparr>cx_stream_id := p\<rparr>)" for p using assms(2) by (simp add: tls_first_def tls_sane_def)
  have "\<exists>conn1. conn' = open_handler conn1 \<and> tls_over conn1 \<and> cx_wire conn1 = cx_wire conn \<and> tls_sane conn1"
  proof (cases "name = ''stream:stream''")
    case False
    then have "conn' = open_handler (conn_disconnect conn)" using assms(1) by (simp add: handle_stream_start_def)
    then show ?thesis using tls_sane_disconnect [of conn] sane [of "cx_stream_id conn"]
      by (intro exI [of _ "conn_disconnect conn"]) (simp add: tls_over_def conn_disconnect_def)
  next
    case True
    with assms(1) obtain p where "conn' = open_handler (if p = Null then conn_disconnect (conn\<lparr>cx_stream_id := p\<rparr>) else conn\<lparr>cx_stream_id := p\<rparr>)"
      by (auto simp: handle_stream_start_def Let_def split: Option.bind_splits)
    then show ?thesis using assms(3) sane [of p] tls_sane_disconnect [OF sane [of p]]
      by (cases "p = Null"; intro exI [of _ "if p = Null then conn_disconnect (conn\<lparr>cx_stream_id := p\<rparr>) else conn\<lparr>cx_stream_id := p\<rparr>"])
        (auto simp: tls_over_def conn_disconnect_def)
  qed
  then obtain conn1 where c: "conn' = open_handler conn1" and o: "tls_over conn1" "cx_wire conn1 = cx_wire conn" "tls_sane conn1" by blast
  have "tls_over conn'" "cx_wire conn' = cx_wire conn1" "tls_sane conn'"
    using o(1,3) unfolding c
    by (cases "cx_open_handler conn1"; simp add: open_handler_def auth_handle_open_def handle_open_sasl_def conn_handler_add_def
        conn_handler_add_timed_def Let_def tls_over_def tls_sane_def handler_add_distinct)+
  then show ?thesis using o(2) by (intro tls_first_quiet [OF assms(2,3)]) simp_all
qed

lemma parser_event_first:
  assumes "parser_event env e conn = Some conn'" "tls_first cleartext conn"
  shows "tls_first cleartext conn'"
proof (cases e)
  case (StartElement name attrs)
  show ?thesis
  proof (cases "pa_depth (cx_parser conn) = 0")
    case True
    then have o: "tls_over conn" using assms(2) by (cases "tls_over conn") (auto simp: tls_first_wait tls_wait_def)
    obtain conn1 where c: "handle_stream_start name attrs conn = Some conn1" "conn' = conn1\<lparr>cx_parser := (cx_parser conn1)\<lparr>pa_depth := 1\<rparr>\<rparr>"
      using assms(1) StartElement True by (auto simp: parser_start_element_def Let_def split: Option.bind_splits)
    have "tls_first cleartext conn1" by (rule stream_start_first [OF c(1) assms(2) o])
    then show ?thesis unfolding c(2) by (rule tls_first_cong) simp_all
  next
    case False
    then obtain p where "conn' = conn\<lparr>cx_parser := p\<lparr>pa_depth := pa_depth (cx_parser conn) + 1\<rparr>\<rparr>"
      using assms(1) StartElement by (auto simp: parser_start_element_def Let_def split: if_splits Option.bind_splits)
    then show ?thesis by (intro tls_first_cong [OF assms(2)]) (use assms(2) in \<open>auto simp: tls_first_wait tls_wait_def\<close>)
  qed
next
  case (CharData t)
  then have "\<exists>p. conn' = conn\<lparr>cx_parser := (cx_parser conn)\<lparr>pa_stanza := p\<rparr>\<rparr>"
    using assms(1) by (auto simp: parser_characters_def Let_def split: if_splits Option.bind_splits list.splits intro: exI [of _ "pa_stanza (cx_parser conn)"])
  then show ?thesis by (elim exE; intro tls_first_cong [OF assms(2)]) (use assms(2) in \<open>auto simp: tls_first_wait tls_wait_def\<close>)
next
  case (EndElement name)
  define conn1 where "conn1 = conn\<lparr>cx_parser := (cx_parser conn)\<lparr>pa_depth := pa_depth (cx_parser conn) - 1\<rparr>\<rparr>"
  have eq: "parser_end_element env conn = Some conn'" using assms(1) EndElement by simp
  have depth: "\<not> tls_over conn \<Longrightarrow> pa_depth (cx_parser conn) \<ge> 1" using assms(2) by (simp add: tls_first_wait tls_wait_def)
  show ?thesis
  proof (cases "pa_depth (cx_parser conn) = 1")
    case True
    with parser_end_cases [OF eq conn1_def] have "conn' = handle_stream_end conn1" by auto
    then show ?thesis using assms(2)
      by (intro tls_first_stop [OF assms(2)]) (auto simp: conn1_def handle_stream_end_def conn_disconnect_clean_def conn_timed_delete_def conn_disconnect_def
          tls_over_def tls_first_def tls_sane_def)
  next
    case False
    then have f1: "tls_first cleartext conn1" unfolding conn1_def by (intro tls_first_cong [OF assms(2)]) (use depth in auto)
    from False parser_end_cases [OF eq conn1_def] consider
      s conn2 where "handle_stream_stanza env s conn1 = Some conn2" "conn' = conn2\<lparr>cx_parser := (cx_parser conn2)\<lparr>pa_stanza := []\<rparr>\<rparr>"
      | p where "conn' = conn1\<lparr>cx_parser := (cx_parser conn1)\<lparr>pa_stanza := p\<rparr>\<rparr>" by blast
    then show ?thesis
    proof cases
      case 1
      then have f2: "tls_first cleartext conn2" using fire_stanza_first [OF _ f1] by (simp add: handle_stream_stanza_def)
      show ?thesis unfolding 1(2) by (rule tls_first_cong [OF f2]) (use f2 in \<open>auto simp: tls_first_wait tls_wait_def\<close>)
    next
      case 2
      show ?thesis unfolding 2 by (rule tls_first_cong [OF f1]) (use f1 in \<open>auto simp: tls_first_wait tls_wait_def\<close>)
    qed
  qed
qed

lemma write_first:
  assumes "tls_first cleartext conn"
  shows "tls_first cleartext (conn_write rs conn)"
proof (cases "cx_state conn = XMPP_STATE_CONNECTED")
  case False
  then show ?thesis using assms by (simp add: conn_write_def)
next
  case True
  have same: "cx_handlers (conn_write rs conn) = cx_handlers conn" "cx_id_handlers (conn_write rs conn) = cx_id_handlers conn"
    "cx_tls_support (conn_write rs conn) = cx_tls_support conn" "cx_secured (conn_write rs conn) = cx_secured conn"
    "cx_timed_handlers (conn_write rs conn) = cx_timed_handlers conn" "cx_parser (conn_write rs conn) = cx_parser conn"
    "cx_reset_parser (conn_write rs conn) = cx_reset_parser conn"
    by (auto simp: conn_write_def conn_disconnect_def Let_def split: prod.splits)
  have sane: "tls_sane (conn_write rs conn)" using assms by (simp add: tls_first_def tls_sane_def same)
  note w = conn_write_plain [OF True]
  show ?thesis
  proof (cases "tls_over conn")
    case o: True
    then have "cx_secured conn" "cx_tls conn" using True by (auto simp: tls_over_def)
    then have "tls_over (conn_write rs conn)" using w(3) [of rs] same by (auto simp: tls_over_def)
    then show ?thesis using sane w(1) [OF \<open>cx_tls conn\<close>] assms o by (simp add: tls_first_over)
  next
    case o: False
    then have t: "tls_wait conn" and "\<not> cx_tls conn" and "\<exists>k. plain conn @ unsent (cx_send_queue conn) = cleartext @ closing k"
      using assms by (auto simp: tls_first_wait tls_wait_def)
    then obtain k where k: "plain (conn_write rs conn) @ unsent (cx_send_queue (conn_write rs conn)) = cleartext @ closing k" using w(2) by metis
    show ?thesis
    proof (cases "cx_state (conn_write rs conn) = XMPP_STATE_DISCONNECTED")
      case True
      moreover have "prefix (plain (conn_write rs conn)) (cleartext @ closing k)" unfolding k [symmetric] by simp
      ultimately show ?thesis using sane by (auto simp: tls_first_def)
    next
      case False
      then have "cx_state (conn_write rs conn) = XMPP_STATE_CONNECTED" "cx_tls (conn_write rs conn) = cx_tls conn" using w(3) [of rs] by auto
      moreover from this have "tls_wait (conn_write rs conn)" using t by (simp add: tls_wait_def same)
      ultimately show ?thesis using sane k by (auto simp: tls_first_def tls_wait_def)
    qed
  qed
qed

interpretation secure: login_invariant env "\<lambda>_. tls_first cleartext" for env cleartext
proof unfold_locales
  fix conn and rs :: "write_result list" and t :: "64 word" and err :: int
  assume first: "tls_first cleartext conn"
  show "tls_first cleartext (conn_write rs conn)" by (rule write_first [OF first])
  show "tls_first cleartext (conn\<lparr>cx_now := t\<rparr>)" by (rule tls_first_cong [OF first]) (use first in \<open>auto simp: tls_first_wait tls_wait_def\<close>)
  show "tls_first cleartext (conn_disconnect (conn\<lparr>cx_error := err\<rparr>))" by (rule disconnect_first(2) [OF first])
  show "tls_first cleartext (conn_parser_reset conn)" if "cx_reset_parser conn"
  proof -
    have o: "tls_over conn" using first that by (cases "tls_over conn") (auto simp: tls_first_wait tls_wait_def)
    have "tls_sane conn" using first by (simp add: tls_first_def)
    then show ?thesis using o by (intro tls_first_quiet [OF first o]) (auto simp: conn_parser_reset_def tls_over_def tls_sane_def)
  qed
  fix conn'
  show "tls_first cleartext conn'" if "cx_state conn = XMPP_STATE_CONNECTING" using first that by (simp add: tls_first_def)
  let ?conn = "conn\<lparr>cx_timed_handlers := handlers_enable (cx_timed_handlers conn)\<rparr>"
  have f: "tls_first cleartext ?conn" by (rule tls_first_cong [OF first]) (use first in \<open>auto simp: tls_first_wait tls_wait_def\<close>)
  then have "\<not> tls_over ?conn \<Longrightarrow> fns (cx_timed_handlers ?conn) \<subseteq> {Disconnect_cleanup}" by (simp add: tls_first_wait tls_wait_def)
  then show "tls_first cleartext conn'" if "conn_fire_timed env conn = Some conn'"
    using that first fire_timed_first [OF _ f] by (auto simp: conn_fire_timed_def Let_def split: if_splits)
qed (rule parser_event_first)

section \<open>STARTTLS\<close>

text \<open>The handlers of the first stream.\<close>

definition first_handlers :: "strophe_item list" where
  "first_handlers = handlers_enable (handler_add (handler_add [] Handle_error None (Some ''stream:error'') None None False)
     Handle_features None (Some ''stream:features'') None None False)"

text \<open>A connection whose first stream has been opened and whose features are awaited.\<close>

definition login_opened :: "xmpp_conn \<Rightarrow> bool" where
  "login_opened conn \<longleftrightarrow> cx_state conn = XMPP_STATE_CONNECTED \<and> \<not> cx_secured conn \<and> \<not> cx_tls conn \<and> \<not> cx_tls_disabled conn \<and>
     \<not> cx_tls_support conn \<and> \<not> cx_reset_parser conn \<and> handlers_enable (cx_handlers conn) = first_handlers \<and> (\<forall>i. cx_id_handlers conn i = []) \<and>
     map hl_handler (cx_timed_handlers conn) = [Handle_missing_features]"

definition offers_tls :: "xmpp_stanza \<Rightarrow> bool" where
  "offers_tls stanza \<longleftrightarrow> xmpp_stanza_get_name stanza = Some ''stream:features'' \<and>
     (\<exists>c. xmpp_stanza_get_child_by_name stanza ''starttls'' = Some (Some c) \<and> xmpp_stanza_get_ns c = Some (Some XMPP_NS_TLS))"

definition starttls_text :: string where
  "starttls_text = ''<starttls xmlns='' @ [CHR 0x22] @ XMPP_NS_TLS @ [CHR 0x22] @ ''/>''"

lemma make_starttls_text: "\<exists>s. make_starttls = Some s \<and> text_of s = [starttls_text]"
proof -
  have "map_option text_of make_starttls = Some [starttls_text]" by code_simp
  then show ?thesis by (cases make_starttls) auto
qed

lemma handle_features_starttls:
  assumes "\<not> cx_secured conn" "\<not> cx_tls_disabled conn" "offers_tls stanza" "te_new env" "handle_features env stanza conn = Some (keep, conn')"
  shows "\<not> keep \<and> (\<exists>w. conn' = (queued [starttls_text] (conn\<lparr>cx_timed_handlers := xmpp_timed_handler_delete (cx_timed_handlers conn) Handle_missing_features,
     cx_sasl_support := w, cx_handlers := handler_add (cx_handlers conn) Handle_proceedtls_default (Some XMPP_NS_TLS) None None None False\<rparr>))
     \<lparr>cx_tls_support := False\<rparr>)"
proof -
  obtain c where c: "xmpp_stanza_get_child_by_name stanza ''starttls'' = Some (Some c)" "xmpp_stanza_get_ns c = Some (Some XMPP_NS_TLS)"
    using assms(3) by (auto simp: offers_tls_def)
  then have b: "child_has_ns (Some c) XMPP_NS_TLS = Some True" by (simp add: child_has_ns_def)
  obtain s where s: "make_starttls = Some s" "text_of s = [starttls_text]" using make_starttls_text by blast
  let ?c1 = "conn\<lparr>cx_timed_handlers := xmpp_timed_handler_delete (cx_timed_handlers conn) Handle_missing_features, cx_tls_support := True\<rparr>"
  have "\<exists>w. auth env (?c1\<lparr>cx_sasl_support := w\<rparr>) = Some conn' \<and> \<not> keep"
    using assms(1,2,5) c(1) b
    by (auto simp: handle_features_def conn_timed_delete_def Let_def split: Option.bind_splits option.splits if_splits intro: exI [of _ "cx_sasl_support conn"])
  then obtain w where w: "auth env (?c1\<lparr>cx_sasl_support := w\<rparr>) = Some conn'" "\<not> keep" by blast
  from w(1) have "conn' = (queued [starttls_text] (?c1\<lparr>cx_sasl_support := w, cx_handlers := handler_add (cx_handlers conn) Handle_proceedtls_default (Some XMPP_NS_TLS) None None None False\<rparr>))
     \<lparr>cx_tls_support := False\<rparr>"
    using assms(4) by (auto simp: auth_def conn_handler_add_def s split: Option.bind_splits)
  then have "conn' = (queued [starttls_text] (conn\<lparr>cx_timed_handlers := xmpp_timed_handler_delete (cx_timed_handlers conn) Handle_missing_features,
     cx_sasl_support := w, cx_handlers := handler_add (cx_handlers conn) Handle_proceedtls_default (Some XMPP_NS_TLS) None None None False\<rparr>))
     \<lparr>cx_tls_support := False\<rparr>" by (simp add: queued_def)
  with w(2) show ?thesis by blast
qed

lemma first_handlers_eq: "first_handlers = [(handlist_item False Handle_error None)\<lparr>hl_name := Some ''stream:error'', hl_enabled := True\<rparr>,
    (handlist_item False Handle_features None)\<lparr>hl_name := Some ''stream:features'', hl_enabled := True\<rparr>]"
  by (simp add: first_handlers_def handlers_enable_def handler_add_def handler_registered_def handlist_item_def)

text \<open>The answer to features that offer STARTTLS: the request, and nothing else.\<close>

lemma features_starttls:
  assumes "login_opened conn" "offers_tls stanza" "te_new env" "conn_fire_stanza env stanza conn = Some conn'"
  shows "\<exists>w. conn' = (queued [starttls_text] (conn\<lparr>cx_timed_handlers := [], cx_sasl_support := w, cx_handlers := [hd first_handlers,
     (handlist_item False Handle_proceedtls_default None)\<lparr>hl_ns := Some XMPP_NS_TLS\<rparr>]\<rparr>))"
proof -
  note o = assms(1) [unfolded login_opened_def]
  let ?c = "conn\<lparr>cx_handlers := first_handlers\<rparr>"
  obtain i where i: "xmpp_stanza_get_id stanza = Some i" using assms(4) by (auto simp: conn_fire_stanza_def split: Option.bind_splits)
  have fire: "fire_handlers env stanza first_handlers ?c = Some conn'"
    using assms(4) i o by (auto simp: conn_fire_stanza_def Let_def split: option.splits)
  let ?e = "(handlist_item False Handle_error None)\<lparr>hl_name := Some ''stream:error'', hl_enabled := True\<rparr> :: strophe_item"
  let ?f = "(handlist_item False Handle_features None)\<lparr>hl_name := Some ''stream:features'', hl_enabled := True\<rparr> :: strophe_item"
  have name: "xmpp_stanza_get_name stanza = Some ''stream:features''" using assms(2) by (simp add: offers_tls_def)
  have u: "\<not> hl_user_handler ?e" "\<not> hl_user_handler ?f" "hl_handler ?f = Handle_features" by (simp_all add: handlist_item_def)
  have "handler_matches ?e stanza \<noteq> None" 
  proof
    assume "handler_matches ?e stanza = None"
    with fire u(1) show False unfolding first_handlers_eq by simp
  qed
  then have d: "xmpp_stanza_get_ns stanza \<noteq> None" "xmpp_stanza_get_type stanza \<noteq> None"
    by (auto simp: handler_matches_def handlist_item_def Let_def split: Option.bind_splits)
  then have m: "handler_matches ?e stanza = Some False" "handler_matches ?f stanza = Some True"
    using name by (auto simp: handler_matches_def handlist_item_def)
  obtain keep conn1 where h: "handle_features env stanza ?c = Some (keep, conn1)"
    and r: "conn' = (if keep then conn1 else conn1\<lparr>cx_handlers := xmpp_handler_delete (cx_handlers conn1) Handle_features\<rparr>)"
  proof -
    have "fire_handlers env stanza first_handlers ?c = do { (keep, conn) \<leftarrow> handle_features env stanza ?c;
        Some (if keep then conn else conn\<lparr>cx_handlers := xmpp_handler_delete (cx_handlers conn) Handle_features\<rparr>) }"
      using m u unfolding first_handlers_eq by (cases "handle_features env stanza ?c") (auto simp: first_handlers_eq)
    with fire that show thesis by (auto split: Option.bind_splits)
  qed
  have "\<not> cx_secured ?c" "\<not> cx_tls_disabled ?c" using o by simp_all
  from handle_features_starttls [OF this assms(2,3) h] obtain w where k: "\<not> keep" and
    c: "conn1 = (queued [starttls_text] (?c\<lparr>cx_timed_handlers := xmpp_timed_handler_delete (cx_timed_handlers ?c) Handle_missing_features,
     cx_sasl_support := w, cx_handlers := handler_add (cx_handlers ?c) Handle_proceedtls_default (Some XMPP_NS_TLS) None None None False\<rparr>))
     \<lparr>cx_tls_support := False\<rparr>" by blast
  have t: "xmpp_timed_handler_delete (cx_timed_handlers conn) Handle_missing_features = []"
    using o by (auto simp: xmpp_timed_handler_delete_def map_eq_Cons_conv)
  have hs: "xmpp_handler_delete (handler_add first_handlers Handle_proceedtls_default (Some XMPP_NS_TLS) None None None False) Handle_features =
      [hd first_handlers, (handlist_item False Handle_proceedtls_default None)\<lparr>hl_ns := Some XMPP_NS_TLS\<rparr>]"
    by (simp add: first_handlers_eq handler_add_def handler_registered_def xmpp_handler_delete_def handlist_item_def)
  have st: "cx_state conn = XMPP_STATE_CONNECTED" "\<not> cx_tls_support conn" using o by simp_all
  have "conn' = (queued [starttls_text] (conn\<lparr>cx_timed_handlers := [], cx_sasl_support := w, cx_handlers := [hd first_handlers,
     (handlist_item False Handle_proceedtls_default None)\<lparr>hl_ns := Some XMPP_NS_TLS\<rparr>]\<rparr>))"
    unfolding r c using k t hs st by (simp add: queued_def)
  then show ?thesis by blast
qed

lemma features_tls_first:
  assumes "login_opened conn" "offers_tls stanza" "te_new env" "conn_fire_stanza env stanza conn = Some conn'" "pa_depth (cx_parser conn) \<ge> 1"
  shows "tls_first (plain conn @ unsent (cx_send_queue conn) @ starttls_text) conn'"
proof -
  obtain w where c: "conn' = (queued [starttls_text] (conn\<lparr>cx_timed_handlers := [], cx_sasl_support := w, cx_handlers := [hd first_handlers,
     (handlist_item False Handle_proceedtls_default None)\<lparr>hl_ns := Some XMPP_NS_TLS\<rparr>]\<rparr>))" using features_starttls [OF assms(1-4)] by blast
  note o = assms(1) [unfolded login_opened_def]
  have q: "plain conn' @ unsent (cx_send_queue conn') = (plain conn @ unsent (cx_send_queue conn) @ starttls_text) @ closing 0"
    using o by (simp add: c queued_def plain_def closing_def)
  have "tls_sane conn'" using o by (simp add: c tls_sane_def handlers_distinct_def first_handlers_eq handlist_item_def)
  moreover have "tls_wait conn'" using o assms(5) by (simp add: c tls_wait_def first_handlers_eq handlist_item_def)
  ultimately show ?thesis using o q by (auto simp: c tls_first_def tls_wait_def)
qed

text \<open>A connection that waits for the features, features that offer STARTTLS, and a refusal.\<close>

definition opened_conn :: xmpp_conn where
  "opened_conn = auth_handle_open strophe_example"

lemma opened_conn_eq: "login_opened opened_conn"
  by (simp add: opened_conn_def login_opened_def auth_handle_open_def Let_def conn_handler_add_def conn_handler_add_timed_def strophe_example_defs
    first_handlers_def handler_add_def handler_registered_def timed_handler_add_def handlers_enable_def handlist_item_def)

definition tls_features :: xmpp_stanza where
  "tls_features = xmpp_stanza_add_child (stanza_named ''stream:features'') (the make_starttls)"

definition tls_refusal :: xmpp_stanza where
  "tls_refusal = the (set_attr (stanza_named ''failure'') ''xmlns'' (Some XMPP_NS_TLS))"

lemma tls_features_offer: "offers_tls tls_features"
proof -
  have "xmpp_stanza_get_name tls_features = Some ''stream:features''" by code_simp
  moreover have "(case xmpp_stanza_get_child_by_name tls_features ''starttls'' of Some (Some c) \<Rightarrow> xmpp_stanza_get_ns c = Some (Some XMPP_NS_TLS) | _ \<Rightarrow> False)"
    by code_simp
  ultimately show ?thesis by (auto simp: offers_tls_def split: option.splits)
qed

lemma is_some: "\<not> Option.is_none x \<Longrightarrow> x = Some (the x)"
  by (cases x) simp_all

text \<open>C7: Whatever the server does after it has offered STARTTLS: until TLS has started the client sends the request and, if TLS
  fails, the end of the stream; so neither the password nor anything derived from it goes out in the clear.\<close>

theorem tls_before_password:
  assumes "login_opened conn" "te_new env" "pa_depth (cx_parser conn) \<ge> 2"
    and "stanza_delivered (EndElement name) conn = [stanza]" "offers_tls stanza" "parser_event env (EndElement name) conn = Some conn'"
    and "login_run env conn' tr conn''"
  shows "\<exists>k. prefix (plain conn'') (plain conn @ unsent (cx_send_queue conn) @ starttls_text @ closing k)"
proof -
  define conn1 where "conn1 = conn\<lparr>cx_parser := (cx_parser conn)\<lparr>pa_depth := pa_depth (cx_parser conn) - 1\<rparr>\<rparr>"
  have eq: "parser_end_element env conn = Some conn'" using assms(6) by simp
  have s: "pa_stanza (cx_parser conn) = [stanza]" using assms(4) by (auto simp: stanza_delivered_def split: if_splits)
  from parser_end_cases [OF eq conn1_def] s assms(3) obtain conn2 where
    c: "handle_stream_stanza env stanza conn1 = Some conn2" "conn' = conn2\<lparr>cx_parser := (cx_parser conn2)\<lparr>pa_stanza := []\<rparr>\<rparr>" by auto
  have "login_opened conn1" using assms(1) by (simp add: login_opened_def conn1_def)
  then have "tls_first (plain conn1 @ unsent (cx_send_queue conn1) @ starttls_text) conn2"
    by (rule features_tls_first [OF _ assms(5,2)]) (use c(1) assms(3) in \<open>simp_all add: handle_stream_stanza_def conn1_def\<close>)
  then have f: "tls_first (plain conn @ unsent (cx_send_queue conn) @ starttls_text) conn2" by (simp add: conn1_def plain_def)
  have "tls_first (plain conn @ unsent (cx_send_queue conn) @ starttls_text) conn'"
    unfolding c(2) by (rule tls_first_cong [OF f]) (use f in \<open>auto simp: tls_first_wait tls_wait_def\<close>)
  from tls_first_prefix [OF secure.holds_in_run [OF assms(7) this]] show ?thesis by simp
qed

theorem tls_before_password_witness:
  "\<exists>conn'. parser_event example_env (EndElement ''stream:features'') (opened_conn\<lparr>cx_parser := \<lparr>pa_depth = 2, pa_stanza = [tls_features]\<rparr>\<rparr>) = Some conn' \<and>
     (\<exists>k. prefix (plain (conn_write [W_wrote 9] conn')) (starttls_text @ closing k))"
proof -
  let ?c = "opened_conn\<lparr>cx_parser := \<lparr>pa_depth = 2, pa_stanza = [tls_features]\<rparr>\<rparr>"
  let ?r = "parser_event example_env (EndElement ''stream:features'') ?c"
  have a: "\<not> Option.is_none ?r" by code_simp
  have o: "login_opened ?c" using opened_conn_eq by (simp add: login_opened_def)
  have q: "plain ?c = []" "cx_send_queue ?c = []" by code_simp+
  have "login_run example_env (the ?r) [] (conn_write [W_wrote 9] (the ?r))" by (rule login_run.wrote [OF login_run.start])
  from tls_before_password [OF o _ _ _ tls_features_offer is_some [OF a] this] q is_some [OF a]
  show ?thesis by (intro exI [of _ "the ?r"]) (simp add: example_env_def stanza_delivered_def)
qed

text \<open>C34: A server that offers STARTTLS and then refuses it leaves the login hanging: the refusal is dropped, the time-out for the features
  is gone, no other is set, and only stream errors are still handled, which end nothing.\<close>

theorem tls_refused_hangs:
  assumes "login_opened conn" "offers_tls features" "te_new env" "conn_fire_stanza env features conn = Some conn1"
    and "xmpp_stanza_get_ns refusal = Some (Some XMPP_NS_TLS)" "xmpp_stanza_get_name refusal = Some name" "name \<noteq> ''proceed''" "name \<noteq> ''stream:error''"
    and "conn_fire_stanza env refusal conn1 = Some conn2"
  shows "cx_state conn2 = XMPP_STATE_CONNECTED \<and> cx_send_queue conn2 = cx_send_queue conn1 \<and> cx_events conn2 = cx_events conn \<and>
    map hl_handler (cx_handlers conn2) = [Handle_error] \<and> (\<forall>i. cx_id_handlers conn2 i = []) \<and>
    (\<forall>t. conn_fire_timed env (conn2\<lparr>cx_now := t\<rparr>) = Some (conn2\<lparr>cx_now := t\<rparr>))"
proof -
  let ?e = "(handlist_item False Handle_error None)\<lparr>hl_name := Some ''stream:error'', hl_enabled := True\<rparr> :: strophe_item"
  let ?p = "(handlist_item False Handle_proceedtls_default None)\<lparr>hl_ns := Some XMPP_NS_TLS, hl_enabled := True\<rparr> :: strophe_item"
  note o = assms(1) [unfolded login_opened_def]
  obtain w where c1: "conn1 = (queued [starttls_text] (conn\<lparr>cx_timed_handlers := [], cx_sasl_support := w, cx_handlers := [hd first_handlers,
     (handlist_item False Handle_proceedtls_default None)\<lparr>hl_ns := Some XMPP_NS_TLS\<rparr>]\<rparr>))" using features_starttls [OF assms(1-4)] by blast
  have ids: "cx_id_handlers conn1 i = []" for i using o c1 by simp
  have en: "handlers_enable (cx_handlers conn1) = [?e, ?p]" by (simp add: c1 first_handlers_eq handlers_enable_def handlist_item_def)
  obtain i where i: "xmpp_stanza_get_id refusal = Some i" using assms(9) by (auto simp: conn_fire_stanza_def split: Option.bind_splits)
  have eq: "conn_fire_stanza env refusal conn1 = fire_handlers env refusal (handlers_enable (cx_handlers conn1)) (conn1\<lparr>cx_handlers := handlers_enable (cx_handlers conn1)\<rparr>)"
    using ids by (cases i) (simp_all add: conn_fire_stanza_def Let_def i)
  have fire: "fire_handlers env refusal [?e, ?p] (conn1\<lparr>cx_handlers := [?e, ?p]\<rparr>) = Some conn2"
    using assms(9) unfolding eq en .
  have u: "\<not> hl_user_handler ?e" "\<not> hl_user_handler ?p" "hl_handler ?p = Handle_proceedtls_default" by (simp_all add: handlist_item_def)
  have "handler_matches ?e refusal \<noteq> None"
  proof
    assume "handler_matches ?e refusal = None"
    with fire u(1) show False by simp
  qed
  then have d: "xmpp_stanza_get_type refusal \<noteq> None" using assms(5)
    by (auto simp: handler_matches_def handlist_item_def Let_def split: Option.bind_splits)
  then have m: "handler_matches ?e refusal = Some False" "handler_matches ?p refusal = Some True"
    using assms(5,6,8) by (auto simp: handler_matches_def handlist_item_def)
  have call: "stanza_call env Handle_proceedtls_default refusal c = Some (False, c)" for c using assms(6,7) by (simp add: handle_proceedtls_default_def)
  have "Some conn2 = Some (conn1\<lparr>cx_handlers := xmpp_handler_delete [?e, ?p] Handle_proceedtls_default\<rparr>)"
    unfolding fire [symmetric] using m u call by simp
  then have c2: "conn2 = conn1\<lparr>cx_handlers := [?e]\<rparr>" by (simp add: xmpp_handler_delete_def handlist_item_def)
  show ?thesis using o by (simp add: c2 c1 conn_fire_timed_def handlers_enable_def handlist_item_def)
qed

theorem tls_refused_hangs_witness:
  "\<exists>conn1 conn2. conn_fire_stanza example_env tls_features opened_conn = Some conn1 \<and> conn_fire_stanza example_env tls_refusal conn1 = Some conn2 \<and>
     cx_state conn2 = XMPP_STATE_CONNECTED \<and> map hl_handler (cx_handlers conn2) = [Handle_error] \<and>
     (\<forall>t. conn_fire_timed example_env (conn2\<lparr>cx_now := t\<rparr>) = Some (conn2\<lparr>cx_now := t\<rparr>))"
proof -
  let ?r = "conn_fire_stanza example_env tls_features opened_conn"
  have a: "\<not> Option.is_none ?r" "\<not> Option.is_none (conn_fire_stanza example_env tls_refusal (the ?r))" by code_simp+
  have b: "xmpp_stanza_get_ns tls_refusal = Some (Some XMPP_NS_TLS)" "xmpp_stanza_get_name tls_refusal = Some ''failure''" by code_simp+
  show ?thesis
    using tls_refused_hangs [OF opened_conn_eq tls_features_offer _ is_some [OF a(1)] b _ _ is_some [OF a(2)]] is_some [OF a(1)] is_some [OF a(2)]
    by (intro exI [of _ "the ?r"] exI [of _ "the (conn_fire_stanza example_env tls_refusal (the ?r))"]) (simp add: example_env_def)
qed

section \<open>Mechanisms\<close>

lemma set_attr_Some: "tag_wf s \<Longrightarrow> c_ascii k \<Longrightarrow> \<exists>s'. set_attr s k (Some v) = Some s' \<and> tag_wf s'"
  using set_attr_tag put_attr_tag(1) by blast

lemma make_defined: "\<exists>s. make_sasl_auth m = Some s" "\<exists>s. make_starttls = Some s"
  "\<exists>s. set_attr (stanza_named ''response'') ''xmlns'' (Some XMPP_NS_SASL) = Some s"
proof -
  obtain s where s: "set_attr (stanza_named ''auth'') ''xmlns'' (Some XMPP_NS_SASL) = Some s" "tag_wf s"
    using set_attr_Some [of "stanza_named ''auth''" "''xmlns''"] by auto
  then show "\<exists>s. make_sasl_auth m = Some s" using set_attr_Some [of s "''mechanism''" m] by (auto simp: make_sasl_auth_def)
  show "\<exists>s. make_starttls = Some s" using set_attr_Some [of "stanza_named ''starttls''" "''xmlns''"] by (auto simp: make_starttls_def)
  show "\<exists>s. set_attr (stanza_named ''response'') ''xmlns'' (Some XMPP_NS_SASL) = Some s" using set_attr_Some [of "stanza_named ''response''" "''xmlns''"] by auto
qed

lemma iq_set_defined: "\<exists>s. iq_set i c = Some s"
proof -
  obtain s where s: "set_attr (stanza_named ''iq'') ''type'' (Some ''set'') = Some s" "tag_wf s"
    using set_attr_Some [of "stanza_named ''iq''" "''type''"] by auto
  then show ?thesis using set_attr_Some [of s "''id''" i] by (auto simp: iq_set_def)
qed

lemma make_legacy_defined:
  assumes "xmpp_jid_node jid = Some node"
  shows "\<exists>s. make_legacy jid (Some pass) resource = Some s"
proof -
  obtain q where "set_attr (stanza_named ''query'') ''xmlns'' (Some XMPP_NS_AUTH) = Some q"
    using set_attr_Some [of "stanza_named ''query''" "''xmlns''"] by auto
  then show ?thesis using assms iq_set_defined by (simp add: make_legacy_def tag_text_def)
qed

lemma unsent_queued: "cx_state conn = XMPP_STATE_CONNECTED \<Longrightarrow> unsent (cx_send_queue (queued ts conn)) = unsent (cx_send_queue conn) @ concat ts"
proof -
  have "unsent (map (\<lambda>t. \<lparr>sq_data = t, sq_written = 0\<rparr>) ts) = concat ts" by (induction ts) simp_all
  then show "cx_state conn = XMPP_STATE_CONNECTED \<Longrightarrow> ?thesis" by (simp add: queued_def)
qed

text \<open>What the client sends next. STARTTLS comes before any mechanism, DIGEST-MD5 before PLAIN, and the password goes out in an
  old-style request only when neither is left.\<close>

definition auth_stanza :: "tls_env \<Rightarrow> string \<Rightarrow> string \<Rightarrow> string \<Rightarrow> string \<Rightarrow> xmpp_conn \<Rightarrow> xmpp_stanza option" where
  "auth_stanza env jid node pass resource conn =
     (if cx_tls_support conn \<and> te_new env then make_starttls
      else if bit (cx_sasl_support conn) 1 then make_sasl_auth ''DIGEST-MD5''
      else if bit (cx_sasl_support conn) 0 then do {
        s \<leftarrow> make_sasl_auth ''PLAIN'';
        Some (xmpp_stanza_add_child s (Stanza XMPP_STANZA_TEXT (Some (base64_text ([CHR 0x00] @ node @ [CHR 0x00] @ pass))) None [])) }
      else make_legacy jid (Some pass) resource)"

definition auth_left :: "tls_env \<Rightarrow> xmpp_conn \<Rightarrow> 32 word" where
  "auth_left env conn =
     (if cx_tls_support conn \<and> te_new env then cx_sasl_support conn
      else if bit (cx_sasl_support conn) 1 then unset_bit 1 (cx_sasl_support conn)
      else if bit (cx_sasl_support conn) 0 then unset_bit 0 (cx_sasl_support conn) else cx_sasl_support conn)"

lemma sasl_mask_bits:
  "(w AND SASL_MASK_DIGESTMD5 \<noteq> 0) = bit w 1" "(w AND SASL_MASK_PLAIN \<noteq> 0) = bit w 0"
  "w AND NOT SASL_MASK_DIGESTMD5 = unset_bit 1 w" "w AND NOT SASL_MASK_PLAIN = unset_bit 0 w"
proof -
  have m: "SASL_MASK_DIGESTMD5 = 2 ^ 1" "SASL_MASK_PLAIN = 2 ^ 0" by (simp_all add: SASL_MASK_DIGESTMD5_def SASL_MASK_PLAIN_def)
  show "(w AND SASL_MASK_DIGESTMD5 \<noteq> 0) = bit w 1" "(w AND SASL_MASK_PLAIN \<noteq> 0) = bit w 0"
    unfolding m by (simp_all only: and_exp_eq_0_iff_not_bit not_not)
  show "w AND NOT SASL_MASK_DIGESTMD5 = unset_bit 1 w" "w AND NOT SASL_MASK_PLAIN = unset_bit 0 w"
    unfolding m by (rule bit_eqI, simp add: bit_simps, blast?)+
qed

text \<open>C16: What a step of the login puts behind what is queued, for a JID with a node and a resource, and which mechanisms are left for
  another attempt.\<close>

theorem auth_sends:
  assumes "cx_state conn = XMPP_STATE_CONNECTED" "cx_type conn = XMPP_CLIENT" "cx_jid conn = Some jid" "xmpp_jid_node jid = Some node"
    and "xmpp_jid_resource jid = Some resource" "cx_pass conn = Some pass" "length node + length pass < 2 ^ 30"
  shows "\<exists>conn' stanza. auth env conn = Some conn' \<and> auth_stanza env jid node pass resource conn = Some stanza \<and>
    unsent (cx_send_queue conn') = unsent (cx_send_queue conn) @ concat (text_of stanza) \<and>
    cx_sasl_support conn' = auth_left env conn \<and> \<not> cx_tls_support conn'"
proof -
  obtain t d p l where m: "make_starttls = Some t" "make_sasl_auth ''DIGEST-MD5'' = Some d" "make_sasl_auth ''PLAIN'' = Some p" "make_legacy jid (Some pass) resource = Some l"
    using make_defined make_legacy_defined [OF assms(4)] by metis
  have a: "get_authid conn = Some node" "get_authid (conn\<lparr>cx_tls_support := False\<rparr>) = Some node" using assms(2,3,4) by (simp_all add: get_authid_def)
  have str: "sasl_plain node pass = Some (base64_text ([CHR 0x00] @ node @ [CHR 0x00] @ pass))"
    using assms(7) unfolding sasl_plain_def by (intro encode_eq) simp_all
  note defs = auth_def auth_sasl_def m a str assms conn_handler_add_def conn_handler_add_id_def conn_handler_add_timed_def sasl_mask_bits
    auth_stanza_def auth_left_def unsent_queued
  consider "cx_tls_support conn" "te_new env" | "\<not> (cx_tls_support conn \<and> te_new env)" "bit (cx_sasl_support conn) 1"
    | "\<not> (cx_tls_support conn \<and> te_new env)" "\<not> bit (cx_sasl_support conn) 1" "bit (cx_sasl_support conn) 0"
    | "\<not> (cx_tls_support conn \<and> te_new env)" "\<not> bit (cx_sasl_support conn) 1" "\<not> bit (cx_sasl_support conn) 0" by blast
  then show ?thesis
  proof cases
    case 1
    then show ?thesis by (simp add: defs)
  next
    case 2
    then show ?thesis by (cases "cx_tls_support conn") (simp_all add: defs)
  next
    case 3
    then show ?thesis by (cases "cx_tls_support conn") (simp_all add: defs)
  next
    case 4
    then show ?thesis by (cases "cx_tls_support conn") (simp_all add: defs)
  qed
qed

theorem auth_sends_witness:
  "\<exists>conn' stanza. auth example_env (strophe_example\<lparr>cx_sasl_support := 3\<rparr>) = Some conn' \<and> make_sasl_auth ''DIGEST-MD5'' = Some stanza \<and>
     unsent (cx_send_queue conn') = concat (text_of stanza) \<and> cx_sasl_support conn' = 1 \<and> \<not> cx_tls_support conn'"
  using auth_sends [of "strophe_example\<lparr>cx_sasl_support := 3\<rparr>" "''u@h/r''" "''u''" "''r''" "''secret''" example_env]
  by (simp add: strophe_example_defs example_jid auth_stanza_def auth_left_def unset_bit_eq)

lemma tag_with_text:
  assumes "t \<noteq> []"
  shows "xmpp_stanza_get_name (xmpp_stanza_add_child (stanza_named n) (Stanza XMPP_STANZA_TEXT (Some t) None [])) = Some n"
    "xmpp_stanza_get_text (xmpp_stanza_add_child (stanza_named n) (Stanza XMPP_STANZA_TEXT (Some t) None [])) = Some (Some t)"
  using assms by (simp_all add: stanza_named_def xmpp_stanza_set_name_def xmpp_stanza_new_def xmpp_stanza_get_name_def xmpp_stanza_get_text_def)

text \<open>The answer to a DIGEST-MD5 challenge, on the connection.\<close>

theorem challenge_answered:
  assumes "cx_state conn = XMPP_STATE_CONNECTED" "cx_jid conn = Some jid" "cx_pass conn = Some pass" "xmpp_jid_node jid = Some node"
    and "xmpp_stanza_get_name stanza = Some ''challenge''" "xmpp_stanza_get_text stanza = Some (Some challenge)"
    and "base64_decode challenge = Some (Some plaintext)" "fs = challenge_fields (takeWhile (\<lambda>c. c \<noteq> CHR 0x00) plaintext)"
    and "list_all (\<lambda>kv. c_ascii (fst kv)) fs" "length plaintext < 2 ^ 28" "length jid < 2 ^ 28" "length pass < 2 ^ 28"
    and "map_of (rev fs) ''nonce'' = Some nonce"
  shows "\<exists>conn' s. handle_digestmd5_challenge env stanza conn = Some (False, conn') \<and>
    set_attr (stanza_named ''response'') ''xmlns'' (Some XMPP_NS_SASL) = Some s \<and> Handle_digestmd5_rspauth \<in> fns (cx_handlers conn') \<and>
    unsent (cx_send_queue conn') = unsent (cx_send_queue conn) @ concat (text_of (xmpp_stanza_add_child s (Stanza XMPP_STANZA_TEXT (Some (base64_text
      (digest_reply node (digest_realm fs (xmpp_jid_domain jid)) nonce (xmpp_jid_domain jid)
        (digest_response node (digest_realm fs (xmpp_jid_domain jid)) pass nonce (xmpp_jid_domain jid))
        (case map_of (rev fs) ''charset'' of None \<Rightarrow> [] | Some c \<Rightarrow> c)))) None [])))"
proof -
  obtain s where s: "set_attr (stanza_named ''response'') ''xmlns'' (Some XMPP_NS_SASL) = Some s" using make_defined(3) by blast
  have r: "sasl_digest_md5 challenge jid pass = Some (Some (base64_text
      (digest_reply node (digest_realm fs (xmpp_jid_domain jid)) nonce (xmpp_jid_domain jid)
        (digest_response node (digest_realm fs (xmpp_jid_domain jid)) pass nonce (xmpp_jid_domain jid))
        (case map_of (rev fs) ''charset'' of None \<Rightarrow> [] | Some c \<Rightarrow> c))))"
    using digest_md5_fields [OF assms(7,8,9,4,10,11,12)] assms(13) by (simp add: Let_def)
  show ?thesis
    by (simp add: handle_digestmd5_challenge_def assms(1-6) r s conn_handler_add_def unsent_queued)
qed

theorem challenge_answered_witness:
  "\<exists>challenge conn' s. base64_encode (challenge_text [(''realm'', ''mio''), (''nonce'', ''a,b'')]) = Some challenge \<and>
     handle_digestmd5_challenge example_env (xmpp_stanza_add_child (stanza_named ''challenge'') (Stanza XMPP_STANZA_TEXT (Some challenge) None []))
       strophe_example = Some (False, conn') \<and> set_attr (stanza_named ''response'') ''xmlns'' (Some XMPP_NS_SASL) = Some s \<and>
     unsent (cx_send_queue conn') = concat (text_of (xmpp_stanza_add_child s (Stanza XMPP_STANZA_TEXT (Some (base64_text
       (digest_reply ''u'' ''mio'' ''a,b'' ''h'' (digest_response ''u'' ''mio'' ''secret'' ''a,b'' ''h'') []))) None [])))"
proof -
  let ?fs = "[(''realm'', ''mio''), (''nonce'', ''a,b'')]"
  let ?ch = "base64_text (challenge_text ?fs)"
  let ?st = "xmpp_stanza_add_child (stanza_named ''challenge'') (Stanza XMPP_STANZA_TEXT (Some ?ch) None [])"
  have p: "takeWhile (\<lambda>c. c \<noteq> CHR 0x00) (challenge_text ?fs) = challenge_text ?fs" "2 \<le> length (challenge_text ?fs)"
    "length (challenge_text ?fs) < 2 ^ 28" by (simp_all add: make_quoted_def)
  have d: "base64_encode (challenge_text ?fs) = Some ?ch" by (rule encode_eq) (use p in simp_all)
  have e: "base64_decode ?ch = Some (Some (challenge_text ?fs))" by (rule decode_text) (use p in auto)
  have f: "?fs = challenge_fields (takeWhile (\<lambda>c. c \<noteq> CHR 0x00) (challenge_text ?fs))"
    unfolding p(1) by (rule challenge_fields_text [symmetric]) (simp add: field_ok_def c_ascii_def)
  have a: "list_all (\<lambda>kv. c_ascii (fst kv)) ?fs" by (simp add: c_ascii_def)
  have n: "xmpp_stanza_get_name ?st = Some ''challenge''" "xmpp_stanza_get_text ?st = Some (Some ?ch)"
    by (rule tag_with_text, simp add: base64_triple_def)+
  have c: "cx_state strophe_example = XMPP_STATE_CONNECTED" "cx_jid strophe_example = Some ''u@h/r''" "cx_pass strophe_example = Some ''secret''" "cx_send_queue strophe_example = []"
    by (simp_all add: strophe_example_defs)
  from challenge_answered [OF c(1-3) example_jid(1) n e f a p(3), of "''a,b''" example_env] c(4) d
  show ?thesis by (auto simp: example_jid digest_realm_def)
qed

end
