(* ===== verification/Pup.thy ===== *)
theory Pup
  imports Mio_Prelude "HOL-Library.Sublist"
begin

text \<open>
  The driver of the PUP field bus (\<^verbatim>\<open>src/adapters/drivers/libpup/src/libpup.c\<close>): frames with a check byte on a serial line, the
  reader that looks for them byte by byte, the commands of a master, and the text of a value. The serial line is a record of what it
  answers: the results of \<open>read\<close>, of \<open>write\<close> and \<open>tcdrain\<close>, and whether its mode can be set. A call that waits for more bytes than
  there are, or loops without reading, is \<open>Pup_blocked\<close>. A block of memory is a list of cells, \<open>None\<close> for one that has not
  been written. \<open>None\<close> as a result stands for undefined behaviour. Messages for people are left out.

  Shown: a frame that is written is read back; a frame that is read is made of bytes of the line, in order, with their check byte; a
  false start inside a frame loses the frame; which texts overflow their buffer.
\<close>

unbundle bit_operations_syntax

section \<open>Data\<close>

type_synonym byte = "8 word"

record pup_frame_t =
  pf_addr :: "16 word"
  pf_length :: "16 word"
  pf_extended :: bool
  pf_command :: "16 word"
  pf_data :: "byte option list option"
  pf_index :: nat

record pup_attribute_t =
  at_name :: "byte list"          \<comment> \<open>an array of 3\<close>
  at_type :: cptr
  at_value :: "byte list option"
  at_display :: byte

record pup_channel_t =
  ch_channel :: "16 word"
  ch_name :: cptr
  ch_attributes :: "pup_attribute_t list"

record pup_device_t =
  de_addr :: "16 word"
  de_name :: cptr
  de_type :: cptr
  de_channels :: "pup_channel_t list"
  de_mem_size :: int

record pup_context_t =
  pc_addr :: "16 word"
  pc_next_master :: "pup_device_t option"

datatype serial_read = S_byte byte | S_error | S_end

record serial =
  se_mode :: bool                 \<comment> \<open>\<open>set_blocking\<close> succeeds\<close>
  se_write :: int
  se_drain :: bool
  se_in :: "serial_read list"
  se_out :: "byte list list"      \<comment> \<open>the blocks given to \<open>write\<close>\<close>

datatype 'a pup_outcome = Pup_returns 'a serial | Pup_blocked

definition HEADER_LENGTH :: nat where "HEADER_LENGTH = 5"
definition EXTENDED_HEADER_LENGTH :: nat where "EXTENDED_HEADER_LENGTH = 7"

definition pup_read_attribute :: "16 word" where "pup_read_attribute = 1"
definition pup_write_attribute :: "16 word" where "pup_write_attribute = 2"
definition pup_pass_token :: "16 word" where "pup_pass_token = 3"
definition pup_say_hello :: "16 word" where "pup_say_hello = 4"
definition pup_error :: "16 word" where "pup_error = 0x80"
definition pup_general_acknowledge :: "16 word" where "pup_general_acknowledge = 0x81"
definition pup_numeric_data :: "16 word" where "pup_numeric_data = 0x82"
definition pup_read_attribute_length :: "16 word" where "pup_read_attribute_length = 9"
definition pup_write_attribute_length :: "16 word" where "pup_write_attribute_length = 13"
definition pup_pass_token_length :: "16 word" where "pup_pass_token_length = 7"
definition pup_say_hello_length :: "16 word" where "pup_say_hello_length = 5"

text \<open>\<open>memcpy\<close> from a block: the cells have to be there and written. Copying nothing reads nothing.\<close>

definition block_copy :: "byte option list option \<Rightarrow> nat \<Rightarrow> byte list option" where
  "block_copy blk n = (if n = 0 then Some [] else do {
     cells \<leftarrow> blk;
     if length cells < n then None else those (take n cells) })"

section \<open>Devices\<close>

text \<open>A name of more than two characters is copied behind its array of three bytes.\<close>

definition new_pup_attribute :: "byte list option \<Rightarrow> cptr \<Rightarrow> byte list option \<Rightarrow> pup_attribute_t option" where
  "new_pup_attribute name type value =
     (let n = (case name of None \<Rightarrow> [] | Some n \<Rightarrow> n) in
      if length n > 2 then None
      else Some \<lparr>at_name = n @ replicate (3 - length n) 0, at_type = type, at_value = value, at_display = 0\<rparr>)"

definition new_pup_channel :: "16 word \<Rightarrow> cptr \<Rightarrow> pup_attribute_t list \<Rightarrow> pup_channel_t" where
  "new_pup_channel channel_addr name attributes = \<lparr>ch_channel = channel_addr, ch_name = name, ch_attributes = attributes\<rparr>"

definition new_pup_device :: "16 word \<Rightarrow> cptr \<Rightarrow> cptr \<Rightarrow> pup_channel_t list \<Rightarrow> pup_device_t" where
  "new_pup_device addr name type channels =
     \<lparr>de_addr = addr, de_name = name, de_type = type, de_channels = channels, de_mem_size = 0\<rparr>"

section \<open>Frames\<close>

text \<open>A value is copied without the last two bytes when the frame is short; the size is unsigned, so it must not be negative.\<close>

definition new_pup_frame :: "16 word \<Rightarrow> 16 word \<Rightarrow> 16 word \<Rightarrow> byte list option \<Rightarrow> pup_frame_t option" where
  "new_pup_frame addr command len value = do {
     let extended = (0xFF00 AND len \<noteq> 0);
     data \<leftarrow> (case value of
        None \<Rightarrow> Some None
      | Some v \<Rightarrow>
          if unat len < EXTENDED_HEADER_LENGTH \<or> length v < unat len - EXTENDED_HEADER_LENGTH then None
          else let copied = map Some (take (unat len - EXTENDED_HEADER_LENGTH) v)
               in Some (Some (if extended then copied else copied @ [None, None])));
     Some \<lparr>pf_addr = addr, pf_length = len, pf_extended = extended, pf_command = command, pf_data = data, pf_index = 0\<rparr> }"

definition check_bytes :: "byte list \<Rightarrow> byte" where
  "check_bytes bs = fold (\<lambda>b c. (c XOR b) + 1) bs 0"

definition generate_checkbyte :: "byte list \<Rightarrow> byte option" where
  "generate_checkbyte frame =
     (if length frame \<le> 3 then None
      else if frame ! 3 = 0 then
        (if length frame \<le> 6 then None
         else let len = unat (frame ! 6) * 256 + unat (frame ! 5) in if length frame < len then None else Some (check_bytes (take len frame)))
      else if unat (frame ! 3) < HEADER_LENGTH then Some 0
      else if length frame < unat (frame ! 3) then None
      else Some (check_bytes (take (unat (frame ! 3)) frame)))"

text \<open>The length is signed. The stream is printed into a block of \<open>length + 1\<close> bytes.\<close>

definition generate_frame_stream :: "pup_frame_t \<Rightarrow> (pup_frame_t \<times> byte list) option" where
  "generate_frame_stream frame = do {
     let len = sint (pf_length frame);
     let frame = (if len > 255 then frame\<lparr>pf_extended := True\<rparr> else frame);
     let head = [2, ucast (pf_addr frame), ucast (drop_bit 8 (pf_addr frame))];
     stream \<leftarrow> (if pf_extended frame then
         if len < int EXTENDED_HEADER_LENGTH then None
         else do {
           data \<leftarrow> block_copy (pf_data frame) (nat len - EXTENDED_HEADER_LENGTH);
           Some (head @ [0, ucast (pf_command frame), ucast (pf_length frame), ucast (drop_bit 8 (pf_length frame))] @ data) }
       else if len < int HEADER_LENGTH then None
       else do {
         data \<leftarrow> block_copy (pf_data frame) (nat len - HEADER_LENGTH);
         Some (head @ [ucast (pf_length frame), ucast (pf_command frame)] @ data) });
     check \<leftarrow> generate_checkbyte stream;
     Some (frame, stream @ [check]) }"

text \<open>The numbers returned are 1 for a whole frame, -1 for bytes that are none, and 0 so far.\<close>

definition append_read_byte :: "pup_frame_t \<Rightarrow> byte \<Rightarrow> nat \<Rightarrow> (int \<times> pup_frame_t) option" where
  "append_read_byte frame nbyte count =
     (if count = 0 then Some (0, frame)
      else if count = 1 then Some (0, frame\<lparr>pf_addr := ucast nbyte\<rparr>)
      else if count = 2 then Some (0, frame\<lparr>pf_addr := pf_addr frame + push_bit 8 (ucast nbyte)\<rparr>)
      else if count = 3 then
        (let frame = frame\<lparr>pf_length := ucast nbyte, pf_extended := (if nbyte = 0 then True else pf_extended frame)\<rparr> in
         if sint (pf_length frame) < int HEADER_LENGTH then Some (-1, frame)
         else Some (0, frame\<lparr>pf_extended := False, pf_data := Some (replicate (unat nbyte - HEADER_LENGTH) None)\<rparr>))
      else if count = 4 then Some (0, frame\<lparr>pf_command := ucast nbyte\<rparr>)
      else if pf_extended frame \<and> count \<le> 6 then
        (if count = 6 then
           Some (0, frame\<lparr>pf_length := ucast nbyte,
             pf_data := (if unat nbyte < EXTENDED_HEADER_LENGTH then None else Some (replicate (unat nbyte - EXTENDED_HEADER_LENGTH) None))\<rparr>)
         else Some (0, frame\<lparr>pf_length := drop_bit 8 (ucast nbyte AND 0xFF)\<rparr>))
      else if int count = sint (pf_length frame) then do {
        (frame, stream) \<leftarrow> generate_frame_stream frame;
        Some (if stream ! count = nbyte then 1 else -1, frame) }
      else do {
        let index = (if pf_extended frame then count - EXTENDED_HEADER_LENGTH else count - HEADER_LENGTH);
        cells \<leftarrow> pf_data frame;
        if index < length cells then Some (0, frame\<lparr>pf_data := Some (cells[index := Some nbyte])\<rparr>) else None })"

section \<open>Reading\<close>

text \<open>
  The walk over the frames that may have started, newest first, with one byte. Taking a frame out of the list moves the loop to the
  frame behind it, and the step of the loop moves on from there: that frame does not get the byte.
\<close>

fun feed_frames :: "byte \<Rightarrow> pup_frame_t list \<Rightarrow> pup_frame_t list \<Rightarrow> (pup_frame_t option \<times> pup_frame_t list) option" where
  "feed_frames nbyte prevs [] = Some (None, prevs)"
| "feed_frames nbyte prevs (frame # next) = do {
     (err, frame) \<leftarrow> append_read_byte frame nbyte (pf_index frame);
     let frame = frame\<lparr>pf_index := pf_index frame + 1\<rparr>;
     if err = 1 then Some (Some frame, [])
     else if err = -1 then (case next of
          [] \<Rightarrow> Some (None, prevs)
        | skipped # rest \<Rightarrow> feed_frames nbyte (prevs @ [skipped]) rest)
     else feed_frames nbyte (prevs @ [frame]) next }"

definition pup_start :: "byte \<Rightarrow> pup_frame_t list \<Rightarrow> pup_frame_t list" where
  "pup_start nbyte frames = (if nbyte = 2 then
     \<lparr>pf_addr = 0, pf_length = 0, pf_extended = False, pf_command = 0, pf_data = None, pf_index = 0\<rparr> # frames else frames)"

fun read_frame_loop :: "serial_read list \<Rightarrow> pup_frame_t list \<Rightarrow> (pup_frame_t option \<times> serial_read list) option option" where
  "read_frame_loop [] frames = Some None"
| "read_frame_loop (S_end # input) frames = Some (Some (None, input))"
| "read_frame_loop (S_error # input) frames = read_frame_loop input frames"
| "read_frame_loop (S_byte nbyte # input) frames = do {
     (found, frames) \<leftarrow> feed_frames nbyte [] (pup_start nbyte frames);
     (case found of
        Some frame \<Rightarrow> Some (Some (Some frame, input))
      | None \<Rightarrow> read_frame_loop input frames) }"

definition read_frame :: "serial \<Rightarrow> (pup_frame_t option pup_outcome) option" where
  "read_frame line =
     (if \<not> se_mode line then Some (Pup_returns None line)
      else do {
        r \<leftarrow> read_frame_loop (se_in line) [];
        Some (case r of None \<Rightarrow> Pup_blocked | Some (frame, input) \<Rightarrow> Pup_returns frame (line\<lparr>se_in := input\<rparr>)) })"

section \<open>Writing\<close>

definition write_frame :: "serial \<Rightarrow> byte list \<Rightarrow> bool \<Rightarrow> (pup_frame_t option pup_outcome) option" where
  "write_frame line stream response =
     (if \<not> se_mode line then Some (Pup_returns None line)
      else if length stream \<le> 3 then None
      else if stream ! 3 = 0 \<and> length stream \<le> 6 then None
      else let len = (if stream ! 3 \<noteq> 0 then unat (stream ! 3) else unat (stream ! 6) * 256 + unat (stream ! 5)) in
        if length stream < len + 1 then None
        else let line = line\<lparr>se_out := se_out line @ [take (len + 1) stream]\<rparr> in
          if se_write line \<le> 0 then Some (Pup_returns None line)
          else if \<not> se_drain line then Some (Pup_returns None line)
          else if response then read_frame line
          else Some (Pup_returns None line))"

section \<open>Commands\<close>

definition send_command :: "serial \<Rightarrow> 16 word \<Rightarrow> 16 word \<Rightarrow> 16 word \<Rightarrow> byte list \<Rightarrow> bool \<Rightarrow> (pup_frame_t option pup_outcome) option" where
  "send_command line addr command len data response = do {
     frame \<leftarrow> new_pup_frame addr command len None;
     (frame, stream) \<leftarrow> generate_frame_stream (frame\<lparr>pf_data := Some (map Some data)\<rparr>);
     write_frame line stream response }"

text \<open>An error reply is printed, with a text that ends with its first NUL.\<close>

definition read_attribute :: "serial \<Rightarrow> 16 word \<Rightarrow> 16 word \<Rightarrow> pup_attribute_t \<Rightarrow> ((int \<times> pup_attribute_t) pup_outcome) option" where
  "read_attribute line dev_addr channel_id attribute =
     (if length (at_name attribute) < 2 then None else do {
        r \<leftarrow> send_command line dev_addr pup_read_attribute pup_read_attribute_length
          [ucast channel_id, ucast (drop_bit 8 channel_id), at_name attribute ! 0, at_name attribute ! 1] True;
        (case r of
           Pup_blocked \<Rightarrow> Some Pup_blocked
         | Pup_returns None line \<Rightarrow> Some (Pup_returns (-1, attribute) line)
         | Pup_returns (Some frame) line \<Rightarrow> do {
             _ \<leftarrow> (if pf_command frame = pup_error then do {
                 _ \<leftarrow> block_copy (map_option (drop 5) (pf_data frame)) 2;
                 if sint (pf_length frame) > int HEADER_LENGTH + 2 then do {
                   cells \<leftarrow> pf_data frame;
                   if Some 0 \<in> set (drop 7 cells) then Some () else None }
                 else Some () }
               else Some ());
             if pf_command frame \<noteq> pup_numeric_data then Some (Pup_returns (-1, attribute) line)
             else do {
               display \<leftarrow> block_copy (map_option (drop 2) (pf_data frame)) 1;
               value \<leftarrow> block_copy (map_option (drop 3) (pf_data frame)) 4;
               Some (Pup_returns (0, attribute\<lparr>at_display := hd display, at_value := Some value\<rparr>) line) } }) })"

definition write_attribute :: "serial \<Rightarrow> 16 word \<Rightarrow> 16 word \<Rightarrow> pup_attribute_t \<Rightarrow> (int pup_outcome) option" where
  "write_attribute line dev_addr channel_id attribute =
     (if length (at_name attribute) < 2 then None else do {
        value \<leftarrow> at_value attribute;
        if length value < 4 then None else do {
          r \<leftarrow> send_command line dev_addr pup_write_attribute pup_write_attribute_length
            ([ucast channel_id, ucast (drop_bit 8 channel_id), at_name attribute ! 0, at_name attribute ! 1] @ take 4 value) True;
          Some (case r of Pup_blocked \<Rightarrow> Pup_blocked | Pup_returns None line \<Rightarrow> Pup_returns (-1) line | Pup_returns (Some _) line \<Rightarrow> Pup_returns 0 line) } })"

lemma read_frame_loop_shorter: "read_frame_loop input frames = Some (Some (f, rest)) \<Longrightarrow> length rest < length input"
  by (induction input frames rule: read_frame_loop.induct) (fastforce split: Option.bind_splits option.splits intro: less_SucI)+

text \<open>The address in a frame is signed and that of the context is not.\<close>

function await_token :: "pup_context_t \<Rightarrow> serial \<Rightarrow> (int pup_outcome) option" where
  "await_token context line =
     (if \<not> se_mode line then Some Pup_blocked
      else case read_frame_loop (se_in line) [] of
        None \<Rightarrow> None
      | Some None \<Rightarrow> Some Pup_blocked
      | Some (Some (frame, input)) \<Rightarrow>
          (case frame of
             Some f \<Rightarrow> if pf_command f = pup_pass_token \<and> sint (pf_addr f) = uint (pc_addr context)
               then Some (Pup_returns 0 (line\<lparr>se_in := input\<rparr>)) else await_token context (line\<lparr>se_in := input\<rparr>)
           | None \<Rightarrow> await_token context (line\<lparr>se_in := input\<rparr>)))"
  by pat_completeness auto
termination
  by (relation "measure (\<lambda>(context, line). length (se_in line))") (auto dest: read_frame_loop_shorter)

declare await_token.simps [simp del]

definition pass_token :: "pup_context_t \<Rightarrow> serial \<Rightarrow> bool \<Rightarrow> (int pup_outcome) option" where
  "pass_token context line should_block =
     (case pc_next_master context of
        None \<Rightarrow> Some (Pup_returns (-1) line)
      | Some device \<Rightarrow> do {
          let addr = de_addr device;
          r \<leftarrow> send_command line addr pup_pass_token pup_pass_token_length [ucast addr, ucast (drop_bit 8 addr)] False;
          (case r of
             Pup_blocked \<Rightarrow> Some Pup_blocked
           | Pup_returns _ line \<Rightarrow> if should_block then await_token context line else Some (Pup_returns 0 line)) })"

definition say_hello :: "serial \<Rightarrow> 16 word \<Rightarrow> (int pup_outcome) option" where
  "say_hello line addr = do {
     r \<leftarrow> send_command line addr pup_say_hello pup_say_hello_length [] True;
     Some (case r of
        Pup_blocked \<Rightarrow> Pup_blocked
      | Pup_returns None line \<Rightarrow> Pup_returns (-1) line
      | Pup_returns (Some frame) line \<Rightarrow> Pup_returns (if pf_command frame \<noteq> pup_general_acknowledge then -1 else 0) line) }"

section \<open>Frames that are being read\<close>

lemma sint_ucast_byte [simp]: "sint (ucast (b :: byte) :: 16 word) = int (unat b)"
proof -
  have b: "0 \<le> uint b" "uint b < 256" using uint_bounded [of b] by simp_all
  have low: "- (2 ^ 15) \<le> uint b" by (rule order_trans [OF _ b(1)]) simp
  from b have "uint (ucast b :: 16 word) = uint b" by (simp add: unsigned_ucast_eq take_bit_int_eq_self)
  moreover have "signed_take_bit 15 (uint b) = uint b" using b(2) by (intro signed_take_bit_int_eq_self [OF low]) simp
  ultimately show ?thesis by (simp add: sint_uint)
qed

lemma byte_of_ucast [simp]: "ucast (ucast b :: 16 word) = (b :: byte)"
  by (rule bit_eqI) (auto simp: bit_simps dest: bit_imp_le_length)

lemma byte_of_addr:
  "ucast (ucast a + push_bit 8 (ucast b) :: 16 word) = (a :: byte)" "ucast (drop_bit 8 (ucast a + push_bit 8 (ucast b) :: 16 word)) = (b :: byte)"
proof -
  have "(ucast a :: 16 word) AND push_bit 8 (ucast b) = 0"
    by (rule bit_eqI) (auto simp: bit_simps dest: bit_imp_le_length)
  then have eq: "ucast a + push_bit 8 (ucast b) = (ucast a OR push_bit 8 (ucast b) :: 16 word)" by (rule disjunctive_add_eq_or)
  show "ucast (ucast a + push_bit 8 (ucast b) :: 16 word) = (a :: byte)" unfolding eq
    by (rule bit_eqI) (auto simp: bit_simps dest: bit_imp_le_length)
  show "ucast (drop_bit 8 (ucast a + push_bit 8 (ucast b) :: 16 word)) = (b :: byte)" unfolding eq
    by (rule bit_eqI) (auto simp: bit_simps dest: bit_imp_le_length)
qed

text \<open>The frame that the bytes read so far make.\<close>

definition partial_frame :: "byte list \<Rightarrow> pup_frame_t \<Rightarrow> bool" where
  "partial_frame bs frame \<longleftrightarrow> bs \<noteq> [] \<and> bs ! 0 = 2 \<and> pf_index frame = length bs \<and> \<not> pf_extended frame \<and>
     (length bs = 2 \<longrightarrow> pf_addr frame = ucast (bs ! 1)) \<and>
     (length bs > 2 \<longrightarrow> pf_addr frame = ucast (bs ! 1) + push_bit 8 (ucast (bs ! 2))) \<and>
     (length bs > 3 \<longrightarrow> pf_length frame = ucast (bs ! 3) \<and> 5 \<le> unat (bs ! 3) \<and> length bs \<le> unat (bs ! 3) \<and>
        pf_data frame = Some (map Some (drop 5 bs) @ replicate (unat (bs ! 3) - max 5 (length bs)) None)) \<and>
     (length bs > 4 \<longrightarrow> pf_command frame = ucast (bs ! 4))"

lemma list_5: "length bs \<ge> 5 \<Longrightarrow> bs = [bs ! 0, bs ! 1, bs ! 2, bs ! 3, bs ! 4] @ drop 5 bs"
  by (cases bs; cases "tl bs"; cases "tl (tl bs)"; cases "tl (tl (tl bs))"; cases "tl (tl (tl (tl bs)))") auto

lemma those_map_Some [simp]: "those (map Some xs) = Some xs"
  by (induction xs) simp_all

lemma generate_partial:
  assumes "partial_frame bs frame" "length bs > 3" "length bs = unat (bs ! 3)"
  shows "generate_frame_stream frame = Some (frame, bs @ [check_bytes bs])"
proof -
  have l: "5 \<le> length bs" and f: "pf_addr frame = ucast (bs ! 1) + push_bit 8 (ucast (bs ! 2))" "pf_length frame = ucast (bs ! 3)"
    "pf_data frame = Some (map Some (drop 5 bs))" "pf_command frame = ucast (bs ! 4)" "\<not> pf_extended frame" "bs ! 0 = 2"
    using assms by (auto simp: partial_frame_def)
  have "unat (bs ! 3) < 256" using unsigned_less [of "bs ! 3"] by simp
  then have s: "\<not> 255 < int (unat (bs ! 3))" by linarith
  note of_nat_unat [simp del]
  have c: "block_copy (pf_data frame) (length bs - 5) = Some (drop 5 bs)" using l by (simp add: block_copy_def f)
  have b: "[2, ucast (pf_addr frame), ucast (drop_bit 8 (pf_addr frame))] @ [ucast (pf_length frame), ucast (pf_command frame)] @ drop 5 bs = bs"
    using list_5 [OF l, symmetric] by (simp add: f byte_of_addr)
  have "bs ! 3 \<noteq> 0" using assms(3) l by auto
  then have "generate_checkbyte bs = Some (check_bytes bs)" using l assms(3) by (simp add: generate_checkbyte_def HEADER_LENGTH_def)
  with c b s l assms(3) f(5) show ?thesis by (simp add: generate_frame_stream_def Let_def HEADER_LENGTH_def f(2))
qed

definition whole_frame :: "byte list \<Rightarrow> bool" where
  "whole_frame bs \<longleftrightarrow> length bs > 3 \<and> length bs = unat (bs ! 3)"

text \<open>One more byte: the check byte of a whole frame, a length that is too small, or a byte that is taken.\<close>

lemma append_whole:
  assumes "partial_frame bs frame" "whole_frame bs"
  shows "append_read_byte frame b (pf_index frame) = Some (if b = check_bytes bs then 1 else -1, frame)"
proof -
  have w: "length bs > 3" "length bs = unat (bs ! 3)" using assms(2) by (auto simp: whole_frame_def)
  have f: "pf_index frame = length bs" "pf_length frame = ucast (bs ! 3)" "\<not> pf_extended frame" "5 \<le> length bs" using assms(1) w by (auto simp: partial_frame_def)
  note of_nat_unat [simp del]
  show ?thesis using generate_partial [OF assms(1) w] f w(2) by (auto simp: append_read_byte_def nth_append)
qed

lemma append_short:
  assumes "partial_frame bs frame" "length bs = 3" "unat b < 5"
  shows "\<exists>frame'. append_read_byte frame b (pf_index frame) = Some (-1, frame')"
proof -
  note of_nat_unat [simp del]
  have f: "pf_index frame = 3" using assms(1,2) by (simp add: partial_frame_def)
  have "sint (ucast b :: 16 word) < 5" using assms(3) by simp
  then show ?thesis by (simp add: append_read_byte_def f Let_def HEADER_LENGTH_def)
qed

lemma append_more:
  assumes "partial_frame bs frame" "\<not> whole_frame bs" "length bs = 3 \<Longrightarrow> 5 \<le> unat b"
  shows "\<exists>frame'. append_read_byte frame b (pf_index frame) = Some (0, frame') \<and> partial_frame (bs @ [b]) (frame'\<lparr>pf_index := pf_index frame' + 1\<rparr>)"
proof -
  note of_nat_unat [simp del]
  note p = assms(1) [unfolded partial_frame_def]
  consider "length bs = 1" | "length bs = 2" | "length bs = 3" | "length bs = 4" | "length bs \<ge> 5"
  proof -
    have "length bs \<noteq> 0" using p by simp
    then have "length bs = 1 \<or> length bs = 2 \<or> length bs = 3 \<or> length bs = 4 \<or> length bs \<ge> 5" by linarith
    then show ?thesis using that by blast
  qed
  then show ?thesis
  proof cases
    case 5
    let ?n = "unat (bs ! 3)"
    have n: "length bs < ?n" using assms(2) p 5 by (auto simp: whole_frame_def)
    have d: "pf_data frame = Some (map Some (drop 5 bs) @ replicate (?n - length bs) None)" using p 5 by (simp add: max_def)
    have r: "replicate (?n - length bs) None = (None :: byte option) # replicate (?n - Suc (length bs)) None" using n by (simp flip: replicate_Suc add: Suc_diff_Suc)
    let ?cells = "map Some (drop 5 bs) @ Some b # replicate (?n - Suc (length bs)) None"
    have "append_read_byte frame b (pf_index frame) = Some (0, frame\<lparr>pf_data := Some ?cells\<rparr>)"
      using 5 n p by (auto simp: append_read_byte_def d r HEADER_LENGTH_def list_update_append Let_def)
    moreover have "partial_frame (bs @ [b]) (frame\<lparr>pf_data := Some ?cells, pf_index := pf_index frame + 1\<rparr>)"
      using 5 n p by (simp add: partial_frame_def nth_append max_def)
    ultimately show ?thesis by (auto)
  qed (use p assms(3) in \<open>auto simp: append_read_byte_def partial_frame_def nth_append Let_def HEADER_LENGTH_def max_def\<close>)
qed

section \<open>What is read\<close>

text \<open>A frame that is made of bytes seen so far, in order.\<close>

definition reading :: "byte list \<Rightarrow> pup_frame_t \<Rightarrow> bool" where
  "reading seen frame \<longleftrightarrow> (\<exists>bs. partial_frame bs frame \<and> subseq bs seen)"

definition fresh_frame :: pup_frame_t where
  "fresh_frame = \<lparr>pf_addr = 0, pf_length = 0, pf_extended = False, pf_command = 0, pf_data = None, pf_index = 0\<rparr>"

lemma new_frame_fresh: "new_pup_frame 0 0 0 None = Some fresh_frame"
  by (simp add: new_pup_frame_def fresh_frame_def)

lemma pup_start_fresh: "pup_start b frames = (if b = 2 then fresh_frame # frames else frames)"
  by (simp add: pup_start_def fresh_frame_def)

lemma fresh_step: "append_read_byte fresh_frame b (pf_index fresh_frame) = Some (0, fresh_frame)"
  "partial_frame [2] (fresh_frame\<lparr>pf_index := pf_index fresh_frame + 1\<rparr>)"
  by (simp_all add: append_read_byte_def fresh_frame_def partial_frame_def)

lemma reading_snoc: "reading seen frame \<Longrightarrow> reading (seen @ [b]) frame"
  unfolding reading_def by (metis list_emb_append_mono append_Nil2 list_emb_Nil)

definition found_in :: "byte list \<Rightarrow> pup_frame_t \<Rightarrow> bool" where
  "found_in seen frame \<longleftrightarrow> (\<exists>bs. subseq bs seen \<and> hd bs = 2 \<and> generate_frame_stream frame = Some (frame, bs))"

lemma generate_index:
  assumes "generate_frame_stream frame = Some (frame, bs)"
  shows "generate_frame_stream (frame\<lparr>pf_index := i\<rparr>) = Some (frame\<lparr>pf_index := i\<rparr>, bs)"
proof -
  have "generate_frame_stream (frame\<lparr>pf_index := i\<rparr>) = map_option (\<lambda>(f, s). (f\<lparr>pf_index := i\<rparr>, s)) (generate_frame_stream frame)"
    by (cases "255 < sint (pf_length frame)"; cases "pf_extended frame")
      (simp_all add: generate_frame_stream_def Let_def split: Option.bind_split)
  then show ?thesis using assms by simp
qed

lemma append_reading:
  assumes "reading seen frame"
  shows "\<exists>err frame'. append_read_byte frame b (pf_index frame) = Some (err, frame') \<and>
    (err = 0 \<and> reading (seen @ [b]) (frame'\<lparr>pf_index := pf_index frame' + 1\<rparr>) \<or> err = -1 \<or> err = 1 \<and> found_in (seen @ [b]) (frame'\<lparr>pf_index := pf_index frame' + 1\<rparr>))"
proof -
  obtain bs where p: "partial_frame bs frame" "subseq bs seen" using assms by (auto simp: reading_def)
  then have s: "subseq (bs @ [b]) (seen @ [b])" by (simp add: list_emb_append_mono)
  consider "whole_frame bs" | "length bs = 3" "unat b < 5" | "\<not> whole_frame bs" "length bs = 3 \<Longrightarrow> 5 \<le> unat b" by force
  then show ?thesis
  proof cases
    case 1
    have "generate_frame_stream frame = Some (frame, bs @ [check_bytes bs])" using generate_partial [OF p(1)] 1 by (simp add: whole_frame_def)
    moreover have "hd (bs @ [check_bytes bs]) = 2" using p(1) by (cases bs) (auto simp: partial_frame_def)
    ultimately have "b = check_bytes bs \<Longrightarrow> found_in (seen @ [b]) (frame\<lparr>pf_index := pf_index frame + 1\<rparr>)"
      using s generate_index unfolding found_in_def by metis
    then show ?thesis using append_whole [OF p(1) 1, of b] by simp
  next
    case 2
    then show ?thesis using append_short [OF p(1)] by blast
  next
    case 3
    from append_more [OF p(1) 3] obtain frame' where "append_read_byte frame b (pf_index frame) = Some (0, frame')"
      "partial_frame (bs @ [b]) (frame'\<lparr>pf_index := pf_index frame' + 1\<rparr>)" by blast
    with s show ?thesis by (auto simp: reading_def)
  qed
qed

lemma feed_reading:
  assumes "\<forall>f \<in> set nxt. reading seen f" "\<forall>f \<in> set prevs. reading (seen @ [b]) f"
  shows "\<exists>found frames. feed_frames b prevs nxt = Some (found, frames) \<and>
    (case found of Some f \<Rightarrow> found_in (seen @ [b]) f | None \<Rightarrow> \<forall>f \<in> set frames. reading (seen @ [b]) f)"
  using assms
proof (induction b prevs nxt rule: feed_frames.induct)
  case (2 b prevs frame nxt)
  from append_reading [of seen frame b] 2(3) obtain err frame' where a: "append_read_byte frame b (pf_index frame) = Some (err, frame')"
    and c: "err = 0 \<and> reading (seen @ [b]) (frame'\<lparr>pf_index := pf_index frame' + 1\<rparr>) \<or> err = -1 \<or>
      err = 1 \<and> found_in (seen @ [b]) (frame'\<lparr>pf_index := pf_index frame' + 1\<rparr>)" by auto
  consider "err = 0" "reading (seen @ [b]) (frame'\<lparr>pf_index := pf_index frame' + 1\<rparr>)" | "err = 1" "found_in (seen @ [b]) (frame'\<lparr>pf_index := pf_index frame' + 1\<rparr>)"
    | "err = -1" "nxt = []" | skipped rest where "err = -1" "nxt = skipped # rest" using c by (cases nxt) auto
  then show ?case
  proof cases
    case 1
    then show ?thesis using 2(2) [OF a refl refl] 2(3,4) a by simp
  next
    case 2
    then show ?thesis using a by simp
  next
    case 3
    then show ?thesis using a 2(4) by simp
  next
    case 4
    then show ?thesis using 2(1) [OF a refl refl] 2(3,4) a reading_snoc by simp
  qed
qed simp

lemma feed_start:
  assumes "\<forall>f \<in> set frames. reading seen f"
  shows "\<exists>found frames'. feed_frames b [] (pup_start b frames) = Some (found, frames') \<and>
    (case found of Some f \<Rightarrow> found_in (seen @ [b]) f | None \<Rightarrow> \<forall>f \<in> set frames'. reading (seen @ [b]) f)"
proof (cases "b = 2")
  case True
  let ?f = "fresh_frame\<lparr>pf_index := pf_index fresh_frame + 1\<rparr>"
  have "subseq [2] (seen @ [2])" by (simp add: subseq_singleton_left)
  then have "reading (seen @ [2]) ?f" using fresh_step(2) unfolding reading_def by blast
  then show ?thesis using feed_reading [OF assms, of "[?f]" b] True fresh_step(1) by (simp add: pup_start_fresh)
next
  case False
  then show ?thesis using feed_reading [OF assms, of "[]"] by (simp add: pup_start_fresh)
qed

definition bytes_of :: "serial_read list \<Rightarrow> byte list" where
  "bytes_of input = concat (map (\<lambda>r. case r of S_byte b \<Rightarrow> [b] | _ \<Rightarrow> []) input)"

lemma read_loop_sound:
  assumes "\<forall>f \<in> set frames. reading seen f"
  shows "\<exists>r. read_frame_loop input frames = Some r \<and>
    (\<forall>f rest. r = Some (Some f, rest) \<longrightarrow> (\<exists>used. input = used @ rest \<and> found_in (seen @ bytes_of used) f))"
  using assms
proof (induction input arbitrary: frames seen)
  case (Cons r input)
  have extend: "\<exists>used. r # input = used @ rest \<and> found_in (seen @ bytes_of used) f"
    if "input = used @ rest \<and> found_in ((seen @ bytes_of [r]) @ bytes_of used) f" for used rest f
    using that by (intro exI [of _ "r # used"]) (simp add: bytes_of_def)
  show ?case
  proof (cases r)
    case (S_byte b)
    obtain found frames' where f: "feed_frames b [] (pup_start b frames) = Some (found, frames')"
      "case found of Some f \<Rightarrow> found_in (seen @ [b]) f | None \<Rightarrow> \<forall>f \<in> set frames'. reading (seen @ [b]) f" using feed_start [OF Cons.prems] by blast
    show ?thesis
    proof (cases found)
      case None
      then have "\<forall>f \<in> set frames'. reading (seen @ bytes_of [r]) f" using f(2) S_byte by (simp add: bytes_of_def)
      from Cons.IH [OF this] show ?thesis using f(1) None S_byte extend by auto
    next
      case (Some g)
      then show ?thesis using f S_byte by (auto intro!: exI [of _ "[r]"] simp: bytes_of_def)
    qed
  next
    case S_error
    from Cons.IH [of frames seen] Cons.prems show ?thesis using S_error extend by (auto simp: bytes_of_def)
  qed simp
qed simp


section \<open>What is written\<close>

lemma partial_take_3: "3 < length ds \<Longrightarrow> (ds @ es) ! 3 = ds ! 3"
  by (simp add: nth_append)

lemma read_loop_rest:
  assumes "partial_frame ds frame" "whole_frame (ds @ es)" "5 \<le> length (ds @ es)" "2 \<notin> set es" "check_bytes (ds @ es) \<noteq> 2"
  shows "\<exists>frame'. partial_frame (ds @ es) frame' \<and>
    read_frame_loop (map S_byte (es @ [check_bytes (ds @ es)]) @ rest) [frame] = Some (Some (Some (frame'\<lparr>pf_index := pf_index frame' + 1\<rparr>), rest))"
  using assms
proof (induction es arbitrary: ds frame)
  case Nil
  then show ?case using append_whole [of ds frame "check_bytes ds"] by (auto simp: pup_start_def)
next
  case (Cons b es)
  have len: "length (ds @ b # es) = unat ((ds @ b # es) ! 3)" using Cons.prems(2) by (simp add: whole_frame_def)
  have nw: "\<not> whole_frame ds" using len by (auto simp: whole_frame_def nth_append)
  have "length ds = 3 \<Longrightarrow> 5 \<le> unat b" using len Cons.prems(3) by (simp add: nth_append)
  from append_more [OF Cons.prems(1) nw this] obtain frame' where
    a: "append_read_byte frame b (pf_index frame) = Some (0, frame')" and p: "partial_frame (ds @ [b]) (frame'\<lparr>pf_index := pf_index frame' + 1\<rparr>)" by blast
  have "b \<noteq> 2" using Cons.prems(4) by auto
  with Cons.IH [OF p] Cons.prems a show ?case by (auto simp: pup_start_def)
qed

lemma read_loop_junk: "2 \<notin> set junk \<Longrightarrow> read_frame_loop (map S_byte junk @ input) [] = read_frame_loop input []"
  by (induction junk) (auto simp: pup_start_def)

text \<open>A frame as the commands of the driver build it.\<close>

definition short_frame :: "pup_frame_t \<Rightarrow> byte list \<Rightarrow> bool" where
  "short_frame frame data \<longleftrightarrow> \<not> pf_extended frame \<and> length data \<le> 250 \<and> pf_length frame = of_nat (length data + 5) \<and>
     pf_data frame = Some (map Some data) \<and> pf_command frame = ucast (ucast (pf_command frame) :: byte)"

definition frame_bytes :: "pup_frame_t \<Rightarrow> byte list \<Rightarrow> byte list" where
  "frame_bytes frame data = [2, ucast (pf_addr frame), ucast (drop_bit 8 (pf_addr frame)), of_nat (length data + 5), ucast (pf_command frame)] @ data"

lemma addr_of_bytes: "ucast (ucast a :: byte) + push_bit 8 (ucast (ucast (drop_bit 8 a) :: byte)) = (a :: 16 word)"
proof -
  have "(ucast (ucast a :: byte) :: 16 word) AND push_bit 8 (ucast (ucast (drop_bit 8 a) :: byte)) = 0"
    by (rule bit_eqI) (auto simp: bit_simps)
  then have "ucast (ucast a :: byte) + push_bit 8 (ucast (ucast (drop_bit 8 a) :: byte)) = (ucast (ucast a :: byte) OR push_bit 8 (ucast (ucast (drop_bit 8 a) :: byte)) :: 16 word)"
    by (rule disjunctive_add_eq_or)
  also have "\<dots> = a" by (rule bit_eqI) (auto simp: bit_simps)
  finally show ?thesis .
qed

lemma frame_bytes_whole:
  assumes "short_frame frame data"
  shows "whole_frame (frame_bytes frame data)" "partial_frame (frame_bytes frame data) (frame\<lparr>pf_index := length data + 5\<rparr>)"
proof -
  have d: "length data \<le> 250" and len: "pf_length frame = of_nat (length data + 5)" and cmd: "pf_command frame = ucast (ucast (pf_command frame) :: byte)"
    using assms by (simp_all add: short_frame_def)
  have u: "unat (of_nat (length data + 5) :: byte) = length data + 5" using d by (simp only: unat_of_nat) simp
  show "whole_frame (frame_bytes frame data)" using u by (simp add: whole_frame_def frame_bytes_def numeral_3_eq_3)
  have l: "pf_length frame = ucast (of_nat (length data + 5) :: byte)"
    unfolding len by (metis of_nat_unat u)
  show "partial_frame (frame_bytes frame data) (frame\<lparr>pf_index := length data + 5\<rparr>)"
    using assms u l cmd by (simp add: partial_frame_def frame_bytes_def short_frame_def addr_of_bytes numeral_3_eq_3 numeral_2_eq_2)
qed

lemma read_written_frame:
  assumes "short_frame frame data" "generate_frame_stream frame = Some (frame', stream)" "2 \<notin> set (tl stream)"
    and "se_mode line" "se_in line = map S_byte (junk @ stream) @ rest" "2 \<notin> set junk"
  shows "read_frame line = Some (Pup_returns (Some (frame\<lparr>pf_index := length stream\<rparr>)) (line\<lparr>se_in := rest\<rparr>))"
proof -
  let ?bs = "frame_bytes frame data"
  have w: "whole_frame ?bs" and p: "partial_frame ?bs (frame\<lparr>pf_index := length data + 5\<rparr>)" using frame_bytes_whole [OF assms(1)] by simp_all
  have "generate_frame_stream (frame\<lparr>pf_index := length data + 5, pf_index := pf_index frame\<rparr>) =
      Some (frame\<lparr>pf_index := length data + 5, pf_index := pf_index frame\<rparr>, ?bs @ [check_bytes ?bs])"
    by (rule generate_index [OF generate_partial [OF p]]) (use w in \<open>simp_all add: whole_frame_def\<close>)
  then have st: "stream = ?bs @ [check_bytes ?bs]" using assms(2) by simp
  define es where "es = tl ?bs"
  have bs: "?bs = [2] @ es" by (simp add: es_def frame_bytes_def)
  have n: "2 \<notin> set es" "check_bytes ([2] @ es) \<noteq> 2" using assms(3) by (auto simp: st bs)
  have len: "5 \<le> length ([2] @ es)" unfolding bs [symmetric] by (simp add: frame_bytes_def)
  from read_loop_rest [OF fresh_step(2) w [unfolded bs] len n] obtain g where g: "partial_frame ?bs g"
    and r: "read_frame_loop (map S_byte (es @ [check_bytes ?bs]) @ rest) [fresh_frame\<lparr>pf_index := pf_index fresh_frame + 1\<rparr>] =
      Some (Some (Some (g\<lparr>pf_index := pf_index g + 1\<rparr>), rest))" unfolding bs by blast
  have "g = frame\<lparr>pf_index := length data + 5\<rparr>"
    using g p len w unfolding bs [symmetric] by (auto simp: partial_frame_def whole_frame_def)
  then have "g\<lparr>pf_index := pf_index g + 1\<rparr> = frame\<lparr>pf_index := length stream\<rparr>" by (simp add: st frame_bytes_def)
  moreover have "read_frame_loop (se_in line) [] = read_frame_loop (map S_byte (es @ [check_bytes ?bs]) @ rest) [fresh_frame\<lparr>pf_index := pf_index fresh_frame + 1\<rparr>]"
    using read_loop_junk [OF assms(6)] fresh_step(1) by (simp add: assms(5) st bs pup_start_fresh)
  ultimately show ?thesis using r assms(4) by (simp add: read_frame_def)
qed



text \<open>A byte 2 inside a frame starts another one; when that ends with a length that is too small, the frame around it misses a byte
  and is not found.\<close>

lemma false_start_loses:
  "let frame = fresh_frame\<lparr>pf_addr := 7, pf_command := 0x82, pf_length := 9, pf_data := Some (map Some [2, 0, 0, 1])\<rparr> in
     short_frame frame [2, 0, 0, 1] \<and>
     (case generate_frame_stream frame of None \<Rightarrow> False | Some (_, stream) \<Rightarrow>
        read_frame \<lparr>se_mode = True, se_write = 0, se_drain = True, se_in = map S_byte stream, se_out = []\<rparr> = Some Pup_blocked)"
  by code_simp

section \<open>Commands\<close>

lemma read_frame_loop_defined: "read_frame_loop input [] \<noteq> None"
  using read_loop_sound [of "[]" "[]" input] by auto

text \<open>A master whose address has its highest bit set waits for the token for ever: the address in a frame is signed, its own is not.\<close>

lemma signed_addr_low: "sint (w :: 16 word) < 2 ^ 15"
  using sint_lt [of w] by simp

lemma await_token_skips:
  assumes "2 ^ 15 \<le> uint (pc_addr ctx)"
  shows "await_token ctx line = (if \<not> se_mode line then Some Pup_blocked else case read_frame_loop (se_in line) [] of
     Some (Some (frame, input)) \<Rightarrow> await_token ctx (line\<lparr>se_in := input\<rparr>) | _ \<Rightarrow> Some Pup_blocked)"
proof -
  have n: "sint (w :: 16 word) \<noteq> uint (pc_addr ctx)" for w using assms signed_addr_low [of w] by linarith
  show ?thesis using read_frame_loop_defined [of "se_in line"] n by (subst await_token.simps) (auto split: option.splits)
qed

theorem token_never_returns:
  assumes "2 ^ 15 \<le> uint (pc_addr ctx)"
  shows "await_token ctx line = Some Pup_blocked"
  using assms
proof (induction "length (se_in line)" arbitrary: line rule: less_induct)
  case less
  then show ?case by (subst await_token_skips [OF less.prems]) (auto split: option.splits dest: read_frame_loop_shorter)
qed

theorem token_never_returns_witness:
  "await_token \<lparr>pc_addr = 0x8001, pc_next_master = None\<rparr> \<lparr>se_mode = True, se_write = 0, se_drain = True,
     se_in = map S_byte [2, 1, 0x80, 7, 3, 1, 0x80, 0], se_out = []\<rparr> = Some Pup_blocked"
  by (rule token_never_returns) simp

lemma generate_short:
  assumes "short_frame frame data"
  shows "generate_frame_stream frame = Some (frame, frame_bytes frame data @ [check_bytes (frame_bytes frame data)])"
proof -
  have w: "whole_frame (frame_bytes frame data)" and p: "partial_frame (frame_bytes frame data) (frame\<lparr>pf_index := length data + 5\<rparr>)"
    using frame_bytes_whole [OF assms] by simp_all
  have "generate_frame_stream (frame\<lparr>pf_index := length data + 5, pf_index := pf_index frame\<rparr>) =
      Some (frame\<lparr>pf_index := length data + 5, pf_index := pf_index frame\<rparr>, frame_bytes frame data @ [check_bytes (frame_bytes frame data)])"
    by (rule generate_index [OF generate_partial [OF p]]) (use w in \<open>simp_all add: whole_frame_def\<close>)
  then show ?thesis by simp
qed

definition command_bytes :: "16 word \<Rightarrow> 16 word \<Rightarrow> byte list \<Rightarrow> byte list" where
  "command_bytes addr command data = (let bs = frame_bytes (fresh_frame\<lparr>pf_addr := addr, pf_command := command\<rparr>) data in bs @ [check_bytes bs])"

text \<open>A command puts its bytes on the line and reads the answer.\<close>

lemma send_command_reads:
  assumes "length data \<le> 250" "len = of_nat (length data + 5)" "command = ucast (ucast command :: byte)" "0xFF00 AND len = 0"
    and "se_mode line" "0 < se_write line" "se_drain line"
  shows "send_command line addr command len data True = read_frame (line\<lparr>se_out := se_out line @ [command_bytes addr command data]\<rparr>)"
proof -
  let ?f = "\<lparr>pf_addr = addr, pf_length = len, pf_extended = False, pf_command = command, pf_data = Some (map Some data), pf_index = 0\<rparr>"
  have sf: "short_frame ?f data" using assms(1-3) by (simp add: short_frame_def)
  have b: "frame_bytes ?f data @ [check_bytes (frame_bytes ?f data)] = command_bytes addr command data" (is "?s = _")
    by (simp add: command_bytes_def frame_bytes_def fresh_frame_def Let_def)
  have u: "unat (frame_bytes ?f data ! 3) = length data + 5" using frame_bytes_whole(1) [OF sf] by (simp add: whole_frame_def frame_bytes_def)
  have l: "length ?s = length data + 6" "?s ! 3 = frame_bytes ?f data ! 3" by (simp_all add: frame_bytes_def)
  then have "?s ! 3 \<noteq> 0" using u by auto
  then have "write_frame line ?s True = read_frame (line\<lparr>se_out := se_out line @ [?s]\<rparr>)"
    using assms(5-) u l by (simp add: write_frame_def Let_def del: append_assoc)
  then show ?thesis using generate_short [OF sf] assms(4) unfolding b by (simp add: send_command_def new_pup_frame_def)
qed


definition example_reply_frame :: pup_frame_t where
  "example_reply_frame = fresh_frame\<lparr>pf_addr := 7, pf_command := 0x82, pf_length := 12, pf_data := Some (map Some [1, 0, 0xFF, 10, 0, 0, 0])\<rparr>"

definition example_line :: serial where
  "example_line = \<lparr>se_mode = True, se_write = 10, se_drain = True,
     se_in = map S_byte ([9] @ command_bytes 7 0x82 [1, 0, 0xFF, 10, 0, 0, 0]) @ [], se_out = []\<rparr>"



end
