(* ===== verification/Pup_Text.thy ===== *)
theory Pup_Text
  imports Mio_Prelude
begin

text \<open>
  The text of a value of the PUP bus, by its type (\<open>data_string\<close> of \<^verbatim>\<open>src/adapters/drivers/libpup/src/libpup.c\<close>). The buffer
  has 15 bytes; \<open>None\<close> is a text that does not fit. Shown: exactly which values overflow, and that the fractions lose their leading zeros.
\<close>

unbundle bit_operations_syntax

datatype c_text = Text string | Null_text | Uninitialised

text \<open>\<open>sprintf\<close> with \<open>%d\<close>, and into a buffer of a given size with the final NUL.\<close>

definition c_print_d :: "int \<Rightarrow> string" where
  "c_print_d n = (if n < 0 then CHR ''-'' # c_dec (nat (- n)) else c_dec (nat n))"

definition c_sprintf :: "nat \<Rightarrow> string \<Rightarrow> c_text option" where
  "c_sprintf sz s = (if length s < sz then Some (Text s) else None)"

text \<open>The types with decimals: whether they are signed, and how many.\<close>

definition pup_decimals :: "(8 word \<times> bool \<times> nat) list" where
  "pup_decimals = [(0xFD, True, 1), (0xFC, False, 1), (0xFB, True, 2), (0xFA, False, 2), (0xF9, True, 3), (0xF8, False, 3), (0xF7, True, 4), (0xF6, False, 4),
     (0xF5, True, 5), (0xF4, False, 5), (0xF3, True, 6), (0xF2, False, 6), (0xF1, True, 7), (0xF0, False, 7), (0xEF, True, 8), (0xEE, False, 8),
     (0xED, True, 9), (0xEC, False, 9)]"

text \<open>\<open>(float)\<close> of an unsigned number: 24 bits, rounded to the nearest, a tie to the even one.\<close>

definition c_float_of_u :: "nat \<Rightarrow> nat" where
  "c_float_of_u n =
     (let k = length (takeWhile (\<lambda>i. 2 ^ (24 + i) \<le> n) [0..<9]); q = n div 2 ^ k; r = n mod 2 ^ k in
      if k = 0 then n
      else if r > 2 ^ (k - 1) \<or> r = 2 ^ (k - 1) \<and> odd q then (q + 1) * 2 ^ k else q * 2 ^ k)"

definition pup_byte :: "nat \<Rightarrow> 32 word \<Rightarrow> string" where
  "pup_byte n data = c_print_d (uint (0xFF AND drop_bit n data))"

definition pup_nibble :: "nat \<Rightarrow> 32 word \<Rightarrow> string" where
  "pup_nibble n data = c_print_d (uint (0xF AND drop_bit n data))"

definition data_string :: "8 word \<Rightarrow> 32 word \<Rightarrow> c_text option" where
  "data_string type data =
     (let nl = [CHR 0x0A]; put = c_sprintf 15 in
      if type = 0xFF then put (c_print_d (sint data))
      else if type = 0xFE then put (c_print_d (sint data))
      else case map_of pup_decimals type of
        Some (neg, k) \<Rightarrow>
          put ((if neg then c_print_d (sint data sdiv 10 ^ k) @ ''.'' @ c_print_d (sint data smod 10 ^ k)
                else c_print_d (sint (data div 10 ^ k)) @ ''.'' @ c_print_d (sint (data mod 10 ^ k))) @ (if type = 0xFD then [] else nl))
      | None \<Rightarrow>
          if type = 0xEB then put (''.'' @ c_print_d (sint data) @ nl)
          else if type = 0xEA then put (''.'' @ c_print_d (sint data) @ nl)
          else if type \<in> {0xE9, 0xE8, 0xE7} then put (pup_byte 0 data @ '':'' @ pup_byte 8 data @ '':'' @ pup_byte 16 data @ nl)
          else if type = 0xE6 then put (pup_byte 0 data @ '':'' @ pup_byte 8 data @ nl)
          else if type = 0xE5 then put (pup_nibble 0 data @ '' '' @ pup_nibble 4 data @ '' '' @ pup_nibble 8 data @ '' '' @ pup_nibble 8 data @ '' '' @
            pup_nibble 16 data @ '' '' @ pup_nibble 20 data @ '' '' @ pup_nibble 24 data @ '' '' @ pup_nibble 28 data @ nl)
          else if type = 0xE4 \<or> type = 0xE3 then Some Uninitialised
          else if type = 0xE0 then put (c_dec (c_float_of_u (unat data)) @ ''.000000'' @ nl)
          else Some Null_text)"

section \<open>Lengths\<close>

lemma length_print_d: "\<bar>n\<bar> < 10 ^ k \<Longrightarrow> 0 < k \<Longrightarrow> length (c_print_d n) \<le> k + (if n < 0 then 1 else 0)"
proof -
  assume n: "\<bar>n\<bar> < 10 ^ k" and "0 < k"
  then obtain j where k: "k = Suc j" by (cases k) auto
  have "nat \<bar>n\<bar> < 10 ^ Suc j" using n k by (simp add: nat_less_iff)
  from length_c_dec [OF this] k show ?thesis by (auto simp: c_print_d_def)
qed

lemma length_print_pos: "length (c_print_d n) \<ge> 1"
  by (auto simp: c_print_d_def Suc_le_eq)

lemma abs_sint32: "\<bar>sint (w :: 32 word)\<bar> < 10 ^ 10"
proof -
  have "- (2 ^ 31) \<le> sint w" "sint w < 2 ^ 31" using sint_ge [of w] sint_lt [of w] by simp_all
  then show ?thesis by simp
qed

lemma decimals_length:
  assumes "\<bar>n :: int\<bar> < 10 ^ 10" "1 \<le> k" "k \<le> 9"
  shows "length (c_print_d (n sdiv 10 ^ k)) + length (c_print_d (n smod 10 ^ k)) \<le> 12"
proof -
  have e: "\<bar>n sdiv 10 ^ k\<bar> = \<bar>n\<bar> div 10 ^ k" "\<bar>n smod 10 ^ k\<bar> = \<bar>n\<bar> mod 10 ^ k"
    by (auto simp: signed_divide_int_def signed_modulo_int_def abs_mult sgn_if pos_imp_zdiv_nonneg_iff intro!: abs_of_nonneg)
  have "\<bar>n\<bar> < 10 ^ (10 - k) * 10 ^ k" using assms by (simp flip: power_add)
  have "\<bar>n\<bar> div 10 ^ k < 10 ^ (10 - k)"
  proof (rule ccontr)
    assume "\<not> \<bar>n\<bar> div 10 ^ k < 10 ^ (10 - k)"
    then have "10 ^ (10 - k) * 10 ^ k \<le> \<bar>n\<bar> div 10 ^ k * 10 ^ k" by (intro mult_right_mono) simp_all
    also have "\<dots> \<le> \<bar>n\<bar>" unfolding minus_mod_eq_div_mult [symmetric] by simp
    finally show False using \<open>\<bar>n\<bar> < 10 ^ (10 - k) * 10 ^ k\<close> by simp
  qed
  then have "\<bar>n sdiv 10 ^ k\<bar> < 10 ^ (10 - k)" "\<bar>n smod 10 ^ k\<bar> < 10 ^ k" unfolding e by simp_all
  then have "length (c_print_d (n sdiv 10 ^ k)) \<le> (10 - k) + 1" "length (c_print_d (n smod 10 ^ k)) \<le> k + 1"
    using length_print_d [of "n sdiv 10 ^ k" "10 - k"] length_print_d [of "n smod 10 ^ k" k] assms(2,3) by (auto split: if_splits)
  then show ?thesis using assms(3) by linarith
qed

lemma sint_small: "uint (w :: 32 word) < 2 ^ 31 \<Longrightarrow> sint w = uint w"
proof -
  assume "uint w < 2 ^ 31"
  moreover have "- (2 ^ 31) \<le> uint w" by (rule order_trans [OF _ uint_nonnegative]) simp
  ultimately show ?thesis by (simp add: sint_uint signed_take_bit_int_eq_self)
qed

lemma unsigned_decimals:
  assumes "1 \<le> k" "k \<le> 9"
  shows "sint ((data :: 32 word) div 10 ^ k) = uint data sdiv 10 ^ k" "sint (data mod 10 ^ k) = uint data smod 10 ^ k"
proof -
  have "k \<in> {1, 2, 3, 4, 5, 6, 7, 8, 9}" using assms by auto
  then have p: "uint (10 ^ k :: 32 word) = 10 ^ k" by auto
  have d: "0 \<le> uint data" "uint data < 2 ^ 32" using uint_bounded [of data] by simp_all
  have s: "uint data sdiv 10 ^ k = uint data div 10 ^ k" "uint data smod 10 ^ k = uint data mod 10 ^ k"
    using d(1) by (auto simp: signed_divide_int_def signed_modulo_int_def sgn_if le_less)
  have "(10 :: int) \<le> 10 ^ k" using assms(1) self_le_power [of "10 :: int" k] by simp
  have "uint data div 10 ^ k \<le> uint data div 10" using \<open>10 \<le> 10 ^ k\<close> d(1) by (intro zdiv_mono2) simp_all
  also have "\<dots> < 2 ^ 31" using d(2) by simp
  finally show "sint (data div 10 ^ k) = uint data sdiv 10 ^ k" unfolding s by (subst sint_small) (simp_all add: uint_div p)
  have "(10 :: int) ^ k \<le> 10 ^ 9" using assms(2) by (intro power_increasing) simp_all
  then have "uint data mod 10 ^ k < 2 ^ 31" by (rule less_le_trans [OF pos_mod_bound, rotated, THEN less_le_trans]) simp_all
  then show "sint (data mod 10 ^ k) = uint data smod 10 ^ k" unfolding s by (subst sint_small) (simp_all add: uint_mod p)
qed

lemma byte_length: "length (pup_byte n data) \<le> 3" "length (pup_nibble n data) \<ge> 1"
proof -
  have "0xFF AND drop_bit n data \<le> 0xFF" by (rule word_and_le2)
  then have "uint (0xFF AND drop_bit n data) \<le> 0xFF" by (simp add: word_le_def)
  then have "\<bar>uint (0xFF AND drop_bit n data)\<bar> < 10 ^ 3" by simp
  from length_print_d [OF this] show "length (pup_byte n data) \<le> 3" by (simp add: pup_byte_def not_less)
  show "length (pup_nibble n data) \<ge> 1" unfolding pup_nibble_def by (rule length_print_pos)
qed

lemma dec_length_bound: "n < 10 ^ length (c_dec n)"
proof (induction n rule: c_dec.induct)
  case (1 n)
  show ?case
  proof (cases "n < 10")
    case True
    then show ?thesis by (simp add: c_dec.simps [of n])
  next
    case False
    then have "n div 10 < 10 ^ length (c_dec (n div 10))" by (rule 1)
    then have "n < 10 ^ length (c_dec (n div 10)) * 10" by (simp add: div_less_iff_less_mult)
    then show ?thesis using False by (simp add: c_dec.simps [of n])
  qed
qed

lemma float_length: "length (c_dec (c_float_of_u n)) \<le> 6 \<longleftrightarrow> n < 10 ^ 6"
proof -
  define k where "k = length (takeWhile (\<lambda>i. 2 ^ (24 + i) \<le> n) [0..<9])"
  have "length (c_dec m) \<le> 6 \<longleftrightarrow> m < 10 ^ 6" for m
    using length_c_dec [of m 5] dec_length_bound [of m] power_increasing [of "length (c_dec m)" 6 "10 :: nat"] by auto
  moreover have "c_float_of_u n < 10 ^ 6 \<longleftrightarrow> n < 10 ^ 6"
  proof (cases "n < 2 ^ 24")
    case True
    then have "k = 0" by (simp add: k_def upt_rec)
    then show ?thesis by (simp add: c_float_of_u_def Let_def flip: k_def)
  next
    case False
    have "k \<le> 9" unfolding k_def using length_takeWhile_le [of _ "[0..<9]"] by simp
    then have p: "(2 :: nat) ^ k \<le> 2 ^ 9" by (intro power_increasing) simp_all
    have "n mod 2 ^ k < 2 ^ k" by simp
    also note p
    finally have "n mod 2 ^ k < 512" by simp
    then have "n - 512 \<le> n div 2 ^ k * 2 ^ k" using div_mult_mod_eq [of n "2 ^ k"] by linarith
    moreover have "n div 2 ^ k * 2 ^ k \<le> c_float_of_u n" by (auto simp: c_float_of_u_def Let_def simp flip: k_def)
    ultimately show ?thesis using False by simp
  qed
  ultimately show ?thesis by simp
qed

text \<open>C36: Exactly the packed digits, whatever they are, and numbers of seven digits that are printed as floating point overflow the buffer.\<close>

theorem data_string_overflow: "data_string type data = None \<longleftrightarrow> type = 0xE5 \<or> type = 0xE0 \<and> 10 ^ 6 \<le> unat data"
proof (cases "map_of pup_decimals type")
  case (Some sk)
  obtain neg k where sk: "sk = (neg, k)" by (cases sk)
  have "(type, neg, k) \<in> set pup_decimals" using Some sk by (simp add: map_of_SomeD)
  then have k: "1 \<le> k" "k \<le> 9" and t: "type \<noteq> 0xE5" "type \<noteq> 0xE0" "type \<noteq> 0xFF" "type \<noteq> 0xFE" by (auto simp: pup_decimals_def)
  have "\<bar>uint data\<bar> < 10 ^ 10" using uint_bounded [of data] by simp
  then have "length (c_print_d (sint (data div 10 ^ k))) + length (c_print_d (sint (data mod 10 ^ k))) \<le> 12"
    unfolding unsigned_decimals [OF k] by (rule decimals_length [OF _ k])
  moreover have "length (c_print_d (sint data sdiv 10 ^ k)) + length (c_print_d (sint data smod 10 ^ k)) \<le> 12"
    by (rule decimals_length [OF abs_sint32 k])
  ultimately show ?thesis using t by (auto simp: data_string_def Let_def Some sk c_sprintf_def)
next
  case None
  have d: "length (c_print_d (sint data)) \<le> 11" using length_print_d [OF abs_sint32 [of data]] by (auto split: if_splits)
  have b: "length (pup_byte 0 data) \<le> 3" "length (pup_byte 8 data) \<le> 3" "length (pup_byte 16 data) \<le> 3" by (rule byte_length)+
  have n: "1 \<le> length (pup_nibble 0 data)" "1 \<le> length (pup_nibble 4 data)" "1 \<le> length (pup_nibble 8 data)" "1 \<le> length (pup_nibble 16 data)"
    "1 \<le> length (pup_nibble 20 data)" "1 \<le> length (pup_nibble 24 data)" "1 \<le> length (pup_nibble 28 data)" by (rule byte_length)+
  show ?thesis using d b n float_length [of "unat data"] by (simp add: data_string_def Let_def None c_sprintf_def) linarith
qed

text \<open>A fraction is printed without its leading zeros: 12.05 and 12.5 have one text.\<close>

lemma data_string_loses_zeros: "data_string 0xFB 1205 = Some (Text (''12.5'' @ [CHR 0x0A]))" "data_string 0xFA 1205 = Some (Text (''12.5'' @ [CHR 0x0A]))"
  by code_simp+

text \<open>A large unsigned number is printed as a negative one.\<close>

lemma data_string_unsigned: "data_string 0xFE 0xFFFFFFFF = Some (Text ''-1'')"
  by code_simp

end
